(* ===== verification/SeqGate.thy ===== *)
theory SeqGate
  imports Prelude
begin

text \<open>
  The contract of a sequence gate.  Three parts of the program number the reports of a source and
  drop a report whose number is not larger than the last accepted one of its source
  (\<open>accept_hook_report\<close> in \<open>terminal/state.rs\<close>, \<open>accept_metadata_report\<close> in
  \<open>terminal/metadata.rs\<close>, \<open>accept_sequence\<close> in \<open>metadata_tokens.rs\<close>).  The locale states what
  they share, and its lemmas say what a client of such a gate can rely on over a whole stream of
  reports.
\<close>

text \<open>A stream of numbered reports through a gate: the final state and the reports it let pass.\<close>

fun gate_run :: "('s \<Rightarrow> 'k \<Rightarrow> u64 \<Rightarrow> 's \<times> bool) \<Rightarrow> 's \<Rightarrow> ('k \<times> u64) list \<Rightarrow> 's \<times> ('k \<times> u64) list" where
  "gate_run gate s [] = (s, [])"
| "gate_run gate s ((k, q) # rs) =
     (case gate s k q of (s', ok) \<Rightarrow>
       (case gate_run gate s' rs of (s'', out) \<Rightarrow> (s'', if ok then (k, q) # out else out)))"

definition numbers_of :: "'k \<Rightarrow> ('k \<times> u64) list \<Rightarrow> u64 list" where
  "numbers_of k rs = map snd (filter (\<lambda>r. fst r = k) rs)"

lemma numbers_of_simps [simp]:
  "numbers_of k [] = []"
  "numbers_of k ((k', q) # rs) = (if k' = k then q # numbers_of k rs else numbers_of k rs)"
  by (simp_all add: numbers_of_def)

locale sequence_gate =
  fixes last_seq :: "'s \<Rightarrow> 'k \<Rightarrow> u64 option"
    and gate :: "'s \<Rightarrow> 'k \<Rightarrow> u64 \<Rightarrow> 's \<times> bool"
  assumes gate_stale: "last_seq s k = Some n \<Longrightarrow> q \<le> n \<Longrightarrow> gate s k q = (s, False)"
    and gate_accepts: "gate s k q = (s', True) \<Longrightarrow> last_seq s' = (last_seq s)(k := Some q)"
    and gate_rejects: "gate s k q = (s', False) \<Longrightarrow> s' = s"
begin

lemma accepted_is_newer:
  assumes "gate s k q = (s', True)"
  shows "is_none_or (last_seq s k) (\<lambda>n. n < q)"
proof (cases "last_seq s k")
  case (Some n)
  with assms gate_stale [of s k n q] have "\<not> q \<le> n" by auto
  with Some show ?thesis by simp
qed simp

lemma replay_rejected:
  assumes "gate s k q = (s', True)"
  shows "gate s' k q = (s', False)"
  using gate_stale [of s' k q q] gate_accepts [OF assms] by simp

lemma run_last_monotone:
  assumes "gate_run gate s rs = (s', out)" and "last_seq s k = Some n"
  shows "\<exists>n'. last_seq s' k = Some n' \<and> n \<le> n'"
  using assms
proof (induction rs arbitrary: s n out)
  case (Cons r rs)
  obtain k0 q where r: "r = (k0, q)" by (cases r)
  obtain s1 ok where g: "gate s k0 q = (s1, ok)" by fastforce
  obtain out1 where run1: "gate_run gate s1 rs = (s', out1)"
    using Cons.prems(1) g r by (auto split: prod.splits)
  have "\<exists>m. last_seq s1 k = Some m \<and> n \<le> m"
  proof (cases ok)
    case True
    with g have g1: "gate s k0 q = (s1, True)" by simp
    show ?thesis
    proof (cases "k0 = k")
      case True
      with accepted_is_newer [OF g1] gate_accepts [OF g1] Cons.prems(2) show ?thesis
        by (auto intro: less_imp_le)
    next
      case False
      with gate_accepts [OF g1] Cons.prems(2) show ?thesis by auto
    qed
  next
    case False
    with g gate_rejects [of s k0 q s1] Cons.prems(2) show ?thesis by auto
  qed
  then obtain m where "last_seq s1 k = Some m" "n \<le> m" by blast
  with Cons.IH [OF run1, of m] show ?case by (auto intro: order_trans)
qed simp

lemma run_numbers_above:
  assumes "gate_run gate s rs = (s', out)" and "last_seq s k = Some n"
  shows "\<forall>q \<in> set (numbers_of k out). n < q"
  using assms
proof (induction rs arbitrary: s n out)
  case (Cons r rs)
  obtain k0 q where r: "r = (k0, q)" by (cases r)
  obtain s1 ok where g: "gate s k0 q = (s1, ok)" by fastforce
  obtain out1 where run1: "gate_run gate s1 rs = (s', out1)"
    and out: "out = (if ok then (k0, q) # out1 else out1)"
    using Cons.prems(1) g r by (auto split: prod.splits)
  show ?case
  proof (cases ok)
    case True
    with g have g1: "gate s k0 q = (s1, True)" by simp
    show ?thesis
    proof (cases "k0 = k")
      case True
      then have "last_seq s1 k = Some q" and nq: "n < q"
        using gate_accepts [OF g1] accepted_is_newer [OF g1] Cons.prems(2) by auto
      with Cons.IH [OF run1, of q] have "\<forall>x \<in> set (numbers_of k out1). q < x" by blast
      with nq out \<open>ok\<close> True show ?thesis by (auto dest: less_trans)
    next
      case False
      with gate_accepts [OF g1] Cons.prems(2) Cons.IH [OF run1, of n] out \<open>ok\<close> show ?thesis
        by auto
    qed
  next
    case False
    with g gate_rejects [of s k0 q s1] Cons.prems(2) Cons.IH [OF run1, of n] out show ?thesis
      by auto
  qed
qed simp

text \<open>Over any stream, the accepted numbers of a source are strictly increasing.\<close>

lemma run_strictly_increasing:
  assumes "gate_run gate s rs = (s', out)"
  shows "sorted_wrt (<) (numbers_of k out)"
  using assms
proof (induction rs arbitrary: s out)
  case (Cons r rs)
  obtain k0 q where r: "r = (k0, q)" by (cases r)
  obtain s1 ok where g: "gate s k0 q = (s1, ok)" by fastforce
  obtain out1 where run1: "gate_run gate s1 rs = (s', out1)"
    and out: "out = (if ok then (k0, q) # out1 else out1)"
    using Cons.prems g r by (auto split: prod.splits)
  have IH: "sorted_wrt (<) (numbers_of k out1)" by (rule Cons.IH [OF run1])
  show ?case
  proof (cases "ok \<and> k0 = k")
    case True
    with g gate_accepts [of s k0 q s1] have "last_seq s1 k = Some q" by simp
    from run_numbers_above [OF run1 this] True IH out show ?thesis by simp
  next
    case False
    with IH out show ?thesis by auto
  qed
qed simp

end

end
