(* ===== verification/F32.thy ===== *)
theory F32
  imports Prelude "HOL-Library.Log_Nat"
begin

text \<open>
  IEEE 754 binary32 numbers, as far as the tiling layout computes with \<open>f32\<close> split ratios.  A
  finite number is an integer multiple of the smallest subnormal \<open>2 ^ -149\<close>, so \<open>Fin m\<close> stands
  for the value \<open>m * 2 ^ -149\<close>; sums and products are computed exactly and rounded once, to 24
  significant bits, ties to even.  The two zeros are one value: no code modelled here tells them
  apart.
\<close>

datatype f32 = NaN | Inf bool \<comment> \<open>the sign: \<open>True\<close> is negative\<close> | Fin int

text \<open>Nearest integer to \<open>n / d\<close> for \<open>d > 0\<close>, ties to even.\<close>

definition rne_div :: "int \<Rightarrow> int \<Rightarrow> int" where
  "rne_div n d =
     (let q = n div d; r = n mod d
      in if 2 * r < d \<or> (2 * r = d \<and> even q) then q else q + 1)"

text \<open>\<open>f32_round s n\<close> is the binary32 number nearest to \<open>n * 2 ^ -(149 + s)\<close>.\<close>

definition f32_round :: "nat \<Rightarrow> int \<Rightarrow> f32" where
  "f32_round s n =
     (let a = \<bar>n\<bar>;
          e = max s (nat (bitlen a) - 24);
          m = rne_div a (2 ^ e) * 2 ^ (e - s)
      in if 2 ^ 277 \<le> m then Inf (n < 0) else Fin (sgn n * m))"

fun f32_add :: "f32 \<Rightarrow> f32 \<Rightarrow> f32" where
  "f32_add NaN _ = NaN"
| "f32_add _ NaN = NaN"
| "f32_add (Inf a) (Inf b) = (if a = b then Inf a else NaN)"
| "f32_add (Inf a) (Fin _) = Inf a"
| "f32_add (Fin _) (Inf b) = Inf b"
| "f32_add (Fin a) (Fin b) = f32_round 0 (a + b)"

fun f32_neg :: "f32 \<Rightarrow> f32" where
  "f32_neg NaN = NaN"
| "f32_neg (Inf a) = Inf (\<not> a)"
| "f32_neg (Fin a) = Fin (- a)"

fun f32_mul :: "f32 \<Rightarrow> f32 \<Rightarrow> f32" where
  "f32_mul NaN _ = NaN"
| "f32_mul _ NaN = NaN"
| "f32_mul (Inf a) (Inf b) = Inf (a \<noteq> b)"
| "f32_mul (Inf a) (Fin b) = (if b = 0 then NaN else Inf (a \<noteq> (b < 0)))"
| "f32_mul (Fin a) (Inf b) = (if a = 0 then NaN else Inf ((a < 0) \<noteq> b))"
| "f32_mul (Fin a) (Fin b) = f32_round 149 (a * b)"

text \<open>\<open>PartialOrd\<close> and \<open>PartialEq\<close>: every comparison with NaN is false.\<close>

fun f32_less :: "f32 \<Rightarrow> f32 \<Rightarrow> bool" where
  "f32_less NaN _ = False"
| "f32_less _ NaN = False"
| "f32_less (Inf a) (Inf b) = (a \<and> \<not> b)"
| "f32_less (Inf a) (Fin _) = a"
| "f32_less (Fin _) (Inf b) = (\<not> b)"
| "f32_less (Fin a) (Fin b) = (a < b)"

definition f32_eq :: "f32 \<Rightarrow> f32 \<Rightarrow> bool" where
  "f32_eq a b = (a \<noteq> NaN \<and> a = b)"

definition f32_is_finite :: "f32 \<Rightarrow> bool" where
  "f32_is_finite x = (case x of Fin _ \<Rightarrow> True | _ \<Rightarrow> False)"

definition f32_clamp :: "f32 \<Rightarrow> f32 \<Rightarrow> f32 \<Rightarrow> f32" where
  "f32_clamp x lo hi = (if f32_less x lo then lo else if f32_less hi x then hi else x)"

text \<open>\<open>f32::round\<close>: to the nearest integer, halves away from zero; and the saturating cast.\<close>

fun f32_round_integral :: "f32 \<Rightarrow> f32" where
  "f32_round_integral (Fin m) = Fin (sgn m * ((2 * \<bar>m\<bar> + 2 ^ 149) div 2 ^ 150) * 2 ^ 149)"
| "f32_round_integral x = x"

fun f32_as_u16 :: "f32 \<Rightarrow> u16" where
  "f32_as_u16 NaN = 0"
| "f32_as_u16 (Inf neg) = (if neg then 0 else 65535)"
| "f32_as_u16 (Fin m) =
     (if m < 0 then 0 else if 65535 < m div 2 ^ 149 then 65535 else word_of_int (m div 2 ^ 149))"

definition f32_of_u16 :: "u16 \<Rightarrow> f32" where
  "f32_of_u16 w = Fin (uint w * 2 ^ 149)"

text \<open>The literals \<open>0.1\<close>, \<open>0.5\<close> and \<open>0.9\<close>: \<open>0x3DCCCCCD\<close>, \<open>0x3F000000\<close> and \<open>0x3F666666\<close>.\<close>

definition f32_0_1 :: f32 where "f32_0_1 = Fin (13421773 * 2 ^ 122)"
definition f32_0_5 :: f32 where "f32_0_5 = Fin (2 ^ 148)"
definition f32_0_9 :: f32 where "f32_0_9 = Fin (15099494 * 2 ^ 125)"

text \<open>A ratio between 0 and 1.\<close>

definition f32_unit :: "f32 \<Rightarrow> bool" where
  "f32_unit x = (case x of Fin m \<Rightarrow> 0 \<le> m \<and> m \<le> 2 ^ 149 | _ \<Rightarrow> False)"

section \<open>Rounding never crosses a representable bound\<close>

lemma int_div_less:
  fixes n k d :: int
  assumes "n < k * d" and "0 < d"
  shows "n div d < k"
proof -
  have "(n div d) * d \<le> n"
    using pos_mod_sign [OF assms(2), of n] div_mult_mod_eq [of n d] by linarith
  with assms(1) have "(n div d) * d < k * d" by linarith
  with assms(2) show ?thesis by simp
qed

lemma rne_div_zero: "0 < d \<Longrightarrow> rne_div 0 d = 0"
  by (simp add: rne_div_def)

lemma rne_div_nonneg: "0 \<le> n \<Longrightarrow> 0 < d \<Longrightarrow> 0 \<le> rne_div n d"
  by (simp add: rne_div_def Let_def pos_imp_zdiv_nonneg_iff)

lemma rne_div_le:
  assumes "n \<le> k * d" and "0 < d"
  shows "rne_div n d \<le> k"
proof (cases "n = k * d")
  case True
  with assms(2) show ?thesis by (simp add: rne_div_def Let_def)
next
  case False
  with assms have "n < k * d" by simp
  with assms(2) have "n div d < k"
    by (intro int_div_less)
  then show ?thesis by (simp add: rne_div_def Let_def)
qed

text \<open>The product of a \<open>u16\<close> with a ratio between 0 and 1 is not above the \<open>u16\<close>.\<close>

lemma f32_round_product_le:
  assumes w: "0 \<le> w" "w < 2 ^ 16" and r: "0 \<le> r" "r \<le> 2 ^ 149"
  shows "\<exists>m. f32_mul (Fin (w * 2 ^ 149)) (Fin r) = Fin m \<and> 0 \<le> m \<and> m \<le> w * 2 ^ 149"
proof -
  define n :: int where "n = w * 2 ^ 149 * r"
  have n0: "0 \<le> n" using w r by (simp add: n_def)
  have nw: "n \<le> w * 2 ^ 298"
  proof -
    have "w * 2 ^ 149 * r \<le> w * 2 ^ 149 * 2 ^ 149"
      using w r by (intro mult_left_mono) auto
    then show ?thesis by (simp add: n_def)
  qed
  also have "\<dots> < 2 ^ 16 * 2 ^ 298" using w by (intro mult_strict_right_mono) auto
  finally have n_lt: "n < 2 ^ 314" by simp
  have bl: "bitlen n \<le> 314"
    using n_lt bitlen_le_iff_power [of n 314] n0 by simp
  define e where "e = max 149 (nat (bitlen n) - 24)"
  have e: "149 \<le> e" "e \<le> 290" using bl by (auto simp: e_def)
  have split: "w * 2 ^ 298 = (w * 2 ^ (298 - e)) * 2 ^ e"
    using e by (simp flip: power_add)
  have q: "rne_div n (2 ^ e) \<le> w * 2 ^ (298 - e)"
    using nw unfolding split by (intro rne_div_le) auto
  define m where "m = rne_div n (2 ^ e) * 2 ^ (e - 149)"
  have m0: "0 \<le> m" using n0 by (simp add: m_def rne_div_nonneg)
  have "m \<le> w * 2 ^ (298 - e) * 2 ^ (e - 149)"
    unfolding m_def using q by (intro mult_right_mono) auto
  also have "\<dots> = w * 2 ^ 149"
    using e by (simp add: mult.assoc flip: power_add)
  finally have m_le: "m \<le> w * 2 ^ 149" .
  have "w * 2 ^ 149 < 2 ^ 16 * (2 ^ 149 :: int)" using w by (intro mult_strict_right_mono) auto
  with m_le have m_lt: "m < 2 ^ 277" by simp
  have "f32_mul (Fin (w * 2 ^ 149)) (Fin r) = f32_round 149 n"
    by (simp only: f32_mul.simps n_def)
  also have "\<dots> = (if 2 ^ 277 \<le> m then Inf (n < 0) else Fin (sgn n * m))"
    unfolding f32_round_def Let_def m_def e_def using n0 by (simp only: abs_of_nonneg)
  also have "\<dots> = Fin (sgn n * m)"
    using m_lt by (simp only: not_le [symmetric] if_False)
  also have "sgn n * m = m"
    using n0 by (cases "n = 0") (simp_all add: m_def rne_div_zero)
  finally have "f32_mul (Fin (w * 2 ^ 149)) (Fin r) = Fin m" .
  with m0 m_le show ?thesis by blast
qed

text \<open>\<open>((w as f32) * ratio).round() as u16\<close> is not above \<open>w\<close>.\<close>

lemma f32_scaled_le:
  assumes "f32_unit r"
  shows "f32_as_u16 (f32_round_integral (f32_mul (f32_of_u16 w) r)) \<le> w"
proof -
  obtain k where k: "r = Fin k" "0 \<le> k" "k \<le> 2 ^ 149"
    using assms by (auto simp: f32_unit_def split: f32.splits)
  have w: "0 \<le> uint w" "uint w < 2 ^ 16"
    using uint_lt2p [of w] by auto
  obtain m where m: "f32_mul (f32_of_u16 w) r = Fin m" "0 \<le> m" "m \<le> uint w * 2 ^ 149"
    using f32_round_product_le [OF w k(2,3)] k(1) by (auto simp: f32_of_u16_def)
  define i where "i = (2 * m + 2 ^ 149) div (2 ^ 150 :: int)"
  have "2 * m + 2 ^ 149 < (uint w + 1) * 2 ^ 150"
  proof -
    have "2 * m + 2 ^ 149 \<le> uint w * 2 ^ 150 + 2 ^ 149" using m(3) by simp
    also have "\<dots> < uint w * 2 ^ 150 + 2 ^ 150" by simp
    finally show ?thesis by (simp add: distrib_right)
  qed
  then have "i < uint w + 1" unfolding i_def by (intro int_div_less) simp_all
  then have i: "i \<le> uint w" by simp
  have i0: "0 \<le> i" using m(2) by (simp add: i_def pos_imp_zdiv_nonneg_iff)
  have round: "f32_round_integral (Fin m) = Fin (i * 2 ^ 149)"
    using m(2) by (cases "m = 0") (simp_all add: i_def)
  have "f32_as_u16 (Fin (i * 2 ^ 149)) = word_of_int i"
    using i i0 w by auto
  moreover have "uint (word_of_int i :: u16) = i"
    using i i0 w by (simp add: uint_word_of_int_eq take_bit_int_eq_self)
  ultimately show ?thesis using i m(1) round by (simp add: word_le_def)
qed

section \<open>Clamped ratios\<close>

definition f32_valid_ratio :: "f32 \<Rightarrow> bool" where
  "f32_valid_ratio r =
     (case r of Fin m \<Rightarrow> 13421773 * 2 ^ 122 \<le> m \<and> m \<le> 15099494 * 2 ^ 125 | _ \<Rightarrow> False)"

lemma f32_valid_ratio_unit: "f32_valid_ratio r \<Longrightarrow> f32_unit r"
  by (auto simp: f32_valid_ratio_def f32_unit_def split: f32.splits)

lemma f32_clamp_valid: "x \<noteq> NaN \<Longrightarrow> f32_valid_ratio (f32_clamp x f32_0_1 f32_0_9)"
  by (cases x) (auto simp: f32_clamp_def f32_0_1_def f32_0_9_def f32_valid_ratio_def)

lemma f32_half_valid: "f32_valid_ratio f32_0_5"
  by (simp add: f32_0_5_def f32_valid_ratio_def)

lemma f32_clamp_NaN [simp]: "f32_clamp NaN lo hi = NaN"
  by (cases hi) (simp_all add: f32_clamp_def)

lemma f32_add_not_NaN:
  "f32_is_finite a \<Longrightarrow> f32_is_finite b \<Longrightarrow> f32_add a b \<noteq> NaN"
  by (cases a; cases b) (auto simp: f32_is_finite_def f32_round_def Let_def)

lemma f32_is_finite_neg [simp]: "f32_is_finite (f32_neg a) = f32_is_finite a"
  by (cases a) (auto simp: f32_is_finite_def)

lemma f32_valid_ratio_finite: "f32_valid_ratio r \<Longrightarrow> f32_is_finite r"
  by (auto simp: f32_valid_ratio_def f32_is_finite_def split: f32.splits)

end
