(* ===== verification/Layout.thy ===== *)
theory Layout
  imports F32
begin

text \<open>
  The tiling layout of a workspace (\<open>src/layout.rs\<close>): a binary space partition tree of panes, the
  focused pane, the operations on the tree, the rectangles the tree assigns to the panes, and the
  directional navigation and resizing computed from the rectangles.  \<open>u16\<close> additions wrap, as
  in a release build.
\<close>

section \<open>Data\<close>

type_synonym pane_id = u32

text \<open>The global counter \<open>NEXT_PANE_ID\<close> is passed explicitly.\<close>

definition alloc :: "u32 \<Rightarrow> pane_id \<times> u32" where
  "alloc next_pane_id = (next_pane_id, next_pane_id + 1)"

datatype direction = Horizontal | Vertical

datatype nav_direction = NavLeft | NavRight | NavUp | NavDown

record rect =
  rx :: u16
  ry :: u16
  rwidth :: u16
  rheight :: u16

text \<open>\<open>ratatui::widgets::Borders\<close> is a bit set; the layout itself only uses \<open>NONE\<close>.\<close>

type_synonym borders = u8

record pane_info =
  pi_id :: pane_id
  pi_rect :: rect
  pi_inner_rect :: rect
  pi_scrollbar_rect :: "rect option"
  pi_borders :: borders
  pi_is_focused :: bool

record split_border =
  sb_pos :: u16
  sb_direction :: direction
  sb_ratio :: f32
  sb_area :: rect
  sb_path :: "bool list"

datatype node = Pane pane_id | Split direction f32 node node

record tile_layout =
  tl_root :: node
  tl_focus :: pane_id

section \<open>Tree operations\<close>

fun count_panes :: "node \<Rightarrow> nat" where
  "count_panes (Pane _) = 1"
| "count_panes (Split _ _ first second) = count_panes first + count_panes second"

definition split_rect :: "rect \<Rightarrow> direction \<Rightarrow> f32 \<Rightarrow> rect \<times> rect" where
  "split_rect area direction ratio =
     (case direction of
        Horizontal \<Rightarrow>
          (let first_w = f32_as_u16 (f32_round_integral (f32_mul (f32_of_u16 (rwidth area)) ratio));
               second_w = saturating_sub (rwidth area) first_w
           in (\<lparr>rx = rx area, ry = ry area, rwidth = first_w, rheight = rheight area\<rparr>,
               \<lparr>rx = rx area + first_w, ry = ry area, rwidth = second_w, rheight = rheight area\<rparr>))
      | Vertical \<Rightarrow>
          (let first_h = f32_as_u16 (f32_round_integral (f32_mul (f32_of_u16 (rheight area)) ratio));
               second_h = saturating_sub (rheight area) first_h
           in (\<lparr>rx = rx area, ry = ry area, rwidth = rwidth area, rheight = first_h\<rparr>,
               \<lparr>rx = rx area, ry = ry area + first_h, rwidth = rwidth area, rheight = second_h\<rparr>)))"

fun collect_panes :: "node \<Rightarrow> rect \<Rightarrow> pane_id \<Rightarrow> pane_info list" where
  "collect_panes (Pane i) area foc =
     [\<lparr>pi_id = i, pi_rect = area, pi_inner_rect = area, pi_scrollbar_rect = None,
       pi_borders = 0, pi_is_focused = (i = foc)\<rparr>]"
| "collect_panes (Split direction ratio first second) area foc =
     (let (a, b) = split_rect area direction ratio
      in collect_panes first a foc @ collect_panes second b foc)"

fun collect_splits :: "node \<Rightarrow> rect \<Rightarrow> bool list \<Rightarrow> split_border list" where
  "collect_splits (Pane _) area path = []"
| "collect_splits (Split direction ratio first second) area path =
     (let (a, b) = split_rect area direction ratio;
          pos = (case direction of Horizontal \<Rightarrow> rx a + rwidth a | Vertical \<Rightarrow> ry a + rheight a)
      in \<lparr>sb_pos = pos, sb_direction = direction, sb_ratio = ratio, sb_area = area, sb_path = path\<rparr>
         # collect_splits first a (path @ [False]) @ collect_splits second b (path @ [True]))"

fun collect_ids :: "node \<Rightarrow> pane_id list" where
  "collect_ids (Pane i) = [i]"
| "collect_ids (Split _ _ first second) = collect_ids first @ collect_ids second"

fun split_ratios_at :: "node \<Rightarrow> bool list \<Rightarrow> (bool list \<times> f32) list" where
  "split_ratios_at (Pane _) path = []"
| "split_ratios_at (Split _ ratio first second) path =
     (path, ratio) # split_ratios_at first (path @ [False]) @ split_ratios_at second (path @ [True])"

definition split_ratios :: "node \<Rightarrow> (bool list \<times> f32) list" where
  "split_ratios n = split_ratios_at n []"

text \<open>\<open>Vec<(Vec<bool>, f32)>\<close> equality goes through \<open>f32\<close> equality.\<close>

definition split_ratios_eq :: "(bool list \<times> f32) list \<Rightarrow> (bool list \<times> f32) list \<Rightarrow> bool" where
  "split_ratios_eq xs ys = list_all2 (\<lambda>(p, r) (p', r'). p = p' \<and> f32_eq r r') xs ys"

fun swap_pane_ids :: "node \<Rightarrow> pane_id \<Rightarrow> pane_id \<Rightarrow> node" where
  "swap_pane_ids (Pane i) first second =
     (if i = first then Pane second else if i = second then Pane first else Pane i)"
| "swap_pane_ids (Split d r f s) first second =
     Split d r (swap_pane_ids f first second) (swap_pane_ids s first second)"

fun split_at :: "node \<Rightarrow> pane_id \<Rightarrow> direction \<Rightarrow> pane_id \<Rightarrow> f32 \<Rightarrow> node" where
  "split_at (Pane i) target direction new_id split_ratio =
     (if i = target then Split direction split_ratio (Pane i) (Pane new_id) else Pane i)"
| "split_at (Split d ratio first second) target direction new_id split_ratio =
     Split d ratio (split_at first target direction new_id split_ratio)
                   (split_at second target direction new_id split_ratio)"

definition valid_split_ratio :: "f32 \<Rightarrow> f32" where
  "valid_split_ratio ratio =
     (if f32_is_finite ratio then f32_clamp ratio f32_0_1 f32_0_9 else f32_0_5)"

fun remove_pane :: "node \<Rightarrow> pane_id \<Rightarrow> node option" where
  "remove_pane (Pane i) target = (if i = target then None else Some (Pane i))"
| "remove_pane (Split direction ratio first second) target =
     (case (remove_pane first target, remove_pane second target) of
        (None, Some s) \<Rightarrow> Some s
      | (Some f, None) \<Rightarrow> Some f
      | (Some f, Some s) \<Rightarrow> Some (Split direction ratio f s)
      | (None, None) \<Rightarrow> None)"

fun set_ratio_at :: "node \<Rightarrow> bool list \<Rightarrow> f32 \<Rightarrow> node \<times> bool" where
  "set_ratio_at (Pane i) path new_ratio = (Pane i, False)"
| "set_ratio_at (Split d ratio first second) [] new_ratio = (Split d new_ratio first second, True)"
| "set_ratio_at (Split d ratio first second) (b # path) new_ratio =
     (if b then (case set_ratio_at second path new_ratio of (s, ok) \<Rightarrow> (Split d ratio first s, ok))
      else (case set_ratio_at first path new_ratio of (f, ok) \<Rightarrow> (Split d ratio f second, ok)))"

fun get_ratio_at :: "node \<Rightarrow> bool list \<Rightarrow> f32 option" where
  "get_ratio_at (Pane _) path = None"
| "get_ratio_at (Split _ ratio first second) [] = Some ratio"
| "get_ratio_at (Split _ ratio first second) (b # path) =
     (if b then get_ratio_at second path else get_ratio_at first path)"

section \<open>Operations of TileLayout\<close>

definition new_layout :: "u32 \<Rightarrow> (tile_layout \<times> pane_id) \<times> u32" where
  "new_layout next_id =
     (let (root_id, next_id') = alloc next_id
      in ((\<lparr>tl_root = Pane root_id, tl_focus = root_id\<rparr>, root_id), next_id'))"

definition pane_count :: "tile_layout \<Rightarrow> nat" where
  "pane_count l = count_panes (tl_root l)"

definition panes :: "tile_layout \<Rightarrow> rect \<Rightarrow> pane_info list" where
  "panes l area = collect_panes (tl_root l) area (tl_focus l)"

definition splits :: "tile_layout \<Rightarrow> rect \<Rightarrow> split_border list" where
  "splits l area = collect_splits (tl_root l) area []"

definition pane_ids :: "tile_layout \<Rightarrow> pane_id list" where
  "pane_ids l = collect_ids (tl_root l)"

definition from_saved :: "node \<Rightarrow> pane_id \<Rightarrow> tile_layout" where
  "from_saved saved_root foc = \<lparr>tl_root = saved_root, tl_focus = foc\<rparr>"

definition split_focused_with_ratio ::
  "u32 \<Rightarrow> tile_layout \<Rightarrow> direction \<Rightarrow> f32 \<Rightarrow> (tile_layout \<times> pane_id) \<times> u32" where
  "split_focused_with_ratio next_id l direction ratio =
     (let (new_id, next_id') = alloc next_id;
          root' = split_at (tl_root l) (tl_focus l) direction new_id (valid_split_ratio ratio)
      in ((l\<lparr>tl_root := root', tl_focus := new_id\<rparr>, new_id), next_id'))"

definition split_focused :: "u32 \<Rightarrow> tile_layout \<Rightarrow> direction \<Rightarrow> (tile_layout \<times> pane_id) \<times> u32" where
  "split_focused next_id l direction = split_focused_with_ratio next_id l direction f32_0_5"

definition insert_pane_near ::
  "tile_layout \<Rightarrow> pane_id \<Rightarrow> pane_id \<Rightarrow> direction \<Rightarrow> f32 \<Rightarrow> tile_layout \<times> bool" where
  "insert_pane_near l target moved direction ratio =
     (if target = moved then (l, False)
      else let ids = pane_ids l
           in if target \<notin> set ids \<or> moved \<in> set ids then (l, False)
              else (l\<lparr>tl_root := split_at (tl_root l) target direction moved (valid_split_ratio ratio),
                      tl_focus := moved\<rparr>, True))"

fun position_of :: "pane_id \<Rightarrow> pane_id list \<Rightarrow> nat option" where
  "position_of t [] = None"
| "position_of t (i # is) = (if i = t then Some 0 else map_option Suc (position_of t is))"

text \<open>
  \<open>None\<close> is the panic of \<open>position(..).unwrap()\<close>.  When nothing is left of the tree the code
  has already replaced the root by the placeholder pane 0.
\<close>

definition close_focused :: "tile_layout \<Rightarrow> (tile_layout \<times> bool) option" where
  "close_focused l =
     (if pane_count l \<le> 1 then Some (l, False)
      else let target = tl_focus l; ids = pane_ids l
           in case position_of target ids of
                None \<Rightarrow> None
              | Some pos \<Rightarrow>
                  let new_focus = (if pos + 1 < length ids then ids ! (pos + 1) else ids ! (pos - 1))
                  in case remove_pane (tl_root l) target of
                       Some new_root \<Rightarrow> Some (l\<lparr>tl_root := new_root, tl_focus := new_focus\<rparr>, True)
                     | None \<Rightarrow> Some (l\<lparr>tl_root := Pane 0\<rparr>, False))"

definition focus_pane :: "tile_layout \<Rightarrow> pane_id \<Rightarrow> tile_layout" where
  "focus_pane l i = (if i \<in> set (pane_ids l) then l\<lparr>tl_focus := i\<rparr> else l)"

definition swap_panes :: "tile_layout \<Rightarrow> pane_id \<Rightarrow> pane_id \<Rightarrow> tile_layout \<times> bool" where
  "swap_panes l first second =
     (if first = second then (l, False)
      else let ids = pane_ids l
           in if first \<notin> set ids \<or> second \<notin> set ids then (l, False)
              else (l\<lparr>tl_root := swap_pane_ids (tl_root l) first second\<rparr>, True))"

definition layout_set_ratio_at :: "tile_layout \<Rightarrow> bool list \<Rightarrow> f32 \<Rightarrow> tile_layout \<times> bool" where
  "layout_set_ratio_at l path ratio =
     (case set_ratio_at (tl_root l) path (f32_clamp ratio f32_0_1 f32_0_9) of
        (n, ok) \<Rightarrow> (l\<lparr>tl_root := n\<rparr>, ok))"

section \<open>Directional navigation\<close>

definition ranges_overlap :: "u16 \<Rightarrow> u16 \<Rightarrow> u16 \<Rightarrow> u16 \<Rightarrow> bool" where
  "ranges_overlap a_start a_len b_start b_len = (a_start < b_start + b_len \<and> a_start + a_len > b_start)"

definition range_overlap_amount :: "u16 \<Rightarrow> u16 \<Rightarrow> u16 \<Rightarrow> u16 \<Rightarrow> u16" where
  "range_overlap_amount a_start a_len b_start b_len =
     (let a_end = saturating_add a_start a_len; b_end = saturating_add b_start b_len
      in saturating_sub (min a_end b_end) (max a_start b_start))"

definition range_center_distance :: "u16 \<Rightarrow> u16 \<Rightarrow> u16 \<Rightarrow> u16 \<Rightarrow> u16" where
  "range_center_distance a_start a_len b_start b_len =
     (let a_center = saturating_add (saturating_mul a_start 2) a_len;
          b_center = saturating_add (saturating_mul b_start 2) b_len
      in abs_diff a_center b_center)"

text \<open>The three closures of \<open>find_in_direction\<close>.\<close>

definition in_direction :: "rect \<Rightarrow> nav_direction \<Rightarrow> rect \<Rightarrow> bool" where
  "in_direction fr direction r =
     (case direction of
        NavLeft \<Rightarrow> rx r + rwidth r \<le> rx fr \<and> ranges_overlap (ry r) (rheight r) (ry fr) (rheight fr)
      | NavRight \<Rightarrow> rx r \<ge> rx fr + rwidth fr \<and> ranges_overlap (ry r) (rheight r) (ry fr) (rheight fr)
      | NavUp \<Rightarrow> ry r + rheight r \<le> ry fr \<and> ranges_overlap (rx r) (rwidth r) (rx fr) (rwidth fr)
      | NavDown \<Rightarrow> ry r \<ge> ry fr + rheight fr \<and> ranges_overlap (rx r) (rwidth r) (rx fr) (rwidth fr))"

definition nav_edge_distance :: "rect \<Rightarrow> nav_direction \<Rightarrow> rect \<Rightarrow> u16" where
  "nav_edge_distance fr direction r =
     (case direction of
        NavLeft \<Rightarrow> saturating_sub (rx fr) (rx r + rwidth r)
      | NavRight \<Rightarrow> saturating_sub (rx r) (rx fr + rwidth fr)
      | NavUp \<Rightarrow> saturating_sub (ry fr) (ry r + rheight r)
      | NavDown \<Rightarrow> saturating_sub (ry r) (ry fr + rheight fr))"

definition nav_key :: "rect \<Rightarrow> nav_direction \<Rightarrow> nat \<times> pane_info \<Rightarrow> u16 \<times> u16 reversed \<times> u16 \<times> nat" where
  "nav_key fr direction ip =
     (let r = pi_rect (snd ip);
          horizontal = (direction = NavLeft \<or> direction = NavRight);
          overlap = (if horizontal then range_overlap_amount (ry r) (rheight r) (ry fr) (rheight fr)
                     else range_overlap_amount (rx r) (rwidth r) (rx fr) (rwidth fr));
          center_distance =
            (if horizontal then range_center_distance (ry r) (rheight r) (ry fr) (rheight fr)
             else range_center_distance (rx r) (rwidth r) (rx fr) (rwidth fr))
      in (nav_edge_distance fr direction r, Reverse overlap, center_distance, fst ip))"

definition find_in_direction :: "pane_info \<Rightarrow> nav_direction \<Rightarrow> pane_info list \<Rightarrow> pane_id option" where
  "find_in_direction focused direction ps =
     (let fr = pi_rect focused
      in map_option (\<lambda>ip. pi_id (snd ip))
           (min_by_key (nav_key fr direction)
             (filter (\<lambda>ip. in_direction fr direction (pi_rect (snd ip)))
               (filter (\<lambda>ip. pi_id (snd ip) \<noteq> pi_id focused) (enumerate 0 ps)))))"

section \<open>Resizing\<close>

fun opposite_direction :: "nav_direction \<Rightarrow> nav_direction" where
  "opposite_direction NavLeft = NavRight"
| "opposite_direction NavRight = NavLeft"
| "opposite_direction NavUp = NavDown"
| "opposite_direction NavDown = NavUp"

definition split_edge_distance :: "split_border \<Rightarrow> rect \<Rightarrow> nav_direction \<Rightarrow> int" where
  "split_edge_distance sb focused nav =
     (case nav of
        NavLeft \<Rightarrow> \<bar>uint (sb_pos sb) - uint (rx focused)\<bar>
      | NavRight \<Rightarrow> \<bar>uint (sb_pos sb) - uint (rx focused + rwidth focused)\<bar>
      | NavUp \<Rightarrow> \<bar>uint (sb_pos sb) - uint (ry focused)\<bar>
      | NavDown \<Rightarrow> \<bar>uint (sb_pos sb) - uint (ry focused + rheight focused)\<bar>)"

definition split_on_requested_edge :: "split_border \<Rightarrow> rect \<Rightarrow> nav_direction \<Rightarrow> bool" where
  "split_on_requested_edge sb focused nav = (split_edge_distance sb focused nav \<le> 1)"

definition split_area_overlaps_focused_pane :: "split_border \<Rightarrow> rect \<Rightarrow> nav_direction \<Rightarrow> bool" where
  "split_area_overlaps_focused_pane sb focused nav =
     (case nav of
        NavLeft \<Rightarrow> ranges_overlap (ry (sb_area sb)) (rheight (sb_area sb)) (ry focused) (rheight focused)
      | NavRight \<Rightarrow> ranges_overlap (ry (sb_area sb)) (rheight (sb_area sb)) (ry focused) (rheight focused)
      | NavUp \<Rightarrow> ranges_overlap (rx (sb_area sb)) (rwidth (sb_area sb)) (rx focused) (rwidth focused)
      | NavDown \<Rightarrow> ranges_overlap (rx (sb_area sb)) (rwidth (sb_area sb)) (rx focused) (rwidth focused))"

definition nearest_resize_split ::
  "split_border list \<Rightarrow> direction \<Rightarrow> rect \<Rightarrow> nav_direction \<Rightarrow> split_border option" where
  "nearest_resize_split sbs target_dir focused nav =
     min_by_key (\<lambda>s. split_edge_distance s focused nav)
       (filter (\<lambda>s. split_on_requested_edge s focused nav)
         (filter (\<lambda>s. split_area_overlaps_focused_pane s focused nav)
           (filter (\<lambda>s. sb_direction s = target_dir) sbs)))"

definition resize_focused :: "tile_layout \<Rightarrow> nav_direction \<Rightarrow> f32 \<Rightarrow> rect \<Rightarrow> tile_layout" where
  "resize_focused l nav delta area =
     (case find pi_is_focused (panes l area) of
        None \<Rightarrow> l
      | Some focused \<Rightarrow>
          let focused_rect = pi_rect focused;
              sbs = splits l area;
              target_dir = (case nav of NavLeft \<Rightarrow> Horizontal | NavRight \<Rightarrow> Horizontal
                                      | NavUp \<Rightarrow> Vertical | NavDown \<Rightarrow> Vertical);
              grows = (nav = NavRight \<or> nav = NavDown);
              best = or_else (nearest_resize_split sbs target_dir focused_rect nav)
                       (nearest_resize_split sbs target_dir focused_rect (opposite_direction nav))
          in case best of
               None \<Rightarrow> l
             | Some sb \<Rightarrow>
                 let current_ratio = unwrap_or (get_ratio_at (tl_root l) (sb_path sb)) f32_0_5;
                     adj = (if grows then delta else f32_neg delta)
                 in fst (layout_set_ratio_at l (sb_path sb) (f32_add current_ratio adj)))"

definition resize_pane ::
  "tile_layout \<Rightarrow> pane_id \<Rightarrow> nav_direction \<Rightarrow> f32 \<Rightarrow> rect \<Rightarrow> tile_layout \<times> bool" where
  "resize_pane l i nav delta area =
     (if i \<notin> set (pane_ids l) then (l, False)
      else let before = split_ratios (tl_root l);
               previous_focus = tl_focus l;
               l1 = resize_focused (l\<lparr>tl_focus := i\<rparr>) nav delta area;
               l2 = l1\<lparr>tl_focus := previous_focus\<rparr>
           in (l2, \<not> split_ratios_eq (split_ratios (tl_root l2)) before))"

end
