(* ===== verification/LayoutOps.thy ===== *)
theory LayoutOps
  imports LayoutTree
begin

text \<open>
  The operations of \<open>TileLayout\<close> keep the layout's invariant and refine the list operations of
  the abstract specification; \<open>layout_reach\<close> is the state machine of one workspace tab.
\<close>

section \<open>Helper facts on lists\<close>

lemma position_of_None: "position_of t is = None \<longleftrightarrow> t \<notin> set is"
  by (induction "is") auto

lemma position_of_Some: "position_of t is = Some p \<Longrightarrow> p < length is \<and> is ! p = t"
  by (induction "is" arbitrary: p) (auto split: if_splits)

text \<open>The index arithmetic of \<open>close_focused\<close> picks the abstract neighbour.\<close>

lemma neighbour_position:
  assumes "position_of t is = Some p" and "2 \<le> length is"
  shows "neighbour t is = Some (if p + 1 < length is then is ! (p + 1) else is ! (p - 1))"
  using assms
proof (induction t "is" arbitrary: p rule: neighbour.induct)
  case (1 t x y xs)
  show ?case
  proof (cases "x = t")
    case False
    with "1.prems"(1) obtain q where q: "position_of t (y # xs) = Some q" and p: "p = Suc q"
      by auto
    show ?thesis
    proof (cases "xs = []")
      case True
      with q p False show ?thesis by (auto split: if_splits)
    next
      case nonempty: False
      then have "2 \<le> length (y # xs)" by (cases xs) auto
      with "1.IH" [OF False _ q] nonempty have
        "neighbour t (y # xs) = Some (if q + 1 < length (y # xs) then (y # xs) ! (q + 1) else (y # xs) ! (q - 1))"
        by simp
      moreover have "\<not> q + 1 < length (y # xs) \<Longrightarrow> 0 < q"
        using nonempty by (cases q) auto
      ultimately show ?thesis using False nonempty p by (auto simp: nth_Cons')
    qed
  qed (use "1.prems" in auto)
qed auto

lemma neighbour_other: "distinct is \<Longrightarrow> neighbour t is = Some u \<Longrightarrow> u \<in> set is \<and> u \<noteq> t"
  by (induction t "is" rule: neighbour.induct) (auto split: if_splits)

section \<open>Each operation\<close>

lemmas layout_simps = pane_ids_def layout_wf_def ids_below_def

lemma new_layout_wf:
  assumes "new_layout n = ((l, i), n')" and "n \<noteq> - 1"
  shows "layout_wf l \<and> ids_below n' l \<and> ratios_valid (tl_root l) \<and> pane_ids l = [i]"
proof -
  have "n < n + 1" by (rule word_less_Suc [OF assms(2)])
  with assms show ?thesis by (auto simp: new_layout_def alloc_def layout_simps)
qed

lemma split_focused_refines:
  assumes "layout_wf l" and "ids_below n l" and "n \<noteq> - 1"
    and "split_focused_with_ratio n l d r = ((l', i), n')"
  shows "pane_ids l' = insert_after (tl_focus l) i (pane_ids l) \<and> tl_focus l' = i \<and>
    i \<notin> set (pane_ids l) \<and> layout_wf l' \<and> ids_below n' l'"
proof -
  have n: "n < n + 1" by (rule word_less_Suc [OF assms(3)])
  from assms(4) have l': "l' = l\<lparr>tl_root := split_at (tl_root l) (tl_focus l) d n (valid_split_ratio r),
      tl_focus := n\<rparr>" and i: "i = n" and n': "n' = n + 1"
    by (auto simp: split_focused_with_ratio_def alloc_def)
  have fresh: "n \<notin> set (pane_ids l)" using assms(2) by (auto simp: ids_below_def)
  have ids: "pane_ids l' = insert_after (tl_focus l) n (pane_ids l)"
    by (simp add: l' pane_ids_def collect_ids_split_at)
  have "layout_wf l'"
    using assms(1) fresh unfolding layout_wf_def ids
    by (simp add: distinct_insert_after set_insert_after) (simp add: l')
  moreover have "ids_below n' l'"
    using assms(2) n unfolding ids_below_def ids n'
    by (auto simp: set_insert_after intro: less_trans)
  ultimately show ?thesis using ids fresh by (simp add: i) (simp add: l')
qed

lemma insert_pane_near_refines:
  assumes "layout_wf l"
  shows "insert_pane_near l t m d r =
    (if t \<in> set (pane_ids l) \<and> m \<notin> set (pane_ids l)
     then (l\<lparr>tl_root := split_at (tl_root l) t d m (valid_split_ratio r), tl_focus := m\<rparr>, True)
     else (l, False))"
  by (auto simp: insert_pane_near_def Let_def)

lemma insert_pane_near_ids:
  assumes "layout_wf l" and "insert_pane_near l t m d r = (l', True)"
  shows "pane_ids l' = insert_after t m (pane_ids l) \<and> tl_focus l' = m \<and> layout_wf l'"
proof -
  from assms have "t \<in> set (pane_ids l)" "m \<notin> set (pane_ids l)"
    and l': "l' = l\<lparr>tl_root := split_at (tl_root l) t d m (valid_split_ratio r), tl_focus := m\<rparr>"
    by (auto simp: insert_pane_near_refines split: if_splits)
  with assms(1) show ?thesis
    by (simp add: layout_simps collect_ids_split_at distinct_insert_after set_insert_after)
qed

lemma close_focused_refines:
  assumes "layout_wf l" and "2 \<le> pane_count l"
  shows "\<exists>l'. close_focused l = Some (l', True) \<and>
    pane_ids l' = filter (\<lambda>i. i \<noteq> tl_focus l) (pane_ids l) \<and>
    Some (tl_focus l') = neighbour (tl_focus l) (pane_ids l) \<and> layout_wf l'"
proof -
  let ?t = "tl_focus l" and ?is = "pane_ids l"
  have len: "2 \<le> length ?is"
    using assms(2) by (simp add: pane_count_def count_panes_length pane_ids_def)
  obtain p where p: "position_of ?t ?is = Some p"
    using assms(1) position_of_None [of ?t ?is] by (auto simp: layout_wf_def)
  have nb: "neighbour ?t ?is = Some (if p + 1 < length ?is then ?is ! (p + 1) else ?is ! (p - 1))"
    (is "_ = Some ?new")
    by (rule neighbour_position [OF p len])
  have new: "?new \<in> set ?is" "?new \<noteq> ?t"
    using neighbour_other [OF _ nb] assms(1) by (auto simp: layout_wf_def)
  obtain n' where n': "remove_pane (tl_root l) ?t = Some n'"
    using remove_pane_None [of "tl_root l" ?t] new by (auto simp: pane_ids_def)
  have ids: "collect_ids n' = filter (\<lambda>i. i \<noteq> ?t) ?is"
    using remove_pane_Some_ids [OF n'] by (simp add: pane_ids_def)
  have "close_focused l = Some (l\<lparr>tl_root := n', tl_focus := ?new\<rparr>, True)"
    using assms(2) by (simp add: close_focused_def p n' Let_def)
  then show ?thesis using assms(1) new ids nb
    by (auto simp: layout_wf_def pane_ids_def)
qed

lemma close_focused_last: "pane_count l \<le> 1 \<Longrightarrow> close_focused l = Some (l, False)"
  by (simp add: close_focused_def)

lemma remove_split_at:
  assumes "new \<notin> set (collect_ids n)"
  shows "remove_pane (split_at n t d new r) new = Some n"
  using assms by (induction n) auto

lemma close_after_split:
  assumes "layout_wf l" and "ids_below n l"
    and "split_focused_with_ratio n l d r = ((l', i), n')"
  shows "\<exists>f. close_focused l' = Some (l\<lparr>tl_focus := f\<rparr>, True)"
proof -
  have l': "l' = l\<lparr>tl_root := split_at (tl_root l) (tl_focus l) d n (valid_split_ratio r), tl_focus := n\<rparr>"
    using assms(3) by (auto simp: split_focused_with_ratio_def alloc_def)
  have fresh: "n \<notin> set (collect_ids (tl_root l))"
    using assms(2) by (auto simp: ids_below_def pane_ids_def)
  have foc: "tl_focus l \<in> set (collect_ids (tl_root l))"
    using assms(1) by (simp add: layout_wf_def pane_ids_def)
  have ids: "set (pane_ids l') = insert n (set (collect_ids (tl_root l)))"
    using foc by (simp add: l' pane_ids_def collect_ids_split_at set_insert_after)
  obtain p where p: "position_of n (pane_ids l') = Some p"
    using ids position_of_None [of n "pane_ids l'"] by auto
  have "card (set (pane_ids l')) \<le> length (pane_ids l')" by (rule card_length)
  moreover have "card {n, tl_focus l} \<le> card (set (pane_ids l'))"
    using foc unfolding ids by (intro card_mono) auto
  moreover have "n \<noteq> tl_focus l" using fresh foc by auto
  ultimately have two: "\<not> pane_count l' \<le> 1"
    by (simp add: pane_count_def count_panes_length pane_ids_def)
  show ?thesis
    using two p by (auto simp: close_focused_def Let_def l' remove_split_at [OF fresh])
qed

lemma swap_ids_bij: "inj (swap_ids a b)"
  by (auto simp: inj_def swap_ids_def split: if_splits)

lemma swap_panes_ids:
  assumes "layout_wf l"
  shows "pane_ids (fst (swap_panes l a b)) =
    (if snd (swap_panes l a b) then map (swap_ids a b) (pane_ids l) else pane_ids l)"
  by (auto simp: swap_panes_def Let_def pane_ids_def collect_ids_swap)

lemma swap_panes_wf:
  assumes "layout_wf l"
  shows "layout_wf (fst (swap_panes l a b))"
proof (cases "snd (swap_panes l a b)")
  case True
  then have ab: "a \<in> set (pane_ids l)" "b \<in> set (pane_ids l)"
    by (auto simp: swap_panes_def Let_def split: if_splits)
  have "swap_ids a b ` set (pane_ids l) = set (pane_ids l)"
    using ab by (auto simp: swap_ids_def image_iff split: if_splits)
  moreover have "tl_focus (fst (swap_panes l a b)) = tl_focus l"
    by (simp add: swap_panes_def Let_def)
  ultimately show ?thesis using assms True swap_ids_bij [of a b]
    by (auto simp: layout_wf_def swap_panes_ids [OF assms] distinct_map inj_on_def inj_def)
next
  case False
  then show ?thesis using assms by (auto simp: swap_panes_def Let_def split: if_splits)
qed

lemma layout_set_ratio_ids [simp]:
  "pane_ids (fst (layout_set_ratio_at l path r)) = pane_ids l"
  "tl_focus (fst (layout_set_ratio_at l path r)) = tl_focus l"
  by (auto simp: layout_set_ratio_at_def pane_ids_def split: prod.splits)
     (metis collect_ids_set_ratio fst_conv)

lemma layout_set_ratio_valid:
  assumes "ratios_valid (tl_root l)" and "r \<noteq> NaN"
  shows "ratios_valid (tl_root (fst (layout_set_ratio_at l path r)))"
  using ratios_valid_set [OF assms(1) f32_clamp_valid [OF assms(2)], of path]
  by (cases "set_ratio_at (tl_root l) path (f32_clamp r f32_0_1 f32_0_9)")
     (simp add: layout_set_ratio_at_def)

lemma resize_focused_ids [simp]:
  "pane_ids (resize_focused l nav delta area) = pane_ids l"
  "tl_focus (resize_focused l nav delta area) = tl_focus l"
  by (simp_all add: resize_focused_def Let_def split: option.splits)

lemma resize_focused_valid:
  assumes "ratios_valid (tl_root l)" and "f32_is_finite delta"
  shows "ratios_valid (tl_root (resize_focused l nav delta area))"
proof -
  have sum: "f32_add (unwrap_or (get_ratio_at (tl_root l) path) f32_0_5)
      (if g then delta else f32_neg delta) \<noteq> NaN" for path g
  proof (rule f32_add_not_NaN)
    show "f32_is_finite (unwrap_or (get_ratio_at (tl_root l) path) f32_0_5)"
      using get_ratio_valid [OF assms(1)]
      by (cases "get_ratio_at (tl_root l) path")
         (auto simp: f32_half_valid intro: f32_valid_ratio_finite)
    show "f32_is_finite (if g then delta else f32_neg delta)" using assms(2) by simp
  qed
  show ?thesis
    unfolding resize_focused_def Let_def
    by (simp split: option.split) (use assms(1) sum [of _ True] sum [of _ False] in
      \<open>auto intro!: layout_set_ratio_valid\<close>)
qed

lemma resize_pane_ids:
  "pane_ids (fst (resize_pane l i nav delta area)) = pane_ids l"
  "tl_focus (fst (resize_pane l i nav delta area)) = tl_focus l"
proof -
  have "pane_ids (m\<lparr>tl_focus := f\<rparr>) = pane_ids m" for m f by (simp add: pane_ids_def)
  then show "pane_ids (fst (resize_pane l i nav delta area)) = pane_ids l"
    by (simp add: resize_pane_def Let_def)
  show "tl_focus (fst (resize_pane l i nav delta area)) = tl_focus l"
    by (simp add: resize_pane_def Let_def)
qed

lemma resize_pane_valid:
  assumes "ratios_valid (tl_root l)" and "f32_is_finite delta"
  shows "ratios_valid (tl_root (fst (resize_pane l i nav delta area)))"
  using resize_focused_valid [of "l\<lparr>tl_focus := i\<rparr>" delta nav area] assms
  by (simp add: resize_pane_def Let_def)

section \<open>The layout of a tab as a state machine\<close>

text \<open>
  The state is the layout and the allocation counter.  Other tabs allocate ids of their own
  (\<open>elsewhere\<close>), a pane that moves in from another tab carries an id below the counter, and the
  callers pass finite ratios and deltas only.
\<close>

inductive layout_reach :: "tile_layout \<Rightarrow> u32 \<Rightarrow> bool" where
  fresh: "n \<noteq> - 1 \<Longrightarrow> new_layout n = ((l, i), n') \<Longrightarrow> layout_reach l n'"
| elsewhere: "layout_reach l n \<Longrightarrow> n \<le> n' \<Longrightarrow> layout_reach l n'"
| split: "layout_reach l n \<Longrightarrow> n \<noteq> - 1 \<Longrightarrow>
    split_focused_with_ratio n l d r = ((l', i), n') \<Longrightarrow> layout_reach l' n'"
| insert: "layout_reach l n \<Longrightarrow> m < n \<Longrightarrow>
    insert_pane_near l t m d r = (l', b) \<Longrightarrow> layout_reach l' n"
| close: "layout_reach l n \<Longrightarrow> close_focused l = Some (l', b) \<Longrightarrow> layout_reach l' n"
| focus: "layout_reach l n \<Longrightarrow> layout_reach (focus_pane l i) n"
| swap: "layout_reach l n \<Longrightarrow> layout_reach (fst (swap_panes l a b)) n"
| set_ratio: "layout_reach l n \<Longrightarrow> r \<noteq> NaN \<Longrightarrow>
    layout_reach (fst (layout_set_ratio_at l path r)) n"
| resize: "layout_reach l n \<Longrightarrow> f32_is_finite delta \<Longrightarrow>
    layout_reach (fst (resize_pane l i nav delta area)) n"

definition layout_inv :: "tile_layout \<Rightarrow> u32 \<Rightarrow> bool" where
  "layout_inv l n \<longleftrightarrow> layout_wf l \<and> ids_below n l \<and> ratios_valid (tl_root l)"

lemma ids_below_mono: "ids_below n l \<Longrightarrow> n \<le> n' \<Longrightarrow> ids_below n' l"
  by (auto simp: ids_below_def)

lemma layout_inv_same_ids:
  assumes "layout_inv l n" and "pane_ids l' = pane_ids l" and "tl_focus l' \<in> set (pane_ids l)"
    and "ratios_valid (tl_root l')"
  shows "layout_inv l' n"
  using assms by (simp add: layout_inv_def layout_wf_def ids_below_def)

lemma split_focused_inv:
  assumes "layout_inv l n" and "n \<noteq> - 1" and "split_focused_with_ratio n l d r = ((l', i), n')"
  shows "layout_inv l' n'"
proof -
  have "ratios_valid (tl_root l')"
    using assms by (auto simp: split_focused_with_ratio_def alloc_def layout_inv_def
        intro!: ratios_valid_split_at)
  with split_focused_refines [OF _ _ assms(2,3)] assms(1) show ?thesis
    by (simp add: layout_inv_def)
qed

lemma insert_pane_near_inv:
  assumes "layout_inv l n" and "m < n" and "insert_pane_near l t m d r = (l', b)"
  shows "layout_inv l' n"
proof (cases b)
  case True
  with assms have wf: "layout_wf l" and ins: "insert_pane_near l t m d r = (l', True)"
    by (simp_all add: layout_inv_def)
  have l': "l' = l\<lparr>tl_root := split_at (tl_root l) t d m (valid_split_ratio r), tl_focus := m\<rparr>"
    using ins by (auto simp: insert_pane_near_refines [OF wf] split: if_splits)
  have "ratios_valid (tl_root l')"
    using assms(1) unfolding l' by (simp add: layout_inv_def ratios_valid_split_at)
  with insert_pane_near_ids [OF wf ins] assms(1,2) show ?thesis
    by (auto simp: layout_inv_def ids_below_def set_insert_after split: if_splits)
next
  case False
  with assms show ?thesis by (auto simp: insert_pane_near_def Let_def split: if_splits)
qed

lemma close_focused_inv:
  assumes "layout_inv l n" and "close_focused l = Some (l', b)"
  shows "layout_inv l' n"
proof (cases "pane_count l \<le> 1")
  case True
  with assms close_focused_last [OF True] show ?thesis by simp
next
  case False
  then have two: "2 \<le> pane_count l" by simp
  from assms(1) have wf: "layout_wf l" by (simp add: layout_inv_def)
  from close_focused_refines [OF wf two] assms(2)
  have b: "b" and ids: "pane_ids l' = filter (\<lambda>i. i \<noteq> tl_focus l) (pane_ids l)" and wf': "layout_wf l'"
    by auto
  have "ratios_valid (tl_root l')"
    using assms b False
    by (auto simp: close_focused_def Let_def layout_inv_def split: option.splits if_splits
        dest: ratios_valid_remove)
  with ids wf' assms(1) show ?thesis by (auto simp: layout_inv_def ids_below_def)
qed

lemma swap_panes_inv:
  assumes "layout_inv l n"
  shows "layout_inv (fst (swap_panes l a b)) n"
proof -
  from assms have wf: "layout_wf l" by (simp add: layout_inv_def)
  have "set (pane_ids (fst (swap_panes l a b))) \<subseteq> set (pane_ids l)"
    using swap_panes_ids [OF wf, of a b]
    by (auto simp: swap_panes_def Let_def swap_ids_def split: if_splits)
  moreover have "ratios_valid (tl_root (fst (swap_panes l a b)))"
    using assms by (simp add: swap_panes_def Let_def layout_inv_def)
  ultimately show ?thesis
    using swap_panes_wf [OF wf, of a b] assms by (auto simp: layout_inv_def ids_below_def)
qed

lemma layout_reach_layout_inv: "layout_reach l n \<Longrightarrow> layout_inv l n"
proof (induction rule: layout_reach.induct)
  case (fresh n l i n')
  then show ?case using new_layout_wf by (simp add: layout_inv_def)
next
  case (elsewhere l n n')
  then show ?case by (auto simp: layout_inv_def intro: ids_below_mono)
next
  case (focus l n i)
  then show ?case
    by (auto simp: focus_pane_def layout_inv_def layout_simps)
next
  case (set_ratio l n r path)
  show ?case
    by (rule layout_inv_same_ids [of l n])
       (use set_ratio in \<open>auto simp: layout_inv_def layout_wf_def layout_set_ratio_valid\<close>)
next
  case (resize l n delta i nav area)
  show ?case
    by (rule layout_inv_same_ids [of l n])
       (use resize in \<open>auto simp: resize_pane_ids resize_pane_valid layout_inv_def layout_wf_def\<close>)
qed (auto intro: split_focused_inv insert_pane_near_inv close_focused_inv swap_panes_inv)

end
