(* ===== verification/LayoutGeometry.thy ===== *)
theory LayoutGeometry
  imports LayoutOps
begin

text \<open>
  The rectangles of a layout.  The interface between the split of one rectangle and the layout of a
  whole tree is a locale: from a splitter that cuts a rectangle into two disjoint parts that cover
  it, any tree is laid out as a partition of its area.  \<open>split_rect\<close> is such a splitter for the
  ratios between 0 and 1, on areas that end within the \<open>u16\<close> range.
\<close>

definition cells :: "rect \<Rightarrow> (nat \<times> nat) set" where
  "cells r = {unat (rx r) ..< unat (rx r) + unat (rwidth r)} \<times>
             {unat (ry r) ..< unat (ry r) + unat (rheight r)}"

definition rect_fits :: "rect \<Rightarrow> bool" where
  "rect_fits r \<longleftrightarrow> unat (rx r) + unat (rwidth r) < 2 ^ 16 \<and> unat (ry r) + unat (rheight r) < 2 ^ 16"

fun ratios_all :: "(f32 \<Rightarrow> bool) \<Rightarrow> node \<Rightarrow> bool" where
  "ratios_all ok (Pane _) = True"
| "ratios_all ok (Split _ r f s) = (ok r \<and> ratios_all ok f \<and> ratios_all ok s)"

lemma ratios_valid_unit: "ratios_valid n \<Longrightarrow> ratios_all f32_unit n"
  by (induction n) (auto intro: f32_valid_ratio_unit)

locale rect_splitter =
  fixes sp :: "rect \<Rightarrow> direction \<Rightarrow> f32 \<Rightarrow> rect \<times> rect"
    and ok :: "f32 \<Rightarrow> bool"
  assumes sp_cover: "ok r \<Longrightarrow> rect_fits a \<Longrightarrow> sp a d r = (x, y) \<Longrightarrow> cells x \<union> cells y = cells a"
    and sp_disjoint: "ok r \<Longrightarrow> rect_fits a \<Longrightarrow> sp a d r = (x, y) \<Longrightarrow> cells x \<inter> cells y = {}"
    and sp_fits: "ok r \<Longrightarrow> rect_fits a \<Longrightarrow> sp a d r = (x, y) \<Longrightarrow> rect_fits x \<and> rect_fits y"

locale tree_tiling = rect_splitter +
  fixes tiles :: "node \<Rightarrow> rect \<Rightarrow> rect list"
  assumes tiles_Pane: "tiles (Pane i) a = [a]"
    and tiles_Split: "sp a d r = (x, y) \<Longrightarrow> tiles (Split d r f s) a = tiles f x @ tiles s y"
begin

lemma tiles_cover:
  "ratios_all ok n \<Longrightarrow> rect_fits a \<Longrightarrow> \<Union> (cells ` set (tiles n a)) = cells a"
proof (induction n arbitrary: a)
  case (Split d r f s)
  obtain x y where xy: "sp a d r = (x, y)" by fastforce
  with Split sp_fits [of r a d x y] sp_cover [of r a d x y] show ?case
    by (simp add: tiles_Split)
qed (simp add: tiles_Pane)

lemma tiles_disjoint:
  "ratios_all ok n \<Longrightarrow> rect_fits a \<Longrightarrow> sorted_wrt (\<lambda>p q. cells p \<inter> cells q = {}) (tiles n a)"
proof (induction n arbitrary: a)
  case (Split d r f s)
  obtain x y where xy: "sp a d r = (x, y)" by fastforce
  have fits: "rect_fits x" "rect_fits y"
    using Split.prems sp_fits [of r a d x y] xy by auto
  have sub: "p \<in> set (tiles f x) \<Longrightarrow> cells p \<subseteq> cells x"
    "q \<in> set (tiles s y) \<Longrightarrow> cells q \<subseteq> cells y" for p q
    using tiles_cover [of f x] tiles_cover [of s y] fits Split.prems by auto
  have "cells p \<inter> cells q = {}" if "p \<in> set (tiles f x)" "q \<in> set (tiles s y)" for p q
    using sub(1) [OF that(1)] sub(2) [OF that(2)] sp_disjoint [of r a d x y] xy Split.prems by auto
  with Split.IH Split.prems fits xy show ?case
    by (auto simp: tiles_Split sorted_wrt_append)
qed (simp add: tiles_Pane)

lemma tiles_partition:
  assumes "ratios_all ok n" and "rect_fits a" and "c \<in> cells a"
  shows "\<exists>!i. i < length (tiles n a) \<and> c \<in> cells (tiles n a ! i)"
proof -
  from tiles_cover [OF assms(1,2)] assms(3) obtain t where "t \<in> set (tiles n a)" "c \<in> cells t"
    by blast
  then obtain i where i: "i < length (tiles n a)" "c \<in> cells (tiles n a ! i)"
    by (auto simp: in_set_conv_nth)
  have apart: "cells (tiles n a ! j) \<inter> cells (tiles n a ! k) = {}"
    if "j < k" "k < length (tiles n a)" for j k
    using tiles_disjoint [OF assms(1,2)] that by (simp add: sorted_wrt_iff_nth_less)
  have "j = i" if "j < length (tiles n a)" "c \<in> cells (tiles n a ! j)" for j
    using apart [of i j] apart [of j i] i that by (cases i j rule: linorder_cases) auto
  with i have "\<exists>!i. i < length (tiles n a) \<and> c \<in> cells (tiles n a ! i)" by blast
  then show ?thesis .
qed

end

section \<open>The code's splitter\<close>

lemma split_rect_spec:
  assumes "f32_unit r" and "rect_fits a" and "split_rect a d r = (x, y)"
  shows "cells x \<union> cells y = cells a" and "cells x \<inter> cells y = {}"
    and "rect_fits x \<and> rect_fits y"
proof -
  define w where "w = f32_as_u16 (f32_round_integral (f32_mul (f32_of_u16 (rwidth a)) r))"
  define h where "h = f32_as_u16 (f32_round_integral (f32_mul (f32_of_u16 (rheight a)) r))"
  have w: "w \<le> rwidth a" and h: "h \<le> rheight a"
    unfolding w_def h_def by (rule f32_scaled_le [OF assms(1)])+
  have fits: "unat (rx a) + unat (rwidth a) < 2 ^ 16" "unat (ry a) + unat (rheight a) < 2 ^ 16"
    using assms(2) by (auto simp: rect_fits_def)
  have add: "unat (rx a + w) = unat (rx a) + unat w" "unat (ry a + h) = unat (ry a) + unat h"
    using w h fits by (auto simp: word_le_nat_alt unat_word_ariths)
  have sub: "unat (rwidth a - w) = unat (rwidth a) - unat w"
    "unat (rheight a - h) = unat (rheight a) - unat h"
    using w h by (auto simp: unat_sub word_le_nat_alt)
  have xy: "(d = Horizontal \<and> x = a\<lparr>rwidth := w\<rparr> \<and> y = a\<lparr>rx := rx a + w, rwidth := rwidth a - w\<rparr>) \<or>
    (d = Vertical \<and> x = a\<lparr>rheight := h\<rparr> \<and> y = a\<lparr>ry := ry a + h, rheight := rheight a - h\<rparr>)"
    using assms(3) w h
    by (cases d) (auto simp: split_rect_def Let_def w_def [symmetric] h_def [symmetric]
        saturating_sub_def not_less intro!: rect.equality)
  note le = w [unfolded word_le_nat_alt] h [unfolded word_le_nat_alt]
  show "cells x \<union> cells y = cells a"
    using xy le by (auto simp: cells_def add sub)
  show "cells x \<inter> cells y = {}"
    using xy le by (auto simp: cells_def add sub)
  show "rect_fits x \<and> rect_fits y"
    using xy le fits by (auto simp: rect_fits_def add sub)
qed

interpretation pane_tiling: tree_tiling split_rect f32_unit "\<lambda>n a. map pi_rect (collect_panes n a foc)"
  for foc :: pane_id
  by unfold_locales (auto dest: split_rect_spec)

lemma panes_in_area:
  assumes "ratios_all f32_unit (tl_root l)" and "rect_fits area" and "p \<in> set (panes l area)"
  shows "cells (pi_rect p) \<subseteq> cells area"
  using pane_tiling.tiles_cover [OF assms(1,2), of "tl_focus l"] assms(3) by (auto simp: panes_def)

lemma panes_cell_unique:
  assumes "ratios_all f32_unit (tl_root l)" and "rect_fits area" and "c \<in> cells area"
  shows "\<exists>!i. i < length (panes l area) \<and> c \<in> cells (pi_rect (panes l area ! i))"
  using pane_tiling.tiles_partition [OF assms, of "tl_focus l"]
  by (simp add: panes_def cong: conj_cong)

end
