(* ===== verification/LayoutProps.thy ===== *)
theory LayoutProps
  imports LayoutGeometry
begin

text \<open>
  The properties of the tiling layout (\<open>src/layout.rs\<close>): its reachable states, each operation
  against the list of panes, the areas the panes cover, ratios and resizing.
\<close>

section \<open>Facts the properties share\<close>

text \<open>A tree with the same shape and the same ratios is the same tree.\<close>

lemma set_ratio_at_same:
  "get_ratio_at n path = Some r \<Longrightarrow> fst (set_ratio_at n path r) = n"
  by (induction n path r rule: set_ratio_at.induct) (auto split: prod.splits if_splits)

lemma set_ratio_at_missing: "get_ratio_at n path = None \<Longrightarrow> fst (set_ratio_at n path r) = n"
  by (induction n path r rule: set_ratio_at.induct) (auto split: prod.splits if_splits)

lemma split_ratios_at_prefix: "split_ratios_at n pre = map (\<lambda>(p, r). (pre @ p, r)) (split_ratios_at n [])"
proof (induction n arbitrary: pre)
  case (Split d r f s)
  show ?case
    using Split.IH(1) [of "pre @ [False]"] Split.IH(1) [of "[False]"]
      Split.IH(2) [of "pre @ [True]"] Split.IH(2) [of "[True]"] by (simp add: split_beta)
qed simp

lemma split_ratios_lookup: "map_of (split_ratios n) path = get_ratio_at n path"
proof -
  have pre: "map_of (map (\<lambda>(p, r). (b # p, r)) xs) path =
      (case path of [] \<Rightarrow> None | c # q \<Rightarrow> if c = b then map_of xs q else None)"
    for b :: bool and xs :: "(bool list \<times> f32) list" and path
    by (induction xs) (auto split: list.splits)
  show ?thesis
    unfolding split_ratios_def
  proof (induction n arbitrary: path)
    case (Split d r f s)
    show ?case
      using Split.IH pre
      by (cases path) (auto simp: split_ratios_at_prefix [of f "[False]"]
          split_ratios_at_prefix [of s "[True]"] map_add_def split: option.splits)
  qed simp
qed

lemma split_ratios_eqD: "split_ratios_eq xs ys \<Longrightarrow> xs = ys"
  unfolding split_ratios_eq_def
  by (induction rule: list_all2_induct) (auto simp: f32_eq_def)

lemma split_ratios_eq_refl: "\<forall>(p, r) \<in> set xs. r \<noteq> NaN \<Longrightarrow> split_ratios_eq xs xs"
  by (auto simp: split_ratios_eq_def list_all2_same f32_eq_def)

lemma split_ratios_not_NaN:
  "ratios_valid n \<Longrightarrow> \<forall>(p, r) \<in> set (split_ratios_at n pre). r \<noteq> NaN"
  by (induction n arbitrary: pre) (fastforce simp: f32_valid_ratio_def)+

lemma set_ratio_split_ratios:
  assumes "split_ratios_eq (split_ratios (fst (set_ratio_at n path r))) (split_ratios n)"
  shows "fst (set_ratio_at n path r) = n"
proof (cases "get_ratio_at n path")
  case None
  then show ?thesis by (rule set_ratio_at_missing)
next
  case (Some r0)
  have "get_ratio_at (fst (set_ratio_at n path r)) path = get_ratio_at n path"
    using split_ratios_eqD [OF assms] by (simp flip: split_ratios_lookup)
  moreover have "get_ratio_at (fst (set_ratio_at n path r)) path = Some r"
    using Some set_ratio_at_ok [of n path r] get_set_ratio_at [of n path r path] by simp
  ultimately show ?thesis by (intro set_ratio_at_same) simp
qed

lemma resize_focused_root:
  "tl_root (resize_focused l nav delta area) = tl_root l \<or>
   (\<exists>path r. tl_root (resize_focused l nav delta area) = fst (set_ratio_at (tl_root l) path r))"
  by (auto simp: resize_focused_def Let_def layout_set_ratio_at_def split_beta split: option.split)

lemma resize_pane_reports:
  assumes "ratios_valid (tl_root l)" and "resize_pane l i nav delta area = (l', b)"
  shows "b \<longleftrightarrow> l' \<noteq> l"
proof (cases "i \<in> set (pane_ids l)")
  case True
  let ?l1 = "resize_focused (l\<lparr>tl_focus := i\<rparr>) nav delta area"
  have l': "l' = ?l1\<lparr>tl_focus := tl_focus l\<rparr>"
    and b: "b \<longleftrightarrow> \<not> split_ratios_eq (split_ratios (tl_root ?l1)) (split_ratios (tl_root l))"
    using assms(2) True by (auto simp: resize_pane_def Let_def)
  have "split_ratios_eq (split_ratios (tl_root ?l1)) (split_ratios (tl_root l)) \<Longrightarrow>
      tl_root ?l1 = tl_root l"
    using resize_focused_root [of "l\<lparr>tl_focus := i\<rparr>" nav delta area] set_ratio_split_ratios by auto
  moreover have "split_ratios_eq (split_ratios (tl_root l)) (split_ratios (tl_root l))"
    unfolding split_ratios_def by (rule split_ratios_eq_refl [OF split_ratios_not_NaN [OF assms(1)]])
  moreover have "l' = l \<longleftrightarrow> tl_root ?l1 = tl_root l"
    unfolding l' by (auto intro: tile_layout.equality dest: arg_cong [where f = tl_root])
  ultimately show ?thesis using b by auto
next
  case False
  with assms(2) show ?thesis by (simp add: resize_pane_def)
qed

lemma collect_panes_swap_rects:
  "map pi_rect (collect_panes (swap_pane_ids n a b) area foc) = map pi_rect (collect_panes n area foc)"
  by (induction n area foc rule: collect_panes.induct) (auto split: prod.splits)

section \<open>A concrete layout for the witnesses\<close>

definition two_panes :: tile_layout where
  "two_panes = \<lparr>tl_root = Split Horizontal f32_0_5 (Pane 1) (Pane 2), tl_focus = 1\<rparr>"

lemma two_panes_wf: "layout_wf two_panes" "ids_below 3 two_panes"
  "pane_ids two_panes = [1, 2]" "pane_count two_panes = 2"
  by (simp_all add: two_panes_def layout_wf_def ids_below_def pane_ids_def pane_count_def)

lemma two_panes_ratios: "ratios_valid (tl_root two_panes)" "ratios_all f32_unit (tl_root two_panes)"
proof -
  show "ratios_valid (tl_root two_panes)" by (simp add: two_panes_def f32_half_valid)
  show "ratios_all f32_unit (tl_root two_panes)" by (simp add: two_panes_def f32_unit_def f32_0_5_def)
qed

lemma two_panes_reach: "layout_reach two_panes 3"
proof -
  let ?l = "\<lparr>tl_root = Pane 1, tl_focus = 1\<rparr>"
  have "layout_reach ?l 2"
    by (rule layout_reach.fresh [of 1 _ 1]) (simp_all add: new_layout_def alloc_def)
  then have "layout_reach \<lparr>tl_root = Split Horizontal f32_0_5 (Pane 1) (Pane 2), tl_focus = 2\<rparr> 3"
    by (rule layout_reach.split [of _ 2 Horizontal f32_0_5 _ 2])
       (simp_all add: split_focused_with_ratio_def alloc_def valid_split_ratio_def f32_is_finite_def
         f32_clamp_def f32_0_5_def f32_0_1_def f32_0_9_def)
  from layout_reach.focus [OF this, of 1] show ?thesis
    by (simp add: focus_pane_def pane_ids_def two_panes_def)
qed

section \<open>Properties\<close>

text \<open>C1: in every layout that the operations of a tab reach, the pane ids are distinct, the focused
  pane is one of them, every id is below the allocation counter, and every split ratio is a number
  between 0.1 and 0.9.\<close>
theorem layout_invariant:
  assumes "layout_reach l n"
  shows "distinct (pane_ids l) \<and> tl_focus l \<in> set (pane_ids l) \<and>
    (\<forall>i \<in> set (pane_ids l). i < n) \<and> ratios_valid (tl_root l)"
  using layout_reach_layout_inv [OF assms] by (simp add: layout_inv_def layout_wf_def ids_below_def)

theorem layout_invariant_witness:
  "layout_reach two_panes 3 \<and> tl_focus two_panes \<in> set (pane_ids two_panes)"
  using layout_invariant [OF two_panes_reach] two_panes_reach by simp

text \<open>C16: splitting the focused pane inserts exactly one fresh pane directly behind it in the order
  of the panes and focuses it; every other pane keeps its place.\<close>
theorem split_focused_correct:
  assumes "layout_wf l" and "ids_below n l" and "n \<noteq> - 1"
    and "split_focused_with_ratio n l d r = ((l', i), n')"
  shows "pane_ids l' = insert_after (tl_focus l) i (pane_ids l) \<and> tl_focus l' = i \<and>
    i \<notin> set (pane_ids l) \<and> layout_wf l' \<and> ids_below n' l'"
  by (rule split_focused_refines [OF assms])

theorem split_focused_correct_witness:
  "pane_ids (fst (fst (split_focused_with_ratio 3 two_panes Vertical f32_0_5))) = [1, 3, 2]"
  using split_focused_correct [OF two_panes_wf(1,2), of Vertical f32_0_5
      "fst (fst (split_focused_with_ratio 3 two_panes Vertical f32_0_5))"
      "snd (fst (split_focused_with_ratio 3 two_panes Vertical f32_0_5))"
      "snd (split_focused_with_ratio 3 two_panes Vertical f32_0_5)"]
  by (simp add: split_focused_with_ratio_def alloc_def pane_ids_def) (simp add: two_panes_def)

text \<open>C15: closing the focused pane of a layout with several panes does not panic, removes exactly
  that pane, keeps the others in order, and gives the focus to its neighbour (the next pane, or the
  previous one for the last).\<close>
theorem close_focused_correct:
  assumes "layout_wf l" and "2 \<le> pane_count l"
  shows "\<exists>l'. close_focused l = Some (l', True) \<and>
    pane_ids l' = filter (\<lambda>i. i \<noteq> tl_focus l) (pane_ids l) \<and>
    Some (tl_focus l') = neighbour (tl_focus l) (pane_ids l) \<and> layout_wf l'"
  by (rule close_focused_refines [OF assms])

theorem close_focused_correct_witness:
  "\<exists>l'. close_focused two_panes = Some (l', True) \<and> pane_ids l' = [2] \<and> tl_focus l' = 2"
  using close_focused_correct [OF two_panes_wf(1)]
  by (auto simp: two_panes_wf) (simp add: two_panes_def)

text \<open>C17: closing a pane right after it was split off restores the tree exactly.\<close>
theorem close_undoes_split:
  assumes "layout_wf l" and "ids_below n l"
    and "split_focused_with_ratio n l d r = ((l', i), n')"
  shows "\<exists>f. close_focused l' = Some (l\<lparr>tl_focus := f\<rparr>, True)"
  by (rule close_after_split [OF assms])

theorem close_undoes_split_witness:
  "\<exists>f. close_focused (fst (fst (split_focused_with_ratio 3 two_panes Vertical f32_0_5))) =
    Some (two_panes\<lparr>tl_focus := f\<rparr>, True)"
  by (rule close_undoes_split [OF two_panes_wf(1,2)]) (simp add: split_focused_with_ratio_def alloc_def)

text \<open>C18: swapping two panes of a layout exchanges exactly these two in the order of the panes, leaves
  every cell of the screen to the same place in the tree, and a second swap undoes the first.\<close>
theorem swap_panes_correct:
  assumes "a \<in> set (pane_ids l)" and "b \<in> set (pane_ids l)" and "a \<noteq> b"
  shows "\<exists>l'. swap_panes l a b = (l', True) \<and> pane_ids l' = map (swap_ids a b) (pane_ids l) \<and>
    map pi_rect (panes l' area) = map pi_rect (panes l area) \<and> swap_panes l' a b = (l, True)"
proof -
  let ?l' = "l\<lparr>tl_root := swap_pane_ids (tl_root l) a b\<rparr>"
  have swap: "swap_panes l a b = (?l', True)" using assms by (simp add: swap_panes_def Let_def)
  have ids: "pane_ids ?l' = map (swap_ids a b) (pane_ids l)"
    by (simp add: pane_ids_def collect_ids_swap)
  have "a \<in> set (pane_ids ?l')" "b \<in> set (pane_ids ?l')"
    unfolding ids using assms by (auto simp: swap_ids_def image_iff)
  then have "swap_panes ?l' a b = (l, True)"
    using assms(3) by (simp add: swap_panes_def Let_def swap_pane_ids_involutive)
  with swap ids show ?thesis by (auto simp: panes_def collect_panes_swap_rects)
qed

theorem swap_panes_correct_witness:
  "fst (swap_panes (fst (swap_panes two_panes 1 2)) 1 2) = two_panes"
proof -
  obtain l' where "swap_panes two_panes 1 2 = (l', True)" "swap_panes l' 1 2 = (two_panes, True)"
    using swap_panes_correct [of 1 two_panes 2] by (auto simp: two_panes_wf)
  then show ?thesis by simp
qed

text \<open>C9: the rectangles of the panes partition the area the layout is drawn in: every cell of it
  belongs to exactly one pane.  The ratios are between 0 and 1, and the area fits \<open>u16\<close> coordinates.\<close>
theorem panes_partition_area:
  assumes "ratios_all f32_unit (tl_root l)" and "rect_fits area" and "c \<in> cells area"
  shows "\<exists>!i. i < length (panes l area) \<and> c \<in> cells (pi_rect (panes l area ! i))"
  by (rule panes_cell_unique [OF assms])

theorem panes_partition_area_witness:
  "\<exists>!i. i < length (panes two_panes \<lparr>rx = 0, ry = 0, rwidth = 80, rheight = 24\<rparr>) \<and>
    (3, 4) \<in> cells (pi_rect (panes two_panes \<lparr>rx = 0, ry = 0, rwidth = 80, rheight = 24\<rparr> ! i))"
  by (rule panes_partition_area [OF two_panes_ratios(2)]) (simp_all add: rect_fits_def cells_def)

text \<open>C19: resizing a pane by a finite step keeps the panes, their order and the focus, keeps every
  ratio between 0.1 and 0.9, and reports a change exactly when the layout is a different one.\<close>
theorem resize_pane_correct:
  assumes "ratios_valid (tl_root l)" and "f32_is_finite delta"
    and "resize_pane l i nav delta area = (l', changed)"
  shows "pane_ids l' = pane_ids l \<and> tl_focus l' = tl_focus l \<and> ratios_valid (tl_root l') \<and>
    (changed \<longleftrightarrow> l' \<noteq> l)"
  using resize_pane_ids [of l i nav delta area] resize_pane_valid [OF assms(1,2), of i nav area]
    resize_pane_reports [OF assms(1,3)] assms(3) by simp

theorem resize_pane_correct_witness:
  "pane_ids (fst (resize_pane two_panes 2 NavRight f32_0_1
     \<lparr>rx = 0, ry = 0, rwidth = 80, rheight = 24\<rparr>)) = [1, 2]"
  using resize_pane_correct [OF two_panes_ratios(1), of f32_0_1 2 NavRight
      "\<lparr>rx = 0, ry = 0, rwidth = 80, rheight = 24\<rparr>"]
  by (simp add: f32_is_finite_def f32_0_1_def two_panes_wf prod_eq_iff)

text \<open>setting the ratio at a path succeeds exactly when the path leads to a split; the split there
  then has the clamped ratio and every other split keeps its own.  Every border that the layout
  draws carries the path of its split.\<close>
theorem set_ratio_at_correct:
  "(snd (layout_set_ratio_at l path r) \<longleftrightarrow> get_ratio_at (tl_root l) path \<noteq> None) \<and>
   get_ratio_at (tl_root (fst (layout_set_ratio_at l path r))) q =
     (if q = path \<and> get_ratio_at (tl_root l) path \<noteq> None then Some (f32_clamp r f32_0_1 f32_0_9)
      else get_ratio_at (tl_root l) q) \<and>
   map (\<lambda>sb. get_ratio_at (tl_root l) (sb_path sb)) (splits l area) =
     map (\<lambda>sb. Some (sb_ratio sb)) (splits l area)"
  (is "?ok \<and> ?get \<and> ?border")
proof -
  let ?r = "f32_clamp r f32_0_1 f32_0_9"
  have set: "fst (layout_set_ratio_at l path r) = l\<lparr>tl_root := fst (set_ratio_at (tl_root l) path ?r)\<rparr>"
    "snd (layout_set_ratio_at l path r) = snd (set_ratio_at (tl_root l) path ?r)"
    by (simp_all add: layout_set_ratio_at_def split_beta)
  have ok: ?ok by (simp add: set set_ratio_at_ok)
  moreover have ?get
  proof (cases "get_ratio_at (tl_root l) path = None")
    case True
    with set_ratio_at_missing [OF this, of ?r] show ?thesis by (simp add: set)
  next
    case False
    with get_set_ratio_at [of "tl_root l" path ?r q] set_ratio_at_ok [of "tl_root l" path ?r]
    show ?thesis by (auto simp: set)
  qed
  moreover have ?border
    using collect_splits_paths [of _ "tl_root l" area "[]"] by (fastforce simp: splits_def)
  ultimately show ?thesis by simp
qed

end
