(* ===== verification/RustText.thy ===== *)
theory RustText
  imports Prelude
begin

text \<open>
  Rust strings.  A \<open>String\<close> is its UTF-8 bytes, so \<open>string\<close> (a list of bytes) is the type,
  \<open>len()\<close> is \<^const>\<open>length\<close>, and the operations that look at characters look at the byte
  sequences that encode them; UTF-8 is self-synchronising, so a prefix or suffix test on the
  bytes of a character is exact.
\<close>

section \<open>White space\<close>

text \<open>The encodings of the characters with the Unicode property \<open>White_Space\<close>.\<close>

definition whitespace_encodings :: "string list" where
  "whitespace_encodings =
     [[CHR 0x09], [CHR 0x0A], [CHR 0x0B], [CHR 0x0C], [CHR 0x0D], [CHR 0x20],
      [CHR 0xC2, CHR 0x85], [CHR 0xC2, CHR 0xA0], [CHR 0xE1, CHR 0x9A, CHR 0x80],
      [CHR 0xE2, CHR 0x80, CHR 0x80], [CHR 0xE2, CHR 0x80, CHR 0x81],
      [CHR 0xE2, CHR 0x80, CHR 0x82], [CHR 0xE2, CHR 0x80, CHR 0x83],
      [CHR 0xE2, CHR 0x80, CHR 0x84], [CHR 0xE2, CHR 0x80, CHR 0x85],
      [CHR 0xE2, CHR 0x80, CHR 0x86], [CHR 0xE2, CHR 0x80, CHR 0x87],
      [CHR 0xE2, CHR 0x80, CHR 0x88], [CHR 0xE2, CHR 0x80, CHR 0x89],
      [CHR 0xE2, CHR 0x80, CHR 0x8A], [CHR 0xE2, CHR 0x80, CHR 0xA8],
      [CHR 0xE2, CHR 0x80, CHR 0xA9], [CHR 0xE2, CHR 0x80, CHR 0xAF],
      [CHR 0xE2, CHR 0x81, CHR 0x9F], [CHR 0xE3, CHR 0x80, CHR 0x80]]"

definition starts_with :: "string \<Rightarrow> string \<Rightarrow> bool" where
  "starts_with s p = (take (length p) s = p)"

definition ends_with :: "string \<Rightarrow> string \<Rightarrow> bool" where
  "ends_with s p = (length p \<le> length s \<and> drop (length s - length p) s = p)"

definition strip_prefix :: "string \<Rightarrow> string \<Rightarrow> string option" where
  "strip_prefix s p = (if starts_with s p then Some (drop (length p) s) else None)"

definition strip_suffix :: "string \<Rightarrow> string \<Rightarrow> string option" where
  "strip_suffix s p = (if ends_with s p then Some (take (length s - length p) s) else None)"

definition leading_whitespace :: "string \<Rightarrow> string option" where
  "leading_whitespace s = find (starts_with s) whitespace_encodings"

definition trailing_whitespace :: "string \<Rightarrow> string option" where
  "trailing_whitespace s = find (ends_with s) whitespace_encodings"

lemma starts_with_iff: "starts_with s p \<longleftrightarrow> (\<exists>t. s = p @ t)"
  unfolding starts_with_def by (metis append_eq_conv_conj append_take_drop_id)

lemma ends_with_iff: "ends_with s p \<longleftrightarrow> (\<exists>t. s = t @ p)"
proof
  assume "ends_with s p"
  then have "s = take (length s - length p) s @ p"
    unfolding ends_with_def by (metis append_take_drop_id)
  then show "\<exists>t. s = t @ p" by blast
next
  assume "\<exists>t. s = t @ p"
  then show "ends_with s p" by (auto simp: ends_with_def)
qed

lemma strip_prefix_Some: "strip_prefix s p = Some t \<longleftrightarrow> s = p @ t"
  unfolding strip_prefix_def starts_with_def by (auto dest: sym) (metis append_take_drop_id)

lemma strip_suffix_Some: "strip_suffix s p = Some t \<longleftrightarrow> s = t @ p"
  unfolding strip_suffix_def by (auto simp: ends_with_iff)

lemma whitespace_nonempty: "w \<in> set whitespace_encodings \<Longrightarrow> w \<noteq> []"
  by (auto simp: whitespace_encodings_def)

lemma leading_whitespace_Some:
  "leading_whitespace s = Some w \<Longrightarrow> w \<in> set whitespace_encodings \<and> (\<exists>t. s = w @ t)"
  by (auto simp: leading_whitespace_def find_Some_iff starts_with_iff)

lemma trailing_whitespace_Some:
  "trailing_whitespace s = Some w \<Longrightarrow> w \<in> set whitespace_encodings \<and> (\<exists>t. s = t @ w)"
  by (auto simp: trailing_whitespace_def find_Some_iff ends_with_iff)

function trim_start :: "string \<Rightarrow> string" where
  "trim_start s = (case leading_whitespace s of None \<Rightarrow> s | Some w \<Rightarrow> trim_start (drop (length w) s))"
  by pat_completeness auto
termination
  by (relation "measure length")
     (auto dest!: leading_whitespace_Some dest: whitespace_nonempty)

function trim_end :: "string \<Rightarrow> string" where
  "trim_end s =
     (case trailing_whitespace s of None \<Rightarrow> s | Some w \<Rightarrow> trim_end (take (length s - length w) s))"
  by pat_completeness auto
termination
  by (relation "measure length")
     (auto dest!: trailing_whitespace_Some dest: whitespace_nonempty)

declare trim_start.simps [simp del] trim_end.simps [simp del]

definition trim :: "string \<Rightarrow> string" where
  "trim s = trim_end (trim_start s)"

lemma trim_start_no_leading: "leading_whitespace (trim_start s) = None"
proof (induction s rule: trim_start.induct)
  case (1 s)
  then show ?case
    by (cases "leading_whitespace s") (simp_all add: trim_start.simps [of s])
qed

lemma trim_end_no_trailing: "trailing_whitespace (trim_end s) = None"
proof (induction s rule: trim_end.induct)
  case (1 s)
  then show ?case
    by (cases "trailing_whitespace s") (simp_all add: trim_end.simps [of s])
qed

lemma trim_end_prefix: "\<exists>t. s = trim_end s @ t"
proof (induction s rule: trim_end.induct)
  case (1 s)
  show ?case
  proof (cases "trailing_whitespace s")
    case None
    then show ?thesis by (simp add: trim_end.simps [of s])
  next
    case (Some w)
    with "1.IH" obtain t where "take (length s - length w) s = trim_end s @ t"
      by (auto simp: trim_end.simps [of s])
    then show ?thesis by (metis append_assoc append_take_drop_id)
  qed
qed

lemma leading_whitespace_prefix: "leading_whitespace (s @ t) = None \<Longrightarrow> leading_whitespace s = None"
  by (auto simp: leading_whitespace_def find_None_iff starts_with_iff)

lemma trim_id: "leading_whitespace s = None \<Longrightarrow> trailing_whitespace s = None \<Longrightarrow> trim s = s"
  by (simp add: trim_def trim_start.simps [of s] trim_end.simps [of s])

lemma trim_idempotent: "trim (trim s) = trim s"
proof (rule trim_id)
  obtain t where "trim_start s = trim s @ t"
    using trim_end_prefix [of "trim_start s"] by (auto simp: trim_def)
  then show "leading_whitespace (trim s) = None"
    using trim_start_no_leading [of s] leading_whitespace_prefix by metis
  show "trailing_whitespace (trim s) = None"
    by (simp add: trim_def trim_end_no_trailing)
qed

section \<open>Case\<close>

definition ascii_lower :: "char \<Rightarrow> char" where
  "ascii_lower c =
     (let b = (of_char c :: nat) in if 65 \<le> b \<and> b \<le> 90 then char_of (b + 32) else c)"

text \<open>
  \<open>str::to_lowercase\<close> for the comparisons with ASCII names that follow it: the ASCII letters
  and the one other character whose lower case is ASCII, the Kelvin sign (\<open>E2 84 AA\<close>, lower
  case \<open>k\<close>).  Every other character lower-cases to a text with a non-ASCII character, as it
  stands here, and so differs from an ASCII name in both.
\<close>

fun to_lowercase :: "string \<Rightarrow> string" where
  "to_lowercase [] = []"
| "to_lowercase (c # cs) =
     (if c = CHR 0xE2 \<and> take 2 cs = [CHR 0x84, CHR 0xAA] then CHR ''k'' # to_lowercase (drop 2 cs)
      else ascii_lower c # to_lowercase cs)"

section \<open>Control characters\<close>

text \<open>\<open>char::is_control\<close>: \<open>U+0000..=U+001F\<close>, \<open>U+007F\<close> and \<open>U+0080..=U+009F\<close>.\<close>

fun has_control :: "string \<Rightarrow> bool" where
  "has_control [] = False"
| "has_control (c # cs) =
     (of_char c < (32 :: nat) \<or> c = CHR 0x7F \<or>
      (c = CHR 0xC2 \<and> (case cs of [] \<Rightarrow> False | d # _ \<Rightarrow> (128 :: nat) \<le> of_char d \<and> of_char d < (160 :: nat))) \<or>
      has_control cs)"

lemma no_control_no_nul: "\<not> has_control s \<Longrightarrow> CHR 0x00 \<notin> set s"
proof (induction s)
  case (Cons c cs)
  have "(of_char (CHR 0x00) :: nat) < 32" by simp
  with Cons show ?case by fastforce
qed simp

section \<open>Characters\<close>

text \<open>The number of bytes of the character that starts with byte \<open>b\<close>.\<close>

definition utf8_len :: "char \<Rightarrow> nat" where
  "utf8_len b = (if of_char b < (128 :: nat) then 1 else if of_char b < (224 :: nat) then 2
                 else if of_char b < (240 :: nat) then 3 else 4)"

end
