(* ===== verification/Detect.thy ===== *)
theory Detect
  imports RustText
begin

text \<open>
  Agents and their labels (\<open>src/detect/mod.rs\<close>): the states of a terminal's agent, the known
  agents, the label of each, the lookup of an agent by a label or a process name, and the table of
  the integrations whose hooks own the whole life cycle of an agent.
\<close>

datatype agent_state = Idle | Working | Blocked | Unknown

record agent_detection =
  det_state :: agent_state
  det_skip_state_update :: bool
  det_visible_idle :: bool
  det_visible_blocker :: bool
  det_visible_working :: bool

datatype agent =
    Pi | Claude | Codex | Gemini | Cursor | Devin | Antigravity | Cline | Omp | Mastracode
  | OpenCode | GithubCopilot | Kimi | Kiro | Droid | Amp | Grok | Hermes | Kilo | Qodercli | Maki

definition screen_manifest_agents :: "agent list" where
  "screen_manifest_agents =
     [Pi, Claude, Codex, Gemini, Cursor, Devin, Antigravity, Cline, OpenCode, GithubCopilot, Kimi,
      Kiro, Droid, Amp, Grok, Hermes, Kilo, Qodercli, Maki]"

fun agent_label :: "agent \<Rightarrow> string" where
  "agent_label Pi = ''pi''"
| "agent_label Claude = ''claude''"
| "agent_label Codex = ''codex''"
| "agent_label Gemini = ''gemini''"
| "agent_label Cursor = ''cursor''"
| "agent_label Devin = ''devin''"
| "agent_label Antigravity = ''agy''"
| "agent_label Cline = ''cline''"
| "agent_label Omp = ''omp''"
| "agent_label Mastracode = ''mastracode''"
| "agent_label OpenCode = ''opencode''"
| "agent_label GithubCopilot = ''copilot''"
| "agent_label Kimi = ''kimi''"
| "agent_label Kiro = ''kiro''"
| "agent_label Droid = ''droid''"
| "agent_label Amp = ''amp''"
| "agent_label Grok = ''grok''"
| "agent_label Hermes = ''hermes''"
| "agent_label Kilo = ''kilo''"
| "agent_label Qodercli = ''qodercli''"
| "agent_label Maki = ''maki''"

definition lookup_agent :: "string \<Rightarrow> agent option" where
  "lookup_agent name =
     (if name = ''pi'' then Some Pi
      else if name \<in> set [''claude'', ''claude-code''] then Some Claude
      else if name = ''codex'' then Some Codex
      else if name = ''gemini'' then Some Gemini
      else if name \<in> set [''cursor'', ''cursor-agent''] then Some Cursor
      else if name \<in> set [''devin'', ''devin-cli'', ''devin cli''] then Some Devin
      else if name \<in> set [''agy'', ''antigravity'', ''antigravity-cli''] then Some Antigravity
      else if name = ''cline'' then Some Cline
      else if name = ''omp'' then Some Omp
      else if name \<in> set [''mastracode'', ''mastra-code'', ''mastra code''] then Some Mastracode
      else if name \<in> set [''opencode'', ''open-code''] then Some OpenCode
      else if name \<in> set [''copilot'', ''github-copilot'', ''ghcs''] then Some GithubCopilot
      else if name \<in> set [''kimi'', ''kimi-code'', ''kimi code''] then Some Kimi
      else if name \<in> set [''kiro'', ''kiro-cli''] then Some Kiro
      else if name = ''droid'' then Some Droid
      else if name \<in> set [''amp'', ''amp-local''] then Some Amp
      else if name \<in> set [''grok'', ''grok-build''] then Some Grok
      else if name \<in> set [''hermes'', ''hermes-agent''] then Some Hermes
      else if name \<in> set [''kilo'', ''kilo-code'', ''kilo code''] then Some Kilo
      else if name \<in> set [''qodercli'', ''qoderclicn'', ''qoder'', ''qodercn''] then Some Qodercli
      else if name = ''maki'' then Some Maki
      else None)"

fun strip_first_suffix :: "string list \<Rightarrow> string \<Rightarrow> string" where
  "strip_first_suffix [] name = name"
| "strip_first_suffix (suffix # rest) name =
     (if ends_with name suffix then take (length name - length suffix) name
      else strip_first_suffix rest name)"

definition normalized_agent_lookup_name :: "string \<Rightarrow> string" where
  "normalized_agent_lookup_name name =
     strip_first_suffix [''.exe'', ''.cmd'', ''.bat'', ''.ps1'', ''.js''] (to_lowercase (trim name))"

definition parse_canonical_agent_label :: "string \<Rightarrow> agent option" where
  "parse_canonical_agent_label label =
     (case lookup_agent label of None \<Rightarrow> None
      | Some agent \<Rightarrow> then_some (agent_label agent = label) agent)"

definition parse_agent_label :: "string \<Rightarrow> agent option" where
  "parse_agent_label agent =
     (let name = normalized_agent_lookup_name agent
      in or_else (parse_canonical_agent_label name) (lookup_agent name))"

definition identify_agent :: "string \<Rightarrow> agent option" where
  "identify_agent process_name = parse_agent_label process_name"

definition full_lifecycle_hook_authority :: "string \<Rightarrow> string \<Rightarrow> bool" where
  "full_lifecycle_hook_authority source label =
     ((source, label) \<in> set
       [(''herdr:pi'', ''pi''), (''herdr:omp'', ''omp''), (''herdr:mastracode'', ''mastracode''),
        (''herdr:hermes'', ''hermes''), (''herdr:opencode'', ''opencode''),
        (''herdr:kilo'', ''kilo''), (''herdr:kimi'', ''kimi'')])"

section \<open>Labels\<close>

lemma lookup_agent_label: "lookup_agent (agent_label a) = Some a"
  by (cases a) (simp_all add: lookup_agent_def)

lemma agent_label_inj: "agent_label a = agent_label b \<Longrightarrow> a = b"
  by (metis lookup_agent_label option.inject)

lemma parse_canonical_iff: "parse_canonical_agent_label s = Some a \<longleftrightarrow> s = agent_label a"
  by (auto simp: parse_canonical_agent_label_def lookup_agent_label split: option.splits)

lemma normalized_agent_label: "normalized_agent_lookup_name (agent_label a) = agent_label a"
proof -
  have "trim (agent_label a) = agent_label a"
    by (rule trim_id; cases a)
       (simp_all add: leading_whitespace_def trailing_whitespace_def whitespace_encodings_def
         starts_with_def ends_with_def)
  moreover have "to_lowercase (agent_label a) = agent_label a"
    by (cases a) (simp_all add: ascii_lower_def)
  moreover have "strip_first_suffix [''.exe'', ''.cmd'', ''.bat'', ''.ps1'', ''.js''] (agent_label a)
      = agent_label a"
    by (cases a) (simp_all add: ends_with_def)
  ultimately show ?thesis by (simp add: normalized_agent_lookup_name_def)
qed

lemma parse_agent_label_label: "parse_agent_label (agent_label a) = Some a"
  unfolding parse_agent_label_def Let_def normalized_agent_label
  using parse_canonical_iff [of "agent_label a" a] by simp

text \<open>The canonical detour never changes the outcome: a label is looked up in the table.\<close>

lemma parse_agent_label_lookup: "parse_agent_label s = lookup_agent (normalized_agent_lookup_name s)"
proof (cases "parse_canonical_agent_label (normalized_agent_lookup_name s)")
  case None
  then show ?thesis by (simp add: parse_agent_label_def Let_def)
next
  case (Some a)
  then have "normalized_agent_lookup_name s = agent_label a" by (simp add: parse_canonical_iff)
  with Some show ?thesis by (simp add: parse_agent_label_def Let_def lookup_agent_label)
qed

lemma full_lifecycle_parses:
  "full_lifecycle_hook_authority source label \<Longrightarrow>
   \<exists>a. parse_agent_label label = Some a \<and> label = agent_label a \<and> source = ''herdr:'' @ label"
proof -
  assume "full_lifecycle_hook_authority source label"
  then have "\<exists>a \<in> set [Pi, Omp, Mastracode, Hermes, OpenCode, Kilo, Kimi].
      label = agent_label a \<and> source = ''herdr:'' @ label"
    by (auto simp: full_lifecycle_hook_authority_def)
  then show ?thesis using parse_agent_label_label by blast
qed

lemma full_lifecycle_source_unique:
  "full_lifecycle_hook_authority source l1 \<Longrightarrow> full_lifecycle_hook_authority source l2 \<Longrightarrow> l1 = l2"
  by (auto dest!: full_lifecycle_parses)

end
