(* ===== verification/AgentResume.thy ===== *)
theory AgentResume
  imports Detect
begin

text \<open>
  Agent sessions that survive a restart (\<open>src/agent_resume.rs\<close>): which reports carry a session
  reference, which references are valid, and the command line that resumes one.  Absolute paths
  are those of Unix.
\<close>

datatype session_ref_kind = KindId | KindPath

record agent_session_ref =
  sr_kind :: session_ref_kind
  sr_value :: string

record agent_resume_plan =
  plan_agent :: string
  plan_argv :: "string list"
  plan_dedupe_key :: string

record persisted_agent_session =
  ps_source :: string
  ps_agent :: string
  ps_session_ref :: agent_session_ref

definition MAX_SESSION_ID_LEN :: nat where "MAX_SESSION_ID_LEN = 512"
definition MAX_SESSION_PATH_LEN :: nat where "MAX_SESSION_PATH_LEN = 4096"

definition is_official_agent_source :: "string \<Rightarrow> string \<Rightarrow> bool" where
  "is_official_agent_source source agent =
     ((source, agent) \<in> set
       [(''herdr:claude'', ''claude''), (''herdr:codex'', ''codex''),
        (''herdr:copilot'', ''copilot''), (''herdr:devin'', ''devin''),
        (''herdr:droid'', ''droid''), (''herdr:kimi'', ''kimi''), (''herdr:omp'', ''omp''),
        (''herdr:mastracode'', ''mastracode''), (''herdr:pi'', ''pi''),
        (''herdr:hermes'', ''hermes''), (''herdr:opencode'', ''opencode''),
        (''herdr:qodercli'', ''qodercli''), (''herdr:kilo'', ''kilo''),
        (''herdr:cursor'', ''cursor'')])"

definition is_reserved_native_state_source :: "string \<Rightarrow> string \<Rightarrow> bool" where
  "is_reserved_native_state_source source agent =
     ((source, agent) \<in> set
       [(''herdr:claude'', ''claude''), (''herdr:codex'', ''codex''),
        (''herdr:copilot'', ''copilot''), (''herdr:devin'', ''devin''),
        (''herdr:droid'', ''droid''), (''herdr:qodercli'', ''qodercli''),
        (''herdr:cursor'', ''cursor'')])"

definition valid_session_id :: "string \<Rightarrow> bool" where
  "valid_session_id v \<longleftrightarrow> v \<noteq> [] \<and> length v \<le> MAX_SESSION_ID_LEN \<and> \<not> has_control v"

definition valid_session_path :: "string \<Rightarrow> bool" where
  "valid_session_path v \<longleftrightarrow>
     v \<noteq> [] \<and> length v \<le> MAX_SESSION_PATH_LEN \<and> \<not> has_control v \<and> starts_with v ''/''"

definition session_ref_id :: "string \<Rightarrow> agent_session_ref option" where
  "session_ref_id v = then_some (valid_session_id v) \<lparr>sr_kind = KindId, sr_value = v\<rparr>"

definition session_ref_path :: "string \<Rightarrow> agent_session_ref option" where
  "session_ref_path v = then_some (valid_session_path v) \<lparr>sr_kind = KindPath, sr_value = v\<rparr>"

definition session_ref_from_report ::
  "string \<Rightarrow> string \<Rightarrow> string option \<Rightarrow> string option \<Rightarrow> agent_session_ref option" where
  "session_ref_from_report source agent agent_session_id agent_session_path =
     (if \<not> is_official_agent_source source agent then None
      else if agent = ''pi'' \<or> agent = ''omp''
      then or_else (Option.bind agent_session_path session_ref_path)
                   (Option.bind agent_session_id session_ref_id)
      else Option.bind agent_session_id session_ref_id)"

definition normalize_session_start_source :: "string option \<Rightarrow> string option" where
  "normalize_session_start_source v =
     (case map_option trim v of
        None \<Rightarrow> None
      | Some s \<Rightarrow>
          if s \<in> set [''startup'', ''resume'', ''clear'', ''compact'', ''new'', ''fork'']
          then Some s else None)"

definition session_ref_from_snapshot ::
  "string \<Rightarrow> string \<Rightarrow> session_ref_kind \<Rightarrow> string \<Rightarrow> persisted_agent_session option" where
  "session_ref_from_snapshot source agent kind v =
     (if \<not> is_official_agent_source source agent then None
      else case (if (agent = ''pi'' \<or> agent = ''omp'') \<and> kind = KindPath then session_ref_path v
                 else if kind = KindId then session_ref_id v
                 else None) of
             None \<Rightarrow> None
           | Some r \<Rightarrow> Some \<lparr>ps_source = source, ps_agent = agent, ps_session_ref = r\<rparr>)"

fun kind_debug :: "session_ref_kind \<Rightarrow> string" where
  "kind_debug KindId = ''Id''"
| "kind_debug KindPath = ''Path''"

definition dedupe_key :: "string \<Rightarrow> string \<Rightarrow> agent_session_ref \<Rightarrow> string" where
  "dedupe_key source agent r =
     source @ [CHR 0x00] @ agent @ [CHR 0x00] @ kind_debug (sr_kind r) @ [CHR 0x00] @ sr_value r"

text \<open>The \<open>match\<close> of \<open>plan\<close>: the command line of each integration.\<close>

definition resume_argv :: "string \<Rightarrow> string \<Rightarrow> agent_session_ref \<Rightarrow> string list option" where
  "resume_argv source agent r =
     (let v = sr_value r; ident = (sr_kind r = KindId)
      in if source = ''herdr:claude'' \<and> agent = ''claude'' \<and> ident
         then Some [''claude'', ''--resume'', v]
         else if source = ''herdr:codex'' \<and> agent = ''codex'' \<and> ident
         then Some [''codex'', ''resume'', v]
         else if source = ''herdr:copilot'' \<and> agent = ''copilot'' \<and> ident
         then Some [''copilot'', ''--resume='' @ v]
         else if source = ''herdr:devin'' \<and> agent = ''devin'' \<and> ident
         then Some [''devin'', ''--resume'', v]
         else if source = ''herdr:droid'' \<and> agent = ''droid'' \<and> ident
         then Some [''droid'', ''--resume'', v]
         else if source = ''herdr:kimi'' \<and> agent = ''kimi'' \<and> ident
         then Some [''kimi'', ''--session'', v]
         else if source = ''herdr:mastracode'' \<and> agent = ''mastracode'' \<and> ident
         then Some [''mastracode'', ''--thread'', v]
         else if source = ''herdr:pi'' \<and> agent = ''pi''
         then Some [''pi'', ''--session'', v]
         else if source = ''herdr:omp'' \<and> agent = ''omp''
         then Some [''omp'', ''--resume='' @ v]
         else if source = ''herdr:hermes'' \<and> agent = ''hermes'' \<and> ident
         then Some [''hermes'', ''--resume'', v]
         else if source = ''herdr:opencode'' \<and> agent = ''opencode'' \<and> ident
         then Some [''opencode'', ''--session'', v]
         else if source = ''herdr:qodercli'' \<and> agent = ''qodercli'' \<and> ident
         then Some [''qodercli'', ''--resume'', v]
         else if source = ''herdr:kilo'' \<and> agent = ''kilo'' \<and> ident
         then Some [''kilo'', ''--session'', v]
         else if source = ''herdr:cursor'' \<and> agent = ''cursor'' \<and> ident
         then Some [''cursor-agent'', ''--resume'', v]
         else None)"

definition plan :: "string \<Rightarrow> string \<Rightarrow> agent_session_ref \<Rightarrow> agent_resume_plan option" where
  "plan source agent r =
     (if \<not> is_official_agent_source source agent then None
      else case resume_argv source agent r of
             None \<Rightarrow> None
           | Some argv \<Rightarrow>
               Some \<lparr>plan_agent = agent, plan_argv = argv, plan_dedupe_key = dedupe_key source agent r\<rparr>)"

section \<open>Lemmas\<close>

text \<open>What a session reference that a report or a snapshot yields looks like.\<close>

definition valid_session_ref :: "agent_session_ref \<Rightarrow> bool" where
  "valid_session_ref r \<longleftrightarrow>
     (case sr_kind r of KindId \<Rightarrow> valid_session_id (sr_value r)
                      | KindPath \<Rightarrow> valid_session_path (sr_value r))"

definition resumable :: "string \<Rightarrow> session_ref_kind \<Rightarrow> bool" where
  "resumable agent kind \<longleftrightarrow> kind = KindId \<or> agent = ''pi'' \<or> agent = ''omp''"

lemma official_source: "is_official_agent_source source agent \<Longrightarrow> source = ''herdr:'' @ agent"
  by (auto simp: is_official_agent_source_def)

lemma official_agent_known: "is_official_agent_source source agent \<Longrightarrow> \<exists>a. agent = agent_label a"
proof -
  assume "is_official_agent_source source agent"
  then have "\<exists>a \<in> set [Claude, Codex, GithubCopilot, Devin, Droid, Kimi, Omp, Mastracode, Pi, Hermes,
      OpenCode, Qodercli, Kilo, Cursor]. agent = agent_label a"
    by (auto simp: is_official_agent_source_def)
  then show ?thesis by blast
qed

lemma full_lifecycle_official:
  "full_lifecycle_hook_authority source agent \<Longrightarrow> is_official_agent_source source agent"
  by (auto simp: full_lifecycle_hook_authority_def is_official_agent_source_def)

lemma reserved_official:
  "is_reserved_native_state_source source agent \<Longrightarrow> is_official_agent_source source agent"
  by (auto simp: is_reserved_native_state_source_def is_official_agent_source_def)

text \<open>No integration both owns the life cycle through hooks and leaves the state to the screen.\<close>

lemma reserved_not_full_lifecycle:
  "is_reserved_native_state_source source agent \<Longrightarrow> \<not> full_lifecycle_hook_authority source agent"
  by (auto simp: full_lifecycle_hook_authority_def is_reserved_native_state_source_def)

lemma official_partition:
  "is_official_agent_source source agent \<longleftrightarrow>
   is_reserved_native_state_source source agent \<or> full_lifecycle_hook_authority source agent"
  by (auto simp: full_lifecycle_hook_authority_def is_reserved_native_state_source_def
      is_official_agent_source_def)

lemma resume_argv_official:
  assumes "is_official_agent_source source agent"
  shows "resume_argv source agent r \<noteq> None \<longleftrightarrow> resumable agent (sr_kind r)"
  using assms unfolding is_official_agent_source_def
  by (simp only: list.set insert_iff empty_iff prod.inject simp_thms)
     (elim disjE conjE; simp add: resume_argv_def resumable_def Let_def)

lemma plan_Some_iff:
  "plan source agent r \<noteq> None \<longleftrightarrow>
   is_official_agent_source source agent \<and> resumable agent (sr_kind r)"
  using resume_argv_official [of source agent r] by (auto simp: plan_def split: option.splits)

lemma session_ref_id_Some:
  "session_ref_id v = Some r \<longleftrightarrow> valid_session_id v \<and> r = \<lparr>sr_kind = KindId, sr_value = v\<rparr>"
  by (auto simp: session_ref_id_def)

lemma session_ref_path_Some:
  "session_ref_path v = Some r \<longleftrightarrow> valid_session_path v \<and> r = \<lparr>sr_kind = KindPath, sr_value = v\<rparr>"
  by (auto simp: session_ref_path_def)

lemmas session_ref_Some = session_ref_id_Some session_ref_path_Some

lemma session_ref_from_report_Some:
  assumes "session_ref_from_report source agent i p = Some r"
  shows "is_official_agent_source source agent \<and> valid_session_ref r \<and> resumable agent (sr_kind r)"
  using assms by (cases "Option.bind p session_ref_path")
    (auto simp: session_ref_from_report_def valid_session_ref_def resumable_def session_ref_Some
      session_ref_path_def bind_eq_Some_conv split: if_splits)

lemma session_ref_from_snapshot_Some:
  assumes "session_ref_from_snapshot source agent kind v = Some s"
  shows "is_official_agent_source source agent \<and> ps_source s = source \<and> ps_agent s = agent \<and>
    sr_kind (ps_session_ref s) = kind \<and> sr_value (ps_session_ref s) = v \<and>
    valid_session_ref (ps_session_ref s) \<and> resumable agent kind"
  using assms by (auto simp: session_ref_from_snapshot_def valid_session_ref_def resumable_def
      session_ref_Some split: if_splits option.splits)

text \<open>A reference that a report yields is restored from a snapshot of it.\<close>

lemma snapshot_of_report:
  assumes "session_ref_from_report source agent i p = Some r"
  shows "session_ref_from_snapshot source agent (sr_kind r) (sr_value r) =
    Some \<lparr>ps_source = source, ps_agent = agent, ps_session_ref = r\<rparr>"
proof -
  have "is_official_agent_source source agent" "valid_session_ref r" "resumable agent (sr_kind r)"
    using session_ref_from_report_Some [OF assms] by auto
  then show ?thesis
    by (cases "sr_kind r")
       (auto simp: session_ref_from_snapshot_def valid_session_ref_def resumable_def
         session_ref_id_def session_ref_path_def intro: agent_session_ref.equality)
qed

text \<open>Keys separate their parts: NUL bytes delimit them, and valid references carry none.\<close>

lemma append_nul_inj:
  "CHR 0x00 \<notin> set xs \<Longrightarrow> CHR 0x00 \<notin> set ys \<Longrightarrow>
   xs @ [CHR 0x00] @ r = ys @ [CHR 0x00] @ s \<longleftrightarrow> xs = ys \<and> r = s"
proof (induction xs arbitrary: ys)
  case Nil
  then show ?case by (cases ys) auto
next
  case (Cons x xs)
  then show ?case by (cases ys) auto
qed

lemma kind_debug_inj: "kind_debug k = kind_debug k' \<longleftrightarrow> k = k'"
  by (cases k; cases k') auto

lemma kind_debug_no_nul: "CHR 0x00 \<notin> set (kind_debug k)"
  by (cases k) auto

lemma dedupe_key_inj:
  assumes "CHR 0x00 \<notin> set s" "CHR 0x00 \<notin> set s'" "CHR 0x00 \<notin> set a" "CHR 0x00 \<notin> set a'"
  shows "dedupe_key s a r = dedupe_key s' a' r' \<longleftrightarrow> s = s' \<and> a = a' \<and> r = r'"
proof -
  have "dedupe_key s a r = dedupe_key s' a' r' \<longleftrightarrow>
      s = s' \<and> a = a' \<and> sr_kind r = sr_kind r' \<and> sr_value r = sr_value r'"
    unfolding dedupe_key_def using assms
    by (simp only: append_nul_inj kind_debug_no_nul kind_debug_inj not_False_eq_True)
  then show ?thesis by auto
qed

lemma official_no_nul:
  "is_official_agent_source source agent \<Longrightarrow> CHR 0x00 \<notin> set source \<and> CHR 0x00 \<notin> set agent"
  by (auto simp: is_official_agent_source_def)

end
