(* ===== verification/MetadataTokens.thy ===== *)
theory MetadataTokens
  imports SeqGate RustText
begin

text \<open>
  Metadata tokens (\<open>src/metadata_tokens.rs\<close>): short texts that a report attaches to a terminal,
  each with an optional deadline, and the gate for numbered reports.  An \<open>Instant\<close> is a number of
  nanoseconds on the monotonic clock; \<open>checked_add\<close> fails beyond 64-bit seconds.
\<close>

type_synonym instant = nat
type_synonym duration = nat

definition instant_checked_add :: "instant \<Rightarrow> duration \<Rightarrow> instant option" where
  "instant_checked_add t d = (if t + d < 2 ^ 63 * 10 ^ 9 then Some (t + d) else None)"

record metadata_token =
  tok_value :: string
  tok_expires_at :: "instant option"

type_synonym metadata_tokens = "(string, metadata_token) hash_map"

definition MAX_SEQUENCE_SOURCES :: nat where "MAX_SEQUENCE_SOURCES = 32"

definition sequence_is_fresh :: "(string, u64) hash_map \<Rightarrow> string \<Rightarrow> u64 option \<Rightarrow> bool" where
  "sequence_is_fresh sequences source seq =
     is_none_or seq (\<lambda>n. is_none_or (map_of sequences source) (\<lambda>last. n > last))"

text \<open>\<open>Result<bool, ()>\<close> with \<open>&mut\<close>: the map after the call, and \<open>None\<close> for \<open>Err(())\<close>.\<close>

definition accept_sequence ::
  "(string, u64) hash_map \<Rightarrow> string \<Rightarrow> u64 option \<Rightarrow> (string, u64) hash_map \<times> bool option" where
  "accept_sequence sequences source seq =
     (case seq of
        None \<Rightarrow> (sequences, Some True)
      | Some n \<Rightarrow>
          if \<not> sequence_is_fresh sequences source (Some n) then (sequences, Some False)
          else if \<not> hm_contains sequences source \<and> MAX_SEQUENCE_SOURCES \<le> length sequences
          then (sequences, None)
          else (AList.update source n sequences, Some True))"

text \<open>One entry of a patch: the tokens and whether this entry changed them.\<close>

definition patch_entry ::
  "instant option \<Rightarrow> string \<times> string option \<Rightarrow> metadata_tokens \<times> bool \<Rightarrow> metadata_tokens \<times> bool" where
  "patch_entry expires_at kv st =
     (case (kv, st) of ((key, v), (entries, changed)) \<Rightarrow>
       (case v of
          Some val \<Rightarrow>
            let token = \<lparr>tok_value = val, tok_expires_at = expires_at\<rparr>
            in if map_of entries key \<noteq> Some token
               then (AList.update key token entries, True) else (entries, changed)
        | None \<Rightarrow> (AList.delete key entries, changed \<or> hm_contains entries key)))"

definition tokens_patch ::
  "metadata_tokens \<Rightarrow> (string, string option) hash_map \<Rightarrow> duration option \<Rightarrow> instant \<Rightarrow>
   metadata_tokens \<times> bool" where
  "tokens_patch entries patch ttl now =
     (let expires_at = Option.bind ttl (\<lambda>d. instant_checked_add now d)
      in fold (patch_entry expires_at) patch (entries, False))"

definition tokens_values :: "metadata_tokens \<Rightarrow> (string, string) hash_map" where
  "tokens_values entries = map (\<lambda>(key, token). (key, tok_value token)) entries"

text \<open>The key set of the loop in \<open>key_count_after_patch\<close>.\<close>

definition patch_keys :: "(string, string option) hash_map \<Rightarrow> string list \<Rightarrow> string list" where
  "patch_keys patch keys =
     fold (\<lambda>(key, v) ks. if v \<noteq> None then List.insert key ks else removeAll key ks) patch keys"

definition key_count_after_patch :: "metadata_tokens \<Rightarrow> (string, string option) hash_map \<Rightarrow> nat" where
  "key_count_after_patch entries patch = length (patch_keys patch (map fst (tokens_values entries)))"

fun min_instant :: "instant list \<Rightarrow> instant option" where
  "min_instant [] = None"
| "min_instant (t # ts) = (case min_instant ts of None \<Rightarrow> Some t | Some u \<Rightarrow> Some (min t u))"

definition tokens_next_expiry :: "metadata_tokens \<Rightarrow> instant option" where
  "tokens_next_expiry entries = min_instant (List.map_filter tok_expires_at (hm_values entries))"

definition tokens_expire_at :: "metadata_tokens \<Rightarrow> instant \<Rightarrow> metadata_tokens \<times> bool" where
  "tokens_expire_at entries now =
     (let kept = filter (\<lambda>(_, token). is_none_or (tok_expires_at token) (\<lambda>deadline. deadline > now)) entries
      in (kept, length kept \<noteq> length entries))"

section \<open>The gate of \<open>accept_sequence\<close>\<close>

definition sequence_gate_step ::
  "(string, u64) hash_map \<Rightarrow> string \<Rightarrow> u64 \<Rightarrow> (string, u64) hash_map \<times> bool" where
  "sequence_gate_step sequences source n =
     (case accept_sequence sequences source (Some n) of (s, r) \<Rightarrow> (s, r = Some True))"

interpretation token_gate: sequence_gate map_of sequence_gate_step
proof
  fix s :: "(string, u64) hash_map" and k n q s'
  show "map_of s k = Some n \<Longrightarrow> q \<le> n \<Longrightarrow> sequence_gate_step s k q = (s, False)"
    by (auto simp: sequence_gate_step_def accept_sequence_def sequence_is_fresh_def not_less)
  show "sequence_gate_step s k q = (s', True) \<Longrightarrow> map_of s' = (map_of s)(k := Some q)"
    by (auto simp: sequence_gate_step_def accept_sequence_def update_conv split: if_splits)
  show "sequence_gate_step s k q = (s', False) \<Longrightarrow> s' = s"
    by (auto simp: sequence_gate_step_def accept_sequence_def split: if_splits)
qed

text \<open>The number of numbered sources stays within the bound.\<close>

lemma accept_sequence_bound:
  assumes "hm_wf m" and "length m \<le> MAX_SEQUENCE_SOURCES" and "accept_sequence m k seq = (m', r)"
  shows "hm_wf m' \<and> length m' \<le> MAX_SEQUENCE_SOURCES"
proof (cases seq)
  case None
  with assms show ?thesis by (simp add: accept_sequence_def)
next
  case (Some n)
  with assms have "m' = m \<or> (m' = AList.update k n m \<and> (hm_contains m k \<or> length m < MAX_SEQUENCE_SOURCES))"
    by (auto simp: accept_sequence_def not_le split: if_splits)
  with assms(1,2) show ?thesis by (auto simp: length_AList_update hm_wf_update)
qed

section \<open>Tokens\<close>

lemma map_fst_tokens_values [simp]: "map fst (tokens_values m) = map fst m"
  by (induction m) (auto simp: tokens_values_def)

lemma map_of_tokens_values: "map_of (tokens_values m) k = map_option tok_value (map_of m k)"
  by (induction m) (auto simp: tokens_values_def)

lemma patch_entry_wf: "hm_wf (fst st) \<Longrightarrow> hm_wf (fst (patch_entry e kv st))"
  by (auto simp: patch_entry_def Let_def hm_wf_update hm_wf_delete split: prod.splits option.splits)

lemma fold_patch_wf: "hm_wf (fst st) \<Longrightarrow> hm_wf (fst (fold (patch_entry e) patch st))"
  by (induction patch arbitrary: st) (simp_all add: patch_entry_wf)

lemma patch_entry_lookup:
  "map_of (fst (patch_entry e (k, v) st)) k' =
   (if k' = k then map_option (\<lambda>val. \<lparr>tok_value = val, tok_expires_at = e\<rparr>) v else map_of (fst st) k')"
  by (cases st; cases v) (auto simp: patch_entry_def Let_def)

text \<open>After a patch every key of the patch has its new token, and every other key its old one.\<close>

lemma fold_patch_lookup:
  assumes "distinct (map fst patch)"
  shows "map_of (fst (fold (patch_entry e) patch st)) k =
    (case map_of patch k of
       None \<Rightarrow> map_of (fst st) k
     | Some v \<Rightarrow> map_option (\<lambda>val. \<lparr>tok_value = val, tok_expires_at = e\<rparr>) v)"
  using assms
proof (induction patch arbitrary: st)
  case (Cons kv patch)
  obtain k0 v0 where kv: "kv = (k0, v0)" by (cases kv)
  have "map_of patch k0 = None" using Cons.prems kv by (simp add: map_of_eq_None_iff)
  then show ?case using Cons.IH [of "patch_entry e kv st"] Cons.prems
    by (auto simp: kv patch_entry_lookup split: option.splits)
qed simp

text \<open>The reported flag: raised exactly when the lookup of some key of the patch changes.\<close>

lemma patch_entry_changed:
  "snd (patch_entry e (k, v) st) \<longleftrightarrow>
   snd st \<or> map_of (fst (patch_entry e (k, v) st)) k \<noteq> map_of (fst st) k"
  by (cases st; cases v) (auto simp: patch_entry_def Let_def hm_contains_def)

lemma fold_patch_changed:
  assumes "distinct (map fst patch)"
  shows "snd (fold (patch_entry e) patch st) \<longleftrightarrow>
    snd st \<or> (\<exists>k. map_of (fst (fold (patch_entry e) patch st)) k \<noteq> map_of (fst st) k)"
  using assms
proof (induction patch arbitrary: st)
  case (Cons kv patch)
  obtain k0 v0 where kv: "kv = (k0, v0)" by (cases kv)
  let ?st = "patch_entry e kv st"
  have dist: "distinct (map fst patch)" and new: "map_of patch k0 = None"
    using Cons.prems kv by (simp_all add: map_of_eq_None_iff)
  have at_k0: "map_of (fst (fold (patch_entry e) patch ?st)) k0 = map_of (fst ?st) k0"
    by (simp add: fold_patch_lookup [OF dist] new)
  have other: "k \<noteq> k0 \<Longrightarrow> map_of (fst ?st) k = map_of (fst st) k" for k
    by (simp add: kv patch_entry_lookup)
  have "snd ?st \<longleftrightarrow> snd st \<or> map_of (fst ?st) k0 \<noteq> map_of (fst st) k0"
    by (simp add: kv patch_entry_changed)
  then show ?case using Cons.IH [OF dist, of ?st] at_k0 other by (metis fold_simps(2))
qed simp

lemma min_instant_None [simp]: "min_instant ts = None \<longleftrightarrow> ts = []"
  by (cases ts) (auto split: option.splits)

lemma min_instant_Some:
  "min_instant ts = Some t \<Longrightarrow> t \<in> set ts \<and> (\<forall>u \<in> set ts. t \<le> u)"
  by (induction ts arbitrary: t) (auto simp: min_def split: option.splits if_splits)

lemma mem_keys: "k \<in> set (map fst m) \<longleftrightarrow> map_of m k \<noteq> None"
  by (metis list.set_map map_of_eq_None_iff)

lemma patch_keys_spec:
  assumes "distinct (map fst patch)" and "distinct ks"
  shows "distinct (patch_keys patch ks) \<and> (\<forall>k. k \<in> set (patch_keys patch ks) \<longleftrightarrow>
    (case map_of patch k of None \<Rightarrow> k \<in> set ks | Some v \<Rightarrow> v \<noteq> None))"
  using assms
proof (induction patch arbitrary: ks)
  case (Cons kv patch)
  obtain k0 v0 where kv: "kv = (k0, v0)" by (cases kv)
  have new: "map_of patch k0 = None" using Cons.prems kv by (simp add: map_of_eq_None_iff)
  let ?ks = "if v0 \<noteq> None then List.insert k0 ks else removeAll k0 ks"
  have "distinct ?ks" using Cons.prems by (simp add: distinct_removeAll)
  moreover have "patch_keys (kv # patch) ks = patch_keys patch ?ks"
    by (simp add: patch_keys_def kv)
  ultimately show ?case using Cons.IH [of ?ks] Cons.prems new
    by (auto simp: kv split: option.splits)
qed (simp add: patch_keys_def)

text \<open>The count announced before a patch is the number of tokens after it.\<close>

lemma key_count_after_patch_correct:
  assumes "hm_wf m" and "hm_wf patch"
  shows "key_count_after_patch m patch = length (fst (tokens_patch m patch ttl now))"
proof -
  let ?m' = "fst (tokens_patch m patch ttl now)" and ?ks = "patch_keys patch (map fst m)"
  have dist: "distinct (map fst patch)" using assms(2) by (simp add: hm_wf_def)
  have ks: "distinct ?ks" "k \<in> set ?ks \<longleftrightarrow>
      (case map_of patch k of None \<Rightarrow> k \<in> set (map fst m) | Some v \<Rightarrow> v \<noteq> None)" for k
    using patch_keys_spec [OF dist, of "map fst m"] assms(1) by (auto simp: hm_wf_def)
  have m': "hm_wf ?m'" using assms(1) by (simp add: tokens_patch_def Let_def fold_patch_wf)
  have "map_of ?m' k \<noteq> None \<longleftrightarrow> k \<in> set ?ks" for k
    unfolding ks(2) mem_keys tokens_patch_def Let_def fold_patch_lookup [OF dist]
    by (cases "map_of patch k") simp_all
  then have "k \<in> set (map fst ?m') \<longleftrightarrow> k \<in> set ?ks" for k
    unfolding mem_keys by blast
  then have "set ?ks = set (map fst ?m')" by blast
  then have "length ?ks = length (map fst ?m')"
    using ks(1) m' by (metis distinct_card hm_wf_def)
  then show ?thesis by (simp add: key_count_after_patch_def)
qed

lemma tokens_expire_at_lookup:
  assumes "hm_wf m"
  shows "map_of (fst (tokens_expire_at m now)) k =
    option_filter (\<lambda>t. is_none_or (tok_expires_at t) (\<lambda>d. now < d)) (map_of m k)"
  using assms
  by (induction m) (auto simp: tokens_expire_at_def Let_def option_filter_def hm_wf_def
      map_of_eq_None_iff split: option.splits)

text \<open>Once the next deadline is reached the expiry drops a token; before it, it drops none.\<close>

lemma tokens_next_expiry_drops:
  assumes "tokens_next_expiry m = Some t"
  shows "snd (tokens_expire_at m now) \<longleftrightarrow> t \<le> now"
proof -
  have mem: "u \<in> set (List.map_filter tok_expires_at (hm_values m)) \<longleftrightarrow>
      (\<exists>k tok. (k, tok) \<in> set m \<and> tok_expires_at tok = Some u)" for u
    by (force simp: List.map_filter_def hm_values_def)
  note min = min_instant_Some [OF assms [unfolded tokens_next_expiry_def]]
  from min have t: "\<exists>k tok. (k, tok) \<in> set m \<and> tok_expires_at tok = Some t"
    unfolding mem by blast
  have least: "t \<le> u" if "(k, tok) \<in> set m" "tok_expires_at tok = Some u" for k tok u
    using min that mem [of u] by blast
  let ?P = "\<lambda>(_ :: string, tok). is_none_or (tok_expires_at tok) (\<lambda>d. d > now)"
  have "snd (tokens_expire_at m now) \<longleftrightarrow> (\<exists>x \<in> set m. \<not> ?P x)"
    unfolding tokens_expire_at_def Let_def snd_conv length_filter_neq ..
  also have "\<dots> \<longleftrightarrow> t \<le> now"
  proof
    assume "\<exists>x \<in> set m. \<not> ?P x"
    then show "t \<le> now" using least by (fastforce simp: is_none_or_iff not_less)
  next
    assume "t \<le> now"
    with t show "\<exists>x \<in> set m. \<not> ?P x" by (force simp: not_less)
  qed
  finally show ?thesis .
qed

end
