(* ===== verification/SessionProps.thy ===== *)
theory SessionProps
  imports AgentResume MetadataTokens
begin

text \<open>
  The properties of agent labels (\<open>src/detect/mod.rs\<close>), of the resumption of agent sessions
  (\<open>src/agent_resume.rs\<close>) and of metadata tokens (\<open>src/metadata_tokens.rs\<close>).
\<close>

section \<open>Facts the properties share\<close>

lemma resume_argv_data:
  "resume_argv source agent r = Some argv \<Longrightarrow> 2 \<le> length argv \<and> (\<exists>pre. last argv = pre @ sr_value r)"
  unfolding resume_argv_def Let_def by (auto split: if_splits)

definition claude_ref :: agent_session_ref where
  "claude_ref = \<lparr>sr_kind = KindId, sr_value = ''abc''\<rparr>"

lemma claude_report:
  "session_ref_from_report ''herdr:claude'' ''claude'' (Some ''abc'') None = Some claude_ref"
  by (simp add: session_ref_from_report_def is_official_agent_source_def session_ref_id_def
      valid_session_id_def MAX_SESSION_ID_LEN_def claude_ref_def)

section \<open>Properties\<close>

text \<open>every agent's label parses back to the agent, strictly and with aliases, and the strict parser
  accepts nothing but these labels; the strict and the lenient parser never disagree.\<close>
theorem agent_label_round_trip:
  "parse_agent_label (agent_label a) = Some a \<and>
   (parse_canonical_agent_label s = Some a \<longleftrightarrow> s = agent_label a) \<and>
   parse_agent_label s = lookup_agent (normalized_agent_lookup_name s)"
  using parse_agent_label_label [of a] parse_canonical_iff [of s a] parse_agent_label_lookup [of s]
  by blast

text \<open>a resume plan exists exactly for the sources of official integrations, with a session id, or
  for pi and omp with a path as well; every official integration either owns the life cycle of its
  agent or leaves the state to the screen, and none does both.\<close>
theorem plan_exists_iff:
  "(plan source agent r \<noteq> None \<longleftrightarrow> is_official_agent_source source agent \<and> resumable agent (sr_kind r)) \<and>
   (is_official_agent_source source agent \<longleftrightarrow>
      is_reserved_native_state_source source agent \<noteq> full_lifecycle_hook_authority source agent)"
  using plan_Some_iff [of source agent r] official_partition [of source agent]
    reserved_not_full_lifecycle [of source agent] reserved_official [of source agent]
    full_lifecycle_official [of source agent] by blast

text \<open>C33: a session reference that a report yields survives a snapshot unchanged, can always be resumed, and
  its value reaches the command line of the resumed agent as data of one argument.\<close>
theorem reported_session_resumes:
  assumes "session_ref_from_report source agent i p = Some r"
  shows "session_ref_from_snapshot source agent (sr_kind r) (sr_value r) =
      Some \<lparr>ps_source = source, ps_agent = agent, ps_session_ref = r\<rparr> \<and>
    (\<exists>pl. plan source agent r = Some pl \<and> plan_agent pl = agent \<and>
       2 \<le> length (plan_argv pl) \<and> (\<exists>pre. last (plan_argv pl) = pre @ sr_value r))"
proof -
  have ok: "is_official_agent_source source agent" "resumable agent (sr_kind r)"
    using session_ref_from_report_Some [OF assms] by auto
  then obtain argv where argv: "resume_argv source agent r = Some argv"
    using resume_argv_official by blast
  then have "2 \<le> length argv \<and> (\<exists>pre. last argv = pre @ sr_value r)"
    by (rule resume_argv_data)
  with argv ok snapshot_of_report [OF assms] show ?thesis by (simp add: plan_def)
qed

theorem reported_session_resumes_witness:
  "\<exists>pl. plan ''herdr:claude'' ''claude'' claude_ref = Some pl \<and> plan_agent pl = ''claude''"
  using reported_session_resumes [OF claude_report] by blast

text \<open>two sessions whose references come from reports have the same deduplication key only if they are
  the same session of the same source and agent.\<close>
theorem dedupe_key_injective:
  assumes "session_ref_from_report source agent i p = Some r"
    and "session_ref_from_report source' agent' i' p' = Some r'"
  shows "dedupe_key source agent r = dedupe_key source' agent' r' \<longleftrightarrow>
    source = source' \<and> agent = agent' \<and> r = r'"
  using session_ref_from_report_Some [OF assms(1)] session_ref_from_report_Some [OF assms(2)]
  by (intro dedupe_key_inj) (auto dest: official_no_nul)

theorem dedupe_key_injective_witness:
  "dedupe_key ''herdr:claude'' ''claude'' claude_ref = dedupe_key ''herdr:claude'' ''claude'' claude_ref"
  using dedupe_key_injective [OF claude_report claude_report] by simp

text \<open>C32: of any stream of numbered token reports the gate lets pass only strictly increasing numbers of a
  source, and the number of sources it remembers never exceeds its bound.\<close>
theorem token_sequences_increase:
  assumes "gate_run sequence_gate_step m reports = (m', accepted)"
    and "hm_wf m" and "length m \<le> MAX_SEQUENCE_SOURCES"
  shows "sorted_wrt (<) (numbers_of source accepted) \<and> length m' \<le> MAX_SEQUENCE_SOURCES"
proof -
  have "hm_wf m' \<and> length m' \<le> MAX_SEQUENCE_SOURCES"
    using assms
  proof (induction reports arbitrary: m accepted)
    case (Cons r reports)
    obtain k q where r: "r = (k, q)" by (cases r)
    obtain m1 ok where g: "sequence_gate_step m k q = (m1, ok)" by fastforce
    obtain out where run: "gate_run sequence_gate_step m1 reports = (m', out)"
      using Cons.prems(1) r g by (auto split: prod.splits)
    obtain res where "accept_sequence m k (Some q) = (m1, res)"
      using g by (auto simp: sequence_gate_step_def split: prod.splits)
    with accept_sequence_bound [OF Cons.prems(2,3)] Cons.IH [OF run] show ?case by blast
  qed simp
  with token_gate.run_strictly_increasing [OF assms(1)] show ?thesis by simp
qed

theorem token_sequences_increase_witness:
  "numbers_of ''a'' (snd (gate_run sequence_gate_step [] [(''a'', 3), (''a'', 1), (''a'', 4)])) = [3, 4] \<and>
   sorted_wrt (<) (numbers_of ''a'' (snd (gate_run sequence_gate_step [] [(''a'', 3), (''a'', 1), (''a'', 4)])))"
  using token_sequences_increase [OF prod.collapse [symmetric],
      where source = "''a''", of "[]" "[(''a'', 3), (''a'', 1), (''a'', 4)]"]
  by (simp add: sequence_gate_step_def accept_sequence_def sequence_is_fresh_def hm_contains_def
      MAX_SEQUENCE_SOURCES_def)

text \<open>a patch of the tokens gives every key of the patch its new value or removes it, leaves every other
  token as it was, reports a change exactly when some token differs, and the count of keys announced
  before it is the count after it.\<close>
theorem tokens_patch_correct:
  assumes "hm_wf m" and "hm_wf patch"
  shows "map_of (fst (tokens_patch m patch ttl now)) k =
      (case map_of patch k of
         None \<Rightarrow> map_of m k
       | Some v \<Rightarrow> map_option (\<lambda>val. \<lparr>tok_value = val,
           tok_expires_at = Option.bind ttl (instant_checked_add now)\<rparr>) v) \<and>
    (snd (tokens_patch m patch ttl now) \<longleftrightarrow>
      map_of (fst (tokens_patch m patch ttl now)) \<noteq> map_of m) \<and>
    key_count_after_patch m patch = length (fst (tokens_patch m patch ttl now))"
proof -
  have dist: "distinct (map fst patch)" using assms(2) by (simp add: hm_wf_def)
  let ?e = "Option.bind ttl (\<lambda>d. instant_checked_add now d)"
  have "snd (tokens_patch m patch ttl now) \<longleftrightarrow>
      map_of (fst (tokens_patch m patch ttl now)) \<noteq> map_of m"
    using fold_patch_changed [OF dist, of ?e "(m, False)"] by (auto simp: tokens_patch_def Let_def)
  then show ?thesis
    using fold_patch_lookup [OF dist, of ?e "(m, False)" k] key_count_after_patch_correct [OF assms]
    by (simp add: tokens_patch_def Let_def split: option.split)
qed

theorem tokens_patch_correct_witness:
  "key_count_after_patch [] [(''a'', Some ''1''), (''b'', None)] = 1 \<and>
   length (fst (tokens_patch [] [(''a'', Some ''1''), (''b'', None)] None 5)) = 1"
  using tokens_patch_correct [of "[]" "[(''a'', Some ''1''), (''b'', None)]" None 5]
  by (simp add: hm_wf_def key_count_after_patch_def patch_keys_def tokens_values_def)

text \<open>the expiry removes exactly the tokens whose deadline has been reached, and it removes one exactly
  from the next deadline on that was announced for scheduling.\<close>
theorem tokens_expiry_correct:
  assumes "hm_wf m" and "tokens_next_expiry m = Some t"
  shows "map_of (fst (tokens_expire_at m now)) k =
      option_filter (\<lambda>tok. is_none_or (tok_expires_at tok) (\<lambda>d. now < d)) (map_of m k) \<and>
    (snd (tokens_expire_at m now) \<longleftrightarrow> t \<le> now)"
  using tokens_expire_at_lookup [OF assms(1)] tokens_next_expiry_drops [OF assms(2)] by blast

theorem tokens_expiry_correct_witness:
  "snd (tokens_expire_at [(''a'', \<lparr>tok_value = ''1'', tok_expires_at = Some 7\<rparr>)] 7)"
  using tokens_expiry_correct [of "[(''a'', \<lparr>tok_value = ''1'', tok_expires_at = Some 7\<rparr>)]" 7 7]
  by (simp add: hm_wf_def tokens_next_expiry_def hm_values_def List.map_filter_def)

end
