(* ===== verification/Terminal.thy ===== *)
theory Terminal
  imports AgentResume MetadataTokens
begin

text \<open>
  The state of a server-owned terminal (\<open>src/terminal/state.rs\<close>, \<open>metadata.rs\<close>, \<open>title.rs\<close>):
  which agent runs in it and in which state, arbitrated between what the hooks of the agent report
  and what the screen shows.  This theory holds the data, the queries and the recomputation of the
  effective state.  \<open>Instant::now()\<close> is an argument; a function that reads the clock twice has two.
\<close>

section \<open>Data\<close>

record hook_authority =
  ha_source :: string
  ha_agent_label :: string
  ha_state :: agent_state
  ha_message :: "string option"
  ha_reported_at :: instant
  ha_session_ref :: "agent_session_ref option"

datatype suppression_reason = HookClear | ProcessExit

record suppressed_report =
  sup_agent_label :: string
  sup_session_ref :: "agent_session_ref option"
  sup_observed_at :: instant
  sup_reason :: suppression_reason

record stale_session =
  stale_agent_label :: string
  stale_session_ref :: agent_session_ref

record effective_presentation =
  ep_title :: "string option"
  ep_display_agent :: "string option"
  ep_state_labels :: "(string, string) hash_map"

record effective_state_change =
  esc_previous_agent_label :: "string option"
  esc_previous_known_agent :: "agent option"
  esc_previous_state :: agent_state
  esc_previous_presentation :: effective_presentation
  esc_agent_label :: "string option"
  esc_known_agent :: "agent option"
  esc_state :: agent_state
  esc_presentation :: effective_presentation

record terminal_title_change =
  raw_changed :: bool
  stripped_changed :: bool

record terminal_mutation =
  tm_effective_state_change :: "effective_state_change option"
  tm_session_ref_changed :: bool

record agent_metadata =
  am_source :: string
  am_agent_label :: "string option"
  am_applies_to_source :: "string option"
  am_title :: "string option"
  am_display_agent :: "string option"
  am_state_labels :: "(string, string) hash_map"
  am_reported_at :: instant
  am_title_reported_at :: "instant option"
  am_display_agent_reported_at :: "instant option"
  am_state_label_reported_at :: "(string, instant) hash_map"
  am_ttl :: "duration option"
  am_expiry_event_pending :: bool

record terminal_state =
  ts_id :: string
  ts_cwd :: string
  ts_detected_agent :: "agent option"
  ts_fallback_state :: agent_state
  ts_fallback_visible_blocker :: bool
  ts_fallback_observed_at :: "instant option"
  ts_hook_authority :: "hook_authority option"
  ts_agent_metadata :: "(string, agent_metadata) hash_map"
  ts_metadata_tokens :: metadata_tokens
  ts_persisted_agent_session :: "persisted_agent_session option"
  ts_terminal_title :: "string option"
  ts_manual_label :: "string option"
  ts_agent_name :: "string option"
  ts_hook_report_sequences :: "(string, u64) hash_map"
  ts_suppressed_reports :: "(string, suppressed_report) hash_map"
  ts_stale_sessions :: "(string, stale_session list) hash_map"
  ts_metadata_report_sequences :: "(string, u64) hash_map"
  ts_metadata_token_sequence_sources :: "string list"
  ts_state :: agent_state
  ts_last_agent_state_change_seq :: "u64 option"
  ts_revision :: u64
  ts_launch_argv :: "string list option"
  ts_respawn_shell_on_exit :: bool
  ts_recent_agent_process_exit_at :: "instant option"
  ts_pending_agent_resume_plan :: "agent_resume_plan option"

definition new_terminal_state :: "string \<Rightarrow> string \<Rightarrow> terminal_state" where
  "new_terminal_state i cwd =
     \<lparr>ts_id = i, ts_cwd = cwd, ts_detected_agent = None, ts_fallback_state = Unknown,
      ts_fallback_visible_blocker = False, ts_fallback_observed_at = None,
      ts_hook_authority = None, ts_agent_metadata = [], ts_metadata_tokens = [],
      ts_persisted_agent_session = None, ts_terminal_title = None, ts_manual_label = None,
      ts_agent_name = None, ts_hook_report_sequences = [], ts_suppressed_reports = [],
      ts_stale_sessions = [], ts_metadata_report_sequences = [],
      ts_metadata_token_sequence_sources = [], ts_state = Unknown,
      ts_last_agent_state_change_seq = None, ts_revision = 0, ts_launch_argv = None,
      ts_respawn_shell_on_exit = False, ts_recent_agent_process_exit_at = None,
      ts_pending_agent_resume_plan = None\<rparr>"

section \<open>Titles\<close>

text \<open>The glyphs of \<open>CLAUDE_ACTIVITY_GLYPHS\<close>, as UTF-8, and the braille patterns \<open>U+2800..=U+28FF\<close>.\<close>

definition claude_activity_glyphs :: "string list" where
  "claude_activity_glyphs =
     [[CHR 0xC2, CHR 0xB7], [CHR 0xE2, CHR 0x9C, CHR 0xA2], [CHR 0xE2, CHR 0x9C, CHR 0xB3],
      [CHR 0xE2, CHR 0x9C, CHR 0xB6], [CHR 0xE2, CHR 0x9C, CHR 0xBB], [CHR 0xE2, CHR 0x9C, CHR 0xBD]]"

definition is_braille :: "string \<Rightarrow> bool" where
  "is_braille c =
     (case c of [a, b, d] \<Rightarrow> a = CHR 0xE2 \<and> (160 :: nat) \<le> of_char b \<and> of_char b \<le> (163 :: nat)
      | _ \<Rightarrow> False)"

definition stripped_terminal_title :: "string \<Rightarrow> string option" where
  "stripped_terminal_title raw =
     (let title = trim raw
      in case title of
           [] \<Rightarrow> None
         | b # _ \<Rightarrow>
             let first = take (utf8_len b) title;
                 after_first = drop (utf8_len b) title;
                 recognized = (is_braille first \<or> first \<in> set claude_activity_glyphs);
                 stripped =
                   (if recognized \<and> (after_first = [] \<or> leading_whitespace after_first \<noteq> None)
                    then trim after_first else title)
             in then_some (stripped \<noteq> []) stripped)"

definition terminal_title_stripped :: "terminal_state \<Rightarrow> string option" where
  "terminal_title_stripped t = Option.bind (ts_terminal_title t) stripped_terminal_title"

definition set_terminal_title ::
  "terminal_state \<Rightarrow> string option \<Rightarrow> terminal_state \<times> terminal_title_change" where
  "set_terminal_title t title =
     (if ts_terminal_title t = title then (t, \<lparr>raw_changed = False, stripped_changed = False\<rparr>)
      else let previous_stripped = terminal_title_stripped t;
               t1 = t\<lparr>ts_terminal_title := title\<rparr>;
               changed = (previous_stripped \<noteq> terminal_title_stripped t1);
               t2 = (if changed then t1\<lparr>ts_revision := ts_revision t1 + 1\<rparr> else t1)
           in (t2, \<lparr>raw_changed = True, stripped_changed = changed\<rparr>))"

definition with_launch_argv :: "terminal_state \<Rightarrow> string list \<Rightarrow> terminal_state" where
  "with_launch_argv t argv = t\<lparr>ts_launch_argv := Some argv\<rparr>"

definition with_respawn_shell_on_exit :: "terminal_state \<Rightarrow> terminal_state" where
  "with_respawn_shell_on_exit t = t\<lparr>ts_respawn_shell_on_exit := True\<rparr>"

definition agent_process_exited_within :: "terminal_state \<Rightarrow> instant \<Rightarrow> duration \<Rightarrow> bool" where
  "agent_process_exited_within t now max_age =
     is_some_and (ts_recent_agent_process_exit_at t) (\<lambda>exited_at. now - exited_at \<le> max_age)"

definition with_pending_agent_resume_plan :: "terminal_state \<Rightarrow> agent_resume_plan \<Rightarrow> terminal_state" where
  "with_pending_agent_resume_plan t p = t\<lparr>ts_pending_agent_resume_plan := Some p\<rparr>"

section \<open>Labels and names\<close>

definition set_manual_label :: "terminal_state \<Rightarrow> string \<Rightarrow> terminal_state" where
  "set_manual_label t label =
     (let label' = trim label in t\<lparr>ts_manual_label := then_some (label' \<noteq> []) label'\<rparr>)"

definition clear_manual_label :: "terminal_state \<Rightarrow> terminal_state" where
  "clear_manual_label t = t\<lparr>ts_manual_label := None\<rparr>"

definition set_agent_name :: "terminal_state \<Rightarrow> string \<Rightarrow> terminal_state" where
  "set_agent_name t name =
     (let name' = trim name in t\<lparr>ts_agent_name := then_some (name' \<noteq> []) name'\<rparr>)"

definition clear_agent_name :: "terminal_state \<Rightarrow> terminal_state" where
  "clear_agent_name t = t\<lparr>ts_agent_name := None\<rparr>"

section \<open>The effective agent\<close>

definition effective_agent_label :: "terminal_state \<Rightarrow> string option" where
  "effective_agent_label t =
     or_else (map_option ha_agent_label (ts_hook_authority t))
             (map_option agent_label (ts_detected_agent t))"

definition effective_known_agent :: "terminal_state \<Rightarrow> agent option" where
  "effective_known_agent t =
     (case ts_hook_authority t of
        Some authority \<Rightarrow> parse_agent_label (ha_agent_label authority)
      | None \<Rightarrow> ts_detected_agent t)"

definition live_full_lifecycle_hook_authority :: "terminal_state \<Rightarrow> bool" where
  "live_full_lifecycle_hook_authority t =
     is_some_and (ts_hook_authority t)
       (\<lambda>authority. full_lifecycle_hook_authority (ha_source authority) (ha_agent_label authority))"

definition full_lifecycle_hook_authority_active :: "terminal_state \<Rightarrow> bool" where
  "full_lifecycle_hook_authority_active t = live_full_lifecycle_hook_authority t"

definition hook_authority_not_newer_than :: "terminal_state \<Rightarrow> instant \<Rightarrow> bool" where
  "hook_authority_not_newer_than t observed_at =
     is_none_or (ts_hook_authority t) (\<lambda>authority. ha_reported_at authority \<le> observed_at)"

definition fallback_not_older_than_hook :: "terminal_state \<Rightarrow> bool" where
  "fallback_not_older_than_hook t =
     is_none_or (ts_hook_authority t) (\<lambda>authority.
       is_some_and (ts_fallback_observed_at t) (\<lambda>observed_at. ha_reported_at authority \<le> observed_at))"

definition visible_blocker_overrides_hook :: "terminal_state \<Rightarrow> bool" where
  "visible_blocker_overrides_hook t =
     (if live_full_lifecycle_hook_authority t then False
      else ts_fallback_visible_blocker t \<and> fallback_not_older_than_hook t \<and>
           is_some_and (ts_hook_authority t) (\<lambda>authority.
             ha_state authority \<noteq> Blocked \<and>
             parse_agent_label (ha_agent_label authority) = ts_detected_agent t))"

definition is_agent_terminal :: "terminal_state \<Rightarrow> bool" where
  "is_agent_terminal t =
     (ts_agent_name t \<noteq> None \<or> effective_agent_label t \<noteq> None \<or> ts_launch_argv t \<noteq> None)"

section \<open>Metadata and presentation\<close>

definition metadata_guards_match :: "terminal_state \<Rightarrow> string option \<Rightarrow> string option \<Rightarrow> bool" where
  "metadata_guards_match t label applies_to_source =
     (if is_some_and label (\<lambda>agent. effective_agent_label t \<noteq> Some agent) then False
      else \<not> is_some_and applies_to_source (\<lambda>source.
             is_none_or (ts_hook_authority t) (\<lambda>authority. ha_source authority \<noteq> source)))"

definition agent_metadata_matches_guards :: "terminal_state \<Rightarrow> agent_metadata \<Rightarrow> bool" where
  "agent_metadata_matches_guards t m = metadata_guards_match t (am_agent_label m) (am_applies_to_source m)"

definition agent_metadata_expiry :: "agent_metadata \<Rightarrow> instant option" where
  "agent_metadata_expiry m =
     map_option (\<lambda>ttl. unwrap_or (instant_checked_add (am_reported_at m) ttl) (am_reported_at m)) (am_ttl m)"

definition agent_metadata_is_expired :: "agent_metadata \<Rightarrow> instant \<Rightarrow> bool" where
  "agent_metadata_is_expired m now = is_some_and (agent_metadata_expiry m) (\<lambda>deadline. now \<ge> deadline)"

definition agent_metadata_is_visible_ignoring_ttl :: "terminal_state \<Rightarrow> agent_metadata \<Rightarrow> bool" where
  "agent_metadata_is_visible_ignoring_ttl t m =
     ((am_title m \<noteq> None \<or> am_display_agent m \<noteq> None \<or> am_state_labels m \<noteq> []) \<and>
      agent_metadata_matches_guards t m)"

definition agent_metadata_is_valid :: "terminal_state \<Rightarrow> agent_metadata \<Rightarrow> instant \<Rightarrow> bool \<Rightarrow> bool" where
  "agent_metadata_is_valid t m now enforce_ttl =
     (if am_title m = None \<and> am_display_agent m = None \<and> am_state_labels m = [] then False
      else if enforce_ttl \<and> agent_metadata_is_expired m now then False
      else agent_metadata_matches_guards t m)"

definition valid_agent_metadata :: "terminal_state \<Rightarrow> instant \<Rightarrow> bool \<Rightarrow> agent_metadata list" where
  "valid_agent_metadata t now enforce_ttl =
     filter (\<lambda>m. agent_metadata_is_valid t m now enforce_ttl) (hm_values (ts_agent_metadata t))"

definition newest_metadata_title :: "terminal_state \<Rightarrow> instant \<Rightarrow> bool \<Rightarrow> string option" where
  "newest_metadata_title t now enforce_ttl =
     Option.bind
       (max_by_key am_title_reported_at
         (filter (\<lambda>m. am_title m \<noteq> None) (valid_agent_metadata t now enforce_ttl)))
       am_title"

definition newest_metadata_display_agent :: "terminal_state \<Rightarrow> instant \<Rightarrow> bool \<Rightarrow> string option" where
  "newest_metadata_display_agent t now enforce_ttl =
     Option.bind
       (max_by_key am_display_agent_reported_at
         (filter (\<lambda>m. am_display_agent m \<noteq> None) (valid_agent_metadata t now enforce_ttl)))
       am_display_agent"

text \<open>The labels of one entry with the time of their report; a label without a time is left out.\<close>

definition timed_labels :: "agent_metadata \<Rightarrow> (instant \<times> string \<times> string) list" where
  "timed_labels m =
     List.map_filter (\<lambda>(st, label).
       map_option (\<lambda>at. (at, st, label)) (map_of (am_state_label_reported_at m) st)) (am_state_labels m)"

definition effective_metadata_state_labels ::
  "terminal_state \<Rightarrow> instant \<Rightarrow> bool \<Rightarrow> (string, string) hash_map" where
  "effective_metadata_state_labels t now enforce_ttl =
     (let labels = concat (map timed_labels (valid_agent_metadata t now enforce_ttl))
      in fold (\<lambda>(_, st, label). AList.update st label) (sort_key fst labels) [])"

definition effective_presentation_with_ttl :: "terminal_state \<Rightarrow> instant \<Rightarrow> bool \<Rightarrow> effective_presentation" where
  "effective_presentation_with_ttl t now enforce_ttl =
     \<lparr>ep_title = newest_metadata_title t now enforce_ttl,
      ep_display_agent = newest_metadata_display_agent t now enforce_ttl,
      ep_state_labels = effective_metadata_state_labels t now enforce_ttl\<rparr>"

text \<open>The state argument of \<open>effective_presentation_for_state_at_with_ttl\<close> is unused there.\<close>

definition effective_presentation_for_state_at ::
  "terminal_state \<Rightarrow> agent_state \<Rightarrow> instant \<Rightarrow> effective_presentation" where
  "effective_presentation_for_state_at t st now = effective_presentation_with_ttl t now True"

definition effective_presentation_for_state_at_ignoring_ttl ::
  "terminal_state \<Rightarrow> agent_state \<Rightarrow> instant \<Rightarrow> effective_presentation" where
  "effective_presentation_for_state_at_ignoring_ttl t st now = effective_presentation_with_ttl t now False"

definition effective_title :: "terminal_state \<Rightarrow> instant \<Rightarrow> string option" where
  "effective_title t now = ep_title (effective_presentation_for_state_at t (ts_state t) now)"

definition effective_display_agent :: "terminal_state \<Rightarrow> instant \<Rightarrow> string option" where
  "effective_display_agent t now = ep_display_agent (effective_presentation_for_state_at t (ts_state t) now)"

definition border_label :: "terminal_state \<Rightarrow> instant \<Rightarrow> bool \<Rightarrow> string option" where
  "border_label t now show_agent_labels =
     or_else (effective_title t now)
       (or_else (ts_manual_label t)
         (if show_agent_labels
          then or_else (effective_display_agent t now) (effective_agent_label t)
          else None))"

text \<open>Equality of \<open>HashMap\<close>s, and of presentations, does not depend on the order of iteration.\<close>

definition hm_eq :: "('k, 'v) hash_map \<Rightarrow> ('k, 'v) hash_map \<Rightarrow> bool" where
  "hm_eq m n \<longleftrightarrow> length m = length n \<and> list_all (\<lambda>(k, v). map_of n k = Some v) m"

definition presentation_eq :: "effective_presentation \<Rightarrow> effective_presentation \<Rightarrow> bool" where
  "presentation_eq p q \<longleftrightarrow> ep_title p = ep_title q \<and> ep_display_agent p = ep_display_agent q \<and>
     hm_eq (ep_state_labels p) (ep_state_labels q)"

definition clear_expiry_pending_for_hidden_metadata :: "terminal_state \<Rightarrow> terminal_state" where
  "clear_expiry_pending_for_hidden_metadata t =
     (let hidden_sources =
            map fst (filter (\<lambda>(_, m). am_expiry_event_pending m \<and>
                                      \<not> agent_metadata_is_visible_ignoring_ttl t m) (ts_agent_metadata t))
      in t\<lparr>ts_agent_metadata :=
             fold (\<lambda>source. hm_modify source (\<lambda>m. m\<lparr>am_expiry_event_pending := False\<rparr>))
                  hidden_sources (ts_agent_metadata t)\<rparr>)"

section \<open>Recomputing the effective state\<close>

text \<open>The four values every operation reads before it changes the terminal.\<close>

record previous_effective =
  prev_agent_label :: "string option"
  prev_known_agent :: "agent option"
  prev_state :: agent_state
  prev_presentation :: effective_presentation

definition previous_effective_at :: "terminal_state \<Rightarrow> instant \<Rightarrow> previous_effective" where
  "previous_effective_at t now =
     \<lparr>prev_agent_label = effective_agent_label t, prev_known_agent = effective_known_agent t,
      prev_state = ts_state t,
      prev_presentation = effective_presentation_for_state_at t (ts_state t) now\<rparr>"

text \<open>The state the hooks and the screen agree on: the first lines of \<open>recompute_effective_state\<close>.\<close>

definition arbitrated_state :: "terminal_state \<Rightarrow> agent_state" where
  "arbitrated_state t =
     (if visible_blocker_overrides_hook t then Blocked
      else unwrap_or (map_option ha_state (ts_hook_authority t)) (ts_fallback_state t))"

definition recompute_effective_state ::
  "terminal_state \<Rightarrow> previous_effective \<Rightarrow> instant \<Rightarrow> terminal_state \<times> effective_state_change option" where
  "recompute_effective_state t prev now =
     (let st = arbitrated_state t;
          label = effective_agent_label t;
          known = effective_known_agent t;
          presentation = effective_presentation_for_state_at t st now;
          t1 = clear_expiry_pending_for_hidden_metadata t
      in if prev_agent_label prev = label \<and> prev_state prev = st \<and>
            presentation_eq (prev_presentation prev) presentation
         then (t1, None)
         else (t1\<lparr>ts_state := st\<rparr>,
               Some \<lparr>esc_previous_agent_label = prev_agent_label prev,
                     esc_previous_known_agent = prev_known_agent prev,
                     esc_previous_state = prev_state prev,
                     esc_previous_presentation = prev_presentation prev,
                     esc_agent_label = label, esc_known_agent = known,
                     esc_state = st, esc_presentation = presentation\<rparr>))"

end
