(* ===== verification/TerminalOps.thy ===== *)
theory TerminalOps
  imports Terminal
begin

text \<open>
  The operations of a terminal (\<open>src/terminal/state.rs\<close>): what the screen detection and the hooks
  of the agents do to its state.  An operation that returns \<open>Option<TerminalStateMutation>\<close> is a
  function to the terminal afterwards and the returned value; the early returns keep the changes
  made before them.
\<close>

section \<open>Suppressed and stale hook reports\<close>

definition hook_authority_conflicts_with_detected_agent :: "terminal_state \<Rightarrow> agent option \<Rightarrow> bool" where
  "hook_authority_conflicts_with_detected_agent t detected =
     (case detected of
        None \<Rightarrow> False
      | Some detected_agent \<Rightarrow>
          is_some_and (ts_hook_authority t) (\<lambda>authority.
            is_some_and (parse_agent_label (ha_agent_label authority))
              (\<lambda>hook_agent. hook_agent \<noteq> detected_agent)))"

definition should_ignore_detected_state_under_full_lifecycle_hook ::
  "terminal_state \<Rightarrow> agent option \<Rightarrow> bool \<Rightarrow> bool" where
  "should_ignore_detected_state_under_full_lifecycle_hook t detected process_exited =
     (live_full_lifecycle_hook_authority t \<and> \<not> process_exited \<and>
      \<not> hook_authority_conflicts_with_detected_agent t detected)"

definition persisted_agent_session_matches :: "terminal_state \<Rightarrow> string \<Rightarrow> string \<Rightarrow> bool" where
  "persisted_agent_session_matches t source agent =
     is_some_and (ts_persisted_agent_session t) (\<lambda>s. ps_source s = source \<and> ps_agent s = agent)"

definition suppress_report_with_session_ref ::
  "terminal_state \<Rightarrow> string \<Rightarrow> string \<Rightarrow> agent_session_ref option \<Rightarrow> suppression_reason \<Rightarrow> instant \<Rightarrow>
   terminal_state" where
  "suppress_report_with_session_ref t source label r reason wall =
     t\<lparr>ts_suppressed_reports :=
         AList.update source
           \<lparr>sup_agent_label = label, sup_session_ref = r, sup_observed_at = wall, sup_reason = reason\<rparr>
           (ts_suppressed_reports t)\<rparr>"

definition suppress_current_full_lifecycle_hook_authority ::
  "terminal_state \<Rightarrow> suppression_reason \<Rightarrow> instant \<Rightarrow> terminal_state" where
  "suppress_current_full_lifecycle_hook_authority t reason wall =
     (case ts_hook_authority t of
        None \<Rightarrow> t
      | Some authority \<Rightarrow>
          if full_lifecycle_hook_authority (ha_source authority) (ha_agent_label authority)
          then suppress_report_with_session_ref t (ha_source authority) (ha_agent_label authority)
                 (ha_session_ref authority) reason wall
          else t)"

definition suppress_full_lifecycle_hook_report ::
  "terminal_state \<Rightarrow> string \<Rightarrow> string \<Rightarrow> suppression_reason \<Rightarrow> instant \<Rightarrow> terminal_state" where
  "suppress_full_lifecycle_hook_report t source label reason wall =
     (if full_lifecycle_hook_authority source label
      then suppress_report_with_session_ref t source label
             (Option.bind (ts_hook_authority t) ha_session_ref) reason wall
      else t)"

definition report_is_suppressed :: "terminal_state \<Rightarrow> string \<Rightarrow> string \<Rightarrow> agent_session_ref option \<Rightarrow> bool" where
  "report_is_suppressed t source label session_ref =
     (if \<not> full_lifecycle_hook_authority source label then False
      else is_some_and (map_of (ts_suppressed_reports t) source) (\<lambda>suppressed.
             if sup_agent_label suppressed \<noteq> label then False
             else if sup_reason suppressed = ProcessExit then True
             else (case (sup_session_ref suppressed, session_ref) of
                     (Some suppressed_ref, Some incoming_ref) \<Rightarrow> incoming_ref = suppressed_ref
                   | (Some _, None) \<Rightarrow> True
                   | (None, Some _) \<Rightarrow> False
                   | (None, None) \<Rightarrow> True)))"

definition report_has_fresh_session_after_suppression ::
  "terminal_state \<Rightarrow> string \<Rightarrow> string \<Rightarrow> agent_session_ref option \<Rightarrow> bool" where
  "report_has_fresh_session_after_suppression t source label session_ref =
     (if \<not> full_lifecycle_hook_authority source label then False
      else is_some_and (map_of (ts_suppressed_reports t) source) (\<lambda>suppressed.
             sup_agent_label suppressed = label \<and> sup_reason suppressed \<noteq> ProcessExit \<and>
             (case (sup_session_ref suppressed, session_ref) of
                (Some suppressed_ref, Some incoming_ref) \<Rightarrow> incoming_ref \<noteq> suppressed_ref
              | _ \<Rightarrow> False)))"

definition report_matches_stale_session ::
  "terminal_state \<Rightarrow> string \<Rightarrow> string \<Rightarrow> agent_session_ref option \<Rightarrow> bool" where
  "report_matches_stale_session t source label session_ref =
     (if \<not> full_lifecycle_hook_authority source label then False
      else is_some_and (map_of (ts_stale_sessions t) source) (\<lambda>stale_sessions.
             is_some_and session_ref (\<lambda>incoming_ref.
               list_ex (\<lambda>stale. stale_agent_label stale = label \<and> incoming_ref = stale_session_ref stale)
                 stale_sessions)))"

definition report_has_fresh_session_after_stale_session ::
  "terminal_state \<Rightarrow> string \<Rightarrow> string \<Rightarrow> agent_session_ref option \<Rightarrow> bool" where
  "report_has_fresh_session_after_stale_session t source label session_ref =
     (if \<not> full_lifecycle_hook_authority source label then False
      else is_some_and (map_of (ts_stale_sessions t) source) (\<lambda>stale_sessions.
             list_ex (\<lambda>stale. stale_agent_label stale = label) stale_sessions \<and>
             is_some_and session_ref (\<lambda>incoming_ref.
               list_all (\<lambda>stale. stale_agent_label stale \<noteq> label \<or> incoming_ref \<noteq> stale_session_ref stale)
                 stale_sessions)))"

definition live_hook_authority_conflicts_with_session ::
  "terminal_state \<Rightarrow> string \<Rightarrow> string \<Rightarrow> agent_session_ref option \<Rightarrow> bool" where
  "live_hook_authority_conflicts_with_session t source label session_ref =
     (case ts_hook_authority t of
        None \<Rightarrow> False
      | Some authority \<Rightarrow>
          if \<not> full_lifecycle_hook_authority (ha_source authority) (ha_agent_label authority) then False
          else if ha_source authority \<noteq> source \<or> ha_agent_label authority \<noteq> label then False
          else (case (ha_session_ref authority, session_ref) of
                  (Some current, Some incoming) \<Rightarrow> current \<noteq> incoming
                | _ \<Rightarrow> False))"

definition same_owner_hook_authority_session_ref ::
  "terminal_state \<Rightarrow> string \<Rightarrow> string \<Rightarrow> agent_session_ref \<Rightarrow> agent_session_ref option" where
  "same_owner_hook_authority_session_ref t source label session_ref =
     (case ts_hook_authority t of
        None \<Rightarrow> None
      | Some authority \<Rightarrow>
          if \<not> full_lifecycle_hook_authority (ha_source authority) (ha_agent_label authority) \<or>
             ha_source authority \<noteq> source \<or> ha_agent_label authority \<noteq> label
          then None
          else option_filter (\<lambda>current. current \<noteq> session_ref) (ha_session_ref authority))"

definition remember_stale_session ::
  "terminal_state \<Rightarrow> string \<Rightarrow> string \<Rightarrow> agent_session_ref \<Rightarrow> terminal_state" where
  "remember_stale_session t source label session_ref =
     (let stale = \<lparr>stale_agent_label = label, stale_session_ref = session_ref\<rparr>;
          existing = unwrap_or (map_of (ts_stale_sessions t) source) [];
          updated = (if list_ex (\<lambda>e. e = stale) existing then existing else existing @ [stale])
      in t\<lparr>ts_stale_sessions := AList.update source updated (ts_stale_sessions t)\<rparr>)"

definition forget_stale_session ::
  "terminal_state \<Rightarrow> string \<Rightarrow> string \<Rightarrow> agent_session_ref \<Rightarrow> terminal_state" where
  "forget_stale_session t source label session_ref =
     (case map_of (ts_stale_sessions t) source of
        None \<Rightarrow> t
      | Some stale_sessions \<Rightarrow>
          let kept = filter (\<lambda>stale. stale_agent_label stale \<noteq> label \<or>
                                     stale_session_ref stale \<noteq> session_ref) stale_sessions
          in if kept = [] then t\<lparr>ts_stale_sessions := AList.delete source (ts_stale_sessions t)\<rparr>
             else t\<lparr>ts_stale_sessions := AList.update source kept (ts_stale_sessions t)\<rparr>)"

definition clear_suppression_for_detected_agent ::
  "terminal_state \<Rightarrow> agent option \<Rightarrow> agent option \<Rightarrow> terminal_state" where
  "clear_suppression_for_detected_agent t previous_detected_agent detected =
     (case detected of
        None \<Rightarrow> t
      | Some detected_agent \<Rightarrow>
          if previous_detected_agent = Some detected_agent then t
          else
            let detected_label = agent_label detected_agent;
                should_clear = (\<lambda>sup. parse_agent_label (sup_agent_label sup) = Some detected_agent);
                stale_sessions =
                  List.map_filter (\<lambda>(source, sup).
                    if should_clear sup
                    then map_option (\<lambda>r. (source, sup_agent_label sup, r)) (sup_session_ref sup)
                    else None) (ts_suppressed_reports t);
                t1 = t\<lparr>ts_suppressed_reports :=
                         filter (\<lambda>(_, sup). \<not> should_clear sup) (ts_suppressed_reports t)\<rparr>;
                t2 = fold (\<lambda>(source, label, r) t. remember_stale_session t source label r) stale_sessions t1
            in t2\<lparr>ts_hook_report_sequences :=
                    filter (\<lambda>(source, _). \<not> full_lifecycle_hook_authority source detected_label)
                      (ts_hook_report_sequences t2)\<rparr>)"

definition detected_state_observed_before_release_suppression ::
  "terminal_state \<Rightarrow> agent option \<Rightarrow> instant \<Rightarrow> bool" where
  "detected_state_observed_before_release_suppression t detected observed_at =
     (case detected of
        None \<Rightarrow> False
      | Some detected_agent \<Rightarrow>
          list_ex (\<lambda>sup. parse_agent_label (sup_agent_label sup) = Some detected_agent \<and>
                         observed_at \<le> sup_observed_at sup)
            (hm_values (ts_suppressed_reports t)))"

section \<open>Session identity and ownership\<close>

type_synonym session_identity = "string \<times> string \<times> session_ref_kind \<times> string"

definition current_session_identity :: "terminal_state \<Rightarrow> session_identity option" where
  "current_session_identity t =
     (let persisted = map_option (\<lambda>s. (ps_source s, ps_agent s, sr_kind (ps_session_ref s),
                                       sr_value (ps_session_ref s))) (ts_persisted_agent_session t)
      in case ts_hook_authority t of
           Some authority \<Rightarrow>
             (case ha_session_ref authority of
                Some r \<Rightarrow> Some (ha_source authority, ha_agent_label authority, sr_kind r, sr_value r)
              | None \<Rightarrow> persisted)
         | None \<Rightarrow> persisted)"

definition current_session_owner_conflicts :: "terminal_state \<Rightarrow> string \<Rightarrow> string \<Rightarrow> bool" where
  "current_session_owner_conflicts t source label =
     is_some_and (current_session_identity t)
       (\<lambda>(current_source, current_agent, _, _). current_source \<noteq> source \<or> current_agent \<noteq> label)"

definition session_start_source_allows_session_replacement :: "string \<Rightarrow> string \<Rightarrow> string option \<Rightarrow> bool" where
  "session_start_source_allows_session_replacement source label session_start_source =
     is_some_and session_start_source (\<lambda>start.
       (source = ''herdr:claude'' \<and> label = ''claude'' \<and>
          start \<in> set [''clear'', ''resume'', ''compact'']) \<or>
       (source = ''herdr:codex'' \<and> label = ''codex'' \<and>
          start \<in> set [''startup'', ''clear'', ''resume'', ''compact'']) \<or>
       (source = ''herdr:opencode'' \<and> label = ''opencode'' \<and> start = ''new'') \<or>
       (source = ''herdr:pi'' \<and> label = ''pi'' \<and> start \<in> set [''new'', ''resume'', ''fork'']) \<or>
       (source = ''herdr:omp'' \<and> label = ''omp'' \<and>
          start \<in> set [''startup'', ''new'', ''resume'', ''fork'']))"

definition session_start_source_is_recognized :: "string option \<Rightarrow> bool" where
  "session_start_source_is_recognized session_start_source =
     is_some_and session_start_source (\<lambda>start.
       start \<in> set [''startup'', ''clear'', ''resume'', ''compact'', ''new'', ''fork''])"

definition conflicting_same_owner_session_ref ::
  "terminal_state \<Rightarrow> string \<Rightarrow> string \<Rightarrow> agent_session_ref \<Rightarrow> string option \<Rightarrow> agent_session_ref option" where
  "conflicting_same_owner_session_ref t source label session_ref session_start_source =
     Option.bind (current_session_identity t)
       (\<lambda>(current_source, current_agent, current_kind, current_value).
         then_some
           (current_source = source \<and> current_agent = label \<and> current_kind = KindId \<and>
            sr_kind session_ref = KindId \<and> current_value \<noteq> sr_value session_ref \<and>
            \<not> session_start_source_allows_session_replacement source label session_start_source)
           \<lparr>sr_kind = current_kind, sr_value = current_value\<rparr>)"

definition lifecycle_hook_report_replaces_persisted_session ::
  "terminal_state \<Rightarrow> string \<Rightarrow> string \<Rightarrow> agent_session_ref \<Rightarrow> bool" where
  "lifecycle_hook_report_replaces_persisted_session t source label session_ref =
     (ts_hook_authority t = None \<and> (source, label) = (''herdr:mastracode'', ''mastracode'') \<and>
      is_some_and (ts_persisted_agent_session t) (\<lambda>s.
        ps_source s = source \<and> ps_agent s = label \<and> sr_kind (ps_session_ref s) = KindId \<and>
        sr_kind session_ref = KindId \<and> sr_value (ps_session_ref s) \<noteq> sr_value session_ref))"

definition known_agent_label_conflicts_with_detected_agent :: "terminal_state \<Rightarrow> string \<Rightarrow> bool" where
  "known_agent_label_conflicts_with_detected_agent t label =
     (case ts_detected_agent t of
        None \<Rightarrow> False
      | Some detected_agent \<Rightarrow>
          is_some_and (parse_agent_label label) (\<lambda>hook_agent. hook_agent \<noteq> detected_agent))"

definition foreground_agent_confirms_session_owner ::
  "terminal_state \<Rightarrow> string \<Rightarrow> string \<Rightarrow> agent_session_ref \<Rightarrow> bool" where
  "foreground_agent_confirms_session_owner t source label session_ref =
     (case ts_detected_agent t of
        None \<Rightarrow> False
      | Some detected_agent \<Rightarrow>
          parse_agent_label label = Some detected_agent \<and> plan source label session_ref \<noteq> None)"

definition foreground_agent_confirms_different_owner_takeover ::
  "terminal_state \<Rightarrow> string \<Rightarrow> string \<Rightarrow> agent_session_ref \<Rightarrow> string option \<Rightarrow> bool" where
  "foreground_agent_confirms_different_owner_takeover t source label session_ref session_start_source =
     (session_start_source_is_recognized session_start_source \<and>
      foreground_agent_confirms_session_owner t source label session_ref)"

definition foreground_agent_confirms_hook_authority_takeover ::
  "terminal_state \<Rightarrow> string \<Rightarrow> string \<Rightarrow> agent_session_ref option \<Rightarrow> bool" where
  "foreground_agent_confirms_hook_authority_takeover t source label session_ref =
     is_some_and session_ref (\<lambda>r. foreground_agent_confirms_session_owner t source label r)"

definition accept_hook_report :: "terminal_state \<Rightarrow> string \<Rightarrow> u64 option \<Rightarrow> terminal_state \<times> bool" where
  "accept_hook_report t source seq =
     (case seq of
        None \<Rightarrow> (t, \<not> hm_contains (ts_hook_report_sequences t) source)
      | Some n \<Rightarrow>
          if is_some_and (map_of (ts_hook_report_sequences t) source) (\<lambda>last_seq. n \<le> last_seq)
          then (t, False)
          else (t\<lparr>ts_hook_report_sequences := AList.update source n (ts_hook_report_sequences t)\<rparr>, True))"

section \<open>Screen detection\<close>

definition finish_detection ::
  "terminal_state \<Rightarrow> previous_effective \<Rightarrow> session_identity option \<Rightarrow> instant \<Rightarrow>
   terminal_state \<times> terminal_mutation" where
  "finish_detection t prev previous_session now =
     (case recompute_effective_state t prev now of (t', change) \<Rightarrow>
       (t', \<lparr>tm_effective_state_change = change,
             tm_session_ref_changed = (previous_session \<noteq> current_session_identity t')\<rparr>))"

text \<open>The updates of a detection that is not ignored, in the order of the code.\<close>

definition note_detection ::
  "terminal_state \<Rightarrow> agent option \<Rightarrow> agent_state \<Rightarrow> bool \<Rightarrow> bool \<Rightarrow> instant \<Rightarrow> terminal_state" where
  "note_detection t agent fallback visible_blocker process_exited now =
     (let previous_detected_agent = ts_detected_agent t;
          t1 = t\<lparr>ts_detected_agent := agent\<rparr>;
          t2 = (if \<not> process_exited
                then clear_suppression_for_detected_agent t1 previous_detected_agent agent else t1);
          t3 = t2\<lparr>ts_fallback_state := fallback,
                  ts_fallback_visible_blocker := (visible_blocker \<and> fallback = Blocked),
                  ts_fallback_observed_at := Some now\<rparr>
      in if process_exited \<and> agent \<noteq> None then t3\<lparr>ts_recent_agent_process_exit_at := Some now\<rparr>
         else if agent \<noteq> None then t3\<lparr>ts_recent_agent_process_exit_at := None\<rparr>
         else t3)"

text \<open>An exit of the process of the agent that a hook speaks for ends that authority.\<close>

definition end_exited_authority ::
  "terminal_state \<Rightarrow> agent option \<Rightarrow> bool \<Rightarrow> instant \<Rightarrow> instant \<Rightarrow> terminal_state" where
  "end_exited_authority t agent process_exited now wall =
     (if process_exited \<and> hook_authority_not_newer_than t now \<and>
         is_some_and (ts_hook_authority t) (\<lambda>authority. parse_agent_label (ha_agent_label authority) = agent)
      then let cleared_source = map_option ha_source (ts_hook_authority t);
               t1 = suppress_current_full_lifecycle_hook_authority t ProcessExit wall;
               t2 = (case cleared_source of
                       Some source \<Rightarrow>
                         t1\<lparr>ts_hook_report_sequences := AList.delete source (ts_hook_report_sequences t1)\<rparr>
                     | None \<Rightarrow> t1)
           in t2\<lparr>ts_hook_authority := None\<rparr>
      else t)"

definition end_exited_session :: "terminal_state \<Rightarrow> agent option \<Rightarrow> bool \<Rightarrow> terminal_state" where
  "end_exited_session t agent process_exited =
     (if process_exited \<and>
         is_some_and (ts_persisted_agent_session t) (\<lambda>s. parse_agent_label (ps_agent s) = agent)
      then t\<lparr>ts_persisted_agent_session := None\<rparr> else t)"

text \<open>A different agent on the screen ends the authority too, but its session becomes durable.\<close>

definition end_displaced_authority ::
  "terminal_state \<Rightarrow> agent option \<Rightarrow> agent option \<Rightarrow> instant \<Rightarrow> instant \<Rightarrow> terminal_state" where
  "end_displaced_authority t previous_detected_agent agent now wall =
     (if hook_authority_not_newer_than t now \<and>
         (hook_authority_conflicts_with_detected_agent t agent \<or>
          (previous_detected_agent \<noteq> None \<and> agent \<noteq> previous_detected_agent \<and>
           is_some_and (ts_hook_authority t) (\<lambda>authority.
             parse_agent_label (ha_agent_label authority) = previous_detected_agent)))
      then let durable_session =
                 Option.bind (ts_hook_authority t) (\<lambda>authority.
                   map_option (\<lambda>r. \<lparr>ps_source = ha_source authority, ps_agent = ha_agent_label authority,
                                    ps_session_ref = r\<rparr>) (ha_session_ref authority));
               t1 = suppress_current_full_lifecycle_hook_authority t HookClear wall
           in t1\<lparr>ts_hook_authority := None, ts_persisted_agent_session := durable_session\<rparr>
      else t)"

definition set_detected_state_with_screen_signals_at ::
  "terminal_state \<Rightarrow> agent option \<Rightarrow> agent_state \<Rightarrow> bool \<Rightarrow> bool \<Rightarrow> instant \<Rightarrow> instant \<Rightarrow>
   terminal_state \<times> terminal_mutation" where
  "set_detected_state_with_screen_signals_at t agent fallback visible_blocker process_exited now wall =
     (let prev = previous_effective_at t now;
          previous_detected_agent = ts_detected_agent t;
          previous_session = current_session_identity t
      in if should_ignore_detected_state_under_full_lifecycle_hook t agent process_exited
         then finish_detection
                (if Option.bind (ts_hook_authority t) (\<lambda>a. parse_agent_label (ha_agent_label a)) = agent
                 then t\<lparr>ts_detected_agent := agent\<rparr> else t)
                prev previous_session now
         else if \<not> process_exited \<and> detected_state_observed_before_release_suppression t agent now
         then finish_detection t prev previous_session now
         else let t1 = note_detection t agent fallback visible_blocker process_exited now;
                  t2 = end_exited_authority t1 agent process_exited now wall;
                  t3 = end_exited_session t2 agent process_exited;
                  t4 = end_displaced_authority t3 previous_detected_agent agent now wall
              in finish_detection t4 prev previous_session now)"

section \<open>Hook reports\<close>

text \<open>The session a hook report names, after the rules for sessions of the same owner.\<close>

definition settled_session_ref ::
  "terminal_state \<Rightarrow> string \<Rightarrow> string \<Rightarrow> agent_session_ref option \<Rightarrow> agent_session_ref option" where
  "settled_session_ref t source label session_ref =
     map_option (\<lambda>r.
       if lifecycle_hook_report_replaces_persisted_session t source label r then r
       else unwrap_or (conflicting_same_owner_session_ref t source label r None) r) session_ref"

text \<open>A report that names a session lifts the suppression of its source; the session that was
  suppressed becomes stale.\<close>

definition lift_suppression :: "terminal_state \<Rightarrow> string \<Rightarrow> terminal_state" where
  "lift_suppression t source =
     (case map_of (ts_suppressed_reports t) source of
        None \<Rightarrow> t\<lparr>ts_suppressed_reports := AList.delete source (ts_suppressed_reports t)\<rparr>
      | Some suppressed \<Rightarrow>
          let t1 = t\<lparr>ts_suppressed_reports := AList.delete source (ts_suppressed_reports t)\<rparr>
          in case sup_session_ref suppressed of
               None \<Rightarrow> t1
             | Some r \<Rightarrow> remember_stale_session t1 source (sup_agent_label suppressed) r)"

definition set_hook_authority_at ::
  "terminal_state \<Rightarrow> string \<Rightarrow> string \<Rightarrow> agent_state \<Rightarrow> string option \<Rightarrow> agent_session_ref option \<Rightarrow>
   u64 option \<Rightarrow> instant \<Rightarrow> instant \<Rightarrow> terminal_state \<times> terminal_mutation option" where
  "set_hook_authority_at t source label st message session_ref0 seq now wall =
     (if report_is_suppressed t source label session_ref0 then (t, None)
      else if report_matches_stale_session t source label session_ref0 then (t, None)
      else let reanchor_sequence =
                 (report_has_fresh_session_after_suppression t source label session_ref0 \<or>
                  report_has_fresh_session_after_stale_session t source label session_ref0)
      in if known_agent_label_conflicts_with_detected_agent t label then (t, None)
      else let owner_conflicts = current_session_owner_conflicts t source label;
               foreground_takeover_allowed =
                 (owner_conflicts \<and>
                  foreground_agent_confirms_hook_authority_takeover t source label session_ref0)
      in if owner_conflicts \<and> \<not> foreground_takeover_allowed then (t, None)
      else let session_ref = settled_session_ref t source label session_ref0
      in if live_hook_authority_conflicts_with_session t source label session_ref then (t, None)
      else let t1 = (if reanchor_sequence
                     then t\<lparr>ts_hook_report_sequences := AList.delete source (ts_hook_report_sequences t)\<rparr>
                     else t)
      in case accept_hook_report t1 source seq of (t2, accepted) \<Rightarrow>
         if \<not> accepted then (t2, None)
         else let prev = previous_effective_at t2 now;
                  previous_session = current_session_identity t2;
                  t3 = (if foreground_takeover_allowed
                        then suppress_current_full_lifecycle_hook_authority t2 HookClear wall else t2);
                  t4 = (if session_ref \<noteq> None then lift_suppression t3 source else t3);
                  t5 = t4\<lparr>ts_persisted_agent_session := None,
                          ts_hook_authority :=
                            Some \<lparr>ha_source = source, ha_agent_label = label, ha_state = st,
                                  ha_message = message, ha_reported_at = now,
                                  ha_session_ref = session_ref\<rparr>\<rparr>
              in case finish_detection t5 prev previous_session now of (t6, m) \<Rightarrow> (t6, Some m))"

definition set_hook_authority_with_session_ref ::
  "terminal_state \<Rightarrow> string \<Rightarrow> string \<Rightarrow> agent_state \<Rightarrow> string option \<Rightarrow> agent_session_ref option \<Rightarrow>
   u64 option \<Rightarrow> instant \<Rightarrow> instant \<Rightarrow> terminal_state \<times> terminal_mutation option" where
  "set_hook_authority_with_session_ref t source label st message session_ref seq now wall =
     set_hook_authority_at t source label st message session_ref seq now wall"

section \<open>Session reports\<close>

definition set_persisted_agent_session :: "terminal_state \<Rightarrow> persisted_agent_session \<Rightarrow> terminal_state" where
  "set_persisted_agent_session t s = t\<lparr>ts_persisted_agent_session := Some s\<rparr>"

definition set_agent_session_ref_for_session_start ::
  "terminal_state \<Rightarrow> string \<Rightarrow> string \<Rightarrow> agent_session_ref option \<Rightarrow> u64 option \<Rightarrow> string option \<Rightarrow>
   instant \<Rightarrow> instant \<Rightarrow> terminal_state \<times> terminal_mutation option" where
  "set_agent_session_ref_for_session_start t source label session_ref0 seq session_start_source now wall =
     (case session_ref0 of
        None \<Rightarrow> (t, None)
      | Some session_ref \<Rightarrow>
         (case accept_hook_report t source seq of (t1, accepted) \<Rightarrow>
          if \<not> accepted then (t1, None)
          else if known_agent_label_conflicts_with_detected_agent t1 label then (t1, None)
          else let session_replacement_allowed =
                     session_start_source_allows_session_replacement source label session_start_source;
                   owner_conflicts = current_session_owner_conflicts t1 source label;
                   foreground_takeover_allowed =
                     (owner_conflicts \<and>
                      foreground_agent_confirms_different_owner_takeover t1 source label session_ref
                        session_start_source)
          in if owner_conflicts \<and> \<not> foreground_takeover_allowed then (t1, None)
          else if conflicting_same_owner_session_ref t1 source label session_ref session_start_source \<noteq> None
          then (t1, None)
          else let replaced_hook_session = same_owner_hook_authority_session_ref t1 source label session_ref
          in if replaced_hook_session \<noteq> None \<and> \<not> session_replacement_allowed then (t1, None)
          else let prev = previous_effective_at t1 now;
                   previous_session = current_session_identity t1;
                   t2 = (if session_replacement_allowed \<or> foreground_takeover_allowed
                         then forget_stale_session t1 source label session_ref else t1);
                   t3 = (case replaced_hook_session of
                           Some r \<Rightarrow> (remember_stale_session t2 source label r)\<lparr>ts_hook_authority := None\<rparr>
                         | None \<Rightarrow>
                             if foreground_takeover_allowed
                             then (suppress_current_full_lifecycle_hook_authority t2 HookClear wall)
                                    \<lparr>ts_hook_authority := None\<rparr>
                             else t2);
                   t4 = t3\<lparr>ts_persisted_agent_session :=
                            Some \<lparr>ps_source = source, ps_agent = label, ps_session_ref = session_ref\<rparr>\<rparr>
               in case finish_detection t4 prev previous_session now of (t5, m) \<Rightarrow> (t5, Some m)))"

definition set_agent_session_ref ::
  "terminal_state \<Rightarrow> string \<Rightarrow> string \<Rightarrow> agent_session_ref option \<Rightarrow> u64 option \<Rightarrow> instant \<Rightarrow> instant \<Rightarrow>
   terminal_state \<times> terminal_mutation option" where
  "set_agent_session_ref t source label session_ref seq now wall =
     set_agent_session_ref_for_session_start t source label session_ref seq None now wall"

section \<open>Clearing and releasing\<close>

definition clear_hook_authority_with_mutation ::
  "terminal_state \<Rightarrow> string option \<Rightarrow> u64 option \<Rightarrow> instant \<Rightarrow> instant \<Rightarrow>
   terminal_state \<times> terminal_mutation option" where
  "clear_hook_authority_with_mutation t source seq now wall =
     (let sequence_source = or_else source (map_option ha_source (ts_hook_authority t))
      in case (case sequence_source of None \<Rightarrow> (t, True) | Some s \<Rightarrow> accept_hook_report t s seq) of
           (t1, accepted) \<Rightarrow>
         if \<not> accepted then (t1, None)
         else let prev = previous_effective_at t1 now;
                  previous_session = current_session_identity t1;
                  should_clear = is_some_and (ts_hook_authority t1)
                                   (\<lambda>authority. is_none_or source (\<lambda>s. ha_source authority = s))
         in if \<not> should_clear then (t1, None)
         else let t2 = suppress_current_full_lifecycle_hook_authority t1 HookClear wall;
                  t3 = t2\<lparr>ts_hook_authority := None, ts_persisted_agent_session := None\<rparr>
              in case recompute_effective_state t3 prev now of (t4, change) \<Rightarrow>
                   (t4, Some \<lparr>tm_effective_state_change = change,
                              tm_session_ref_changed = (previous_session \<noteq> None)\<rparr>))"

definition release_agent_with_mutation ::
  "terminal_state \<Rightarrow> string \<Rightarrow> string \<Rightarrow> u64 option \<Rightarrow> instant \<Rightarrow> instant \<Rightarrow>
   terminal_state \<times> terminal_mutation option" where
  "release_agent_with_mutation t source label seq now wall =
     (case accept_hook_report t source seq of (t1, accepted) \<Rightarrow>
      if \<not> accepted then (t1, None)
      else if is_some_and (ts_hook_authority t1)
                (\<lambda>authority. ha_agent_label authority \<noteq> label \<or> ha_source authority \<noteq> source)
      then (t1, None)
      else let matches_current_agent = (effective_agent_label t1 = Some label);
               matches_persisted_session = persisted_agent_session_matches t1 source label
      in if \<not> matches_current_agent \<and> \<not> matches_persisted_session then (t1, None)
      else let preserve_foreign_persisted_session =
                 is_some_and (ts_persisted_agent_session t1)
                   (\<lambda>s. ps_source s \<noteq> source \<or> ps_agent s \<noteq> label);
               prev = previous_effective_at t1 now;
               previous_session = current_session_identity t1;
               t2 = suppress_full_lifecycle_hook_report t1 source label HookClear wall;
               t3 = t2\<lparr>ts_detected_agent := None, ts_fallback_state := Unknown,
                       ts_fallback_visible_blocker := False, ts_fallback_observed_at := None,
                       ts_hook_authority := None\<rparr>;
               t4 = (if preserve_foreign_persisted_session then t3
                     else t3\<lparr>ts_persisted_agent_session := None\<rparr>)
           in case finish_detection t4 prev previous_session now of (t5, m) \<Rightarrow> (t5, Some m))"

definition clear_agent_runtime_identity_after_respawn :: "terminal_state \<Rightarrow> terminal_state" where
  "clear_agent_runtime_identity_after_respawn t =
     clear_agent_name
       (t\<lparr>ts_detected_agent := None, ts_fallback_state := Unknown,
          ts_fallback_visible_blocker := False, ts_fallback_observed_at := None,
          ts_hook_authority := None, ts_persisted_agent_session := None, ts_agent_metadata := [],
          ts_suppressed_reports := [], ts_stale_sessions := [], ts_state := Unknown,
          ts_last_agent_state_change_seq := None, ts_launch_argv := None,
          ts_respawn_shell_on_exit := False, ts_recent_agent_process_exit_at := None,
          ts_pending_agent_resume_plan := None\<rparr>)"

end
