(* ===== verification/TerminalMetadata.thy ===== *)
theory TerminalMetadata
  imports TerminalOps
begin

text \<open>
  Reports of agent metadata (\<open>src/terminal/metadata.rs\<close>): titles, display names and state labels
  that a source attaches to a terminal, with a time to live and the guards under which they apply.
\<close>

record agent_metadata_report =
  rp_source :: string
  rp_agent_label :: "string option"
  rp_applies_to_source :: "string option"
  rp_title :: "string option"
  rp_display_agent :: "string option"
  rp_state_labels :: "(string, string) hash_map"
  rp_clear_title :: bool
  rp_clear_display_agent :: bool
  rp_clear_state_labels :: bool
  rp_ttl :: "duration option"
  rp_seq :: "u64 option"

definition metadata_report_sequence_is_fresh :: "terminal_state \<Rightarrow> string \<Rightarrow> u64 option \<Rightarrow> bool" where
  "metadata_report_sequence_is_fresh t source seq =
     sequence_is_fresh (ts_metadata_report_sequences t) source seq"

text \<open>\<open>Ok(b)\<close> is \<open>Some b\<close>, \<open>Err(())\<close> is \<open>None\<close>.\<close>

definition accept_metadata_report ::
  "terminal_state \<Rightarrow> string \<Rightarrow> u64 option \<Rightarrow> bool \<Rightarrow> terminal_state \<times> bool option" where
  "accept_metadata_report t source seq includes_tokens =
     (case seq of
        None \<Rightarrow> (t, Some True)
      | Some n \<Rightarrow>
          if \<not> metadata_report_sequence_is_fresh t source (Some n) then (t, Some False)
          else if includes_tokens \<and> source \<notin> set (ts_metadata_token_sequence_sources t) \<and>
                  MAX_SEQUENCE_SOURCES \<le> length (ts_metadata_token_sequence_sources t)
          then (t, None)
          else let t1 = t\<lparr>ts_metadata_report_sequences :=
                            AList.update source n (ts_metadata_report_sequences t)\<rparr>
               in (if includes_tokens
                   then t1\<lparr>ts_metadata_token_sequence_sources :=
                             List.insert source (ts_metadata_token_sequence_sources t1)\<rparr>
                   else t1, Some True))"

text \<open>The entry that \<open>or_insert_with\<close> creates.\<close>

definition blank_metadata :: "agent_metadata_report \<Rightarrow> instant \<Rightarrow> agent_metadata" where
  "blank_metadata r now =
     \<lparr>am_source = rp_source r, am_agent_label = rp_agent_label r,
      am_applies_to_source = rp_applies_to_source r, am_title = None, am_display_agent = None,
      am_state_labels = [], am_reported_at = now, am_title_reported_at = None,
      am_display_agent_reported_at = None, am_state_label_reported_at = [],
      am_ttl = rp_ttl r, am_expiry_event_pending = False\<rparr>"

definition has_set_fields :: "agent_metadata_report \<Rightarrow> bool" where
  "has_set_fields r \<longleftrightarrow> rp_title r \<noteq> None \<or> rp_display_agent r \<noteq> None \<or> rp_state_labels r \<noteq> []"

text \<open>A report that clears something: the clears first, then the fields it sets.\<close>

definition patch_metadata :: "agent_metadata_report \<Rightarrow> instant \<Rightarrow> agent_metadata \<Rightarrow> agent_metadata" where
  "patch_metadata r now m0 =
     (let m1 = (if rp_clear_title r then m0\<lparr>am_title := None, am_title_reported_at := None\<rparr> else m0);
          m2 = (if rp_clear_display_agent r
                then m1\<lparr>am_display_agent := None, am_display_agent_reported_at := None\<rparr> else m1);
          m3 = (if rp_clear_state_labels r
                then m2\<lparr>am_state_labels := [], am_state_label_reported_at := []\<rparr> else m2);
          m4 = (case rp_agent_label r of None \<Rightarrow> m3 | Some l \<Rightarrow> m3\<lparr>am_agent_label := Some l\<rparr>);
          m5 = (case rp_applies_to_source r of None \<Rightarrow> m4 | Some s \<Rightarrow> m4\<lparr>am_applies_to_source := Some s\<rparr>);
          m6 = (case rp_title r of None \<Rightarrow> m5
                | Some x \<Rightarrow> m5\<lparr>am_title := Some x, am_title_reported_at := Some now\<rparr>);
          m7 = (case rp_display_agent r of None \<Rightarrow> m6
                | Some x \<Rightarrow> m6\<lparr>am_display_agent := Some x, am_display_agent_reported_at := Some now\<rparr>);
          m8 = fold (\<lambda>(st, label) m.
                 m\<lparr>am_state_labels := AList.update st label (am_state_labels m),
                   am_state_label_reported_at := AList.update st now (am_state_label_reported_at m)\<rparr>)
                 (rp_state_labels r) m7
      in if has_set_fields r \<or> rp_ttl r \<noteq> None
         then m8\<lparr>am_reported_at := now, am_ttl := rp_ttl r, am_expiry_event_pending := False\<rparr>
         else m8)"

text \<open>A report that clears nothing replaces the entry of its source.\<close>

definition replacement_metadata :: "agent_metadata_report \<Rightarrow> instant \<Rightarrow> agent_metadata" where
  "replacement_metadata r now =
     \<lparr>am_source = rp_source r, am_agent_label = rp_agent_label r,
      am_applies_to_source = rp_applies_to_source r, am_title = rp_title r,
      am_display_agent = rp_display_agent r, am_state_labels = rp_state_labels r,
      am_reported_at = now, am_title_reported_at = map_option (\<lambda>_. now) (rp_title r),
      am_display_agent_reported_at = map_option (\<lambda>_. now) (rp_display_agent r),
      am_state_label_reported_at = map (\<lambda>(st, _). (st, now)) (rp_state_labels r),
      am_ttl = rp_ttl r, am_expiry_event_pending = False\<rparr>"

definition drop_expired_entry :: "terminal_state \<Rightarrow> string \<Rightarrow> instant \<Rightarrow> terminal_state" where
  "drop_expired_entry t source now =
     (if is_some_and (map_of (ts_agent_metadata t) source) (\<lambda>m. agent_metadata_is_expired m now)
      then t\<lparr>ts_agent_metadata := AList.delete source (ts_agent_metadata t)\<rparr> else t)"

definition store_report :: "terminal_state \<Rightarrow> agent_metadata_report \<Rightarrow> instant \<Rightarrow> terminal_state" where
  "store_report t r now =
     (let entry =
            (if rp_clear_title r \<or> rp_clear_display_agent r \<or> rp_clear_state_labels r
             then patch_metadata r now (unwrap_or (map_of (ts_agent_metadata t) (rp_source r)) (blank_metadata r now))
             else replacement_metadata r now)
      in t\<lparr>ts_agent_metadata := AList.update (rp_source r) entry (ts_agent_metadata t)\<rparr>)"

definition arm_expiry_event :: "terminal_state \<Rightarrow> agent_metadata_report \<Rightarrow> terminal_state" where
  "arm_expiry_event t r =
     (if rp_ttl r \<noteq> None \<and>
         is_some_and (map_of (ts_agent_metadata t) (rp_source r)) (agent_metadata_is_visible_ignoring_ttl t)
      then t\<lparr>ts_agent_metadata :=
               hm_modify (rp_source r) (\<lambda>m. m\<lparr>am_expiry_event_pending := True\<rparr>) (ts_agent_metadata t)\<rparr>
      else t)"

definition set_agent_metadata ::
  "terminal_state \<Rightarrow> agent_metadata_report \<Rightarrow> instant \<Rightarrow> terminal_state \<times> terminal_mutation option" where
  "set_agent_metadata t r now =
     (case accept_metadata_report t (rp_source r) (rp_seq r) False of (t1, accepted) \<Rightarrow>
        if accepted \<noteq> Some True then (t1, None)
        else let t2 = drop_expired_entry t1 (rp_source r) now;
                 prev = previous_effective_at t2 now;
                 t3 = store_report t2 r now;
                 t4 = arm_expiry_event t3 r
             in case recompute_effective_state t4 prev now of (t5, change) \<Rightarrow>
                  let t6 = (if change \<noteq> None then clear_expiry_pending_for_hidden_metadata t5 else t5)
                  in (t6, Some \<lparr>tm_effective_state_change = change, tm_session_ref_changed = False\<rparr>))"

definition next_agent_metadata_expiry :: "terminal_state \<Rightarrow> instant \<Rightarrow> instant option" where
  "next_agent_metadata_expiry t now =
     min_instant
       (filter (\<lambda>deadline. deadline > now \<or>
           list_ex (\<lambda>m. am_expiry_event_pending m \<and> agent_metadata_matches_guards t m \<and>
                         agent_metadata_expiry m = Some deadline) (hm_values (ts_agent_metadata t)))
         (List.map_filter agent_metadata_expiry
           (filter (agent_metadata_matches_guards t) (hm_values (ts_agent_metadata t)))))"

text \<open>The entries whose deadline has passed, with their deadlines.\<close>

definition overdue_sources :: "terminal_state \<Rightarrow> instant \<Rightarrow> (string \<times> instant) list" where
  "overdue_sources t now =
     List.map_filter (\<lambda>(source, m). case agent_metadata_expiry m of
        None \<Rightarrow> None
      | Some deadline \<Rightarrow> then_some (deadline \<le> now) (source, deadline)) (ts_agent_metadata t)"

definition remove_metadata :: "string list \<Rightarrow> terminal_state \<Rightarrow> terminal_state" where
  "remove_metadata sources t = t\<lparr>ts_agent_metadata := fold AList.delete sources (ts_agent_metadata t)\<rparr>"

definition expire_agent_metadata_at ::
  "terminal_state \<Rightarrow> instant \<Rightarrow> instant \<Rightarrow> terminal_state \<times> terminal_mutation option" where
  "expire_agent_metadata_at t scheduled_deadline now =
     (case partition (\<lambda>(_, deadline). deadline \<ge> scheduled_deadline) (overdue_sources t now) of
        (expired, stale) \<Rightarrow>
          let t1 = remove_metadata (map fst stale) t
          in if expired = [] then (t1, None)
             else let prev = (previous_effective_at t1 now)
                               \<lparr>prev_presentation :=
                                  effective_presentation_for_state_at_ignoring_ttl t1 (ts_state t1) now\<rparr>;
                      t2 = remove_metadata (map fst expired) t1
                  in case recompute_effective_state t2 prev now of (t3, change) \<Rightarrow>
                       (t3, Some \<lparr>tm_effective_state_change = change, tm_session_ref_changed = False\<rparr>))"

end
