(* ===== verification/TerminalInv.thy ===== *)
theory TerminalInv
  imports TerminalMetadata
begin

text \<open>
  The invariant of a terminal and the contract its operations share: after every operation the
  state that is shown is the one the arbitration of hooks and screen gives, the hook and the screen
  speak for different agents only while the screen was observed before the hook reported, and what
  the operation returns tells the caller exactly what changed.  Both are proved for every operation, by interpretation of one locale.
\<close>

section \<open>What the queries depend on\<close>

named_theorems frame \<open>fields that an operation leaves alone\<close>

text \<open>The fields the effective agent, its state and the identity of the session are computed from.\<close>

definition same_core :: "terminal_state \<Rightarrow> terminal_state \<Rightarrow> bool" where
  "same_core t t' \<longleftrightarrow>
     ts_detected_agent t' = ts_detected_agent t \<and> ts_fallback_state t' = ts_fallback_state t \<and>
     ts_fallback_visible_blocker t' = ts_fallback_visible_blocker t \<and>
     ts_fallback_observed_at t' = ts_fallback_observed_at t \<and>
     ts_hook_authority t' = ts_hook_authority t \<and>
     ts_persisted_agent_session t' = ts_persisted_agent_session t \<and>
     ts_state t' = ts_state t \<and> ts_agent_metadata t' = ts_agent_metadata t"

lemma same_core_refl [simp]: "same_core t t"
  by (simp add: same_core_def)

lemma same_core_trans: "same_core t u \<Longrightarrow> same_core u v \<Longrightarrow> same_core t v"
  by (simp add: same_core_def)

lemma same_core_fields:
  assumes "same_core t t'"
  shows "ts_detected_agent t' = ts_detected_agent t" "ts_fallback_state t' = ts_fallback_state t"
    "ts_fallback_visible_blocker t' = ts_fallback_visible_blocker t"
    "ts_fallback_observed_at t' = ts_fallback_observed_at t"
    "ts_hook_authority t' = ts_hook_authority t"
    "ts_persisted_agent_session t' = ts_persisted_agent_session t"
    "ts_state t' = ts_state t" "ts_agent_metadata t' = ts_agent_metadata t"
  using assms by (simp_all add: same_core_def)

lemmas query_defs = effective_agent_label_def effective_known_agent_def current_session_identity_def
  arbitrated_state_def visible_blocker_overrides_hook_def fallback_not_older_than_hook_def
  live_full_lifecycle_hook_authority_def

lemma same_core_queries:
  assumes "same_core t t'"
  shows "effective_agent_label t' = effective_agent_label t"
    "effective_known_agent t' = effective_known_agent t"
    "current_session_identity t' = current_session_identity t"
    "arbitrated_state t' = arbitrated_state t"
  by (simp_all add: query_defs same_core_fields [OF assms] Let_def cong: option.case_cong)

lemma same_core_suppress [frame]:
  "same_core t (suppress_report_with_session_ref t s l r reason wall)"
  "same_core t (suppress_current_full_lifecycle_hook_authority t reason wall)"
  "same_core t (suppress_full_lifecycle_hook_report t s l reason wall)"
  by (auto simp: same_core_def suppress_report_with_session_ref_def
      suppress_current_full_lifecycle_hook_authority_def suppress_full_lifecycle_hook_report_def
      split: option.splits)

lemma same_core_stale [frame]:
  "same_core t (remember_stale_session t s l r)"
  "same_core t (forget_stale_session t s l r)"
  "same_core t (lift_suppression t s)"
  by (auto simp: same_core_def remember_stale_session_def forget_stale_session_def
      lift_suppression_def Let_def split: option.splits)

lemma same_core_accept [frame]: "same_core t (fst (accept_hook_report t s seq))"
  by (auto simp: same_core_def accept_hook_report_def split: option.splits)

lemma same_core_accept_metadata [frame]: "same_core t (fst (accept_metadata_report t s seq tok))"
  by (auto simp: same_core_def accept_metadata_report_def Let_def split: option.splits)

lemma same_core_fold_remember:
  "same_core t (fold (\<lambda>(source, label, r) t. remember_stale_session t source label r) xs t)"
proof (induction xs arbitrary: t)
  case (Cons x xs)
  obtain s l r where x: "x = (s, l, r)" by (cases x)
  from same_core_trans [OF same_core_stale(1) Cons.IH] show ?case by (simp add: x)
qed simp

lemma same_core_clear_suppression [frame]: "same_core t (clear_suppression_for_detected_agent t p a)"
proof -
  have upd: "same_core t u \<Longrightarrow> same_core t (u\<lparr>ts_hook_report_sequences := m\<rparr>)" for u m
    by (simp add: same_core_def)
  have "same_core t (t\<lparr>ts_suppressed_reports := m\<rparr>)" for m by (simp add: same_core_def)
  from same_core_trans [OF this same_core_fold_remember]
  show ?thesis
    by (auto simp: clear_suppression_for_detected_agent_def Let_def intro!: upd split: option.splits)
qed

text \<open>The recomputation changes the metadata's pending flags and the state, nothing else.\<close>

lemma clear_expiry_fields:
  "\<exists>m. clear_expiry_pending_for_hidden_metadata t = t\<lparr>ts_agent_metadata := m\<rparr>"
  by (auto simp: clear_expiry_pending_for_hidden_metadata_def Let_def)

lemma recompute_fields:
  assumes "prev_state prev = ts_state t"
  shows "\<exists>m. fst (recompute_effective_state t prev now) =
    t\<lparr>ts_agent_metadata := m, ts_state := arbitrated_state t\<rparr>"
proof -
  obtain m where m: "clear_expiry_pending_for_hidden_metadata t = t\<lparr>ts_agent_metadata := m\<rparr>"
    using clear_expiry_fields by blast
  show ?thesis
  proof (cases "arbitrated_state t = ts_state t")
    case True
    have "t\<lparr>ts_agent_metadata := m\<rparr> = t\<lparr>ts_agent_metadata := m, ts_state := ts_state t\<rparr>" by simp
    then show ?thesis unfolding recompute_effective_state_def Let_def m using True by auto
  next
    case False
    then show ?thesis using assms by (auto simp: recompute_effective_state_def Let_def m)
  qed
qed

lemma arbitrated_state_update [simp]:
  "arbitrated_state (t\<lparr>ts_agent_metadata := m\<rparr>) = arbitrated_state t"
  "arbitrated_state (t\<lparr>ts_state := st\<rparr>) = arbitrated_state t"
  by (simp_all add: query_defs)

lemma effective_update [simp]:
  "effective_agent_label (t\<lparr>ts_agent_metadata := m\<rparr>) = effective_agent_label t"
  "effective_agent_label (t\<lparr>ts_state := st\<rparr>) = effective_agent_label t"
  "effective_known_agent (t\<lparr>ts_agent_metadata := m\<rparr>) = effective_known_agent t"
  "effective_known_agent (t\<lparr>ts_state := st\<rparr>) = effective_known_agent t"
  "current_session_identity (t\<lparr>ts_agent_metadata := m\<rparr>) = current_session_identity t"
  "current_session_identity (t\<lparr>ts_state := st\<rparr>) = current_session_identity t"
  by (simp_all add: query_defs cong: option.case_cong)

section \<open>The invariant\<close>

text \<open>The state that is shown is the arbitrated one, and only a blocked screen shows a blocker.\<close>

definition settled :: "terminal_state \<Rightarrow> bool" where
  "settled t \<longleftrightarrow> ts_state t = arbitrated_state t \<and>
     (ts_fallback_visible_blocker t \<longrightarrow> ts_fallback_state t = Blocked)"

text \<open>The screen was last observed before the report of the hook: detections are queued, so one can
  be applied after a hook report that it precedes.\<close>

definition screen_predates_hook :: "terminal_state \<Rightarrow> bool" where
  "screen_predates_hook t \<longleftrightarrow>
     is_some_and (ts_hook_authority t) (\<lambda>authority.
       is_some_and (ts_fallback_observed_at t) (\<lambda>observed_at. observed_at < ha_reported_at authority))"

text \<open>At the clock time \<open>now\<close> the hook's report is not from the future, and the hook speaks for another
  agent than the screen shows only while the screen predates the report.\<close>

definition coherent :: "instant \<Rightarrow> terminal_state \<Rightarrow> bool" where
  "coherent now t \<longleftrightarrow> hook_authority_not_newer_than t now \<and>
     (hook_authority_conflicts_with_detected_agent t (ts_detected_agent t) \<longrightarrow> screen_predates_hook t)"

text \<open>Only integrations that own the life cycle are suppressed or have stale sessions, and the stale
  sessions of a source are listed once.\<close>

definition suppressions_ok :: "terminal_state \<Rightarrow> bool" where
  "suppressions_ok t \<longleftrightarrow> hm_wf (ts_suppressed_reports t) \<and>
     (\<forall>(s, r) \<in> set (ts_suppressed_reports t). full_lifecycle_hook_authority s (sup_agent_label r))"

definition stale_ok :: "terminal_state \<Rightarrow> bool" where
  "stale_ok t \<longleftrightarrow> hm_wf (ts_stale_sessions t) \<and>
     (\<forall>(s, xs) \<in> set (ts_stale_sessions t). xs \<noteq> [] \<and> distinct xs \<and>
        (\<forall>x \<in> set xs. full_lifecycle_hook_authority s (stale_agent_label x)))"

definition maps_ok :: "terminal_state \<Rightarrow> bool" where
  "maps_ok t \<longleftrightarrow> suppressions_ok t \<and> stale_ok t \<and> hm_wf (ts_hook_report_sequences t)"

definition term_inv :: "instant \<Rightarrow> terminal_state \<Rightarrow> bool" where
  "term_inv now t \<longleftrightarrow> settled t \<and> coherent now t \<and> maps_ok t"

lemma term_inv_later: "term_inv now t \<Longrightarrow> now \<le> now' \<Longrightarrow> term_inv now' t"
  by (auto simp: term_inv_def coherent_def hook_authority_not_newer_than_def is_none_or_iff)

lemma new_terminal_inv: "term_inv now (new_terminal_state i cwd)"
  by (simp add: term_inv_def settled_def coherent_def maps_ok_def suppressions_ok_def stale_ok_def
      new_terminal_state_def query_defs hook_authority_not_newer_than_def
      hook_authority_conflicts_with_detected_agent_def)

section \<open>The maps\<close>

lemma stale_ok_update:
  assumes "stale_ok t" and "xs \<noteq> []" "distinct xs"
    and "\<forall>x \<in> set xs. full_lifecycle_hook_authority s (stale_agent_label x)"
  shows "stale_ok (t\<lparr>ts_stale_sessions := AList.update s xs (ts_stale_sessions t)\<rparr>)"
  using assms by (auto simp: stale_ok_def hm_wf_update dest!: set_update_values)

lemma stale_ok_lookup:
  assumes "stale_ok t" and "map_of (ts_stale_sessions t) s = Some xs"
  shows "xs \<noteq> []" "distinct xs" "\<forall>x \<in> set xs. full_lifecycle_hook_authority s (stale_agent_label x)"
  using assms map_of_SomeD [OF assms(2)] by (auto simp: stale_ok_def)

lemma remember_stale_ok:
  assumes "stale_ok t" and "full_lifecycle_hook_authority s l"
  shows "stale_ok (remember_stale_session t s l r)"
proof -
  let ?xs = "unwrap_or (map_of (ts_stale_sessions t) s) []"
  have "distinct ?xs" "\<forall>x \<in> set ?xs. full_lifecycle_hook_authority s (stale_agent_label x)"
    using stale_ok_lookup [OF assms(1), of s] by (cases "map_of (ts_stale_sessions t) s"; simp)+
  with assms(2) show ?thesis
    unfolding remember_stale_session_def Let_def
    by (intro stale_ok_update [OF assms(1)]) (auto simp: list_ex_iff)
qed

lemma forget_stale_ok:
  assumes "stale_ok t"
  shows "stale_ok (forget_stale_session t s l r)"
proof (cases "map_of (ts_stale_sessions t) s")
  case None
  with assms show ?thesis by (simp add: forget_stale_session_def)
next
  case (Some xs)
  note xs = stale_ok_lookup [OF assms Some]
  have "stale_ok (t\<lparr>ts_stale_sessions := AList.delete s (ts_stale_sessions t)\<rparr>)"
    using assms set_delete_subset [of s "ts_stale_sessions t"]
    by (fastforce simp: stale_ok_def hm_wf_delete)
  with xs show ?thesis
    unfolding forget_stale_session_def Some
    by (auto simp: Let_def intro!: stale_ok_update [OF assms])
qed

lemma stale_ok_cong [simp]:
  "stale_ok (t\<lparr>ts_suppressed_reports := m\<rparr>) = stale_ok t"
  "stale_ok (t\<lparr>ts_hook_report_sequences := q\<rparr>) = stale_ok t"
  by (simp_all add: stale_ok_def)

lemma suppress_maps_ok:
  assumes "maps_ok t" and "full_lifecycle_hook_authority s l"
  shows "maps_ok (suppress_report_with_session_ref t s l r reason wall)"
  using assms by (auto simp: maps_ok_def suppressions_ok_def suppress_report_with_session_ref_def
      hm_wf_update dest!: set_update_values)

lemma suppress_current_maps_ok:
  "maps_ok t \<Longrightarrow> maps_ok (suppress_current_full_lifecycle_hook_authority t reason wall)"
  by (auto simp: suppress_current_full_lifecycle_hook_authority_def suppress_maps_ok split: option.splits)

lemma suppress_hook_report_maps_ok:
  "maps_ok t \<Longrightarrow> maps_ok (suppress_full_lifecycle_hook_report t s l reason wall)"
  by (auto simp: suppress_full_lifecycle_hook_report_def suppress_maps_ok)

lemma remember_maps_ok:
  assumes "maps_ok t" and "full_lifecycle_hook_authority s l"
  shows "maps_ok (remember_stale_session t s l r)"
  using assms remember_stale_ok [of t s l r]
  by (auto simp: maps_ok_def suppressions_ok_def remember_stale_session_def Let_def)

lemma forget_maps_ok: "maps_ok t \<Longrightarrow> maps_ok (forget_stale_session t s l r)"
  using forget_stale_ok [of t s l r]
  by (auto simp: maps_ok_def suppressions_ok_def forget_stale_session_def Let_def split: option.splits)

lemma lift_maps_ok:
  assumes "maps_ok t"
  shows "maps_ok (lift_suppression t s)"
proof -
  let ?t = "t\<lparr>ts_suppressed_reports := AList.delete s (ts_suppressed_reports t)\<rparr>"
  have t: "maps_ok ?t"
    using assms set_delete_subset [of s "ts_suppressed_reports t"]
    by (auto simp: maps_ok_def suppressions_ok_def hm_wf_delete)
  show ?thesis
  proof (cases "map_of (ts_suppressed_reports t) s")
    case None
    with t show ?thesis by (simp add: lift_suppression_def)
  next
    case (Some sup)
    then have "full_lifecycle_hook_authority s (sup_agent_label sup)"
      using assms map_of_SomeD [OF Some] by (auto simp: maps_ok_def suppressions_ok_def)
    with Some t show ?thesis
      by (auto simp: lift_suppression_def Let_def remember_maps_ok split: option.splits)
  qed
qed

lemma accept_maps_ok: "maps_ok t \<Longrightarrow> maps_ok (fst (accept_hook_report t s seq))"
  by (auto simp: maps_ok_def suppressions_ok_def accept_hook_report_def hm_wf_update split: option.splits)

lemma fold_remember_maps_ok:
  "maps_ok t \<Longrightarrow> \<forall>(s, l, r) \<in> set xs. full_lifecycle_hook_authority s l \<Longrightarrow>
   maps_ok (fold (\<lambda>(source, label, r) t. remember_stale_session t source label r) xs t)"
  by (induction xs arbitrary: t) (auto simp: remember_maps_ok)

lemma maps_ok_filter:
  "maps_ok t \<Longrightarrow> maps_ok (t\<lparr>ts_suppressed_reports := filter P (ts_suppressed_reports t)\<rparr>)"
  "maps_ok t \<Longrightarrow> maps_ok (t\<lparr>ts_hook_report_sequences := filter Q (ts_hook_report_sequences t)\<rparr>)"
  "maps_ok t \<Longrightarrow> maps_ok (t\<lparr>ts_hook_report_sequences := AList.delete s (ts_hook_report_sequences t)\<rparr>)"
  by (auto simp: maps_ok_def suppressions_ok_def hm_wf_filter hm_wf_delete)

lemma clear_suppression_maps_ok:
  assumes "maps_ok t"
  shows "maps_ok (clear_suppression_for_detected_agent t p a)"
proof -
  let ?mem = "fold (\<lambda>(source, label, r) t. remember_stale_session t source label r)"
  have pulled: "\<forall>(s, l, r) \<in> set (List.map_filter (\<lambda>(source, sup). if P sup
      then map_option (\<lambda>r. (source, sup_agent_label sup, r)) (sup_session_ref sup) else None)
        (ts_suppressed_reports t)). full_lifecycle_hook_authority s l" for P
    using assms by (fastforce simp: List.map_filter_def maps_ok_def suppressions_ok_def split: if_splits)
  show ?thesis
    using assms
    by (auto simp: clear_suppression_for_detected_agent_def Let_def split: option.split
        intro!: maps_ok_filter(2) fold_remember_maps_ok maps_ok_filter(1) pulled)
qed

section \<open>What an operation reports\<close>

text \<open>The known agent is a function of the label, so a report of the label covers both.\<close>

lemma effective_known_of_label:
  "effective_known_agent t = Option.bind (effective_agent_label t) parse_agent_label"
  by (cases "ts_hook_authority t"; cases "ts_detected_agent t")
     (simp_all add: effective_known_agent_def effective_agent_label_def parse_agent_label_label)

definition same_view :: "terminal_state \<Rightarrow> terminal_state \<Rightarrow> bool" where
  "same_view t t' \<longleftrightarrow> effective_agent_label t' = effective_agent_label t \<and>
     effective_known_agent t' = effective_known_agent t \<and> ts_state t' = ts_state t"

definition change_describes :: "terminal_state \<Rightarrow> terminal_state \<Rightarrow> effective_state_change \<Rightarrow> bool" where
  "change_describes t t' c \<longleftrightarrow>
     esc_previous_agent_label c = effective_agent_label t \<and>
     esc_previous_known_agent c = effective_known_agent t \<and> esc_previous_state c = ts_state t \<and>
     esc_agent_label c = effective_agent_label t' \<and>
     esc_known_agent c = effective_known_agent t' \<and> esc_state c = ts_state t'"

text \<open>No change is silent: without a reported change the agent, its state and the session are the
  same; with one it carries the values before and after.\<close>

definition reported :: "terminal_state \<Rightarrow> terminal_state \<Rightarrow> terminal_mutation option \<Rightarrow> bool" where
  "reported t t' r \<longleftrightarrow>
     (case r of
        None \<Rightarrow> same_view t t' \<and> current_session_identity t' = current_session_identity t
      | Some m \<Rightarrow>
          (tm_session_ref_changed m \<longleftrightarrow> current_session_identity t' \<noteq> current_session_identity t) \<and>
          (case tm_effective_state_change m of
             None \<Rightarrow> same_view t t'
           | Some c \<Rightarrow> change_describes t t' c))"

lemma same_core_view: "same_core t t' \<Longrightarrow> same_view t t'"
  by (simp add: same_view_def same_core_queries same_core_fields)

lemma same_core_reported: "same_core t t' \<Longrightarrow> reported t t' None"
  by (simp add: reported_def same_core_view same_core_queries)

lemma reported_cong:
  "same_core t u \<Longrightarrow> reported u t' r \<Longrightarrow> reported t t' r"
  by (simp add: reported_def same_view_def change_describes_def same_core_queries same_core_fields
      cong: option.case_cong)

lemma recompute_reported:
  assumes prev: "prev_agent_label prev = effective_agent_label t0"
      "prev_known_agent prev = effective_known_agent t0" "prev_state prev = ts_state t0"
    and "ts_state t = ts_state t0"
    and rc: "recompute_effective_state t prev now = (t', change)"
  shows "ts_state t' = arbitrated_state t"
    and "case change of None \<Rightarrow> same_view t0 t' | Some c \<Rightarrow> change_describes t0 t' c"
    and "current_session_identity t' = current_session_identity t"
proof -
  have "fst (recompute_effective_state t prev now) = t'" by (simp add: rc)
  then obtain m where t': "t' = t\<lparr>ts_agent_metadata := m, ts_state := arbitrated_state t\<rparr>"
    using recompute_fields [of prev t now] assms(3,4) by auto
  show "ts_state t' = arbitrated_state t" "current_session_identity t' = current_session_identity t"
    by (simp_all add: t')
  have label: "effective_agent_label t' = effective_agent_label t"
    "effective_known_agent t' = effective_known_agent t"
    by (simp_all add: t')
  show "case change of None \<Rightarrow> same_view t0 t' | Some c \<Rightarrow> change_describes t0 t' c"
    using rc prev label t'
    by (auto simp: recompute_effective_state_def Let_def same_view_def change_describes_def
        effective_known_of_label split: if_splits)
qed

lemma maps_ok_cong [simp]:
  "maps_ok (t\<lparr>ts_hook_authority := a\<rparr>) = maps_ok t"
  "maps_ok (t\<lparr>ts_persisted_agent_session := b\<rparr>) = maps_ok t"
  "maps_ok (t\<lparr>ts_detected_agent := c\<rparr>) = maps_ok t"
  "maps_ok (t\<lparr>ts_fallback_state := d\<rparr>) = maps_ok t"
  "maps_ok (t\<lparr>ts_fallback_visible_blocker := e\<rparr>) = maps_ok t"
  "maps_ok (t\<lparr>ts_fallback_observed_at := f\<rparr>) = maps_ok t"
  "maps_ok (t\<lparr>ts_recent_agent_process_exit_at := g\<rparr>) = maps_ok t"
  "maps_ok (t\<lparr>ts_agent_metadata := h\<rparr>) = maps_ok t"
  "maps_ok (t\<lparr>ts_state := i\<rparr>) = maps_ok t"
  "maps_ok (t\<lparr>ts_metadata_report_sequences := j\<rparr>) = maps_ok t"
  "maps_ok (t\<lparr>ts_metadata_token_sequence_sources := k\<rparr>) = maps_ok t"
  by (simp_all add: maps_ok_def suppressions_ok_def stale_ok_def)

text \<open>What holds before the recomputation that ends an operation.\<close>

definition pre_inv :: "instant \<Rightarrow> terminal_state \<Rightarrow> bool" where
  "pre_inv now t \<longleftrightarrow> coherent now t \<and> maps_ok t \<and>
     (ts_fallback_visible_blocker t \<longrightarrow> ts_fallback_state t = Blocked)"

lemma term_inv_pre: "term_inv now t \<Longrightarrow> pre_inv now t"
  by (simp add: term_inv_def pre_inv_def settled_def)

lemma coherent_fields:
  "ts_hook_authority t' = ts_hook_authority t \<Longrightarrow> ts_detected_agent t' = ts_detected_agent t \<Longrightarrow>
   ts_fallback_observed_at t' = ts_fallback_observed_at t \<Longrightarrow> coherent now t' = coherent now t"
  by (simp add: coherent_def hook_authority_not_newer_than_def screen_predates_hook_def
      hook_authority_conflicts_with_detected_agent_def cong: option.case_cong)

lemma coherent_no_hook: "ts_hook_authority t = None \<Longrightarrow> coherent now t"
  by (simp add: coherent_def hook_authority_not_newer_than_def
      hook_authority_conflicts_with_detected_agent_def split: option.split)

lemma pre_inv_core: "pre_inv now t \<Longrightarrow> same_core t t' \<Longrightarrow> maps_ok t' \<Longrightarrow> pre_inv now t'"
  using coherent_fields [of t' t now] by (simp add: pre_inv_def same_core_fields)

lemma term_inv_core: "term_inv now t \<Longrightarrow> same_core t t' \<Longrightarrow> maps_ok t' \<Longrightarrow> term_inv now t'"
  using coherent_fields [of t' t now]
  by (simp add: term_inv_def settled_def same_core_fields same_core_queries)

lemma recompute_inv:
  assumes "pre_inv now t" and "prev_state prev = ts_state t"
  shows "term_inv now (fst (recompute_effective_state t prev clock))"
proof -
  obtain m where t': "fst (recompute_effective_state t prev clock) =
      t\<lparr>ts_agent_metadata := m, ts_state := arbitrated_state t\<rparr>"
    using recompute_fields [OF assms(2), of clock] by blast
  show ?thesis
    using assms(1) coherent_fields [of "t\<lparr>ts_agent_metadata := m, ts_state := arbitrated_state t\<rparr>" t now]
    by (simp add: t' pre_inv_def term_inv_def settled_def)
qed

text \<open>The common end of the operations.\<close>

lemma finish_contract:
  assumes "pre_inv now t" and "same_core t0 u" and "ts_state t = ts_state t0"
    and "prev = previous_effective_at u clock" and "ps = current_session_identity u"
  shows "term_inv now (fst (finish_detection t prev ps clock))"
    and "reported t0 (fst (finish_detection t prev ps clock)) (Some (snd (finish_detection t prev ps clock)))"
proof -
  obtain t' change where rc: "recompute_effective_state t prev clock = (t', change)" by fastforce
  have prev: "prev_agent_label prev = effective_agent_label t0"
    "prev_known_agent prev = effective_known_agent t0" "prev_state prev = ts_state t0"
    "ps = current_session_identity t0"
    using assms(2,4,5) by (simp_all add: previous_effective_at_def same_core_queries same_core_fields)
  show "term_inv now (fst (finish_detection t prev ps clock))"
    using recompute_inv [OF assms(1), of prev clock] prev assms(3) rc by (simp add: finish_detection_def)
  show "reported t0 (fst (finish_detection t prev ps clock)) (Some (snd (finish_detection t prev ps clock)))"
    using recompute_reported [OF prev(1-3) assms(3) rc] prev(4)
    by (auto simp: finish_detection_def rc reported_def)
qed

end
