(* ===== verification/TerminalContract.thy ===== *)
theory TerminalContract
  imports TerminalInv
begin

text \<open>
  The contract of the terminal's operations as a locale, its consequences for a client, and its
  interpretation on each operation of \<open>terminal/state.rs\<close> and \<open>terminal/metadata.rs\<close>.  An operation
  carries a time of its own, which may lie before the present.
\<close>

locale terminal_operation =
  fixes op :: "instant \<Rightarrow> terminal_state \<Rightarrow> terminal_state \<times> terminal_mutation option"
  assumes op_inv: "term_inv now t \<Longrightarrow> at \<le> now \<Longrightarrow> term_inv now (fst (op at t))"
    and op_reported: "term_inv now t \<Longrightarrow> at \<le> now \<Longrightarrow> reported t (fst (op at t)) (snd (op at t))"
begin

lemma visible_change_reported:
  assumes "term_inv now t" and "at \<le> now" and "op at t = (t', r)"
    and "effective_agent_label t' \<noteq> effective_agent_label t \<or> ts_state t' \<noteq> ts_state t"
  shows "\<exists>m c. r = Some m \<and> tm_effective_state_change m = Some c \<and>
    esc_previous_agent_label c = effective_agent_label t \<and> esc_previous_state c = ts_state t \<and>
    esc_agent_label c = effective_agent_label t' \<and> esc_state c = ts_state t'"
  using op_reported [OF assms(1,2)] assms(3,4)
  by (auto simp: reported_def same_view_def change_describes_def split: option.splits)

lemma session_change_reported:
  assumes "term_inv now t" and "at \<le> now" and "op at t = (t', r)"
  shows "is_some_and r tm_session_ref_changed \<longleftrightarrow>
    current_session_identity t' \<noteq> current_session_identity t"
  using op_reported [OF assms(1,2)] assms(3)
  by (auto simp: reported_def split: option.splits)

text \<open>Any number of calls keeps the state settled.\<close>

lemma settled_after_calls:
  assumes "term_inv now t" and "\<And>i. when i \<le> now"
  shows "settled (foldl (\<lambda>t i. fst (op (when i) t)) t is')"
proof -
  have "term_inv now (foldl (\<lambda>t i. fst (op (when i) t)) t is')"
    using assms(1) by (induction is' arbitrary: t) (simp_all add: op_inv [OF _ assms(2)])
  then show ?thesis by (simp add: term_inv_def)
qed

end

section \<open>Screen detection\<close>

lemma note_detection_fields:
  "ts_hook_authority (note_detection t a f v e now) = ts_hook_authority t"
  "ts_detected_agent (note_detection t a f v e now) = a"
  "ts_state (note_detection t a f v e now) = ts_state t"
  "ts_fallback_visible_blocker (note_detection t a f v e now) \<longrightarrow>
     ts_fallback_state (note_detection t a f v e now) = Blocked"
  "ts_fallback_observed_at (note_detection t a f v e now) = Some now"
  using same_core_fields [OF same_core_clear_suppression, of "t\<lparr>ts_detected_agent := a\<rparr>" "ts_detected_agent t" a]
  by (auto simp: note_detection_def Let_def)

lemma note_detection_maps_ok: "maps_ok t \<Longrightarrow> maps_ok (note_detection t a f v e now)"
  by (simp add: note_detection_def Let_def clear_suppression_maps_ok)

lemmas suppress_fields = same_core_fields [OF same_core_suppress(2)]

lemma end_exited_fields:
  "ts_hook_authority (end_exited_authority t a e now wall) \<in> {ts_hook_authority t, None}"
  "ts_detected_agent (end_exited_authority t a e now wall) = ts_detected_agent t"
  "ts_state (end_exited_authority t a e now wall) = ts_state t"
  "ts_fallback_visible_blocker (end_exited_authority t a e now wall) = ts_fallback_visible_blocker t"
  "ts_fallback_state (end_exited_authority t a e now wall) = ts_fallback_state t"
  "ts_fallback_observed_at (end_exited_authority t a e now wall) = ts_fallback_observed_at t"
  using suppress_fields [of t ProcessExit wall]
  by (auto simp: end_exited_authority_def Let_def split: option.split)

lemma end_exited_maps_ok: "maps_ok t \<Longrightarrow> maps_ok (end_exited_authority t a e now wall)"
  by (auto simp: end_exited_authority_def Let_def suppress_current_maps_ok
      intro!: maps_ok_filter(3) split: option.split)

lemma end_exited_session_fields:
  "ts_hook_authority (end_exited_session t a e) = ts_hook_authority t"
  "ts_detected_agent (end_exited_session t a e) = ts_detected_agent t"
  "ts_state (end_exited_session t a e) = ts_state t"
  "ts_fallback_visible_blocker (end_exited_session t a e) = ts_fallback_visible_blocker t"
  "ts_fallback_state (end_exited_session t a e) = ts_fallback_state t"
  "maps_ok (end_exited_session t a e) = maps_ok t"
  "ts_fallback_observed_at (end_exited_session t a e) = ts_fallback_observed_at t"
  by (simp_all add: end_exited_session_def)

lemma end_displaced_fields:
  "ts_detected_agent (end_displaced_authority t p a now wall) = ts_detected_agent t"
  "ts_state (end_displaced_authority t p a now wall) = ts_state t"
  "ts_fallback_visible_blocker (end_displaced_authority t p a now wall) = ts_fallback_visible_blocker t"
  "ts_fallback_state (end_displaced_authority t p a now wall) = ts_fallback_state t"
  "ts_fallback_observed_at (end_displaced_authority t p a now wall) = ts_fallback_observed_at t"
  using suppress_fields [of t HookClear wall]
  by (simp_all add: end_displaced_authority_def Let_def)

lemma end_displaced_maps_ok: "maps_ok t \<Longrightarrow> maps_ok (end_displaced_authority t p a now wall)"
  by (simp add: end_displaced_authority_def Let_def suppress_current_maps_ok)

text \<open>Here the hook and the screen are brought in line again, unless the hook reported later.\<close>

lemma end_displaced_coherent:
  assumes "hook_authority_not_newer_than t now" and "ts_detected_agent t = a"
    and "ts_fallback_observed_at t = Some at"
  shows "coherent now (end_displaced_authority t p a at wall)"
proof (cases "hook_authority_not_newer_than t at \<and> hook_authority_conflicts_with_detected_agent t a")
  case True
  then show ?thesis
    by (intro coherent_no_hook) (simp add: end_displaced_authority_def Let_def)
next
  case False
  then have "coherent now t" using assms
    by (cases "ts_hook_authority t")
       (auto simp: coherent_def screen_predates_hook_def hook_authority_not_newer_than_def)
  then show ?thesis by (auto simp: end_displaced_authority_def Let_def intro: coherent_no_hook)
qed

lemma not_newer_fields:
  "ts_hook_authority t' \<in> {ts_hook_authority t, None} \<Longrightarrow> hook_authority_not_newer_than t now \<Longrightarrow>
   hook_authority_not_newer_than t' now"
  by (auto simp: hook_authority_not_newer_than_def)

lemma detection_pre_inv:
  assumes "term_inv now t"
  shows "pre_inv now (end_displaced_authority (end_exited_session
    (end_exited_authority (note_detection t a f v e at) a e at wall) a e) p a at wall)"
    (is "pre_inv now (end_displaced_authority ?t3 p a at wall)")
proof -
  let ?t1 = "note_detection t a f v e at"
  let ?t2 = "end_exited_authority ?t1 a e at wall"
  note n = note_detection_fields [of t a f v e at] and x = end_exited_fields [of ?t1 a e at wall]
    and s = end_exited_session_fields [of ?t2 a e] and d = end_displaced_fields [of ?t3 p a at wall]
  have t: "hook_authority_not_newer_than t now" "maps_ok t"
    using assms by (simp_all add: term_inv_def coherent_def)
  have "hook_authority_not_newer_than ?t3 now"
    using not_newer_fields [OF _ t(1), of ?t3] n(1) x(1) s(1) by auto
  then have "coherent now (end_displaced_authority ?t3 p a at wall)"
    by (rule end_displaced_coherent) (simp_all add: s x n)
  moreover have "maps_ok ?t3"
    using t(2) by (simp add: s(6) end_exited_maps_ok note_detection_maps_ok)
  ultimately show ?thesis
    using n(4) by (simp add: pre_inv_def d s x end_displaced_maps_ok)
qed

lemma detection_state:
  "ts_state (end_displaced_authority (end_exited_session
    (end_exited_authority (note_detection t a f v e now) a e now wall) a e) p a now wall) = ts_state t"
  by (simp add: end_displaced_fields end_exited_session_fields end_exited_fields note_detection_fields)

definition detect_op where
  "detect_op agent fallback visible_blocker process_exited wall now t =
     (case set_detected_state_with_screen_signals_at t agent fallback visible_blocker process_exited now wall of
        (t', m) \<Rightarrow> (t', Some m))"

lemma ignored_detection_pre_inv:
  assumes "term_inv now t"
    and "Option.bind (ts_hook_authority t) (\<lambda>a. parse_agent_label (ha_agent_label a)) = agent"
  shows "pre_inv now (t\<lparr>ts_detected_agent := agent\<rparr>)"
proof -
  have "coherent now (t\<lparr>ts_detected_agent := agent\<rparr>)"
    using assms by (cases "ts_hook_authority t")
      (auto simp: term_inv_def coherent_def hook_authority_not_newer_than_def
        hook_authority_conflicts_with_detected_agent_def split: option.splits)
  with term_inv_pre [OF assms(1)] show ?thesis by (simp add: pre_inv_def)
qed

interpretation detect: terminal_operation "detect_op agent fallback visible_blocker process_exited wall"
  for agent fallback visible_blocker process_exited wall
proof
  fix now at t
  assume inv: "term_inv now t"
  let ?r = "detect_op agent fallback visible_blocker process_exited wall at t"
  have "term_inv now (fst ?r) \<and> reported t (fst ?r) (snd ?r)"
    unfolding detect_op_def set_detected_state_with_screen_signals_at_def Let_def
    using finish_contract [OF term_inv_pre [OF inv], of t t]
      finish_contract [OF detection_pre_inv [OF inv], of t t]
      finish_contract [OF ignored_detection_pre_inv [OF inv], of agent t t]
    by (auto simp: detection_state case_prod_beta)
  then show "term_inv now (fst ?r)" "reported t (fst ?r) (snd ?r)" by simp_all
qed

section \<open>Hook reports\<close>

text \<open>A report that is accepted changes the sequences only; its guards compare it with the screen.\<close>

lemma accept_inv:
  "term_inv now t \<Longrightarrow> term_inv now (fst (accept_hook_report t s seq))"
  by (rule term_inv_core [OF _ same_core_accept])
     (simp_all add: accept_maps_ok term_inv_def)

lemma accept_split:
  assumes "accept_hook_report t s seq = (t', b)"
  shows "same_core t t'" and "term_inv now t \<Longrightarrow> term_inv now t'"
  using same_core_accept [of t s seq] accept_inv [of now t s seq] assms by simp_all

lemma reanchor_core:
  "same_core t (if b then t\<lparr>ts_hook_report_sequences := AList.delete s (ts_hook_report_sequences t)\<rparr> else t)"
  by (simp add: same_core_def)

lemma reanchor_inv:
  assumes "term_inv now t"
  shows "term_inv now (if b then t\<lparr>ts_hook_report_sequences := AList.delete s (ts_hook_report_sequences t)\<rparr>
    else t)"
proof (rule term_inv_core [OF assms reanchor_core])
  show "maps_ok (if b then t\<lparr>ts_hook_report_sequences := AList.delete s (ts_hook_report_sequences t)\<rparr> else t)"
    using assms by (auto simp: term_inv_def intro: maps_ok_filter(3))
qed

text \<open>The new authority does not contradict the screen.\<close>

lemma new_authority_coherent:
  assumes "\<not> known_agent_label_conflicts_with_detected_agent t label"
    and "ts_detected_agent t' = ts_detected_agent t"
    and "ts_hook_authority t' = Some a" and "ha_agent_label a = label" and "ha_reported_at a \<le> now"
  shows "coherent now t'"
  using assms by (auto simp: coherent_def hook_authority_not_newer_than_def
      hook_authority_conflicts_with_detected_agent_def known_agent_label_conflicts_with_detected_agent_def
      split: option.splits)

definition hook_op where
  "hook_op source label st message session_ref seq wall now t =
     set_hook_authority_at t source label st message session_ref seq now wall"

lemma hook_contract:
  assumes inv: "term_inv now t" and le: "at \<le> now" and h: "hook_op source label st message sref seq wall at t = (t', r)"
  shows "term_inv now t' \<and> reported t t' r"
proof -
  define fta where "fta = (current_session_owner_conflicts t source label \<and>
    foreground_agent_confirms_hook_authority_takeover t source label sref)"
  define ra where "ra = (report_has_fresh_session_after_suppression t source label sref \<or>
    report_has_fresh_session_after_stale_session t source label sref)"
  let ?t1 = "if ra then t\<lparr>ts_hook_report_sequences := AList.delete source (ts_hook_report_sequences t)\<rparr> else t"
  let ?sref = "settled_session_ref t source label sref"
  obtain t2 acc where acc: "accept_hook_report ?t1 source seq = (t2, acc)" by fastforce
  have core2: "same_core t t2" and inv2: "term_inv now t2"
    using same_core_trans [OF reanchor_core accept_split(1) [OF acc]]
      accept_split(2) [OF acc] reanchor_inv [OF inv] by auto
  let ?t3 = "if fta then suppress_current_full_lifecycle_hook_authority t2 HookClear wall else t2"
  let ?t4 = "if ?sref \<noteq> None then lift_suppression ?t3 source else ?t3"
  let ?a = "\<lparr>ha_source = source, ha_agent_label = label, ha_state = st, ha_message = message,
    ha_reported_at = at, ha_session_ref = ?sref\<rparr>"
  let ?t5 = "?t4\<lparr>ts_persisted_agent_session := None, ts_hook_authority := Some ?a\<rparr>"
  consider (rejected) "t' = t" "r = None" | (refused) "t' = t2" "r = None"
    | (taken) "\<not> known_agent_label_conflicts_with_detected_agent t label"
        "t' = fst (finish_detection ?t5 (previous_effective_at t2 at) (current_session_identity t2) at)"
        "r = Some (snd (finish_detection ?t5 (previous_effective_at t2 at) (current_session_identity t2) at))"
    using h acc unfolding hook_op_def set_hook_authority_at_def Let_def fta_def ra_def
    by (fastforce split: if_splits prod.splits)
  then show ?thesis
  proof cases
    case rejected
    with inv show ?thesis by (simp add: same_core_reported)
  next
    case refused
    with inv2 core2 show ?thesis by (simp add: same_core_reported)
  next
    case taken
    have core34: "same_core t2 ?t3" "same_core ?t3 ?t4"
      by (simp_all add: same_core_suppress same_core_stale)
    have core4: "same_core t2 ?t4" by (rule same_core_trans [OF core34])
    have maps: "maps_ok ?t4"
      using inv2 by (simp add: term_inv_def suppress_current_maps_ok lift_maps_ok)
    note f = same_core_fields [OF core4] same_core_fields [OF core2]
    have "coherent now ?t5"
      by (rule new_authority_coherent [OF taken(1), where a = ?a]) (simp_all add: f le del: not_None_eq)
    then have pre: "pre_inv now ?t5"
      using maps term_inv_pre [OF inv] by (simp add: pre_inv_def f del: not_None_eq)
    have st: "ts_state ?t5 = ts_state t" by (simp add: f del: not_None_eq)
    show ?thesis
      using finish_contract [OF pre core2 st refl refl, of at] taken(2,3) by simp
  qed
qed

interpretation hook: terminal_operation "hook_op source label st message session_ref seq wall"
  for source label st message session_ref seq wall
  by unfold_locales (metis hook_contract prod.collapse)+

section \<open>Session reports\<close>

definition session_op where
  "session_op source label session_ref seq start wall now t =
     set_agent_session_ref_for_session_start t source label session_ref seq start now wall"

lemma same_owner_full_lifecycle:
  "same_owner_hook_authority_session_ref t s l r = Some c \<Longrightarrow> full_lifecycle_hook_authority s l"
  by (auto simp: same_owner_hook_authority_session_ref_def split: option.splits if_splits)

lemma pre_inv_end_hook:
  assumes "pre_inv now t" and "same_core t u" and "maps_ok u"
  shows "pre_inv now (u\<lparr>ts_hook_authority := None, ts_persisted_agent_session := s\<rparr>)"
  using assms by (simp add: pre_inv_def same_core_fields [OF assms(2)] coherent_no_hook)

lemma pre_inv_session:
  "pre_inv now t \<Longrightarrow> pre_inv now (t\<lparr>ts_persisted_agent_session := s\<rparr>)"
  using coherent_fields [of "t\<lparr>ts_persisted_agent_session := s\<rparr>" t now] by (simp add: pre_inv_def)

lemma session_contract:
  assumes inv: "term_inv now t" and h: "session_op source label sref seq start wall at t = (t', r)"
  shows "term_inv now t' \<and> reported t t' r"
proof (cases sref)
  case None
  with h inv show ?thesis
    by (simp add: session_op_def set_agent_session_ref_for_session_start_def same_core_reported)
next
  case (Some sr)
  obtain t1 acc where acc: "accept_hook_report t source seq = (t1, acc)" by fastforce
  note core1 = accept_split(1) [OF acc] and inv1 = accept_split(2) [OF acc inv]
  define rep where "rep = same_owner_hook_authority_session_ref t1 source label sr"
  define fta where "fta = (current_session_owner_conflicts t1 source label \<and>
    foreground_agent_confirms_different_owner_takeover t1 source label sr start)"
  define t2 where "t2 = (if session_start_source_allows_session_replacement source label start \<or> fta
    then forget_stale_session t1 source label sr else t1)"
  let ?t3 = "case rep of Some c \<Rightarrow> (remember_stale_session t2 source label c)\<lparr>ts_hook_authority := None\<rparr>
    | None \<Rightarrow> if fta then (suppress_current_full_lifecycle_hook_authority t2 HookClear wall)
                          \<lparr>ts_hook_authority := None\<rparr> else t2"
  let ?t4 = "?t3\<lparr>ts_persisted_agent_session :=
    Some \<lparr>ps_source = source, ps_agent = label, ps_session_ref = sr\<rparr>\<rparr>"
  consider (refused) "t' = t1" "r = None"
    | (taken) "t' = fst (finish_detection ?t4 (previous_effective_at t1 at) (current_session_identity t1) at)"
        "r = Some (snd (finish_detection ?t4 (previous_effective_at t1 at) (current_session_identity t1) at))"
    using h acc unfolding session_op_def set_agent_session_ref_for_session_start_def Let_def Some
      fta_def rep_def t2_def
    by (simp split: if_splits prod.splits)
  then show ?thesis
  proof cases
    case refused
    with inv1 core1 show ?thesis by (simp add: same_core_reported)
  next
    case taken
    have core2: "same_core t1 t2" by (simp add: t2_def same_core_stale)
    have maps2: "maps_ok t2" using inv1 by (simp add: t2_def term_inv_def forget_maps_ok)
    have pre2: "pre_inv now t2"
      by (rule pre_inv_core [OF term_inv_pre [OF inv1] core2 maps2])
    have "pre_inv now ?t4 \<and> ts_state ?t4 = ts_state t"
    proof (cases rep)
      case None
      have "pre_inv now ((suppress_current_full_lifecycle_hook_authority t2 HookClear wall)
          \<lparr>ts_hook_authority := None, ts_persisted_agent_session := s\<rparr>)" for s
        by (rule pre_inv_end_hook [OF pre2 same_core_suppress(2) suppress_current_maps_ok [OF maps2]])
      with None pre_inv_session [OF pre2] same_core_fields(7) [OF core1] same_core_fields(7) [OF core2]
      show ?thesis by (simp add: same_core_fields [OF same_core_suppress(2)])
    next
      case (Some c)
      have "maps_ok (remember_stale_session t2 source label c)"
        by (rule remember_maps_ok [OF maps2 same_owner_full_lifecycle [OF Some [unfolded rep_def]]])
      from pre_inv_end_hook [OF pre2 same_core_stale(1) this] Some
        same_core_fields(7) [OF core1] same_core_fields(7) [OF core2]
      show ?thesis by (simp add: same_core_fields [OF same_core_stale(1)])
    qed
    then show ?thesis
      using finish_contract [OF _ core1 _ refl refl, of now ?t4 at] taken by simp
  qed
qed

interpretation session: terminal_operation "session_op source label session_ref seq start wall"
  for source label session_ref seq start wall
  by unfold_locales (metis session_contract prod.collapse)+

section \<open>Clearing and releasing\<close>

definition clear_op where
  "clear_op source seq wall now t = clear_hook_authority_with_mutation t source seq now wall"

lemma clear_contract:
  assumes inv: "term_inv now t" and h: "clear_op source seq wall at t = (t', r)"
  shows "term_inv now t' \<and> reported t t' r"
proof -
  obtain t1 acc where acc: "(case or_else source (map_option ha_source (ts_hook_authority t)) of
      None \<Rightarrow> (t, True) | Some s \<Rightarrow> accept_hook_report t s seq) = (t1, acc)" by fastforce
  have core1: "same_core t t1" and inv1: "term_inv now t1"
    using acc inv accept_split by (auto split: option.splits)
  let ?t3 = "(suppress_current_full_lifecycle_hook_authority t1 HookClear wall)
    \<lparr>ts_hook_authority := None, ts_persisted_agent_session := None\<rparr>"
  obtain t4 change where rc: "recompute_effective_state ?t3 (previous_effective_at t1 at) at = (t4, change)"
    by fastforce
  consider (refused) "t' = t1" "r = None"
    | (taken) "t' = t4" "r = Some \<lparr>tm_effective_state_change = change,
        tm_session_ref_changed = (current_session_identity t1 \<noteq> None)\<rparr>"
    using h acc rc unfolding clear_op_def clear_hook_authority_with_mutation_def Let_def
    by (simp split: if_splits prod.splits)
  then show ?thesis
  proof cases
    case refused
    with inv1 core1 show ?thesis by (simp add: same_core_reported)
  next
    case taken
    have pre: "pre_inv now ?t3"
      by (rule pre_inv_end_hook [OF term_inv_pre [OF inv1] same_core_suppress(2)])
         (use inv1 in \<open>simp add: term_inv_def suppress_current_maps_ok\<close>)
    have st: "ts_state ?t3 = ts_state t"
      by (simp add: same_core_fields [OF same_core_suppress(2)] same_core_fields [OF core1])
    have prev: "prev_agent_label (previous_effective_at t1 at) = effective_agent_label t"
      "prev_known_agent (previous_effective_at t1 at) = effective_known_agent t"
      "prev_state (previous_effective_at t1 at) = ts_state t"
      by (simp_all add: previous_effective_at_def same_core_queries [OF core1] same_core_fields [OF core1])
    have "term_inv now t4" using recompute_inv [OF pre, of "previous_effective_at t1 at" at] prev st rc by simp
    moreover have "current_session_identity ?t3 = None" by (simp add: current_session_identity_def)
    ultimately show ?thesis
      using recompute_reported [OF prev st rc] taken same_core_queries(3) [OF core1]
      by (cases "current_session_identity t") (simp_all add: reported_def)
  qed
qed

interpretation clear: terminal_operation "clear_op source seq wall" for source seq wall
  by unfold_locales (metis clear_contract prod.collapse)+

definition release_op where
  "release_op source label seq wall now t = release_agent_with_mutation t source label seq now wall"

lemma release_contract:
  assumes inv: "term_inv now t" and h: "release_op source label seq wall at t = (t', r)"
  shows "term_inv now t' \<and> reported t t' r"
proof -
  obtain t1 acc where acc: "accept_hook_report t source seq = (t1, acc)" by fastforce
  note core1 = accept_split(1) [OF acc] and inv1 = accept_split(2) [OF acc inv]
  let ?t2 = "suppress_full_lifecycle_hook_report t1 source label HookClear wall"
  let ?t3 = "?t2\<lparr>ts_detected_agent := None, ts_fallback_state := Unknown,
    ts_fallback_visible_blocker := False, ts_fallback_observed_at := None, ts_hook_authority := None\<rparr>"
  let ?t4 = "if is_some_and (ts_persisted_agent_session t1) (\<lambda>s. ps_source s \<noteq> source \<or> ps_agent s \<noteq> label)
    then ?t3 else ?t3\<lparr>ts_persisted_agent_session := None\<rparr>"
  consider (refused) "t' = t1" "r = None"
    | (taken) "t' = fst (finish_detection ?t4 (previous_effective_at t1 at) (current_session_identity t1) at)"
        "r = Some (snd (finish_detection ?t4 (previous_effective_at t1 at) (current_session_identity t1) at))"
    using h acc unfolding release_op_def release_agent_with_mutation_def Let_def
    by (simp split: if_splits prod.splits)
  then show ?thesis
  proof cases
    case refused
    with inv1 core1 show ?thesis by (simp add: same_core_reported)
  next
    case taken
    have "maps_ok ?t2" using inv1 by (simp add: term_inv_def suppress_hook_report_maps_ok)
    then have pre: "pre_inv now ?t4" by (simp add: pre_inv_def coherent_no_hook)
    have st: "ts_state ?t4 = ts_state t"
      by (simp add: same_core_fields [OF same_core_suppress(3)] same_core_fields [OF core1])
    show ?thesis
      using finish_contract [OF pre core1 st refl refl, of at] taken by simp
  qed
qed

interpretation release: terminal_operation "release_op source label seq wall" for source label seq wall
  by unfold_locales (metis release_contract prod.collapse)+

section \<open>Metadata\<close>

lemma metadata_only_inv:
  assumes "pre_inv now t"
  shows "pre_inv now (t\<lparr>ts_agent_metadata := m\<rparr>)"
  using assms coherent_fields [of "t\<lparr>ts_agent_metadata := m\<rparr>" t now] by (simp add: pre_inv_def)

lemma metadata_only_term_inv:
  assumes "term_inv now t"
  shows "term_inv now (t\<lparr>ts_agent_metadata := m\<rparr>)"
  using assms coherent_fields [of "t\<lparr>ts_agent_metadata := m\<rparr>" t now] by (simp add: term_inv_def settled_def)

lemma metadata_step_fields:
  "\<exists>m. drop_expired_entry t s now = t\<lparr>ts_agent_metadata := m\<rparr>"
  "\<exists>m. store_report t r now = t\<lparr>ts_agent_metadata := m\<rparr>"
  "\<exists>m. arm_expiry_event t r = t\<lparr>ts_agent_metadata := m\<rparr>"
  "\<exists>m. remove_metadata ss t = t\<lparr>ts_agent_metadata := m\<rparr>"
proof -
  have self: "t\<lparr>ts_agent_metadata := ts_agent_metadata t\<rparr> = t" by simp
  show "\<exists>m. drop_expired_entry t s now = t\<lparr>ts_agent_metadata := m\<rparr>"
    unfolding drop_expired_entry_def using self by (metis (no_types))
  show "\<exists>m. arm_expiry_event t r = t\<lparr>ts_agent_metadata := m\<rparr>"
    unfolding arm_expiry_event_def using self by (metis (no_types))
qed (auto simp: store_report_def Let_def remove_metadata_def)

lemma accept_metadata_inv:
  assumes "term_inv now t" and "accept_metadata_report t s seq tok = (t', b)"
  shows "term_inv now t'" and "same_core t t'"
proof -
  show core: "same_core t t'" using same_core_accept_metadata [of t s seq tok] assms(2) by simp
  have "maps_ok t'"
    using assms by (auto simp: accept_metadata_report_def Let_def term_inv_def
        split: option.splits if_splits)
  with assms(1) core show "term_inv now t'" by (rule term_inv_core)
qed

text \<open>Operations that touch the metadata only, and recompute: the end they share.\<close>

lemma metadata_contract:
  assumes inv: "term_inv now t1" and core: "same_core t t1"
    and u: "u = t1\<lparr>ts_agent_metadata := m\<rparr>"
    and prev: "prev_agent_label prev = effective_agent_label t1"
      "prev_known_agent prev = effective_known_agent t1" "prev_state prev = ts_state t1"
    and rc: "recompute_effective_state u prev clock = (t2, change)"
  shows "term_inv now (t2\<lparr>ts_agent_metadata := m'\<rparr>) \<and>
    reported t (t2\<lparr>ts_agent_metadata := m'\<rparr>)
      (Some \<lparr>tm_effective_state_change = change, tm_session_ref_changed = False\<rparr>)"
proof -
  have pre: "pre_inv now u" unfolding u by (rule metadata_only_inv [OF term_inv_pre [OF inv]])
  have st: "ts_state u = ts_state t1" by (simp add: u)
  have "term_inv now t2" using recompute_inv [OF pre, of prev clock] prev(3) st rc by simp
  moreover have "reported t1 (t2\<lparr>ts_agent_metadata := m'\<rparr>)
      (Some \<lparr>tm_effective_state_change = change, tm_session_ref_changed = False\<rparr>)"
    using recompute_reported [OF prev st rc]
    by (simp add: reported_def same_view_def change_describes_def u split: option.splits)
  ultimately show ?thesis using reported_cong [OF core] metadata_only_term_inv by blast
qed

definition metadata_op where
  "metadata_op report now t = set_agent_metadata t report now"

lemma metadata_op_contract:
  assumes inv: "term_inv now t" and h: "metadata_op report at t = (t', r)"
  shows "term_inv now t' \<and> reported t t' r"
proof -
  obtain t1 acc where acc: "accept_metadata_report t (rp_source report) (rp_seq report) False = (t1, acc)"
    by fastforce
  note inv1 = accept_metadata_inv(1) [OF inv acc] and core1 = accept_metadata_inv(2) [OF inv acc]
  obtain m2 where t2: "drop_expired_entry t1 (rp_source report) at = t1\<lparr>ts_agent_metadata := m2\<rparr>" (is "?t2 = _")
    using metadata_step_fields(1) by blast
  obtain m3 where t3: "store_report ?t2 report at = t1\<lparr>ts_agent_metadata := m3\<rparr>" (is "?t3 = _")
    using metadata_step_fields(2) [of ?t2 report at] t2 by auto
  obtain m4 where t4: "arm_expiry_event ?t3 report = t1\<lparr>ts_agent_metadata := m4\<rparr>" (is "?t4 = _")
    using metadata_step_fields(3) [of ?t3 report] t3 by auto
  let ?prev = "previous_effective_at ?t2 at"
  have prev: "prev_agent_label ?prev = effective_agent_label t1"
    "prev_known_agent ?prev = effective_known_agent t1" "prev_state ?prev = ts_state t1"
    by (simp_all add: previous_effective_at_def t2)
  obtain t5 change where rc: "recompute_effective_state ?t4 ?prev at = (t5, change)" by fastforce
  obtain m5 where m5: "clear_expiry_pending_for_hidden_metadata t5 = t5\<lparr>ts_agent_metadata := m5\<rparr>"
    using clear_expiry_fields by blast
  consider (refused) "t' = t1" "r = None"
    | (taken) "t' = (if change \<noteq> None then clear_expiry_pending_for_hidden_metadata t5 else t5)"
        "r = Some \<lparr>tm_effective_state_change = change, tm_session_ref_changed = False\<rparr>"
    using h acc rc unfolding metadata_op_def set_agent_metadata_def Let_def
    by (simp split: if_splits prod.splits)
  then show ?thesis
  proof cases
    case refused
    with inv1 core1 show ?thesis by (simp add: same_core_reported)
  next
    case taken
    have "t5 = t5\<lparr>ts_agent_metadata := ts_agent_metadata t5\<rparr>" by simp
    then obtain m' where "t' = t5\<lparr>ts_agent_metadata := m'\<rparr>" using taken(1) m5 by metis
    with metadata_contract [OF inv1 core1 t4 prev rc] taken(2) show ?thesis by simp
  qed
qed

interpretation metadata: terminal_operation "metadata_op report" for report
  by unfold_locales (metis metadata_op_contract prod.collapse)+

definition expire_op where
  "expire_op scheduled_deadline now t = expire_agent_metadata_at t scheduled_deadline now"

lemma expire_op_contract:
  assumes inv: "term_inv now t" and h: "expire_op deadline at t = (t', r)"
  shows "term_inv now t' \<and> reported t t' r"
proof -
  obtain expired stale where part:
    "partition (\<lambda>(_, d). d \<ge> deadline) (overdue_sources t at) = (expired, stale)" by fastforce
  obtain m1 where t1: "remove_metadata (map fst stale) t = t\<lparr>ts_agent_metadata := m1\<rparr>" (is "?t1 = _")
    using metadata_step_fields(4) by blast
  obtain m2 where t2: "remove_metadata (map fst expired) ?t1 = t\<lparr>ts_agent_metadata := m2\<rparr>" (is "?t2 = _")
    using metadata_step_fields(4) [of "map fst expired" ?t1] t1 by auto
  let ?prev = "(previous_effective_at ?t1 at)\<lparr>prev_presentation :=
    effective_presentation_for_state_at_ignoring_ttl ?t1 (ts_state ?t1) at\<rparr>"
  have prev: "prev_agent_label ?prev = effective_agent_label t"
    "prev_known_agent ?prev = effective_known_agent t" "prev_state ?prev = ts_state t"
    by (simp_all add: previous_effective_at_def t1)
  obtain t3 change where rc: "recompute_effective_state ?t2 ?prev at = (t3, change)" by fastforce
  consider (idle) "t' = ?t1" "r = None"
    | (taken) "t' = t3" "r = Some \<lparr>tm_effective_state_change = change, tm_session_ref_changed = False\<rparr>"
    using h part rc unfolding expire_op_def expire_agent_metadata_at_def Let_def
    by (simp split: if_splits prod.splits)
  then show ?thesis
  proof cases
    case idle
    then show ?thesis
      by (simp add: t1 metadata_only_term_inv [OF inv] reported_def same_view_def)
  next
    case taken
    have "t3 = t3\<lparr>ts_agent_metadata := ts_agent_metadata t3\<rparr>" by simp
    with metadata_contract [OF inv same_core_refl t2 prev rc, of "ts_agent_metadata t3"] taken
    show ?thesis by simp
  qed
qed

interpretation expire: terminal_operation "expire_op deadline" for deadline
  by unfold_locales (metis expire_op_contract prod.collapse)+

end
