(* ===== verification/TerminalSafety.thy ===== *)
theory TerminalSafety
  imports TerminalContract
begin

text \<open>
  A terminal as a state machine over the calls of the server, and what the arbitration protects
  against: reports of a process that has exited, of a session that was replaced or released, of
  another owner, and replays.
\<close>

section \<open>The calls of the server\<close>

datatype terminal_event =
  Detected "agent option" agent_state bool bool
| HookReported string string agent_state "string option" "agent_session_ref option" "u64 option"
| SessionReported string string "agent_session_ref option" "u64 option" "string option"
| HookCleared "string option" "u64 option"
| Released string string "u64 option"
| MetadataReported agent_metadata_report
| MetadataExpired instant

text \<open>One call with the time \<open>now\<close> that it carries; \<open>wall\<close> is the clock that a suppression records.\<close>

fun terminal_apply ::
  "terminal_event \<Rightarrow> instant \<Rightarrow> instant \<Rightarrow> terminal_state \<Rightarrow> terminal_state \<times> terminal_mutation option" where
  "terminal_apply (Detected a f v e) wall now t = detect_op a f v e wall now t"
| "terminal_apply (HookReported s l st msg r q) wall now t = hook_op s l st msg r q wall now t"
| "terminal_apply (SessionReported s l r q start) wall now t = session_op s l r q start wall now t"
| "terminal_apply (HookCleared s q) wall now t = clear_op s q wall now t"
| "terminal_apply (Released s l q) wall now t = release_op s l q wall now t"
| "terminal_apply (MetadataReported r) wall now t = metadata_op r now t"
| "terminal_apply (MetadataExpired d) wall now t = expire_op d now t"

interpretation apply_event: terminal_operation "terminal_apply e wall" for e wall
proof
  fix now at t
  assume inv: "term_inv now t" "at \<le> now"
  show "term_inv now (fst (terminal_apply e wall at t))"
    by (cases e) (simp_all add: inv detect.op_inv hook.op_inv session.op_inv clear.op_inv
        release.op_inv metadata.op_inv expire.op_inv)
  show "reported t (fst (terminal_apply e wall at t)) (snd (terminal_apply e wall at t))"
    using inv
    by (cases e) (simp_all add: detect.op_reported [of now] hook.op_reported [of now]
        session.op_reported [of now] clear.op_reported [of now] release.op_reported [of now]
        metadata.op_reported [of now] expire.op_reported [of now])
qed

text \<open>The terminals reachable up to the clock time \<open>now\<close>.  The clock does not run backwards, but a call
  may carry any time before it: a detection carries the time at which its screen was observed, and it
  waits in a queue while reports of hooks are applied.  A session restored from a snapshot and the
  setters of names, titles and plans do not touch the arbitration.\<close>

inductive terminal_reach :: "instant \<Rightarrow> terminal_state \<Rightarrow> bool" where
  created: "terminal_reach now (new_terminal_state i cwd)"
| called: "terminal_reach before t \<Longrightarrow> before \<le> now \<Longrightarrow> at \<le> now \<Longrightarrow>
    terminal_reach now (fst (terminal_apply e wall at t))"
| restored: "terminal_reach now t \<Longrightarrow> terminal_reach now (set_persisted_agent_session t s)"
| respawned: "terminal_reach now t \<Longrightarrow> terminal_reach now (clear_agent_runtime_identity_after_respawn t)"
| titled: "terminal_reach now t \<Longrightarrow> terminal_reach now (fst (set_terminal_title t title))"
| labelled: "terminal_reach now t \<Longrightarrow> terminal_reach now (set_manual_label t label)"
| named: "terminal_reach now t \<Longrightarrow> terminal_reach now (set_agent_name t name)"

lemma restored_inv: "term_inv now t \<Longrightarrow> term_inv now (set_persisted_agent_session t s)"
  using coherent_fields [of "t\<lparr>ts_persisted_agent_session := Some s\<rparr>" t now]
  by (simp add: set_persisted_agent_session_def term_inv_def settled_def query_defs cong: option.case_cong)

lemma respawned_inv: "term_inv now t \<Longrightarrow> term_inv now (clear_agent_runtime_identity_after_respawn t)"
  by (simp add: clear_agent_runtime_identity_after_respawn_def clear_agent_name_def term_inv_def
      settled_def coherent_no_hook maps_ok_def suppressions_ok_def stale_ok_def query_defs)

lemma setters_inv:
  assumes "term_inv now t"
  shows "term_inv now (fst (set_terminal_title t title))" "term_inv now (set_manual_label t label)"
    "term_inv now (set_agent_name t name)"
proof -
  have maps: "maps_ok u" if "ts_suppressed_reports u = ts_suppressed_reports t"
      "ts_stale_sessions u = ts_stale_sessions t" "ts_hook_report_sequences u = ts_hook_report_sequences t" for u
    using assms that by (simp add: term_inv_def maps_ok_def suppressions_ok_def stale_ok_def)
  show "term_inv now (fst (set_terminal_title t title))"
    by (rule term_inv_core [OF assms])
       (auto simp: set_terminal_title_def Let_def same_core_def intro!: maps)
  show "term_inv now (set_manual_label t label)"
    by (rule term_inv_core [OF assms]) (auto simp: set_manual_label_def Let_def same_core_def intro!: maps)
  show "term_inv now (set_agent_name t name)"
    by (rule term_inv_core [OF assms]) (auto simp: set_agent_name_def Let_def same_core_def intro!: maps)
qed

lemma terminal_reach_inv: "terminal_reach now t \<Longrightarrow> term_inv now t"
proof (induction rule: terminal_reach.induct)
  case (created now i cwd)
  show ?case by (rule new_terminal_inv)
next
  case (called before t now at e wall)
  from apply_event.op_inv [OF term_inv_later [OF called.IH called.hyps(2)] called.hyps(3)] show ?case .
qed (simp_all add: restored_inv respawned_inv setters_inv)

section \<open>The gates of the numbered reports\<close>

definition hook_gate_step :: "terminal_state \<Rightarrow> string \<Rightarrow> u64 \<Rightarrow> terminal_state \<times> bool" where
  "hook_gate_step t source n = accept_hook_report t source (Some n)"

interpretation hook_gate: sequence_gate "\<lambda>t. map_of (ts_hook_report_sequences t)" hook_gate_step
proof
  fix t :: terminal_state and s n q t'
  show "map_of (ts_hook_report_sequences t) s = Some n \<Longrightarrow> q \<le> n \<Longrightarrow> hook_gate_step t s q = (t, False)"
    by (simp add: hook_gate_step_def accept_hook_report_def)
  show "hook_gate_step t s q = (t', True) \<Longrightarrow>
      map_of (ts_hook_report_sequences t') = (map_of (ts_hook_report_sequences t))(s := Some q)"
    by (auto simp: hook_gate_step_def accept_hook_report_def update_conv split: if_splits)
  show "hook_gate_step t s q = (t', False) \<Longrightarrow> t' = t"
    by (auto simp: hook_gate_step_def accept_hook_report_def split: if_splits)
qed

definition metadata_gate_step :: "bool \<Rightarrow> terminal_state \<Rightarrow> string \<Rightarrow> u64 \<Rightarrow> terminal_state \<times> bool" where
  "metadata_gate_step tokens t source n =
     (case accept_metadata_report t source (Some n) tokens of (t', r) \<Rightarrow> (t', r = Some True))"

interpretation metadata_gate: sequence_gate "\<lambda>t. map_of (ts_metadata_report_sequences t)"
  "metadata_gate_step tokens" for tokens
proof
  fix t :: terminal_state and s n q t'
  show "map_of (ts_metadata_report_sequences t) s = Some n \<Longrightarrow> q \<le> n \<Longrightarrow>
      metadata_gate_step tokens t s q = (t, False)"
    by (simp add: metadata_gate_step_def accept_metadata_report_def
        metadata_report_sequence_is_fresh_def sequence_is_fresh_def not_less)
  show "metadata_gate_step tokens t s q = (t', True) \<Longrightarrow>
      map_of (ts_metadata_report_sequences t') = (map_of (ts_metadata_report_sequences t))(s := Some q)"
    by (auto simp: metadata_gate_step_def accept_metadata_report_def Let_def update_conv split: if_splits)
  show "metadata_gate_step tokens t s q = (t', False) \<Longrightarrow> t' = t"
    by (auto simp: metadata_gate_step_def accept_metadata_report_def Let_def split: if_splits)
qed

section \<open>Late and foreign reports\<close>

lemma finish_fields:
  assumes "prev_state prev = ts_state t"
  obtains m where "fst (finish_detection t prev ps now) =
    t\<lparr>ts_agent_metadata := m, ts_state := arbitrated_state t\<rparr>"
  using recompute_fields [OF assms, of now] by (auto simp: finish_detection_def case_prod_beta)

lemma end_displaced_no_hook:
  assumes "ts_hook_authority t = None"
  shows "end_displaced_authority t p a now wall = t"
proof -
  have "\<not> hook_authority_conflicts_with_detected_agent t a"
    by (cases a) (simp_all add: assms hook_authority_conflicts_with_detected_agent_def)
  then show ?thesis by (simp add: end_displaced_authority_def assms)
qed

text \<open>The exit of the process that a life-cycle hook speaks for.\<close>

lemma exit_suppresses:
  assumes "ts_hook_authority t = Some a"
    and "full_lifecycle_hook_authority (ha_source a) (ha_agent_label a)"
    and "parse_agent_label (ha_agent_label a) = agent" and "ha_reported_at a \<le> now"
    and "t' = fst (set_detected_state_with_screen_signals_at t agent f v True now wall)"
  shows "ts_hook_authority t' = None \<and>
    (\<exists>r. map_of (ts_suppressed_reports t') (ha_source a) =
      Some \<lparr>sup_agent_label = ha_agent_label a, sup_session_ref = r, sup_observed_at = wall,
            sup_reason = ProcessExit\<rparr>)"
proof -
  let ?t1 = "note_detection t agent f v True now"
  let ?t2 = "end_exited_authority ?t1 agent True now wall"
  let ?t3 = "end_exited_session ?t2 agent True"
  let ?t4 = "end_displaced_authority ?t3 (ts_detected_agent t) agent now wall"
  have hook: "ts_hook_authority ?t1 = Some a" by (simp add: note_detection_fields assms(1))
  have t2: "ts_hook_authority ?t2 = None" "map_of (ts_suppressed_reports ?t2) (ha_source a) =
      Some \<lparr>sup_agent_label = ha_agent_label a, sup_session_ref = ha_session_ref a,
            sup_observed_at = wall, sup_reason = ProcessExit\<rparr>"
    using assms(2-4)
    by (simp_all add: end_exited_authority_def hook hook_authority_not_newer_than_def Let_def
        suppress_current_full_lifecycle_hook_authority_def suppress_report_with_session_ref_def)
  have t3: "ts_hook_authority ?t3 = None" "ts_suppressed_reports ?t3 = ts_suppressed_reports ?t2"
    using t2 by (simp_all add: end_exited_session_def)
  have t4: "?t4 = ?t3" by (rule end_displaced_no_hook [OF t3(1)])
  have "prev_state (previous_effective_at t now) = ts_state ?t4"
    by (simp add: detection_state previous_effective_at_def)
  then obtain m where "t' = ?t4\<lparr>ts_agent_metadata := m, ts_state := arbitrated_state ?t4\<rparr>"
    using assms(5) by (auto simp: set_detected_state_with_screen_signals_at_def Let_def
        should_ignore_detected_state_under_full_lifecycle_hook_def elim!: finish_fields)
  then show ?thesis using t2 t3 unfolding t4 by simp
qed

lemma exited_report_rejected:
  assumes "full_lifecycle_hook_authority source label"
    and "map_of (ts_suppressed_reports t) source = Some supp"
    and "sup_agent_label supp = label" and "sup_reason supp = ProcessExit"
  shows "set_hook_authority_at t source label st message r q now wall = (t, None)"
  using assms by (simp add: set_hook_authority_at_def report_is_suppressed_def)

text \<open>A session that was replaced.\<close>

lemma stale_report_rejected:
  assumes "full_lifecycle_hook_authority source label"
    and "map_of (ts_stale_sessions t) source = Some xs"
    and "\<lparr>stale_agent_label = label, stale_session_ref = old\<rparr> \<in> set xs"
  shows "set_hook_authority_at t source label st message (Some old) q now wall = (t, None)"
  using assms by (force simp: set_hook_authority_at_def report_matches_stale_session_def list_ex_iff)

lemma remember_stale_lookup:
  "\<exists>xs. map_of (ts_stale_sessions (remember_stale_session t source label r)) source = Some xs \<and>
     \<lparr>stale_agent_label = label, stale_session_ref = r\<rparr> \<in> set xs"
  by (auto simp: remember_stale_session_def Let_def list_ex_iff)

lemma replaced_session_stale:
  assumes "same_owner_hook_authority_session_ref t source label new = Some old"
    and "set_agent_session_ref_for_session_start t source label (Some new) q start now wall = (t', Some m)"
  shows "\<exists>xs. map_of (ts_stale_sessions t') source = Some xs \<and>
    \<lparr>stale_agent_label = label, stale_session_ref = old\<rparr> \<in> set xs"
proof -
  obtain t1 acc where acc: "accept_hook_report t source q = (t1, acc)" by fastforce
  note core1 = accept_split(1) [OF acc]
  have rep: "same_owner_hook_authority_session_ref t1 source label new = Some old"
    using assms(1) by (simp add: same_owner_hook_authority_session_ref_def same_core_fields [OF core1]
        cong: option.case_cong)
  define t2 where "t2 = (if session_start_source_allows_session_replacement source label start \<or>
      current_session_owner_conflicts t1 source label \<and>
      foreground_agent_confirms_different_owner_takeover t1 source label new start
    then forget_stale_session t1 source label new else t1)"
  let ?t4 = "(remember_stale_session t2 source label old)\<lparr>ts_hook_authority := None,
    ts_persisted_agent_session := Some \<lparr>ps_source = source, ps_agent = label, ps_session_ref = new\<rparr>\<rparr>"
  have core2: "same_core t1 t2" by (simp add: t2_def same_core_stale)
  have t': "t' = fst (finish_detection ?t4 (previous_effective_at t1 now) (current_session_identity t1) now)"
    using assms(2) acc rep
    by (simp add: set_agent_session_ref_for_session_start_def Let_def t2_def
        split: if_splits prod.splits)
  have "prev_state (previous_effective_at t1 now) = ts_state ?t4"
    by (simp add: previous_effective_at_def same_core_fields [OF same_core_stale(1)] same_core_fields [OF core2])
  then obtain md where "t' = ?t4\<lparr>ts_agent_metadata := md, ts_state := arbitrated_state ?t4\<rparr>"
    unfolding t' by (rule finish_fields)
  with remember_stale_lookup [of t2 source label old] show ?thesis by simp
qed

section \<open>Hook against screen\<close>

text \<open>While a life-cycle hook speaks for the agent, what the screen shows of it does not count.\<close>

lemma hook_owns_state:
  assumes "ts_hook_authority t = Some a"
    and "full_lifecycle_hook_authority (ha_source a) (ha_agent_label a)"
    and "\<not> hook_authority_conflicts_with_detected_agent t agent"
    and "t' = fst (set_detected_state_with_screen_signals_at t agent f v False now wall)"
  shows "ts_hook_authority t' = Some a \<and> ts_state t' = ha_state a \<and>
    ts_fallback_state t' = ts_fallback_state t"
proof -
  have ignore: "should_ignore_detected_state_under_full_lifecycle_hook t agent False"
    using assms(1-3) by (simp add: should_ignore_detected_state_under_full_lifecycle_hook_def
        live_full_lifecycle_hook_authority_def)
  let ?u = "if Option.bind (ts_hook_authority t) (\<lambda>a. parse_agent_label (ha_agent_label a)) = agent
    then t\<lparr>ts_detected_agent := agent\<rparr> else t"
  have u: "ts_hook_authority ?u = Some a" "prev_state (previous_effective_at t now) = ts_state ?u"
    using assms(1) by (simp_all add: previous_effective_at_def)
  have arb: "arbitrated_state ?u = ha_state a"
    using u(1) assms(2) by (simp add: arbitrated_state_def visible_blocker_overrides_hook_def
        live_full_lifecycle_hook_authority_def)
  obtain m where "t' = ?u\<lparr>ts_agent_metadata := m, ts_state := arbitrated_state ?u\<rparr>"
    using assms(4) ignore u(2)
    by (auto simp: set_detected_state_with_screen_signals_at_def Let_def elim!: finish_fields)
  with arb u(1) show ?thesis by auto
qed

end
