(* ===== verification/TerminalPresentation.thy ===== *)
theory TerminalPresentation
  imports TerminalSafety
begin

text \<open>
  What the metadata of a terminal shows: the newest report decides, and an expiry sweep removes the
  entries whose deadline has passed and nothing else.
\<close>

section \<open>The pending flag is not shown\<close>

definition forget_pending :: "agent_metadata \<Rightarrow> agent_metadata" where
  "forget_pending m = m\<lparr>am_expiry_event_pending := False\<rparr>"

lemma forget_pending_fields [simp]:
  "am_title (forget_pending m) = am_title m" "am_display_agent (forget_pending m) = am_display_agent m"
  "am_state_labels (forget_pending m) = am_state_labels m" "am_ttl (forget_pending m) = am_ttl m"
  "am_reported_at (forget_pending m) = am_reported_at m"
  "am_title_reported_at (forget_pending m) = am_title_reported_at m"
  "am_agent_label (forget_pending m) = am_agent_label m"
  "am_applies_to_source (forget_pending m) = am_applies_to_source m"
  "agent_metadata_is_expired (forget_pending m) now = agent_metadata_is_expired m now"
  by (simp_all add: forget_pending_def agent_metadata_is_expired_def agent_metadata_expiry_def)

definition plain :: "(string, agent_metadata) hash_map \<Rightarrow> (string, agent_metadata) hash_map" where
  "plain m = map (\<lambda>(s, v). (s, forget_pending v)) m"

lemma plain_modify:
  "plain (hm_modify s (\<lambda>m. m\<lparr>am_expiry_event_pending := b\<rparr>) m) = plain m"
  by (induction m) (auto simp: plain_def hm_modify_def forget_pending_def)

lemma plain_clear_expiry:
  "plain (ts_agent_metadata (clear_expiry_pending_for_hidden_metadata t)) = plain (ts_agent_metadata t)"
proof -
  have "plain (fold (\<lambda>s. hm_modify s (\<lambda>m. m\<lparr>am_expiry_event_pending := False\<rparr>)) ss m) = plain m" for ss m
    by (induction ss arbitrary: m) (simp_all add: plain_modify)
  then show ?thesis by (simp add: clear_expiry_pending_for_hidden_metadata_def Let_def)
qed

lemma plain_arm: "plain (ts_agent_metadata (arm_expiry_event t r)) = plain (ts_agent_metadata t)"
  by (simp add: arm_expiry_event_def plain_modify)

lemma plain_recompute:
  "plain (ts_agent_metadata (fst (recompute_effective_state t prev now))) = plain (ts_agent_metadata t)"
  by (simp add: recompute_effective_state_def Let_def plain_clear_expiry)

lemma map_fst_plain: "map fst (plain m) = map fst m"
  by (simp add: plain_def case_prod_beta comp_def)

lemma map_of_plain: "map_of (plain m) s = map_option forget_pending (map_of m s)"
  by (induction m) (auto simp: plain_def)

section \<open>The newest title\<close>

text \<open>An entry that is valid and newer than every other decides the title.\<close>

lemma newest_title:
  assumes "map_of (ts_agent_metadata t) s = Some m" and "am_title m = Some x"
    and "agent_metadata_is_valid t m now True" and "hm_wf (ts_agent_metadata t)"
    and newer: "\<And>s' m'. map_of (ts_agent_metadata t) s' = Some m' \<Longrightarrow> s' \<noteq> s \<Longrightarrow>
      am_title_reported_at m' < am_title_reported_at m"
  shows "newest_metadata_title t now True = Some x"
proof -
  let ?xs = "filter (\<lambda>m. am_title m \<noteq> None) (valid_agent_metadata t now True)"
  have mem: "m' \<in> set ?xs \<longleftrightarrow> (\<exists>s'. map_of (ts_agent_metadata t) s' = Some m') \<and>
      agent_metadata_is_valid t m' now True \<and> am_title m' \<noteq> None" for m'
    using assms(4) by (auto simp: valid_agent_metadata_def hm_values_def hm_wf_def map_of_eq_Some_iff)
      (metis map_of_eq_Some_iff snd_conv image_eqI)+
  have "m \<in> set ?xs" unfolding mem using assms(1-3) by auto
  then obtain y where y: "max_by_key am_title_reported_at ?xs = Some y"
    using max_by_key_None [of am_title_reported_at ?xs] by (metis empty_iff list.set(1) option.exhaust)
  from max_by_key_Some [OF y] \<open>m \<in> set ?xs\<close>
  have "y \<in> set ?xs" "am_title_reported_at m \<le> am_title_reported_at y" by auto
  then obtain s' where "map_of (ts_agent_metadata t) s' = Some y" unfolding mem by blast
  then have "y = m" using newer [of s' y] \<open>am_title_reported_at m \<le> _\<close> assms(1)
    by (cases "s' = s") (auto dest: leD)
  with y assms(2) show ?thesis by (simp add: newest_metadata_title_def)
qed

lemma metadata_valid_fields:
  assumes "effective_agent_label t' = effective_agent_label t" and "ts_hook_authority t' = ts_hook_authority t"
    and "forget_pending m' = forget_pending m"
  shows "agent_metadata_is_valid t' m' now b = agent_metadata_is_valid t m now b"
proof -
  have f: "am_title m' = am_title m" "am_display_agent m' = am_display_agent m"
    "am_state_labels m' = am_state_labels m" "am_ttl m' = am_ttl m" "am_reported_at m' = am_reported_at m"
    "am_agent_label m' = am_agent_label m" "am_applies_to_source m' = am_applies_to_source m"
    using assms(3) by (metis forget_pending_fields)+
  show ?thesis
    by (simp add: agent_metadata_is_valid_def agent_metadata_is_expired_def agent_metadata_expiry_def
        agent_metadata_matches_guards_def metadata_guards_match_def f assms(1,2))
qed

lemma set_agent_metadata_map:
  assumes "accept_metadata_report t (rp_source r) (rp_seq r) False = (t1, Some True)"
    and "set_agent_metadata t r now = (t', res)"
  shows "plain (ts_agent_metadata t') =
      plain (ts_agent_metadata (store_report (drop_expired_entry t1 (rp_source r) now) r now))"
proof -
  let ?t3 = "store_report (drop_expired_entry t1 (rp_source r) now) r now"
  let ?prev = "previous_effective_at (drop_expired_entry t1 (rp_source r) now) now"
  obtain t5 change where rc: "recompute_effective_state (arm_expiry_event ?t3 r) ?prev now = (t5, change)"
    by fastforce
  have t': "t' = (if change \<noteq> None then clear_expiry_pending_for_hidden_metadata t5 else t5)"
    using assms rc by (simp add: set_agent_metadata_def Let_def)
  have "plain (ts_agent_metadata t') = plain (ts_agent_metadata t5)"
    by (simp add: t' plain_clear_expiry)
  also have "\<dots> = plain (ts_agent_metadata (arm_expiry_event ?t3 r))"
    using plain_recompute [of "arm_expiry_event ?t3 r" ?prev now] rc by simp
  finally show ?thesis by (simp add: plain_arm)
qed

text \<open>A report that clears nothing shows its title at once, when its guards match and it does not
  expire at the same instant.\<close>

lemma reported_title_shown:
  assumes wf: "hm_wf (ts_agent_metadata t)"
    and acc: "accept_metadata_report t (rp_source r) (rp_seq r) False = (t1, Some True)"
    and report: "rp_title r = Some x" "\<not> rp_clear_title r" "\<not> rp_clear_display_agent r"
      "\<not> rp_clear_state_labels r"
    and guards: "metadata_guards_match t (rp_agent_label r) (rp_applies_to_source r)"
    and ttl: "\<not> agent_metadata_is_expired (replacement_metadata r now) now"
    and older: "\<And>s m. map_of (ts_agent_metadata t) s = Some m \<Longrightarrow> am_title_reported_at m < Some now"
    and step: "set_agent_metadata t r now = (t', res)"
  shows "effective_title t' now = Some x"
proof -
  have core1: "same_core t t1" using same_core_accept_metadata [of t "rp_source r" "rp_seq r" False] acc by simp
  let ?s = "rp_source r" and ?new = "replacement_metadata r now"
  let ?t2 = "drop_expired_entry t1 ?s now"
  have view: "effective_agent_label t' = effective_agent_label t" "ts_hook_authority t' = ts_hook_authority t"
  proof -
    obtain m2 where t2: "?t2 = t1\<lparr>ts_agent_metadata := m2\<rparr>" using metadata_step_fields(1) by blast
    obtain m3 where t3: "store_report ?t2 r now = t1\<lparr>ts_agent_metadata := m3\<rparr>"
      using metadata_step_fields(2) [of ?t2 r now] t2 by auto
    obtain m4 where t4: "arm_expiry_event (store_report ?t2 r now) r = t1\<lparr>ts_agent_metadata := m4\<rparr>" (is "?t4 = _")
      using metadata_step_fields(3) [of "store_report ?t2 r now" r] t3 by auto
    have "prev_state (previous_effective_at ?t2 now) = ts_state ?t4"
      unfolding t4 by (simp add: previous_effective_at_def t2)
    then obtain m5 where t5: "fst (recompute_effective_state ?t4 (previous_effective_at ?t2 now) now) =
        t1\<lparr>ts_agent_metadata := m5, ts_state := arbitrated_state t1\<rparr>" (is "?t5 = _")
      using recompute_fields [of "previous_effective_at ?t2 now" ?t4 now] by (auto simp: t4)
    have swap: "t1\<lparr>ts_state := st, ts_agent_metadata := m\<rparr> = t1\<lparr>ts_agent_metadata := m, ts_state := st\<rparr>"
      for st m by (rule terminal_state.equality) simp_all
    obtain m6 where "clear_expiry_pending_for_hidden_metadata ?t5 =
        t1\<lparr>ts_agent_metadata := m6, ts_state := arbitrated_state t1\<rparr>"
      using clear_expiry_fields [of ?t5] unfolding t5 by (auto simp: swap)
    moreover have "t' = clear_expiry_pending_for_hidden_metadata ?t5 \<or> t' = ?t5"
      using step acc by (auto simp: set_agent_metadata_def Let_def case_prod_beta split: if_splits)
    ultimately have "\<exists>m. t' = t1\<lparr>ts_agent_metadata := m, ts_state := arbitrated_state t1\<rparr>"
      using t5 by metis
    then show "effective_agent_label t' = effective_agent_label t" "ts_hook_authority t' = ts_hook_authority t"
      using same_core_queries [OF core1] same_core_fields [OF core1] by auto
  qed
  have meta2: "hm_wf (ts_agent_metadata ?t2)" "s' \<noteq> ?s \<Longrightarrow>
      map_of (ts_agent_metadata ?t2) s' = map_of (ts_agent_metadata t) s'" for s'
    using wf by (auto simp: drop_expired_entry_def same_core_fields [OF core1] hm_wf_delete)
  have meta3: "ts_agent_metadata (store_report ?t2 r now) = AList.update ?s ?new (ts_agent_metadata ?t2)"
    using report by (simp add: store_report_def Let_def)
  have plain': "plain (ts_agent_metadata t') = plain (AList.update ?s ?new (ts_agent_metadata ?t2))"
    using set_agent_metadata_map [OF acc step] by (simp add: meta3)
  have wf': "hm_wf (ts_agent_metadata t')"
    using arg_cong [OF plain', of "map fst"] hm_wf_update [OF meta2(1)]
    unfolding map_fst_plain by (simp add: hm_wf_def)
  have lookup: "map_option forget_pending (map_of (ts_agent_metadata t') s') =
      (if s' = ?s then Some (forget_pending ?new) else map_option forget_pending (map_of (ts_agent_metadata t) s'))" for s'
    using arg_cong [OF plain', of "\<lambda>m. map_of m s'"] meta2(2) [of s'] by (simp add: map_of_plain)
  from lookup [of ?s] obtain m where m: "map_of (ts_agent_metadata t') ?s = Some m"
    "forget_pending m = forget_pending ?new" by auto
  then have title: "am_title m = Some x" "am_title_reported_at m = Some now"
    using report(1) forget_pending_fields(1,6) by (metis (no_types) agent_metadata.select_convs(4,8)
        option.simps(9) replacement_metadata_def)+
  have "agent_metadata_is_valid t ?new now True"
    using ttl guards report(1)
    by (simp add: agent_metadata_is_valid_def agent_metadata_matches_guards_def replacement_metadata_def)
  then have valid: "agent_metadata_is_valid t' m now True"
    using metadata_valid_fields [OF view m(2)] by simp
  have "newest_metadata_title t' now True = Some x"
  proof (rule newest_title [OF m(1) title(1) valid wf'])
    fix s' m' assume s': "map_of (ts_agent_metadata t') s' = Some m'" "s' \<noteq> ?s"
    with lookup [of s'] obtain m0 where m0: "map_of (ts_agent_metadata t) s' = Some m0"
      "forget_pending m' = forget_pending m0" by (cases "map_of (ts_agent_metadata t) s'") auto
    have "am_title_reported_at m' = am_title_reported_at m0"
      using m0(2) forget_pending_fields(6) by metis
    with older [OF m0(1)] title(2) show "am_title_reported_at m' < am_title_reported_at m" by simp
  qed
  then show ?thesis
    by (simp add: effective_title_def effective_presentation_for_state_at_def effective_presentation_with_ttl_def)
qed

section \<open>The expiry sweep\<close>

lemma map_of_fold_delete:
  "map_of (fold AList.delete ss m) s = (if s \<in> set ss then None else map_of m s)"
  by (induction ss arbitrary: m) auto

lemma overdue_iff:
  assumes "hm_wf (ts_agent_metadata t)"
  shows "s \<in> fst ` set (overdue_sources t now) \<longleftrightarrow>
    (\<exists>m. map_of (ts_agent_metadata t) s = Some m \<and> agent_metadata_is_expired m now)"
proof -
  have "s \<in> fst ` set (overdue_sources t now) \<longleftrightarrow>
      (\<exists>m. (s, m) \<in> set (ts_agent_metadata t) \<and> agent_metadata_is_expired m now)"
    by (force simp: overdue_sources_def List.map_filter_def agent_metadata_is_expired_def is_some_and_iff
        split: option.splits)
  with assms show ?thesis by (simp add: hm_wf_def)
qed

text \<open>The sweep removes exactly the entries that have expired.\<close>

lemma expire_removes:
  assumes "hm_wf (ts_agent_metadata t)" and "expire_agent_metadata_at t deadline now = (t', r)"
  shows "map_option forget_pending (map_of (ts_agent_metadata t') s) =
    map_option forget_pending
      (option_filter (\<lambda>m. \<not> agent_metadata_is_expired m now) (map_of (ts_agent_metadata t) s))"
proof -
  obtain expired stale where part:
    "partition (\<lambda>(_, d). d \<ge> deadline) (overdue_sources t now) = (expired, stale)" by fastforce
  then have all: "set expired \<union> set stale = set (overdue_sources t now)"
    by (auto simp: partition_filter_conv)
  let ?t1 = "remove_metadata (map fst stale) t"
  let ?t2 = "remove_metadata (map fst expired) ?t1"
  let ?prev = "(previous_effective_at ?t1 now)\<lparr>prev_presentation :=
    effective_presentation_for_state_at_ignoring_ttl ?t1 (ts_state ?t1) now\<rparr>"
  have "plain (ts_agent_metadata t') = plain (ts_agent_metadata ?t2)"
  proof (cases "expired = []")
    case True
    with assms(2) part show ?thesis by (simp add: expire_agent_metadata_at_def remove_metadata_def)
  next
    case False
    with assms(2) part have "t' = fst (recompute_effective_state ?t2 ?prev now)"
      by (auto simp: expire_agent_metadata_at_def Let_def split: prod.splits)
    then show ?thesis by (simp add: plain_recompute)
  qed
  from arg_cong [OF this, of "\<lambda>m. map_of m s"]
  have "map_option forget_pending (map_of (ts_agent_metadata t') s) =
      map_option forget_pending (if s \<in> fst ` set (overdue_sources t now) then None
        else map_of (ts_agent_metadata t) s)"
    unfolding map_of_plain by (simp add: remove_metadata_def map_of_fold_delete flip: all) blast
  then show ?thesis
    unfolding overdue_iff [OF assms(1)] by (auto simp: option_filter_def split: option.splits)
qed

end
