(* ===== verification/TerminalSilence.thy ===== *)
theory TerminalSilence
  imports TerminalSafety
begin

text \<open>
  How long a source stays silenced: the fields that decide whether a hook report is refused
  (\<open>src/terminal/state.rs\<close>: the suppressed reports and the stale sessions), what every call of the
  server does to them, and the locale of a guard that the calls keep.
\<close>

section \<open>The fields that silence a report\<close>

named_theorems silence_frame \<open>steps that leave the suppressions, stale sessions and the hook alone\<close>

lemma recompute_frame [silence_frame]:
  "ts_suppressed_reports (fst (recompute_effective_state t p now)) = ts_suppressed_reports t"
  "ts_stale_sessions (fst (recompute_effective_state t p now)) = ts_stale_sessions t"
  "ts_hook_authority (fst (recompute_effective_state t p now)) = ts_hook_authority t"
  by (simp_all add: recompute_effective_state_def Let_def clear_expiry_pending_for_hidden_metadata_def)

lemma finish_frame [silence_frame]:
  "ts_suppressed_reports (fst (finish_detection t p s now)) = ts_suppressed_reports t"
  "ts_stale_sessions (fst (finish_detection t p s now)) = ts_stale_sessions t"
  "ts_hook_authority (fst (finish_detection t p s now)) = ts_hook_authority t"
  by (simp_all add: finish_detection_def case_prod_beta silence_frame)

lemma accept_frame [silence_frame]:
  "ts_suppressed_reports (fst (accept_hook_report t s q)) = ts_suppressed_reports t"
  "ts_stale_sessions (fst (accept_hook_report t s q)) = ts_stale_sessions t"
  "ts_hook_authority (fst (accept_hook_report t s q)) = ts_hook_authority t"
  by (auto simp: accept_hook_report_def split: option.split)

lemma accept_metadata_frame [silence_frame]:
  "ts_suppressed_reports (fst (accept_metadata_report t s q tok)) = ts_suppressed_reports t"
  "ts_stale_sessions (fst (accept_metadata_report t s q tok)) = ts_stale_sessions t"
  "ts_hook_authority (fst (accept_metadata_report t s q tok)) = ts_hook_authority t"
  by (auto simp: accept_metadata_report_def Let_def split: option.split)

lemma metadata_steps_frame [silence_frame]:
  "ts_suppressed_reports (drop_expired_entry t s now) = ts_suppressed_reports t"
  "ts_stale_sessions (drop_expired_entry t s now) = ts_stale_sessions t"
  "ts_hook_authority (drop_expired_entry t s now) = ts_hook_authority t"
  "ts_suppressed_reports (store_report t r now) = ts_suppressed_reports t"
  "ts_stale_sessions (store_report t r now) = ts_stale_sessions t"
  "ts_hook_authority (store_report t r now) = ts_hook_authority t"
  "ts_suppressed_reports (arm_expiry_event t r) = ts_suppressed_reports t"
  "ts_stale_sessions (arm_expiry_event t r) = ts_stale_sessions t"
  "ts_hook_authority (arm_expiry_event t r) = ts_hook_authority t"
  "ts_suppressed_reports (remove_metadata ss t) = ts_suppressed_reports t"
  "ts_stale_sessions (remove_metadata ss t) = ts_stale_sessions t"
  "ts_hook_authority (remove_metadata ss t) = ts_hook_authority t"
  "ts_suppressed_reports (clear_expiry_pending_for_hidden_metadata t) = ts_suppressed_reports t"
  "ts_stale_sessions (clear_expiry_pending_for_hidden_metadata t) = ts_stale_sessions t"
  "ts_hook_authority (clear_expiry_pending_for_hidden_metadata t) = ts_hook_authority t"
  by (auto simp: drop_expired_entry_def store_report_def arm_expiry_event_def remove_metadata_def
      clear_expiry_pending_for_hidden_metadata_def Let_def split: option.split)

text \<open>The metadata of a terminal does not silence anything.\<close>

lemma metadata_silence:
  "ts_suppressed_reports (fst (metadata_op r now t)) = ts_suppressed_reports t"
  "ts_stale_sessions (fst (metadata_op r now t)) = ts_stale_sessions t"
  "ts_hook_authority (fst (metadata_op r now t)) = ts_hook_authority t"
  "ts_suppressed_reports (fst (expire_op d now t)) = ts_suppressed_reports t"
  "ts_stale_sessions (fst (expire_op d now t)) = ts_stale_sessions t"
  "ts_hook_authority (fst (expire_op d now t)) = ts_hook_authority t"
  by (auto simp: metadata_op_def set_agent_metadata_def expire_op_def expire_agent_metadata_at_def
      Let_def case_prod_beta silence_frame split: option.split)

section \<open>The source of a process that has exited\<close>

definition exit_recorded :: "string \<Rightarrow> string \<Rightarrow> terminal_state \<Rightarrow> bool" where
  "exit_recorded source label t \<longleftrightarrow>
     full_lifecycle_hook_authority source label \<and>
     is_some_and (map_of (ts_suppressed_reports t) source)
       (\<lambda>sup. sup_agent_label sup = label \<and> sup_reason sup = ProcessExit) \<and>
     is_none_or (ts_hook_authority t) (\<lambda>a. ha_source a \<noteq> source)"

text \<open>What does not end the silence of the source: everything but a detection of its agent, a release
  by the source, and a hook report in which the source names another agent.\<close>

fun exit_quiet :: "string \<Rightarrow> string \<Rightarrow> terminal_event \<Rightarrow> bool" where
  "exit_quiet source label (Detected a f v e) = (a \<noteq> parse_agent_label label)"
| "exit_quiet source label (HookReported s l st msg r q) = (s = source \<longrightarrow> l = label)"
| "exit_quiet source label (Released s l q) = (s \<noteq> source)"
| "exit_quiet source label e = True"

lemma exit_recorded_cong:
  "ts_suppressed_reports t' = ts_suppressed_reports t \<Longrightarrow> ts_hook_authority t' = ts_hook_authority t \<Longrightarrow>
   exit_recorded source label t' = exit_recorded source label t"
  by (simp add: exit_recorded_def)

text \<open>A hook of another source, or none, does not matter.\<close>

lemma exit_recorded_hook:
  "exit_recorded source label t \<Longrightarrow> ts_suppressed_reports t' = ts_suppressed_reports t \<Longrightarrow>
   is_none_or (ts_hook_authority t') (\<lambda>a. ha_source a \<noteq> source) \<Longrightarrow> exit_recorded source label t'"
  by (simp add: exit_recorded_def)

lemma exit_recorded_suppress_current:
  "exit_recorded source label t \<Longrightarrow>
   exit_recorded source label (suppress_current_full_lifecycle_hook_authority t reason wall)"
  by (auto simp: exit_recorded_def suppress_current_full_lifecycle_hook_authority_def
      suppress_report_with_session_ref_def map_of_AList_update split: option.split)

lemma exit_recorded_suppress_other:
  "exit_recorded source label t \<Longrightarrow> s \<noteq> source \<Longrightarrow>
   exit_recorded source label (suppress_full_lifecycle_hook_report t s l reason wall)"
  by (auto simp: exit_recorded_def suppress_full_lifecycle_hook_report_def
      suppress_report_with_session_ref_def map_of_AList_update)

lemma exit_recorded_stale [simp]:
  "exit_recorded source label (remember_stale_session t s l r) = exit_recorded source label t"
  "exit_recorded source label (forget_stale_session t s l r) = exit_recorded source label t"
  by (auto simp: exit_recorded_def remember_stale_session_def forget_stale_session_def Let_def
      split: option.split)

lemma exit_recorded_lift:
  "exit_recorded source label t \<Longrightarrow> s \<noteq> source \<Longrightarrow> exit_recorded source label (lift_suppression t s)"
  by (auto simp: lift_suppression_def Let_def exit_recorded_def remember_stale_session_def
      map_of_AList_delete split: option.split)

lemma map_of_filter_kept:
  "map_of xs k = Some v \<Longrightarrow> P (k, v) \<Longrightarrow> map_of (filter P xs) k = Some v"
  by (induction xs) (auto split: if_splits)

lemma fold_remember_frame:
  "ts_suppressed_reports (fold (\<lambda>(s, l, r) t. remember_stale_session t s l r) xs t) = ts_suppressed_reports t"
  "ts_hook_authority (fold (\<lambda>(s, l, r) t. remember_stale_session t s l r) xs t) = ts_hook_authority t"
  by (induction xs arbitrary: t) (auto simp: remember_stale_session_def Let_def)

lemma exit_recorded_clear_suppression:
  assumes "exit_recorded source label t" and "a \<noteq> parse_agent_label label"
  shows "exit_recorded source label (clear_suppression_for_detected_agent t p a)"
proof -
  let ?P = "\<lambda>d (_, sup). parse_agent_label (sup_agent_label sup) \<noteq> Some d"
  obtain sup where sup: "map_of (ts_suppressed_reports t) source = Some sup" "sup_agent_label sup = label"
      "sup_reason sup = ProcessExit"
    using assms(1) by (auto simp: exit_recorded_def is_some_and_iff)
  have "map_of (filter (?P d) (ts_suppressed_reports t)) source = Some sup" if "a = Some d" for d
    using map_of_filter_kept [OF sup(1), of "?P d"] sup(2) assms(2) that by auto
  with assms(1) sup show ?thesis
    by (auto simp: clear_suppression_for_detected_agent_def exit_recorded_def Let_def fold_remember_frame
        split: option.split)
qed

lemma exit_recorded_note:
  assumes "exit_recorded source label t" and "a \<noteq> parse_agent_label label"
  shows "exit_recorded source label (note_detection t a f v e now)"
proof -
  have "exit_recorded source label (t\<lparr>ts_detected_agent := a\<rparr>)"
    using assms(1) by (simp add: exit_recorded_def)
  from exit_recorded_clear_suppression [OF this assms(2), of "ts_detected_agent t"] this show ?thesis
    by (auto simp: note_detection_def Let_def exit_recorded_def)
qed

lemma exit_recorded_end:
  assumes "exit_recorded source label t"
  shows "exit_recorded source label (end_exited_authority t a e now wall)"
    "exit_recorded source label (end_exited_session t a e)"
    "exit_recorded source label (end_displaced_authority t p a now wall)"
proof -
  let ?t = "\<lambda>reason. suppress_current_full_lifecycle_hook_authority t reason wall"
  have cut: "exit_recorded source label (?t reason\<lparr>ts_hook_report_sequences := m, ts_hook_authority := None\<rparr>)"
    "exit_recorded source label (?t reason\<lparr>ts_hook_authority := None, ts_persisted_agent_session := s\<rparr>)"
    "exit_recorded source label (?t reason\<lparr>ts_hook_authority := None\<rparr>)" for reason m s
    using exit_recorded_suppress_current [OF assms, of reason wall] by (simp_all add: exit_recorded_def)
  show "exit_recorded source label (end_exited_authority t a e now wall)"
    using assms cut by (simp add: end_exited_authority_def Let_def split: option.split)
  show "exit_recorded source label (end_exited_session t a e)"
    using assms by (simp add: end_exited_session_def exit_recorded_def)
  show "exit_recorded source label (end_displaced_authority t p a now wall)"
    using assms cut by (simp add: end_displaced_authority_def Let_def)
qed

lemma exit_recorded_finish [simp]:
  "exit_recorded source label (fst (finish_detection t p s now)) = exit_recorded source label t"
  "exit_recorded source label (fst (recompute_effective_state t p now)) = exit_recorded source label t"
  "exit_recorded source label (fst (accept_hook_report t s' q)) = exit_recorded source label t"
  by (simp_all add: exit_recorded_def silence_frame)

lemma exit_recorded_detect:
  assumes "exit_recorded source label t" and "a \<noteq> parse_agent_label label"
  shows "exit_recorded source label (fst (detect_op a f v e wall now t))"
proof -
  have "exit_recorded source label (t\<lparr>ts_detected_agent := a\<rparr>)"
    using assms(1) by (simp add: exit_recorded_def)
  then show ?thesis
    using assms exit_recorded_end exit_recorded_note [OF assms]
    by (simp add: detect_op_def case_prod_beta set_detected_state_with_screen_signals_at_def Let_def)
qed

lemma exited_refuses:
  "exit_recorded source label t \<Longrightarrow>
   set_hook_authority_at t source label st message r q now wall = (t, None)"
  by (auto simp: exit_recorded_def is_some_and_iff intro!: exited_report_rejected)

lemma exit_recorded_hook_op:
  assumes rec: "exit_recorded source label t" and quiet: "s = source \<longrightarrow> l = label"
  shows "exit_recorded source label (fst (hook_op s l st msg r q wall now t))"
proof (cases "s = source")
  case True
  with quiet rec show ?thesis by (simp add: hook_op_def exited_refuses)
next
  case False
  let ?re = "\<lambda>b. if b then t\<lparr>ts_hook_report_sequences := m\<rparr> else t"
  let ?taken = "\<lambda>u a. u\<lparr>ts_persisted_agent_session := None, ts_hook_authority := Some a\<rparr>"
  have re: "exit_recorded source label (t\<lparr>ts_hook_report_sequences := m\<rparr>)" for m
    using rec by (simp add: exit_recorded_def)
  have taken: "exit_recorded source label u \<Longrightarrow> ha_source a = s \<Longrightarrow> exit_recorded source label (?taken u a)" for u a
    using False by (simp add: exit_recorded_def)
  show ?thesis
    by (auto simp: hook_op_def set_hook_authority_at_def Let_def case_prod_beta rec re not_None_eq
        simp del: not_None_eq
        intro!: taken exit_recorded_lift [OF _ False] exit_recorded_suppress_current)
qed

lemma exit_recorded_session_op:
  assumes rec: "exit_recorded source label t"
  shows "exit_recorded source label (fst (session_op s l r q start wall now t))"
proof -
  have cut: "exit_recorded source label u \<Longrightarrow>
      exit_recorded source label (u\<lparr>ts_hook_authority := None, ts_persisted_agent_session := x\<rparr>)"
    "exit_recorded source label u \<Longrightarrow> exit_recorded source label (u\<lparr>ts_persisted_agent_session := x\<rparr>)"
    "exit_recorded source label u \<Longrightarrow> exit_recorded source label (u\<lparr>ts_hook_authority := None\<rparr>)" for u x
    by (simp_all add: exit_recorded_def)
  show ?thesis
    by (auto simp: session_op_def set_agent_session_ref_for_session_start_def Let_def case_prod_beta rec
        split: option.split intro!: cut exit_recorded_suppress_current)
qed

lemma exit_recorded_clear_op:
  assumes rec: "exit_recorded source label t"
  shows "exit_recorded source label (fst (clear_op s q wall now t))"
proof -
  have cut: "exit_recorded source label u \<Longrightarrow>
      exit_recorded source label (u\<lparr>ts_hook_authority := None, ts_persisted_agent_session := None\<rparr>)" for u
    by (simp add: exit_recorded_def)
  show ?thesis
    by (auto simp: clear_op_def clear_hook_authority_with_mutation_def Let_def case_prod_beta rec
        split: option.split intro!: cut exit_recorded_suppress_current)
qed

lemma exit_recorded_release_op:
  assumes rec: "exit_recorded source label t" and other: "s \<noteq> source"
  shows "exit_recorded source label (fst (release_op s l q wall now t))"
proof -
  let ?out = "\<lambda>u. u\<lparr>ts_detected_agent := None, ts_fallback_state := Unknown,
    ts_fallback_visible_blocker := False, ts_fallback_observed_at := None, ts_hook_authority := None\<rparr>"
  have cut: "exit_recorded source label u \<Longrightarrow> exit_recorded source label (?out u)"
    "exit_recorded source label u \<Longrightarrow>
      exit_recorded source label ((?out u)\<lparr>ts_persisted_agent_session := None\<rparr>)" for u
    by (simp_all add: exit_recorded_def)
  show ?thesis
    using cut [OF exit_recorded_suppress_other [OF _ other]]
    by (simp add: release_op_def release_agent_with_mutation_def Let_def case_prod_beta rec)
qed

lemma exit_recorded_kept:
  assumes "exit_recorded source label t" and "exit_quiet source label e"
  shows "exit_recorded source label (fst (terminal_apply e wall now t))"
proof (cases e)
  case (MetadataReported r)
  show ?thesis unfolding MetadataReported terminal_apply.simps
    using assms(1) by (subst exit_recorded_cong [of _ t]) (rule metadata_silence)+
next
  case (MetadataExpired d)
  show ?thesis unfolding MetadataExpired terminal_apply.simps
    using assms(1) by (subst exit_recorded_cong [of _ t]) (rule metadata_silence)+
qed (use assms in \<open>simp_all add: exit_recorded_detect exit_recorded_hook_op exit_recorded_session_op
  exit_recorded_clear_op exit_recorded_release_op\<close>)

section \<open>A session that was replaced\<close>

definition stale_listed :: "string \<Rightarrow> string \<Rightarrow> agent_session_ref \<Rightarrow> terminal_state \<Rightarrow> bool" where
  "stale_listed source label old t \<longleftrightarrow>
     full_lifecycle_hook_authority source label \<and>
     is_some_and (map_of (ts_stale_sessions t) source)
       (\<lambda>xs. \<lparr>stale_agent_label = label, stale_session_ref = old\<rparr> \<in> set xs)"

text \<open>Only a session report of the source that names the replaced session again takes it back.\<close>

fun stale_quiet :: "string \<Rightarrow> string \<Rightarrow> agent_session_ref \<Rightarrow> terminal_event \<Rightarrow> bool" where
  "stale_quiet source label old (SessionReported s l r q start) = ((s, l, r) \<noteq> (source, label, Some old))"
| "stale_quiet source label old e = True"

lemma stale_listed_cong:
  "ts_stale_sessions t' = ts_stale_sessions t \<Longrightarrow> stale_listed source label old t' = stale_listed source label old t"
  by (simp add: stale_listed_def)

lemma stale_listed_remember:
  "stale_listed source label old t \<Longrightarrow> stale_listed source label old (remember_stale_session t s l r)"
  by (auto simp: stale_listed_def remember_stale_session_def Let_def is_some_and_iff)

lemma stale_listed_forget:
  assumes "stale_listed source label old t" and "(s, l, r) \<noteq> (source, label, old)"
  shows "stale_listed source label old (forget_stale_session t s l r)"
proof (cases "map_of (ts_stale_sessions t) s")
  case None
  with assms(1) show ?thesis by (simp add: forget_stale_session_def)
next
  case (Some ys)
  let ?kept = "filter (\<lambda>x. stale_agent_label x \<noteq> l \<or> stale_session_ref x \<noteq> r) ys"
  have "\<lparr>stale_agent_label = label, stale_session_ref = old\<rparr> \<in> set ?kept" if "s = source"
    using assms that Some by (auto simp: stale_listed_def is_some_and_iff)
  moreover from this have "?kept \<noteq> []" if "s = source" using that by (metis empty_iff empty_set)
  ultimately show ?thesis
    using assms(1) by (auto simp: forget_stale_session_def Some Let_def stale_listed_def simp del: filter_empty_conv)
qed

lemma stale_listed_suppress [simp]:
  "stale_listed source label old (suppress_current_full_lifecycle_hook_authority t reason wall) =
     stale_listed source label old t"
  "stale_listed source label old (suppress_full_lifecycle_hook_report t s l reason wall) =
     stale_listed source label old t"
  by (rule stale_listed_cong; simp add: suppress_current_full_lifecycle_hook_authority_def
      suppress_full_lifecycle_hook_report_def suppress_report_with_session_ref_def split: option.split)+

lemma stale_listed_finish [simp]:
  "stale_listed source label old (fst (finish_detection t p s now)) = stale_listed source label old t"
  "stale_listed source label old (fst (recompute_effective_state t p now)) = stale_listed source label old t"
  "stale_listed source label old (fst (accept_hook_report t s' q)) = stale_listed source label old t"
  by (simp_all add: stale_listed_def silence_frame)

lemma stale_listed_lift:
  assumes "stale_listed source label old t"
  shows "stale_listed source label old (lift_suppression t s)"
proof -
  have "stale_listed source label old (t\<lparr>ts_suppressed_reports := m\<rparr>)" for m
    using assms by (simp add: stale_listed_def)
  then show ?thesis
    by (auto simp: lift_suppression_def Let_def intro!: stale_listed_remember split: option.split)
qed

lemma stale_listed_fold:
  "stale_listed source label old t \<Longrightarrow>
   stale_listed source label old (fold (\<lambda>(s, l, r) t. remember_stale_session t s l r) xs t)"
  by (induction xs arbitrary: t) (auto intro: stale_listed_remember)

lemma stale_listed_note:
  assumes "stale_listed source label old t"
  shows "stale_listed source label old (note_detection t a f v e now)"
proof -
  have upd: "stale_listed source label old (t\<lparr>ts_detected_agent := b, ts_suppressed_reports := m\<rparr>)"
    "stale_listed source label old (t\<lparr>ts_detected_agent := b\<rparr>)" for b m
    using assms by (simp_all add: stale_listed_def)
  have set_seq: "stale_listed source label old u \<Longrightarrow>
      stale_listed source label old (u\<lparr>ts_hook_report_sequences := m\<rparr>)" for u m
    by (simp add: stale_listed_def)
  have "stale_listed source label old
      (clear_suppression_for_detected_agent (t\<lparr>ts_detected_agent := a\<rparr>) (ts_detected_agent t) a)"
    by (auto simp: clear_suppression_for_detected_agent_def Let_def upd
        intro!: set_seq stale_listed_fold split: option.split)
  with assms show ?thesis by (auto simp: note_detection_def Let_def stale_listed_def)
qed

lemma stale_listed_end:
  assumes "stale_listed source label old t"
  shows "stale_listed source label old (end_exited_authority t a e now wall)"
    "stale_listed source label old (end_exited_session t a e)"
    "stale_listed source label old (end_displaced_authority t p a now wall)"
proof -
  let ?t = "\<lambda>reason. suppress_current_full_lifecycle_hook_authority t reason wall"
  have "stale_listed source label old (?t reason)" for reason by (simp add: assms)
  then have cut: "stale_listed source label old (?t reason\<lparr>ts_hook_report_sequences := m, ts_hook_authority := None\<rparr>)"
    "stale_listed source label old (?t reason\<lparr>ts_hook_authority := None, ts_persisted_agent_session := s\<rparr>)"
    "stale_listed source label old (?t reason\<lparr>ts_hook_authority := None\<rparr>)" for reason m s
    by (simp_all add: stale_listed_def)
  show "stale_listed source label old (end_exited_authority t a e now wall)"
    using assms cut by (simp add: end_exited_authority_def Let_def split: option.split)
  show "stale_listed source label old (end_exited_session t a e)"
    using assms by (simp add: end_exited_session_def stale_listed_def)
  show "stale_listed source label old (end_displaced_authority t p a now wall)"
    using assms cut by (simp add: end_displaced_authority_def Let_def)
qed

lemma stale_listed_detect_op:
  assumes "stale_listed source label old t"
  shows "stale_listed source label old (fst (detect_op a f v e wall now t))"
proof -
  have "stale_listed source label old (t\<lparr>ts_detected_agent := a\<rparr>)"
    using assms by (simp add: stale_listed_def)
  then show ?thesis
    using assms stale_listed_end stale_listed_note [OF assms]
    by (simp add: detect_op_def case_prod_beta set_detected_state_with_screen_signals_at_def Let_def)
qed

lemma stale_listed_hook_op:
  assumes "stale_listed source label old t"
  shows "stale_listed source label old (fst (hook_op s l st msg r q wall now t))"
proof -
  have re: "stale_listed source label old (t\<lparr>ts_hook_report_sequences := m\<rparr>)" for m
    using assms by (simp add: stale_listed_def)
  have taken: "stale_listed source label old u \<Longrightarrow> stale_listed source label old
      (u\<lparr>ts_persisted_agent_session := None, ts_hook_authority := Some a\<rparr>)" for u a
    by (simp add: stale_listed_def)
  show ?thesis
    by (auto simp: hook_op_def set_hook_authority_at_def Let_def case_prod_beta assms re
        simp del: not_None_eq intro!: taken stale_listed_lift)
qed

lemma stale_listed_session_op:
  assumes rec: "stale_listed source label old t" and other: "(s, l, r) \<noteq> (source, label, Some old)"
  shows "stale_listed source label old (fst (session_op s l r q start wall now t))"
proof -
  have cut: "stale_listed source label old u \<Longrightarrow>
      stale_listed source label old (u\<lparr>ts_hook_authority := None, ts_persisted_agent_session := x\<rparr>)"
    "stale_listed source label old u \<Longrightarrow> stale_listed source label old (u\<lparr>ts_persisted_agent_session := x\<rparr>)"
    "stale_listed source label old u \<Longrightarrow> stale_listed source label old (u\<lparr>ts_hook_authority := None\<rparr>)" for u x
    by (simp_all add: stale_listed_def)
  have forget: "stale_listed source label old (forget_stale_session (fst (accept_hook_report t s q)) s l y)"
    if "r = Some y" for y
    using other that by (intro stale_listed_forget) (auto simp: rec)
  show ?thesis
    by (auto simp: session_op_def set_agent_session_ref_for_session_start_def Let_def case_prod_beta rec forget
        split: option.split intro!: cut stale_listed_remember)
qed

lemma stale_listed_clear_release:
  assumes "stale_listed source label old t"
  shows "stale_listed source label old (fst (clear_op s' q wall now t))"
    "stale_listed source label old (fst (release_op s l q wall now t))"
proof -
  have cut: "stale_listed source label old u \<Longrightarrow>
      stale_listed source label old (u\<lparr>ts_hook_authority := None, ts_persisted_agent_session := None\<rparr>)" for u
    by (simp add: stale_listed_def)
  show "stale_listed source label old (fst (clear_op s' q wall now t))"
    by (auto simp: clear_op_def clear_hook_authority_with_mutation_def Let_def case_prod_beta assms
        split: option.split intro!: cut)
  let ?out = "\<lambda>u. u\<lparr>ts_detected_agent := None, ts_fallback_state := Unknown,
    ts_fallback_visible_blocker := False, ts_fallback_observed_at := None, ts_hook_authority := None\<rparr>"
  have out: "stale_listed source label old (?out u) = stale_listed source label old u"
    "stale_listed source label old ((?out u)\<lparr>ts_persisted_agent_session := None\<rparr>) =
     stale_listed source label old u" for u
    by (simp_all add: stale_listed_def)
  show "stale_listed source label old (fst (release_op s l q wall now t))"
    using out by (simp add: release_op_def release_agent_with_mutation_def Let_def case_prod_beta assms)
qed

lemma stale_listed_kept:
  assumes "stale_listed source label old t" and "stale_quiet source label old e"
  shows "stale_listed source label old (fst (terminal_apply e wall now t))"
proof (cases e)
  case (MetadataReported r)
  show ?thesis unfolding MetadataReported terminal_apply.simps
    using assms(1) by (subst stale_listed_cong [of _ t]) (rule metadata_silence)
next
  case (MetadataExpired d)
  show ?thesis unfolding MetadataExpired terminal_apply.simps
    using assms(1) by (subst stale_listed_cong [of _ t]) (rule metadata_silence)
qed (use assms in \<open>simp_all add: stale_listed_detect_op stale_listed_hook_op stale_listed_session_op
  stale_listed_clear_release\<close>)

section \<open>Silence over any run of calls\<close>

text \<open>Calls in the order in which the server makes them, each with its wall clock and its time.\<close>

fun run_calls :: "(terminal_event \<times> instant \<times> instant) list \<Rightarrow> terminal_state \<Rightarrow> terminal_state" where
  "run_calls [] t = t"
| "run_calls ((e, wall, at) # calls) t = run_calls calls (fst (terminal_apply e wall at t))"

text \<open>A guard that quiet calls keep, and under which the hook reports of an owner are refused.\<close>

locale silence =
  fixes guard :: "terminal_state \<Rightarrow> bool" and quiet :: "terminal_event \<Rightarrow> bool"
    and source label :: string and named :: "agent_session_ref option \<Rightarrow> bool"
  assumes guard_kept: "guard t \<Longrightarrow> quiet e \<Longrightarrow> guard (fst (terminal_apply e wall at t))"
    and guard_refuses: "guard t \<Longrightarrow> named r \<Longrightarrow>
      set_hook_authority_at t source label st message r q at wall = (t, None)"
begin

lemma guard_after: "guard t \<Longrightarrow> list_all (\<lambda>(e, _). quiet e) calls \<Longrightarrow> guard (run_calls calls t)"
  by (induction calls t rule: run_calls.induct) (simp_all add: guard_kept)

lemma silent_after:
  assumes "guard t" and "list_all (\<lambda>(e, _). quiet e) calls" and "named r"
  shows "set_hook_authority_at (run_calls calls t) source label st message r q at wall =
    (run_calls calls t, None)"
  by (rule guard_refuses [OF guard_after [OF assms(1,2)] assms(3)])

end

interpretation exited: silence "exit_recorded source label" "exit_quiet source label" source label "\<lambda>_. True"
  for source label
  by unfold_locales (simp_all add: exit_recorded_kept exited_refuses)

lemma stale_refuses:
  "stale_listed source label old t \<Longrightarrow>
   set_hook_authority_at t source label st message (Some old) q now wall = (t, None)"
  by (auto simp: stale_listed_def is_some_and_iff intro!: stale_report_rejected)

interpretation replaced: silence "stale_listed source label old" "stale_quiet source label old" source label
  "\<lambda>r. r = Some old" for source label old
  by unfold_locales (simp_all add: stale_listed_kept stale_refuses)

text \<open>Where the silence begins.\<close>

lemma exit_recorded_begins:
  assumes "ts_hook_authority t = Some a"
    and "full_lifecycle_hook_authority (ha_source a) (ha_agent_label a)"
    and "parse_agent_label (ha_agent_label a) = agent" and "ha_reported_at a \<le> now"
  shows "exit_recorded (ha_source a) (ha_agent_label a)
    (fst (set_detected_state_with_screen_signals_at t agent f v True now wall))"
  using exit_suppresses [OF assms refl, of f v wall] assms(2)
  by (auto simp: exit_recorded_def is_none_or_iff is_some_and_iff)

lemma stale_listed_begins:
  assumes "same_owner_hook_authority_session_ref t source label new = Some old"
    and "set_agent_session_ref_for_session_start t source label (Some new) q start now wall = (t', Some m)"
  shows "stale_listed source label old t'"
  using replaced_session_stale [OF assms] same_owner_full_lifecycle [OF assms(1)]
  by (auto simp: stale_listed_def is_some_and_iff)

end
