(* ===== verification/TerminalProps.thy ===== *)
theory TerminalProps
  imports TerminalPresentation TerminalSilence
begin

text \<open>
  The properties of the terminals (\<open>src/terminal/\<close>, \<open>src/metadata_tokens.rs\<close>): the invariant of
  every reachable terminal, the reports of the operations, how long a source stays silenced, the rule
  between hook and screen, and the metadata.
\<close>

section \<open>Facts the properties share\<close>


text \<open>The id of a session is not replaced by a report of its own source.\<close>

lemma settled_keeps_id:
  assumes "current_session_identity t = Some (source, label, KindId, v)" and "source \<noteq> ''herdr:mastracode''"
    and "sr_kind r = KindId"
  shows "settled_session_ref t source label (Some r) = Some \<lparr>sr_kind = KindId, sr_value = v\<rparr>"
  using assms
  by (auto simp: settled_session_ref_def lifecycle_hook_report_replaces_persisted_session_def
      conflicting_same_owner_session_ref_def then_some_def session_start_source_allows_session_replacement_def
      intro: agent_session_ref.equality split: option.splits)

lemma hook_keeps_id:
  assumes id: "current_session_identity t = Some (source, label, KindId, v)"
    and "source \<noteq> ''herdr:mastracode''" and "sr_kind r = KindId"
    and h: "set_hook_authority_at t source label st message (Some r) q now wall = (t', res)"
  shows "current_session_identity t' = Some (source, label, KindId, v)"
proof -
  define ra where "ra = (report_has_fresh_session_after_suppression t source label (Some r) \<or>
    report_has_fresh_session_after_stale_session t source label (Some r))"
  let ?t1 = "if ra then t\<lparr>ts_hook_report_sequences := AList.delete source (ts_hook_report_sequences t)\<rparr> else t"
  obtain t2 acc where acc: "accept_hook_report ?t1 source q = (t2, acc)" by fastforce
  have core2: "same_core t t2"
    using same_core_trans [OF reanchor_core accept_split(1) [OF acc]] .
  have own: "\<not> current_session_owner_conflicts t source label"
    by (simp add: current_session_owner_conflicts_def id)
  let ?a = "\<lparr>ha_source = source, ha_agent_label = label, ha_state = st, ha_message = message,
    ha_reported_at = now, ha_session_ref = Some \<lparr>sr_kind = KindId, sr_value = v\<rparr>\<rparr>"
  let ?t5 = "(lift_suppression t2 source)\<lparr>ts_persisted_agent_session := None, ts_hook_authority := Some ?a\<rparr>"
  consider "t' = t" | "t' = t2"
    | (taken) "t' = fst (finish_detection ?t5 (previous_effective_at t2 now) (current_session_identity t2) now)"
    using h acc unfolding set_hook_authority_at_def Let_def ra_def settled_keeps_id [OF assms(1-3)]
    by (fastforce simp: own split: if_splits prod.splits)
  then show ?thesis
  proof cases
    case taken
    have "prev_state (previous_effective_at t2 now) = ts_state ?t5"
      by (simp add: previous_effective_at_def same_core_fields [OF same_core_stale(3)])
    then obtain m where "t' = ?t5\<lparr>ts_agent_metadata := m, ts_state := arbitrated_state ?t5\<rparr>"
      unfolding taken by (rule finish_fields)
    then show ?thesis by (simp add: current_session_identity_def)
  qed (use id same_core_queries(3) [OF core2] in simp_all)
qed

lemma session_keeps_id:
  assumes id: "current_session_identity t = Some (source, label, KindId, v)"
    and "sr_kind r = KindId" and "sr_value r \<noteq> v"
    and "\<not> session_start_source_allows_session_replacement source label start"
  shows "\<exists>t'. set_agent_session_ref_for_session_start t source label (Some r) q start now wall = (t', None) \<and>
    same_core t t'"
proof -
  obtain t1 acc where acc: "accept_hook_report t source q = (t1, acc)" by fastforce
  note core = accept_split(1) [OF acc]
  have "conflicting_same_owner_session_ref t1 source label r start \<noteq> None"
    using assms by (simp add: conflicting_same_owner_session_ref_def same_core_queries [OF core])
  then show ?thesis
    using acc core by (auto simp: set_agent_session_ref_for_session_start_def Let_def)
qed

section \<open>A concrete terminal for the witnesses\<close>

definition pi_authority :: hook_authority where
  "pi_authority = \<lparr>ha_source = ''herdr:pi'', ha_agent_label = ''pi'', ha_state = Working, ha_message = None,
     ha_reported_at = 5, ha_session_ref = Some \<lparr>sr_kind = KindId, sr_value = ''s1''\<rparr>\<rparr>"

definition pi_terminal :: terminal_state where
  "pi_terminal = (new_terminal_state ''t1'' ''/w'')
     \<lparr>ts_detected_agent := Some Pi, ts_hook_authority := Some pi_authority, ts_state := Working\<rparr>"

lemma parse_pi: "parse_agent_label ''pi'' = Some Pi" "parse_agent_label ''claude'' = Some Claude"
  "parse_agent_label ''codex'' = Some Codex"
  using parse_agent_label_label [of Pi] parse_agent_label_label [of Claude] parse_agent_label_label [of Codex]
  by simp_all

lemma pi_full_lifecycle: "full_lifecycle_hook_authority ''herdr:pi'' ''pi''"
  by (simp add: full_lifecycle_hook_authority_def)

lemma pi_terminal_inv: "term_inv 7 pi_terminal"
  by (simp add: pi_terminal_def pi_authority_def new_terminal_state_def term_inv_def settled_def
      coherent_def maps_ok_def suppressions_ok_def stale_ok_def query_defs pi_full_lifecycle parse_pi
      hook_authority_not_newer_than_def hook_authority_conflicts_with_detected_agent_def)

lemma pi_terminal_hook: "ts_hook_authority pi_terminal = Some pi_authority"
  "ha_source pi_authority = ''herdr:pi''" "ha_agent_label pi_authority = ''pi''"
  "ha_state pi_authority = Working" "ha_reported_at pi_authority = 5"
  by (simp_all add: pi_terminal_def pi_authority_def)

definition claude_terminal :: terminal_state where
  "claude_terminal = (new_terminal_state ''t2'' ''/w'')
     \<lparr>ts_detected_agent := Some Claude,
      ts_hook_authority := Some \<lparr>ha_source = ''herdr:claude'', ha_agent_label = ''claude'',
        ha_state = Working, ha_message = None, ha_reported_at = 5, ha_session_ref = None\<rparr>,
      ts_persisted_agent_session := Some \<lparr>ps_source = ''herdr:claude'', ps_agent = ''claude'',
        ps_session_ref = \<lparr>sr_kind = KindId, sr_value = ''c1''\<rparr>\<rparr>,
      ts_state := Working\<rparr>"

lemma claude_not_full_lifecycle: "\<not> full_lifecycle_hook_authority ''herdr:claude'' ''claude''"
  by (simp add: full_lifecycle_hook_authority_def)

lemma custom_not_full_lifecycle: "\<not> full_lifecycle_hook_authority ''custom'' label"
  by (simp add: full_lifecycle_hook_authority_def)

text \<open>What a report or a detection evaluates on a terminal that has seen little.\<close>

lemmas fresh_report_defs = report_matches_stale_session_def report_has_fresh_session_after_suppression_def
  report_has_fresh_session_after_stale_session_def known_agent_label_conflicts_with_detected_agent_def
  current_session_owner_conflicts_def live_hook_authority_conflicts_with_session_def
  accept_hook_report_def hm_contains_def settled_session_ref_def finish_detection_def
  recompute_effective_state_def previous_effective_at_def query_defs Let_def
  clear_expiry_pending_for_hidden_metadata_def new_terminal_state_def
  should_ignore_detected_state_under_full_lifecycle_hook_def
  detected_state_observed_before_release_suppression_def hm_values_def note_detection_def
  clear_suppression_for_detected_agent_def end_exited_authority_def end_exited_session_def
  end_displaced_authority_def hook_authority_not_newer_than_def
  hook_authority_conflicts_with_detected_agent_def

lemma claude_terminal_inv: "term_inv 7 claude_terminal"
  by (simp add: claude_terminal_def new_terminal_state_def term_inv_def settled_def
      coherent_def maps_ok_def suppressions_ok_def stale_ok_def query_defs claude_not_full_lifecycle parse_pi
      hook_authority_not_newer_than_def hook_authority_conflicts_with_detected_agent_def)

section \<open>Properties\<close>

text \<open>C2: in every terminal that the calls of the server reach, detections and reports carrying any
  times up to the present, in any order, the state shown is the one that hook and screen are
  arbitrated to; the hook's report is not from the future; the hook speaks for another agent than the
  screen shows only if the screen was observed before the hook reported; and only sources of
  integrations that own the life cycle are suppressed or have stale sessions, which are then listed
  once each.\<close>
theorem terminal_invariant:
  assumes "terminal_reach now t"
  shows "ts_state t = arbitrated_state t \<and>
    (\<forall>a. ts_hook_authority t = Some a \<longrightarrow> ha_reported_at a \<le> now) \<and>
    (hook_authority_conflicts_with_detected_agent t (ts_detected_agent t) \<longrightarrow>
       (\<exists>a observed_at. ts_hook_authority t = Some a \<and> ts_fallback_observed_at t = Some observed_at \<and>
          observed_at < ha_reported_at a)) \<and>
    (\<forall>(s, r) \<in> set (ts_suppressed_reports t). full_lifecycle_hook_authority s (sup_agent_label r)) \<and>
    (\<forall>(s, xs) \<in> set (ts_stale_sessions t). xs \<noteq> [] \<and> distinct xs \<and>
       (\<forall>x \<in> set xs. full_lifecycle_hook_authority s (stale_agent_label x)))"
proof -
  have inv: "settled t" "coherent now t" "maps_ok t"
    using terminal_reach_inv [OF assms] by (simp_all add: term_inv_def)
  from inv(2) have "\<forall>a. ts_hook_authority t = Some a \<longrightarrow> ha_reported_at a \<le> now"
    by (simp add: coherent_def hook_authority_not_newer_than_def is_none_or_iff)
  moreover from inv(2) have "hook_authority_conflicts_with_detected_agent t (ts_detected_agent t) \<longrightarrow>
    (\<exists>a observed_at. ts_hook_authority t = Some a \<and> ts_fallback_observed_at t = Some observed_at \<and>
       observed_at < ha_reported_at a)"
    by (auto simp: coherent_def screen_predates_hook_def is_some_and_iff)
  ultimately show ?thesis
    using inv(1,3) by (simp add: settled_def maps_ok_def suppressions_ok_def stale_ok_def)
qed

text \<open>A claude hook of the user's reports at 10; a queued detection of codex was observed at 9.\<close>
theorem terminal_invariant_witness:
  "\<exists>t. terminal_reach 10 t \<and> hook_authority_conflicts_with_detected_agent t (ts_detected_agent t) \<and>
    (\<exists>a observed_at. ts_hook_authority t = Some a \<and> ts_fallback_observed_at t = Some observed_at \<and>
       observed_at < ha_reported_at a)"
proof -
  let ?fresh = "new_terminal_state ''t2'' ''/w''"
  let ?e = "HookReported ''custom'' ''claude'' Working None None None"
  let ?t = "fst (terminal_apply (Detected (Some Codex) Idle False False) 10 9 (fst (terminal_apply ?e 10 10 ?fresh)))"
  have reach: "terminal_reach 10 ?t"
    by (intro terminal_reach.called [where before = 10] terminal_reach.created) simp_all
  have custom: "fst (terminal_apply ?e 10 10 ?fresh) = ?fresh\<lparr>ts_hook_authority :=
      Some \<lparr>ha_source = ''custom'', ha_agent_label = ''claude'', ha_state = Working, ha_message = None,
        ha_reported_at = 10, ha_session_ref = None\<rparr>, ts_state := Working\<rparr>" (is "_ = ?t1")
    by (simp add: hook_op_def set_hook_authority_at_def report_is_suppressed_def custom_not_full_lifecycle
        fresh_report_defs)
  have "hook_authority_conflicts_with_detected_agent ?t (ts_detected_agent ?t)"
    unfolding custom
    by (simp add: detect_op_def set_detected_state_with_screen_signals_at_def parse_pi fresh_report_defs
        custom_not_full_lifecycle)
  with reach terminal_invariant [OF reach] show ?thesis by blast
qed

text \<open>C7: no change is silent.  After any call on a reachable terminal, whatever time it carries, the
  effective agent or the state differ from before only if the returned mutation carries a change with
  exactly the values before and after, and the identity of the session differs exactly if the mutation
  says so.\<close>
theorem terminal_changes_reported:
  assumes "terminal_reach before t" and "terminal_apply e wall at t = (t', r)"
  shows "(effective_agent_label t' = effective_agent_label t \<and> ts_state t' = ts_state t \<or>
      (\<exists>m c. r = Some m \<and> tm_effective_state_change m = Some c \<and>
        esc_previous_agent_label c = effective_agent_label t \<and> esc_previous_state c = ts_state t \<and>
        esc_agent_label c = effective_agent_label t' \<and> esc_state c = ts_state t')) \<and>
    (is_some_and r tm_session_ref_changed \<longleftrightarrow> current_session_identity t' \<noteq> current_session_identity t)"
proof -
  have inv: "term_inv (max before at) t" by (rule term_inv_later [OF terminal_reach_inv [OF assms(1)]]) simp
  have "at \<le> max before at" by simp
  from apply_event.visible_change_reported [OF inv this assms(2)]
    apply_event.session_change_reported [OF inv this assms(2)] show ?thesis by blast
qed

theorem terminal_changes_reported_witness:
  "is_some_and (snd (terminal_apply (HookCleared None None) 3 2 (new_terminal_state ''t'' ''/w'')))
     tm_session_ref_changed \<longleftrightarrow>
   current_session_identity (fst (terminal_apply (HookCleared None None) 3 2 (new_terminal_state ''t'' ''/w'')))
     \<noteq> current_session_identity (new_terminal_state ''t'' ''/w'')"
  using terminal_changes_reported [OF terminal_reach.created [of 1 "''t''" "''/w''"] prod.collapse [symmetric],
      of "HookCleared None None" 3 2] by (simp del: terminal_apply.simps)

text \<open>C8: once the screen detection has seen the exit of the process that a life-cycle hook speaks for, not
  before the hook's last report, the hook has no authority any more, and hook reports of that source for that
  agent stay refused and change nothing, whatever state, session and sequence number they carry, through any
  further detections, reports, clears, releases and metadata, until the screen detects that agent again, the
  source releases an agent, or the source reports a state for another agent; meanwhile no hook of the source
  has authority.  (A respawn of the shell starts afresh.)\<close>
theorem exit_ends_hook_authority:
  assumes "ts_hook_authority t = Some a"
    and "full_lifecycle_hook_authority (ha_source a) (ha_agent_label a)"
    and "parse_agent_label (ha_agent_label a) = agent" and "ha_reported_at a \<le> now"
    and "t' = fst (set_detected_state_with_screen_signals_at t agent f v True now wall)"
    and "list_all (\<lambda>(e, _). exit_quiet (ha_source a) (ha_agent_label a) e) calls"
  shows "ts_hook_authority t' = None \<and>
    set_hook_authority_at (run_calls calls t') (ha_source a) (ha_agent_label a) st message r q now' wall' =
      (run_calls calls t', None) \<and>
    (\<forall>b. ts_hook_authority (run_calls calls t') = Some b \<longrightarrow> ha_source b \<noteq> ha_source a)"
proof -
  have begins: "exit_recorded (ha_source a) (ha_agent_label a) t'"
    unfolding assms(5) by (rule exit_recorded_begins [OF assms(1-4)])
  from exited.guard_after [OF this assms(6)]
  have "\<forall>b. ts_hook_authority (run_calls calls t') = Some b \<longrightarrow> ha_source b \<noteq> ha_source a"
    by (simp add: exit_recorded_def is_none_or_iff)
  then show ?thesis
    using exit_suppresses [OF assms(1-5)] exited.silent_after [OF begins assms(6) TrueI] by simp
qed

theorem exit_ends_hook_authority_witness:
  "let t' = fst (set_detected_state_with_screen_signals_at pi_terminal (Some Pi) Idle False True 9 9);
       u = run_calls [(Detected None Idle False False, 10, 10),
         (SessionReported ''herdr:pi'' ''pi'' (Some \<lparr>sr_kind = KindId, sr_value = ''s9''\<rparr>) (Some 4) None, 11, 11),
         (HookReported ''herdr:pi'' ''pi'' Idle None None (Some 5), 12, 12)] t'
   in ts_hook_authority t' = None \<and>
      set_hook_authority_at u ''herdr:pi'' ''pi'' Working None None (Some 9) 13 13 = (u, None)"
  using exit_ends_hook_authority [OF pi_terminal_hook(1) _ _ _ refl, of "Some Pi" 9
      "[(Detected None Idle False False, 10, 10),
        (SessionReported ''herdr:pi'' ''pi'' (Some \<lparr>sr_kind = KindId, sr_value = ''s9''\<rparr>) (Some 4) None, 11, 11),
        (HookReported ''herdr:pi'' ''pi'' Idle None None (Some 5), 12, 12)]" Idle False 9]
  by (simp add: pi_terminal_hook pi_full_lifecycle parse_pi Let_def del: run_calls.simps)

text \<open>C10: when a session start replaces the session of a live life-cycle hook, hook reports that still
  name the replaced session are refused and change nothing, through any further detections, reports, clears,
  releases and metadata, until a session report of the same source and agent names that session again (a
  resume).  (A respawn of the shell starts afresh.)\<close>
theorem replaced_session_silenced:
  assumes "same_owner_hook_authority_session_ref t source label new = Some old"
    and "set_agent_session_ref_for_session_start t source label (Some new) q start now wall = (t', Some m)"
    and "list_all (\<lambda>(e, _). stale_quiet source label old e) calls"
  shows "set_hook_authority_at (run_calls calls t') source label st message (Some old) q' now' wall' =
    (run_calls calls t', None)"
  by (rule replaced.silent_after [OF stale_listed_begins [OF assms(1,2)] assms(3) refl])

theorem replaced_session_silenced_witness:
  "let t' = fst (set_agent_session_ref_for_session_start pi_terminal ''herdr:pi'' ''pi''
         (Some \<lparr>sr_kind = KindId, sr_value = ''s2''\<rparr>) None (Some ''new'') 9 9);
       u = run_calls [(HookReported ''herdr:pi'' ''pi'' Idle None (Some \<lparr>sr_kind = KindId, sr_value = ''s2''\<rparr>) None, 10, 10),
         (Released ''herdr:pi'' ''pi'' None, 11, 11), (Detected (Some Pi) Idle False False, 12, 12)] t'
   in set_hook_authority_at u ''herdr:pi'' ''pi'' Idle None (Some \<lparr>sr_kind = KindId, sr_value = ''s1''\<rparr>)
        None 13 13 = (u, None)"
proof -
  let ?new = "\<lparr>sr_kind = KindId, sr_value = ''s2''\<rparr>" and ?old = "\<lparr>sr_kind = KindId, sr_value = ''s1''\<rparr>"
  let ?r = "set_agent_session_ref_for_session_start pi_terminal ''herdr:pi'' ''pi'' (Some ?new) None (Some ''new'') 9 9"
  have rep: "same_owner_hook_authority_session_ref pi_terminal ''herdr:pi'' ''pi'' ?new = Some ?old"
    by (simp add: same_owner_hook_authority_session_ref_def pi_terminal_def pi_authority_def
        pi_full_lifecycle option_filter_def)
  have "snd ?r \<noteq> None"
    by (simp add: set_agent_session_ref_for_session_start_def accept_hook_report_def hm_contains_def rep Let_def
        known_agent_label_conflicts_with_detected_agent_def current_session_owner_conflicts_def
        conflicting_same_owner_session_ref_def session_start_source_allows_session_replacement_def
        current_session_identity_def pi_terminal_def pi_authority_def new_terminal_state_def parse_pi
        case_prod_beta)
  then obtain m where m: "?r = (fst ?r, Some m)" by (metis option.exhaust prod.collapse)
  show ?thesis
    unfolding Let_def by (rule replaced_session_silenced [OF rep m]) simp
qed

text \<open>The id of the session of a source other than mastracode is not replaced by its hook reports that
  name another id, and a
  session report that names another id is refused without effect unless its start source allows the
  replacement.  (Mastracode may replace a session restored from a snapshot.)\<close>
lemma session_id_kept:
  assumes "current_session_identity t = Some (source, label, KindId, v)"
    and "sr_kind r = KindId" and "sr_value r \<noteq> v"
  shows "(source \<noteq> ''herdr:mastracode'' \<longrightarrow>
      current_session_identity (fst (set_hook_authority_at t source label st message (Some r) q now wall)) =
        Some (source, label, KindId, v)) \<and>
    (\<not> session_start_source_allows_session_replacement source label start \<longrightarrow>
      snd (set_agent_session_ref_for_session_start t source label (Some r) q start now wall) = None \<and>
      current_session_identity (fst (set_agent_session_ref_for_session_start t source label (Some r) q start now wall)) =
        Some (source, label, KindId, v))"
proof (intro conjI impI)
  assume "source \<noteq> ''herdr:mastracode''"
  from hook_keeps_id [OF assms(1) this assms(2) prod.collapse [symmetric]]
  show "current_session_identity (fst (set_hook_authority_at t source label st message (Some r) q now wall)) =
    Some (source, label, KindId, v)" .
next
  assume no: "\<not> session_start_source_allows_session_replacement source label start"
  from session_keeps_id [OF assms no, of q now wall] obtain t' where
    t': "set_agent_session_ref_for_session_start t source label (Some r) q start now wall = (t', None)"
      "same_core t t'" by blast
  show "snd (set_agent_session_ref_for_session_start t source label (Some r) q start now wall) = None"
    by (simp add: t'(1))
  show "current_session_identity (fst (set_agent_session_ref_for_session_start t source label (Some r) q start now wall)) =
    Some (source, label, KindId, v)"
    by (simp add: t'(1) same_core_queries(3) [OF t'(2)] assms(1))
qed

lemma session_id_kept_witness:
  "current_session_identity (fst (set_hook_authority_at claude_terminal ''herdr:claude'' ''claude'' Idle None
     (Some \<lparr>sr_kind = KindId, sr_value = ''c2''\<rparr>) None 8 8)) = Some (''herdr:claude'', ''claude'', KindId, ''c1'')"
  using session_id_kept [of claude_terminal "''herdr:claude''" "''claude''" "''c1''"
      "\<lparr>sr_kind = KindId, sr_value = ''c2''\<rparr>" Idle None None 8 8]
  by (simp add: claude_terminal_def current_session_identity_def)

text \<open>C29: while a life-cycle hook speaks for the agent, the screen detection of that agent neither ends its
  authority nor changes the state that is shown: the hook's state.\<close>
theorem hook_overrides_screen:
  assumes "ts_hook_authority t = Some a"
    and "full_lifecycle_hook_authority (ha_source a) (ha_agent_label a)"
    and "\<not> hook_authority_conflicts_with_detected_agent t agent"
    and "t' = fst (set_detected_state_with_screen_signals_at t agent f v False now wall)"
  shows "ts_hook_authority t' = Some a \<and> ts_state t' = ha_state a \<and>
    ts_fallback_state t' = ts_fallback_state t"
  by (rule hook_owns_state [OF assms])

theorem hook_overrides_screen_witness:
  "ts_state (fst (set_detected_state_with_screen_signals_at pi_terminal (Some Pi) Idle False False 9 9)) = Working"
  using hook_overrides_screen [OF pi_terminal_hook(1) _ _ refl, of "Some Pi" Idle False 9 9]
  by (simp add: pi_terminal_hook pi_full_lifecycle parse_pi hook_authority_conflicts_with_detected_agent_def)



text \<open>a metadata report that sets a title and clears nothing is shown at once, if it is accepted, its
  guards match, it does not expire at the same instant, and every other title is older.\<close>
theorem metadata_title_shown:
  assumes "hm_wf (ts_agent_metadata t)"
    and "accept_metadata_report t (rp_source r) (rp_seq r) False = (t1, Some True)"
    and "rp_title r = Some x" "\<not> rp_clear_title r" "\<not> rp_clear_display_agent r" "\<not> rp_clear_state_labels r"
    and "metadata_guards_match t (rp_agent_label r) (rp_applies_to_source r)"
    and "\<not> agent_metadata_is_expired (replacement_metadata r now) now"
    and "\<And>s m. map_of (ts_agent_metadata t) s = Some m \<Longrightarrow> am_title_reported_at m < Some now"
    and "set_agent_metadata t r now = (t', res)"
  shows "effective_title t' now = Some x"
  by (rule reported_title_shown [OF assms])

theorem metadata_title_shown_witness:
  "effective_title (fst (set_agent_metadata pi_terminal \<lparr>rp_source = ''user'', rp_agent_label = Some ''pi'',
     rp_applies_to_source = None, rp_title = Some ''build'', rp_display_agent = None, rp_state_labels = [],
     rp_clear_title = False, rp_clear_display_agent = False, rp_clear_state_labels = False,
     rp_ttl = Some 10, rp_seq = None\<rparr> 20)) 20 = Some ''build''"
  (is "effective_title (fst (set_agent_metadata _ ?r _)) _ = _")
proof -
  have "hm_wf (ts_agent_metadata pi_terminal)" and none: "ts_agent_metadata pi_terminal = []"
    by (simp_all add: pi_terminal_def new_terminal_state_def)
  moreover have "accept_metadata_report pi_terminal (rp_source ?r) (rp_seq ?r) False = (pi_terminal, Some True)"
    by (simp add: accept_metadata_report_def)
  moreover have "metadata_guards_match pi_terminal (rp_agent_label ?r) (rp_applies_to_source ?r)"
    by (simp add: metadata_guards_match_def effective_agent_label_def pi_terminal_hook)
  moreover have "\<not> agent_metadata_is_expired (replacement_metadata ?r 20) 20"
    by (simp add: agent_metadata_is_expired_def agent_metadata_expiry_def replacement_metadata_def
        instant_checked_add_def)
  ultimately show ?thesis
    by (intro metadata_title_shown [OF _ _ _ _ _ _ _ _ _ prod.collapse [symmetric]]) (simp_all add: none)
qed

text \<open>C31: the expiry sweep removes exactly the metadata whose deadline has passed, whatever deadline it was
  scheduled for; the entries it keeps differ at most in the flag of a pending event.\<close>
theorem expiry_sweep_exact:
  assumes "hm_wf (ts_agent_metadata t)" and "expire_agent_metadata_at t deadline now = (t', r)"
  shows "map_option forget_pending (map_of (ts_agent_metadata t') s) =
    map_option forget_pending
      (option_filter (\<lambda>m. \<not> agent_metadata_is_expired m now) (map_of (ts_agent_metadata t) s))"
  by (rule expire_removes [OF assms])

theorem expiry_sweep_exact_witness:
  "map_of (ts_agent_metadata (fst (expire_agent_metadata_at (pi_terminal\<lparr>ts_agent_metadata :=
     [(''user'', \<lparr>am_source = ''user'', am_agent_label = None, am_applies_to_source = None,
        am_title = Some ''build'', am_display_agent = None, am_state_labels = [], am_reported_at = 1,
        am_title_reported_at = Some 1, am_display_agent_reported_at = None, am_state_label_reported_at = [],
        am_ttl = Some 3, am_expiry_event_pending = True\<rparr>)]\<rparr>) 4 5))) ''user'' = None"
  (is "map_of (ts_agent_metadata (fst (expire_agent_metadata_at ?t 4 5))) _ = None")
proof -
  have "hm_wf (ts_agent_metadata ?t)" by (simp add: hm_wf_def)
  from expiry_sweep_exact [OF this prod.collapse [symmetric], where s = "''user''", of 4 5]
  show ?thesis
    by (simp add: option_filter_def agent_metadata_is_expired_def agent_metadata_expiry_def
        instant_checked_add_def)
qed

end
