(* ===== verification/Selection.thy ===== *)
theory Selection
  imports Layout RustText
begin

text \<open>
  Text selection with the mouse and the OSC 52 clipboard (\<open>src/selection.rs\<close>).  A selection lives in
  rows of the screen buffer, so it does not move when the pane scrolls; \<open>usize\<close> offsets are 64-bit
  words and are truncated to \<open>u32\<close> as the code casts them.  A panic of \<open>clamp\<close> is \<open>None\<close>.
\<close>

section \<open>Data\<close>

datatype phase = Anchored | Dragging | Done

record selection =
  sel_pane_id :: pane_id
  sel_anchor :: "u32 \<times> u16"
  sel_cursor :: "u32 \<times> u16"
  sel_phase :: phase

record scroll_metrics =
  offset_from_bottom :: u64
  max_offset_from_bottom :: u64
  viewport_rows :: u64

section \<open>Rows\<close>

definition viewport_top_row :: "scroll_metrics option \<Rightarrow> u32" where
  "viewport_top_row metrics =
     ucast (unwrap_or (map_option (\<lambda>m. saturating_sub (max_offset_from_bottom m) (offset_from_bottom m)) metrics) 0)"

definition absolute_row_for_viewport_row :: "u16 \<Rightarrow> scroll_metrics option \<Rightarrow> u32" where
  "absolute_row_for_viewport_row viewport_row metrics = viewport_top_row metrics + ucast viewport_row"

definition viewport_row_for_absolute_row :: "u32 \<Rightarrow> scroll_metrics option \<Rightarrow> u16" where
  "viewport_row_for_absolute_row absolute_row metrics =
     (let d = saturating_sub absolute_row (viewport_top_row metrics)
      in if d < 0x10000 then ucast d else 0)"

definition clamp_to_pane :: "u16 \<Rightarrow> u16 \<Rightarrow> rect \<Rightarrow> (u16 \<times> u16) option" where
  "clamp_to_pane screen_col screen_row pane_inner =
     (case clamp screen_col (rx pane_inner) (rx pane_inner + saturating_sub (rwidth pane_inner) 1) of
        None \<Rightarrow> None
      | Some clamped_col \<Rightarrow>
         (case clamp screen_row (ry pane_inner) (ry pane_inner + saturating_sub (rheight pane_inner) 1) of
            None \<Rightarrow> None
          | Some clamped_row \<Rightarrow> Some (clamped_row - ry pane_inner, clamped_col - rx pane_inner)))"

section \<open>Operations\<close>

definition sel_start :: "pane_id \<Rightarrow> u16 \<Rightarrow> u16 \<Rightarrow> scroll_metrics option \<Rightarrow> selection" where
  "sel_start pane viewport_row col metrics =
     (let a = (absolute_row_for_viewport_row viewport_row metrics, col)
      in \<lparr>sel_pane_id = pane, sel_anchor = a, sel_cursor = a, sel_phase = Anchored\<rparr>)"

definition sel_range :: "pane_id \<Rightarrow> u16 \<Rightarrow> u16 \<Rightarrow> u16 \<Rightarrow> scroll_metrics option \<Rightarrow> selection" where
  "sel_range pane viewport_row start_col end_col metrics =
     (let row = absolute_row_for_viewport_row viewport_row metrics
      in \<lparr>sel_pane_id = pane, sel_anchor = (row, start_col), sel_cursor = (row, end_col),
          sel_phase = Dragging\<rparr>)"

definition sel_line_range :: "pane_id \<Rightarrow> u32 \<Rightarrow> u32 \<Rightarrow> u16 \<Rightarrow> selection" where
  "sel_line_range pane anchor_row cursor_row end_col =
     (case (if anchor_row \<le> cursor_row then (0, end_col) else (end_col, 0)) of
        (anchor_col, cursor_col) \<Rightarrow>
          \<lparr>sel_pane_id = pane, sel_anchor = (anchor_row, anchor_col),
           sel_cursor = (cursor_row, cursor_col), sel_phase = Dragging\<rparr>)"

definition absolute_row_for_viewport :: "u16 \<Rightarrow> scroll_metrics option \<Rightarrow> u32" where
  "absolute_row_for_viewport viewport_row metrics = absolute_row_for_viewport_row viewport_row metrics"

definition anchor_screen_pos :: "selection \<Rightarrow> rect \<Rightarrow> scroll_metrics option \<Rightarrow> (u16 \<times> u16) option" where
  "anchor_screen_pos s pane_inner metrics =
     (let viewport_row = viewport_row_for_absolute_row (fst (sel_anchor s)) metrics
      in case clamp (saturating_add viewport_row (ry pane_inner)) (ry pane_inner)
                (ry pane_inner + saturating_sub (rheight pane_inner) 1) of
           None \<Rightarrow> None
         | Some row \<Rightarrow>
            (case clamp (saturating_add (snd (sel_anchor s)) (rx pane_inner)) (rx pane_inner)
                    (rx pane_inner + saturating_sub (rwidth pane_inner) 1) of
               None \<Rightarrow> None
             | Some col \<Rightarrow> Some (row, col)))"

definition sel_drag :: "selection \<Rightarrow> u16 \<Rightarrow> u16 \<Rightarrow> rect \<Rightarrow> scroll_metrics option \<Rightarrow> selection option" where
  "sel_drag s screen_col screen_row pane_inner metrics =
     (case clamp_to_pane screen_col screen_row pane_inner of
        None \<Rightarrow> None
      | Some (viewport_row, col) \<Rightarrow>
          let s1 = s\<lparr>sel_cursor := (absolute_row_for_viewport_row viewport_row metrics, col)\<rparr>
          in Some (if sel_cursor s1 \<noteq> sel_anchor s1 then s1\<lparr>sel_phase := Dragging\<rparr> else s1))"

definition sel_finish :: "selection \<Rightarrow> selection \<times> bool" where
  "sel_finish s = (if sel_phase s = Dragging then (s\<lparr>sel_phase := Done\<rparr>, True) else (s, False))"

definition is_visible :: "selection \<Rightarrow> bool" where
  "is_visible s = (sel_phase s = Dragging \<or> sel_phase s = Done)"

definition is_done :: "selection \<Rightarrow> bool" where
  "is_done s = (sel_phase s = Done)"

definition was_just_click :: "selection \<Rightarrow> bool" where
  "was_just_click s = (sel_phase s = Anchored)"

definition is_just_click :: "selection \<Rightarrow> bool" where
  "is_just_click s = (sel_phase s = Anchored)"

definition force_dragging :: "selection \<Rightarrow> selection" where
  "force_dragging s = (if sel_phase s = Anchored then s\<lparr>sel_phase := Dragging\<rparr> else s)"

definition is_in_progress :: "selection \<Rightarrow> bool" where
  "is_in_progress s = (sel_phase s = Anchored \<or> sel_phase s = Dragging)"

definition is_dragging :: "selection \<Rightarrow> bool" where
  "is_dragging s = (sel_phase s = Dragging)"

definition sel_ordered :: "selection \<Rightarrow> (u32 \<times> u16) \<times> (u32 \<times> u16)" where
  "sel_ordered s =
     (case (sel_anchor s, sel_cursor s) of ((ar, ac), (cr, cc)) \<Rightarrow>
        if ar < cr \<or> (ar = cr \<and> ac \<le> cc) then ((ar, ac), (cr, cc)) else ((cr, cc), (ar, ac)))"

definition ordered_cells :: "selection \<Rightarrow> (u32 \<times> u16) \<times> (u32 \<times> u16)" where
  "ordered_cells s = sel_ordered s"

definition sel_contains :: "selection \<Rightarrow> u16 \<Rightarrow> u16 \<Rightarrow> scroll_metrics option \<Rightarrow> bool" where
  "sel_contains s viewport_row col metrics =
     (if \<not> is_visible s then False
      else let row = absolute_row_for_viewport_row viewport_row metrics
      in case sel_ordered s of ((sr, sc), (er, ec)) \<Rightarrow>
           if row < sr \<or> er < row then False
           else if sr = er then sc \<le> col \<and> col \<le> ec
           else if row = sr then sc \<le> col
           else if row = er then col \<le> ec
           else True)"

section \<open>The clipboard\<close>

text \<open>\<open>encode\<close> is the standard base64 engine of the \<open>base64\<close> crate.\<close>

definition osc52_sequence :: "(string \<Rightarrow> string) \<Rightarrow> string \<Rightarrow> string" where
  "osc52_sequence encode bytes = [CHR 0x1B] @ '']52;c;'' @ encode bytes @ [CHR 0x07]"

definition contains_str :: "string \<Rightarrow> string \<Rightarrow> bool" where
  "contains_str s p = list_ex (\<lambda>i. starts_with (drop i s) p) [0..<length s + 1]"

definition contains_wsl_marker :: "string \<Rightarrow> bool" where
  "contains_wsl_marker v =
     (let lower = map ascii_lower v
      in contains_str lower ''microsoft'' \<or> contains_str lower ''wsl2'' \<or> contains_str lower ''-wsl'')"

definition is_wsl_for_env ::
  "string option \<Rightarrow> string option \<Rightarrow> string option \<Rightarrow> string option \<Rightarrow> bool \<Rightarrow> bool" where
  "is_wsl_for_env os_release proc_version wsl_distro_name wsl_interop runtime_marker_exists =
     (wsl_distro_name \<noteq> None \<or> wsl_interop \<noteq> None \<or> is_some_and os_release contains_wsl_marker \<or>
      is_some_and proc_version contains_wsl_marker \<or> runtime_marker_exists)"

definition should_prefer_osc52_for_env :: "string option \<Rightarrow> string option \<Rightarrow> bool \<Rightarrow> bool" where
  "should_prefer_osc52_for_env ssh_connection ssh_tty wsl =
     (ssh_connection \<noteq> None \<or> ssh_tty \<noteq> None \<or> wsl)"

text \<open>What is written to the standard output: nothing when the native clipboard took the bytes.\<close>

definition write_osc52_bytes ::
  "(string \<Rightarrow> string) \<Rightarrow> (string \<Rightarrow> bool) \<Rightarrow> bool \<Rightarrow> string \<Rightarrow> string" where
  "write_osc52_bytes encode write_clipboard should_prefer_osc52 bytes =
     (if \<not> should_prefer_osc52 \<and> write_clipboard bytes then [] else osc52_sequence encode bytes)"

end
