(* ===== verification/SelectionProps.thy ===== *)
theory SelectionProps
  imports Selection LayoutGeometry
begin

text \<open>
  The properties of text selection (\<open>src/selection.rs\<close>): which cells a selection holds, that a drag
  inside the screen never panics, and the phases of a selection as a state machine.
\<close>

section \<open>Facts the properties share\<close>

lemma sel_ordered_min_max:
  "sel_ordered s = (min (sel_anchor s) (sel_cursor s), max (sel_anchor s) (sel_cursor s))"
proof (cases "sel_anchor s"; cases "sel_cursor s")
  fix ar ac cr cc assume "sel_anchor s = (ar, ac)" "sel_cursor s = (cr, cc)"
  then show ?thesis
    by (auto simp: sel_ordered_def min_def max_def less_eq_prod_def)
qed

lemma lex_between:
  fixes row sr er :: "'a::linorder" and col sc ec :: "'b::linorder"
  assumes "sr < er \<or> sr = er \<and> sc \<le> ec"
  shows "(if row < sr \<or> er < row then False else if sr = er then sc \<le> col \<and> col \<le> ec
     else if row = sr then sc \<le> col else if row = er then col \<le> ec else True) \<longleftrightarrow>
    (sr, sc) \<le> (row, col) \<and> (row, col) \<le> (er, ec)"
  using assms by (cases row sr rule: linorder_cases; cases row er rule: linorder_cases)
    (auto simp: less_eq_prod_def)

lemma sel_contains_between:
  "sel_contains s viewport_row col metrics \<longleftrightarrow> is_visible s \<and>
     fst (sel_ordered s) \<le> (absolute_row_for_viewport_row viewport_row metrics, col) \<and>
     (absolute_row_for_viewport_row viewport_row metrics, col) \<le> snd (sel_ordered s)"
proof -
  obtain sr sc er ec where o: "sel_ordered s = ((sr, sc), (er, ec))" by (metis surj_pair)
  have "fst (sel_ordered s) \<le> snd (sel_ordered s)"
    unfolding sel_ordered_min_max fst_conv snd_conv by (rule order_trans [OF min.cobounded1 max.cobounded1])
  then have "(sr, sc) \<le> (er, ec)" by (simp only: o fst_conv snd_conv)
  then have "sr < er \<or> sr = er \<and> sc \<le> ec" by (auto simp: less_eq_prod_def)
  from lex_between [OF this] show ?thesis
    unfolding sel_contains_def Let_def o by simp
qed

text \<open>Clamping to a pane that lies on the screen: no panic, and the result is inside the pane.\<close>

lemma clamp_extent:
  fixes x start len :: u16
  assumes "unat start + unat len < 2 ^ 16"
  shows "\<exists>y. clamp x start (start + saturating_sub len 1) = Some y \<and> start \<le> y \<and>
    unat (y - start) \<le> unat len - 1 \<and>
    (start \<le> x \<and> unat x < unat start + unat len \<longrightarrow> y = x)"
proof -
  let ?hi = "start + saturating_sub len 1"
  have hi: "unat ?hi = unat start + (unat len - 1)"
    using assms by (simp add: unat_word_ariths unat_saturating_sub)
  have "start \<le> ?hi" by (simp add: word_le_nat_alt hi)
  then obtain y where y: "clamp x start ?hi = Some y"
    by (auto simp: clamp_def not_less)
  have "start \<le> y" "y \<le> ?hi" using clamp_bounds [OF y] by auto
  moreover have "unat (y - start) \<le> unat len - 1"
    using calculation hi by (simp add: unat_sub word_le_nat_alt)
  moreover have "y = x" if "start \<le> x" "unat x < unat start + unat len"
    using y that hi by (auto simp: clamp_def word_less_nat_alt word_le_nat_alt split: if_splits)
  ultimately show ?thesis using y by blast
qed

lemma clamp_to_pane_in_pane:
  assumes "rect_fits p"
  shows "\<exists>r c. clamp_to_pane sc sr p = Some (r, c) \<and>
    unat r \<le> unat (rheight p) - 1 \<and> unat c \<le> unat (rwidth p) - 1 \<and>
    ((unat sc, unat sr) \<in> cells p \<longrightarrow> ry p + r = sr \<and> rx p + c = sc)"
proof -
  obtain c where c: "clamp sc (rx p) (rx p + saturating_sub (rwidth p) 1) = Some c" "rx p \<le> c"
    "unat (c - rx p) \<le> unat (rwidth p) - 1"
    "rx p \<le> sc \<and> unat sc < unat (rx p) + unat (rwidth p) \<longrightarrow> c = sc"
    using clamp_extent [of "rx p" "rwidth p" sc] assms by (auto simp: rect_fits_def)
  obtain r where r: "clamp sr (ry p) (ry p + saturating_sub (rheight p) 1) = Some r" "ry p \<le> r"
    "unat (r - ry p) \<le> unat (rheight p) - 1"
    "ry p \<le> sr \<and> unat sr < unat (ry p) + unat (rheight p) \<longrightarrow> r = sr"
    using clamp_extent [of "ry p" "rheight p" sr] assms by (auto simp: rect_fits_def)
  show ?thesis
    by (rule exI [of _ "r - ry p"], rule exI [of _ "c - rx p"])
       (use c r in \<open>auto simp: clamp_to_pane_def cells_def word_le_nat_alt\<close>)
qed

lemma viewport_row_round_trip:
  assumes "unat (viewport_top_row m) + unat v < 2 ^ 32"
  shows "viewport_row_for_absolute_row (absolute_row_for_viewport_row v m) m = v"
proof -
  let ?top = "viewport_top_row m" and ?a = "absolute_row_for_viewport_row v m"
  have v: "unat (ucast v :: u32) = unat v"
    using unsigned_less [of v, where ?'a = nat] by (simp add: unsigned_ucast_eq take_bit_nat_eq_self)
  have "unat ?a = unat ?top + unat v"
    using assms by (simp add: absolute_row_for_viewport_row_def unat_word_ariths v)
  then have "unat (saturating_sub ?a ?top) = unat v" by (simp add: unat_saturating_sub)
  then have d: "saturating_sub ?a ?top = ucast v" by (simp add: word_unat_eq_iff v)
  have "unat v < 65536" using unsigned_less [of v, where ?'a = nat] by simp
  then have "(ucast v :: u32) < 0x10000" by (simp add: word_less_nat_alt v)
  moreover have "ucast (ucast v :: u32) = v"
    using unsigned_less [of v, where ?'a = nat]
    by (simp add: word_unat_eq_iff unsigned_ucast_eq take_bit_nat_eq_self take_bit_word_eq_self)
  ultimately show ?thesis by (simp add: viewport_row_for_absolute_row_def d)
qed

section \<open>The phases of a selection\<close>

inductive sel_reach :: "selection \<Rightarrow> bool" where
  pressed: "sel_reach (sel_start p v c m)"
| ranged: "sel_reach (sel_range p v c c' m)"
| lines: "sel_reach (sel_line_range p r r' c)"
| dragged: "sel_reach s \<Longrightarrow> sel_drag s sc sr rect m = Some s' \<Longrightarrow> sel_reach s'"
| forced: "sel_reach s \<Longrightarrow> sel_reach (force_dragging s)"
| released: "sel_reach s \<Longrightarrow> sel_reach (fst (sel_finish s))"

lemma sel_reach_click: "sel_reach s \<Longrightarrow> sel_phase s = Anchored \<Longrightarrow> sel_cursor s = sel_anchor s"
proof (induction rule: sel_reach.induct)
  case (dragged s sc sr rect m s')
  then show ?case by (auto simp: sel_drag_def Let_def split: option.splits prod.splits if_splits)
qed (auto simp: sel_start_def sel_range_def sel_line_range_def force_dragging_def sel_finish_def Let_def
    split: if_splits)

section \<open>Properties\<close>

text \<open>C38: a visible selection holds exactly the cells between its two ends in reading order (row first,
  then column), in whichever direction it was dragged and however the pane is scrolled.\<close>
theorem selection_interval:
  "sel_contains s viewport_row col metrics \<longleftrightarrow> is_visible s \<and>
     (let cell = (absolute_row_for_viewport_row viewport_row metrics, col)
      in min (sel_anchor s) (sel_cursor s) \<le> cell \<and> cell \<le> max (sel_anchor s) (sel_cursor s))"
  by (simp add: sel_contains_between sel_ordered_min_max Let_def)

text \<open>a drag never panics when the pane lies on the screen; the cursor of the selection is then a cell
  of the pane, the very cell under the pointer if that is inside the pane, and a click that has not
  left its cell stays a click.\<close>
theorem drag_in_pane:
  assumes "rect_fits p"
  shows "\<exists>s' r c. sel_drag s sc sr p m = Some s' \<and>
    sel_cursor s' = (absolute_row_for_viewport_row r m, c) \<and>
    unat r \<le> unat (rheight p) - 1 \<and> unat c \<le> unat (rwidth p) - 1 \<and>
    ((unat sc, unat sr) \<in> cells p \<longrightarrow> ry p + r = sr \<and> rx p + c = sc) \<and>
    (is_dragging s' \<longleftrightarrow> is_dragging s \<or> sel_cursor s' \<noteq> sel_anchor s') \<and> sel_anchor s' = sel_anchor s"
proof -
  obtain r c where rc: "clamp_to_pane sc sr p = Some (r, c)"
    "unat r \<le> unat (rheight p) - 1" "unat c \<le> unat (rwidth p) - 1"
    "(unat sc, unat sr) \<in> cells p \<longrightarrow> ry p + r = sr \<and> rx p + c = sc"
    using clamp_to_pane_in_pane [OF assms] by blast
  define u where "u = s\<lparr>sel_cursor := (absolute_row_for_viewport_row r m, c)\<rparr>"
  define s' where "s' = (if sel_cursor u \<noteq> sel_anchor s then u\<lparr>sel_phase := Dragging\<rparr> else u)"
  have "sel_drag s sc sr p m = Some s'"
    by (simp add: sel_drag_def Let_def rc(1) s'_def u_def)
  moreover have "sel_cursor s' = (absolute_row_for_viewport_row r m, c)" "sel_anchor s' = sel_anchor s"
    "is_dragging s' \<longleftrightarrow> is_dragging s \<or> sel_cursor s' \<noteq> sel_anchor s'"
    by (simp_all add: s'_def u_def is_dragging_def)
  ultimately show ?thesis using rc(2-4) by blast
qed

theorem drag_in_pane_witness:
  "\<exists>s' r c. sel_drag (sel_start 1 0 0 None) 200 3 \<lparr>rx = 10, ry = 2, rwidth = 80, rheight = 24\<rparr> None = Some s' \<and>
    sel_cursor s' = (absolute_row_for_viewport_row r None, c) \<and> unat c \<le> 79"
  using drag_in_pane [of "\<lparr>rx = 10, ry = 2, rwidth = 80, rheight = 24\<rparr>" "sel_start 1 0 0 None" 200 3 None]
  by (auto simp: rect_fits_def)

text \<open>the anchor of a selection that was started on a cell of a pane is shown on that cell of the
  screen, at any scroll position at which it started.\<close>
theorem anchor_shown_in_place:
  assumes "rect_fits p" and "unat v < unat (rheight p)" and "unat c < unat (rwidth p)"
    and "unat (viewport_top_row m) + unat v < 2 ^ 32"
  shows "anchor_screen_pos (sel_start pane v c m) p m = Some (ry p + v, rx p + c)"
proof -
  have fits: "unat (rx p) + unat (rwidth p) < 2 ^ 16" "unat (ry p) + unat (rheight p) < 2 ^ 16"
    using assms(1) by (auto simp: rect_fits_def)
  have small: "unat (ry p) + unat v < 2 ^ 16" "unat (rx p) + unat c < 2 ^ 16"
    using fits assms(2,3) by linarith+
  have add: "unat (ry p + v) = unat (ry p) + unat v" "unat (rx p + c) = unat (rx p) + unat c"
    using small by (simp_all add: unat_word_ariths)
  have sat: "saturating_add v (ry p) = ry p + v" "saturating_add c (rx p) = rx p + c"
    using small add.commute [of "unat v" "unat (ry p)"] add.commute [of "unat c" "unat (rx p)"]
    by (simp_all add: saturating_add_def add.commute [of v "ry p"] add.commute [of c "rx p"])
  have "clamp (ry p + v) (ry p) (ry p + saturating_sub (rheight p) 1) = Some (ry p + v)"
    using clamp_extent [OF fits(2), of "ry p + v"] add assms(2) by (auto simp: word_le_nat_alt)
  moreover have "clamp (rx p + c) (rx p) (rx p + saturating_sub (rwidth p) 1) = Some (rx p + c)"
    using clamp_extent [OF fits(1), of "rx p + c"] add assms(3) by (auto simp: word_le_nat_alt)
  ultimately show ?thesis
    by (simp add: anchor_screen_pos_def sel_start_def Let_def viewport_row_round_trip [OF assms(4)] sat)
qed

theorem anchor_shown_in_place_witness:
  "anchor_screen_pos (sel_start 1 5 7 None) \<lparr>rx = 10, ry = 2, rwidth = 80, rheight = 24\<rparr> None = Some (7, 17)"
  using anchor_shown_in_place [of "\<lparr>rx = 10, ry = 2, rwidth = 80, rheight = 24\<rparr>" 5 7 None 1]
  by (simp add: rect_fits_def viewport_top_row_def)

text \<open>a reachable selection that was released without a drag is a click on one cell: its ends
  coincide, nothing is highlighted, and its release reports no selection.\<close>
theorem click_selects_nothing:
  assumes "sel_reach s" and "is_just_click s"
  shows "sel_cursor s = sel_anchor s \<and> \<not> sel_contains s v c m \<and> sel_finish s = (s, False)"
  using assms sel_reach_click [OF assms(1)]
  by (simp add: is_just_click_def sel_contains_def is_visible_def sel_finish_def)

theorem click_selects_nothing_witness:
  "sel_finish (sel_start 1 0 0 None) = (sel_start 1 0 0 None, False)"
  using click_selects_nothing [OF sel_reach.pressed [of 1 0 0 None]]
  by (simp add: is_just_click_def sel_start_def Let_def)

end
