(* ===== verification/RustChars.thy ===== *)
theory RustChars
  imports RustText
begin

text \<open>
  Characters and numbers in texts, as \<open>char\<close>, \<open>str\<close> and \<open>str::parse\<close> of the standard library treat them:
  a Unicode scalar value is a \<open>nat\<close>, a text its UTF-8 bytes; decimal printing, and the parser of
  unsigned integers with its optional plus sign.
\<close>

section \<open>Scalar values and UTF-8\<close>

definition scalar_value :: "nat \<Rightarrow> bool" where
  "scalar_value c \<longleftrightarrow> c < 0xD800 \<or> (0xE000 \<le> c \<and> c < 0x110000)"

definition char_from_u32 :: "nat \<Rightarrow> nat option" where
  "char_from_u32 v = then_some (scalar_value v) v"

definition encode_utf8 :: "nat \<Rightarrow> string" where
  "encode_utf8 c =
     (if c < 0x80 then [char_of c]
      else if c < 0x800 then [char_of (0xC0 + c div 64), char_of (0x80 + c mod 64)]
      else if c < 0x10000 then
        [char_of (0xE0 + c div 4096), char_of (0x80 + c div 64 mod 64), char_of (0x80 + c mod 64)]
      else [char_of (0xF0 + c div 262144), char_of (0x80 + c div 4096 mod 64),
            char_of (0x80 + c div 64 mod 64), char_of (0x80 + c mod 64)])"

text \<open>The payload of the first byte, and of the continuation bytes that follow it.\<close>

definition first_payload :: "char \<Rightarrow> nat" where
  "first_payload b =
     (let n = of_char b in if n < 0x80 then n else if n < 0xE0 then n - 0xC0
      else if n < 0xF0 then n - 0xE0 else n - 0xF0)"

definition add_payload :: "char \<Rightarrow> nat \<Rightarrow> nat" where
  "add_payload b v = v * 64 + (of_char b - 0x80)"

definition decode_char :: "string \<Rightarrow> nat" where
  "decode_char s = (case s of [] \<Rightarrow> 0
     | b # cs \<Rightarrow> fold add_payload (take (utf8_len b - 1) cs) (first_payload b))"

function str_chars :: "string \<Rightarrow> nat list" where
  "str_chars [] = []"
| "str_chars (b # cs) = decode_char (b # cs) # str_chars (drop (utf8_len b - 1) cs)"
  by pat_completeness auto
termination by (relation "measure length") auto

lemma of_char_of: "n < (256 :: nat) \<Longrightarrow> (of_char (char_of n :: char) :: nat) = n"
  by simp

lemma length_encode_utf8:
  "length (encode_utf8 c) = (if c < 0x80 then 1 else if c < 0x800 then 2 else if c < 0x10000 then 3 else 4)"
  by (simp add: encode_utf8_def)

lemma utf8_len_char_of:
  "n < (256 :: nat) \<Longrightarrow> utf8_len (char_of n) = (if n < 128 then 1 else if n < 224 then 2 else if n < 240 then 3 else 4)"
  unfolding utf8_len_def by (simp only: of_char_of)

lemma str_chars_encode:
  assumes "scalar_value c"
  shows "str_chars (encode_utf8 c) = [c]"
proof -
  have c: "c < 0x110000" using assms by (auto simp: scalar_value_def)
  have parts: "c div 4096 = c div 262144 * 64 + c div 4096 mod 64"
    "c div 64 = c div 4096 * 64 + c div 64 mod 64" "c = c div 64 * 64 + c mod 64"
    by (simp_all add: div_mult2_eq [of c 4096 64, simplified] div_mult2_eq [of c 64 64, simplified])
  consider "c < 0x80" | "0x80 \<le> c" "c < 0x800" | "0x800 \<le> c" "c < 0x10000" | "0x10000 \<le> c"
    by linarith
  then show ?thesis
  proof cases
    case 1
    then show ?thesis
      by (simp add: encode_utf8_def decode_char_def utf8_len_char_of first_payload_def)
  next
    case 2
    define h l where "h = c div 64" and "l = c mod 64"
    have bounds: "h < 32" "l < 64" using 2 by (simp_all add: h_def l_def div_less_iff_less_mult)
    have "encode_utf8 c = [char_of (0xC0 + h), char_of (0x80 + l)]"
      using 2 by (simp add: encode_utf8_def h_def l_def)
    moreover have "c = h * 64 + l" using parts(3) by (simp add: h_def l_def)
    ultimately show ?thesis using bounds
      by (simp add: decode_char_def utf8_len_char_of first_payload_def add_payload_def of_char_of)
  next
    case 3
    define g h l where "g = c div 4096" and "h = c div 64 mod 64" and "l = c mod 64"
    have bounds: "g < 16" "h < 64" "l < 64"
      using 3 by (simp_all add: g_def h_def l_def div_less_iff_less_mult)
    have "encode_utf8 c = [char_of (0xE0 + g), char_of (0x80 + h), char_of (0x80 + l)]"
      using 3 by (simp add: encode_utf8_def g_def h_def l_def)
    moreover have "c = (g * 64 + h) * 64 + l" using parts(2,3) by (simp add: g_def h_def l_def)
    ultimately show ?thesis using bounds
      by (simp add: decode_char_def utf8_len_char_of first_payload_def add_payload_def of_char_of)
  next
    case 4
    define f g h l where "f = c div 262144" and "g = c div 4096 mod 64" and "h = c div 64 mod 64"
      and "l = c mod 64"
    have bounds: "f < 8" "g < 64" "h < 64" "l < 64"
      using c by (simp_all add: f_def g_def h_def l_def div_less_iff_less_mult)
    have "encode_utf8 c = [char_of (0xF0 + f), char_of (0x80 + g), char_of (0x80 + h), char_of (0x80 + l)]"
      using 4 by (simp add: encode_utf8_def f_def g_def h_def l_def)
    moreover have "c = ((f * 64 + g) * 64 + h) * 64 + l" using parts by (simp add: f_def g_def h_def l_def)
    ultimately show ?thesis using bounds
      by (simp add: decode_char_def utf8_len_char_of first_payload_def add_payload_def of_char_of)
  qed
qed

section \<open>Decimal numbers\<close>

definition digit_char :: "nat \<Rightarrow> char" where
  "digit_char d = char_of (48 + d)"

fun show_nat :: "nat \<Rightarrow> string" where
  "show_nat n = (if n < 10 then [digit_char n] else show_nat (n div 10) @ [digit_char (n mod 10)])"

declare show_nat.simps [simp del]

definition digit_value :: "char \<Rightarrow> nat option" where
  "digit_value c = (let n = of_char c in then_some (48 \<le> n \<and> n \<le> 57) (n - 48))"

fun digits_value :: "nat \<Rightarrow> string \<Rightarrow> nat option" where
  "digits_value acc [] = Some acc"
| "digits_value acc (c # cs) =
     (case digit_value c of None \<Rightarrow> None | Some d \<Rightarrow> digits_value (acc * 10 + d) cs)"

text \<open>\<open>str::parse\<close> of an unsigned type whose largest value is \<open>top\<close>: an optional plus sign, at least one
  digit, and no overflow.\<close>

definition parse_uint :: "nat \<Rightarrow> string \<Rightarrow> nat option" where
  "parse_uint mx s =
     (let ds = (case s of CHR ''+'' # r \<Rightarrow> r | _ \<Rightarrow> s)
      in if ds = [] then None else option_filter (\<lambda>v. v \<le> mx) (digits_value 0 ds))"

definition parse_u8 :: "string \<Rightarrow> u8 option" where
  "parse_u8 s = map_option of_nat (parse_uint 255 s)"

definition parse_u32 :: "string \<Rightarrow> nat option" where
  "parse_u32 s = parse_uint 4294967295 s"

definition USIZE_MAX :: nat where "USIZE_MAX = 2 ^ 64 - 1"

definition parse_usize :: "string \<Rightarrow> nat option" where
  "parse_usize s = parse_uint USIZE_MAX s"

lemma digit_value_digit_char: "d < 10 \<Longrightarrow> digit_value (digit_char d) = Some d"
  by (simp add: digit_value_def digit_char_def)

lemma digits_value_append:
  "digits_value acc (xs @ ys) = Option.bind (digits_value acc xs) (\<lambda>v. digits_value v ys)"
  by (induction xs arbitrary: acc) (auto split: option.splits)

lemma digits_value_show_nat: "digits_value 0 (show_nat n) = Some n"
proof (induction n rule: show_nat.induct)
  case (1 n)
  show ?case
  proof (cases "n < 10")
    case True
    then show ?thesis by (subst show_nat.simps) (simp add: digit_value_digit_char)
  next
    case False
    then show ?thesis
      by (subst show_nat.simps) (simp add: digits_value_append 1 digit_value_digit_char)
  qed
qed

lemma set_show_nat: "c \<in> set (show_nat n) \<Longrightarrow> (48 :: nat) \<le> of_char c \<and> of_char c \<le> (57 :: nat)"
proof (induction n rule: show_nat.induct)
  case (1 n)
  then show ?case
    by (cases "n < 10") (auto simp: show_nat.simps [of n] digit_char_def)
qed

lemma show_nat_nonempty [simp]: "show_nat n \<noteq> []"
  by (subst show_nat.simps) simp

lemma show_nat_no_char: "of_char c < (48 :: nat) \<or> (57 :: nat) < of_char c \<Longrightarrow> c \<notin> set (show_nat n)"
  using set_show_nat by fastforce

lemma parse_uint_show_nat: "n \<le> mx \<Longrightarrow> parse_uint mx (show_nat n) = Some n"
proof -
  assume "n \<le> mx"
  obtain c cs where s: "show_nat n = c # cs" by (cases "show_nat n") auto
  have "CHR ''+'' \<notin> set (show_nat n)" by (rule show_nat_no_char) simp
  then have "c \<noteq> CHR ''+''" using s by auto
  then have "(case show_nat n of CHR ''+'' # r \<Rightarrow> r | _ \<Rightarrow> show_nat n) = show_nat n"
    unfolding s by (auto split: list.splits char.splits bool.splits)
  then show ?thesis
    using \<open>n \<le> mx\<close> by (simp add: parse_uint_def Let_def digits_value_show_nat option_filter_def)
qed

lemma parse_u8_show_nat: "n < 256 \<Longrightarrow> parse_u8 (show_nat n) = Some (of_nat n)"
  by (simp add: parse_u8_def parse_uint_show_nat)

lemma parse_u32_show_nat: "n < 4294967296 \<Longrightarrow> parse_u32 (show_nat n) = Some n"
  by (simp add: parse_u32_def parse_uint_show_nat)

section \<open>Splitting\<close>

definition split_once :: "char \<Rightarrow> string \<Rightarrow> (string \<times> string) option" where
  "split_once c s =
     (case dropWhile (\<lambda>x. x \<noteq> c) s of [] \<Rightarrow> None | _ # r \<Rightarrow> Some (takeWhile (\<lambda>x. x \<noteq> c) s, r))"

text \<open>\<open>str::split\<close>: at least one field, possibly empty.\<close>

fun split_on :: "char \<Rightarrow> string \<Rightarrow> string list" where
  "split_on c [] = [[]]"
| "split_on c (x # xs) =
     (if x = c then [] # split_on c xs
      else case split_on c xs of [] \<Rightarrow> [[x]] | f # fs \<Rightarrow> (x # f) # fs)"

lemma split_on_nonempty [simp]: "split_on c s \<noteq> []"
  by (induction s) (auto split: list.splits)

lemma split_on_field: "c \<notin> set s \<Longrightarrow> split_on c s = [s]"
  by (induction s) auto

lemma split_on_append: "c \<notin> set s \<Longrightarrow> split_on c (s @ c # t) = s # split_on c t"
  by (induction s) auto

lemma drop_take_until:
  "c \<notin> set s \<Longrightarrow> dropWhile (\<lambda>x. x \<noteq> c) (s @ c # t) = c # t \<and> takeWhile (\<lambda>x. x \<noteq> c) (s @ c # t) = s"
  "c \<notin> set s \<Longrightarrow> dropWhile (\<lambda>x. x \<noteq> c) s = []"
  by (induction s) auto

lemma split_once_append: "c \<notin> set s \<Longrightarrow> split_once c (s @ c # t) = Some (s, t)"
  by (simp add: split_once_def drop_take_until)

lemma split_once_None: "c \<notin> set s \<Longrightarrow> split_once c s = None"
proof -
  assume "c \<notin> set s"
  from drop_take_until(2) [OF this] show ?thesis unfolding split_once_def by (simp only: list.case)
qed

text \<open>\<open>rsplit_once\<close> of a character, and of a text.\<close>

definition rsplit_once :: "char \<Rightarrow> string \<Rightarrow> (string \<times> string) option" where
  "rsplit_once c s =
     (case split_once c (rev s) of None \<Rightarrow> None | Some (behind, before) \<Rightarrow> Some (rev before, rev behind))"

fun rsplit_once_str :: "string \<Rightarrow> string \<Rightarrow> (string \<times> string) option" where
  "rsplit_once_str pat [] = (if pat = [] then Some ([], []) else None)"
| "rsplit_once_str pat (c # cs) =
     (case rsplit_once_str pat cs of
        Some (a, b) \<Rightarrow> Some (c # a, b)
      | None \<Rightarrow> map_option (Pair []) (strip_prefix (c # cs) pat))"

end
