(* ===== verification/KeyModel.thy ===== *)
theory KeyModel
  imports RustChars "HOL-Library.Monad_Syntax"
begin

text \<open>
  Keys and protocols of terminal input (\<open>src/input/model.rs\<close>), over the key codes, modifiers and event
  kinds of the \<open>crossterm\<close> crate, whose enumerations are written out as the code names them:
  \<open>KeyModifiers\<close> is a bit set, \<open>KeyCode::Char\<close> holds a scalar value.
\<close>

section \<open>Key codes\<close>

datatype media_key = MediaPlay | MediaPause | MediaPlayPause | MediaReverse | MediaStop
  | MediaFastForward | MediaRewind | MediaTrackNext | MediaTrackPrevious | MediaRecord
  | MediaLowerVolume | MediaRaiseVolume | MediaMuteVolume

datatype modifier_key = LeftShift | LeftControl | LeftAlt | LeftSuper | LeftHyper | LeftMeta
  | RightShift | RightControl | RightAlt | RightSuper | RightHyper | RightMeta
  | IsoLevel3Shift | IsoLevel5Shift

datatype key_code = KBackspace | KEnter | KLeft | KRight | KUp | KDown | KHome | KEnd | KPageUp
  | KPageDown | KTab | KBackTab | KDelete | KInsert | KF nat | KChar nat | KNull | KEsc | KCapsLock
  | KScrollLock | KNumLock | KPrintScreen | KPause | KMenu | KKeypadBegin | KMedia media_key
  | KModifier modifier_key

datatype key_event_kind = KeyPress | KeyRepeat | KeyRelease

type_synonym key_modifiers = u8

definition SHIFT :: key_modifiers where "SHIFT = 1"
definition CONTROL :: key_modifiers where "CONTROL = 2"
definition ALT :: key_modifiers where "ALT = 4"
definition SUPER :: key_modifiers where "SUPER = 8"
definition HYPER :: key_modifiers where "HYPER = 16"
definition META :: key_modifiers where "META = 32"

lemmas modifier_defs = SHIFT_def CONTROL_def ALT_def SUPER_def HYPER_def META_def

text \<open>\<open>contains\<close> and \<open>difference\<close> of \<open>bitflags\<close>.\<close>

definition mods_contain :: "key_modifiers \<Rightarrow> key_modifiers \<Rightarrow> bool" where
  "mods_contain mods m = (mods AND m = m)"

definition mods_difference :: "key_modifiers \<Rightarrow> key_modifiers \<Rightarrow> key_modifiers" where
  "mods_difference mods m = mods AND NOT m"

section \<open>Terminal keys\<close>

record terminal_key =
  tk_code :: key_code
  tk_modifiers :: key_modifiers
  tk_kind :: key_event_kind
  tk_shifted_codepoint :: "nat option"

definition new_key :: "key_code \<Rightarrow> key_modifiers \<Rightarrow> terminal_key" where
  "new_key code mods =
     \<lparr>tk_code = code, tk_modifiers = mods, tk_kind = KeyPress, tk_shifted_codepoint = None\<rparr>"

definition with_kind :: "terminal_key \<Rightarrow> key_event_kind \<Rightarrow> terminal_key" where
  "with_kind k kind = k\<lparr>tk_kind := kind\<rparr>"

definition with_shifted_codepoint :: "terminal_key \<Rightarrow> nat \<Rightarrow> terminal_key" where
  "with_shifted_codepoint k c = k\<lparr>tk_shifted_codepoint := Some c\<rparr>"

record key_event =
  ke_code :: key_code
  ke_modifiers :: key_modifiers
  ke_kind :: key_event_kind

definition as_key_event :: "terminal_key \<Rightarrow> key_event" where
  "as_key_event k = \<lparr>ke_code = tk_code k, ke_modifiers = tk_modifiers k, ke_kind = tk_kind k\<rparr>"

definition key_of_event :: "key_event \<Rightarrow> terminal_key" where
  "key_of_event e = with_kind (new_key (ke_code e) (ke_modifiers e)) (ke_kind e)"

section \<open>Protocols\<close>

datatype modify_other_keys_mode = Mode1 | Mode2

fun set_sequence :: "modify_other_keys_mode \<Rightarrow> string" where
  "set_sequence Mode1 = CHR 0x1B # ''[>4;1m''"
| "set_sequence Mode2 = CHR 0x1B # ''[>4;2m''"

definition host_modify_other_keys_mode_for_env ::
  "bool \<Rightarrow> string option \<Rightarrow> bool \<Rightarrow> bool \<Rightarrow> modify_other_keys_mode option" where
  "host_modify_other_keys_mode_for_env in_tmux term_program wezterm_pane alacritty_window_id =
     (if in_tmux then Some Mode2
      else if wezterm_pane \<or> alacritty_window_id \<or>
              is_some_and term_program (\<lambda>program. map ascii_lower program = ''wezterm'')
      then Some Mode1 else None)"

datatype keyboard_protocol = Legacy | Kitty u16

definition from_kitty_flags :: "u16 \<Rightarrow> keyboard_protocol" where
  "from_kitty_flags flags = (if flags = 0 then Legacy else Kitty flags)"

definition reports_event_types :: "keyboard_protocol \<Rightarrow> bool" where
  "reports_event_types p = (case p of Kitty flags \<Rightarrow> flags AND 2 \<noteq> 0 | Legacy \<Rightarrow> False)"

datatype mouse_protocol_mode = MouseNone | MousePress | MousePressRelease | ButtonMotion | AnyMotion

definition reporting_enabled :: "mouse_protocol_mode \<Rightarrow> bool" where
  "reporting_enabled m = (m \<noteq> MouseNone)"

datatype mouse_protocol_encoding = MouseDefault | MouseUtf8 | MouseSgr

end
