(* ===== verification/KeyParse.thy ===== *)
theory KeyParse
  imports KeyModel
begin

text \<open>
  The parser of key sequences (\<open>src/input/parse.rs\<close>): the Kitty protocol, xterm's modifyOtherKeys, and
  the legacy sequences.  Every \<open>?\<close> of the code is a bind of the option monad.
\<close>

abbreviation esc :: char where "esc \<equiv> CHR 0x1B"

section \<open>Modifiers, event types and code points\<close>

definition split_modifier_and_event :: "string \<Rightarrow> string \<times> string option" where
  "split_modifier_and_event input =
     (case split_once CHR '':'' input of
        Some (modifier, event) \<Rightarrow> if modifier \<noteq> [] then (modifier, Some event) else (input, None)
      | None \<Rightarrow> (input, None))"

definition parse_kitty_event_type :: "string option \<Rightarrow> key_event_kind option" where
  "parse_kitty_event_type v =
     (let s = unwrap_or v ''1''
      in if s = ''1'' then Some KeyPress else if s = ''2'' then Some KeyRepeat
         else if s = ''3'' then Some KeyRelease else None)"

text \<open>The code points with a key of their own; \<open>F13\<close> to \<open>F35\<close> are a range.\<close>

definition kitty_key_table :: "(nat \<times> key_code) list" where
  "kitty_key_table =
     [(8, KBackspace), (127, KBackspace), (9, KTab), (13, KEnter), (57414, KEnter), (27, KEsc),
      (57358, KCapsLock), (57359, KScrollLock), (57360, KNumLock), (57361, KPrintScreen),
      (57362, KPause), (57363, KMenu),
      (57399, KChar 48), (57400, KChar 49), (57401, KChar 50), (57402, KChar 51), (57403, KChar 52),
      (57404, KChar 53), (57405, KChar 54), (57406, KChar 55), (57407, KChar 56), (57408, KChar 57),
      (57409, KChar 46), (57410, KChar 47), (57411, KChar 42), (57412, KChar 45), (57413, KChar 43),
      (57415, KChar 61), (57416, KChar 44),
      (57417, KLeft), (57418, KRight), (57419, KUp), (57420, KDown), (57421, KPageUp),
      (57422, KPageDown), (57423, KHome), (57424, KEnd), (57425, KInsert), (57426, KDelete),
      (57427, KKeypadBegin), (57428, KMedia MediaPlay), (57429, KMedia MediaPause),
      (57430, KMedia MediaPlayPause), (57431, KMedia MediaReverse), (57432, KMedia MediaStop),
      (57433, KMedia MediaFastForward), (57434, KMedia MediaRewind), (57435, KMedia MediaTrackNext),
      (57436, KMedia MediaTrackPrevious), (57437, KMedia MediaRecord), (57438, KMedia MediaLowerVolume),
      (57439, KMedia MediaRaiseVolume), (57440, KMedia MediaMuteVolume),
      (57441, KModifier LeftShift), (57442, KModifier LeftControl), (57443, KModifier LeftAlt),
      (57444, KModifier LeftSuper), (57445, KModifier LeftHyper), (57446, KModifier LeftMeta),
      (57447, KModifier RightShift), (57448, KModifier RightControl), (57449, KModifier RightAlt),
      (57450, KModifier RightSuper), (57451, KModifier RightHyper), (57452, KModifier RightMeta),
      (57453, KModifier IsoLevel3Shift), (57454, KModifier IsoLevel5Shift)]"

definition is_kitty_functional_codepoint :: "nat \<Rightarrow> bool" where
  "is_kitty_functional_codepoint c = (57358 \<le> c \<and> c \<le> 57454)"

definition kitty_codepoint_to_keycode :: "nat \<Rightarrow> key_code option" where
  "kitty_codepoint_to_keycode c =
     (case map_of kitty_key_table c of
        Some code \<Rightarrow> Some code
      | None \<Rightarrow>
          if 57376 \<le> c \<and> c \<le> 57398 then Some (KF (c - 57376 + 13))
          else if is_kitty_functional_codepoint c then None
          else map_option KChar (char_from_u32 c))"

definition key_modifiers_from_u8 :: "u8 \<Rightarrow> key_modifiers" where
  "key_modifiers_from_u8 m =
     (let m0 = 0;
          m1 = (if m AND 1 \<noteq> 0 then m0 OR SHIFT else m0);
          m2 = (if m AND 2 \<noteq> 0 then m1 OR ALT else m1);
          m3 = (if m AND 4 \<noteq> 0 then m2 OR CONTROL else m2);
          m4 = (if m AND 8 \<noteq> 0 then m3 OR SUPER else m3);
          m5 = (if m AND 16 \<noteq> 0 then m4 OR HYPER else m4)
      in if m AND 32 \<noteq> 0 then m5 OR META else m5)"

section \<open>The protocols\<close>

definition parse_modifier :: "string \<Rightarrow> u8 option" where
  "parse_modifier s = do { v \<leftarrow> parse_u8 s; checked_sub v 1 }"

definition parse_kitty_key_sequence :: "string \<Rightarrow> terminal_key option" where
  "parse_kitty_key_sequence data = do {
     rest \<leftarrow> strip_prefix data [esc, CHR ''[''];
     body \<leftarrow> strip_suffix rest ''u'';
     let fields = split_on CHR '';'' body;
     let key_part = hd fields;
     let modifier_part = (if 1 < length fields then fields ! 1 else ''1'');
     let associated_text = (if 2 < length fields then Some (fields ! 2) else None);
     if 3 < length fields then None
     else case split_modifier_and_event modifier_part of (modifier_text, event_type) \<Rightarrow> do {
       modifier \<leftarrow> parse_modifier modifier_text;
       let key_fields = split_on CHR '':'' key_part;
       codepoint \<leftarrow> parse_u32 (hd key_fields);
       let shifted_codepoint =
         (if 1 < length key_fields \<and> key_fields ! 1 \<noteq> [] then parse_u32 (key_fields ! 1) else None);
       if is_some_and associated_text (\<lambda>text. parse_u32 text \<noteq> Some codepoint) then None
       else do {
         code \<leftarrow> kitty_codepoint_to_keycode codepoint;
         kind \<leftarrow> parse_kitty_event_type event_type;
         Some \<lparr>tk_code = code, tk_modifiers = key_modifiers_from_u8 modifier, tk_kind = kind,
               tk_shifted_codepoint = shifted_codepoint\<rparr>
       }
     }
   }"

definition parse_modify_other_keys_sequence :: "string \<Rightarrow> terminal_key option" where
  "parse_modify_other_keys_sequence data = do {
     rest \<leftarrow> strip_prefix data (esc # ''[27;'');
     body \<leftarrow> strip_suffix rest ''~'';
     (modifier_part, codepoint_part) \<leftarrow> split_once CHR '';'' body;
     modifier \<leftarrow> parse_modifier modifier_part;
     codepoint \<leftarrow> parse_u32 codepoint_part;
     code \<leftarrow> kitty_codepoint_to_keycode codepoint;
     Some (new_key code (key_modifiers_from_u8 modifier))
   }"

section \<open>Legacy sequences\<close>

definition legacy_special_table :: "(string \<times> key_code \<times> key_modifiers) list" where
  "legacy_special_table =
     [(esc # esc # ''[A'', KUp, ALT), (esc # esc # ''[B'', KDown, ALT), (esc # esc # ''[C'', KRight, ALT),
      (esc # esc # ''[D'', KLeft, ALT), (esc # ''[A'', KUp, 0), (esc # ''OA'', KUp, 0),
      (esc # ''[B'', KDown, 0), (esc # ''OB'', KDown, 0), (esc # ''[C'', KRight, 0),
      (esc # ''OC'', KRight, 0), (esc # ''[D'', KLeft, 0), (esc # ''OD'', KLeft, 0),
      (esc # ''[H'', KHome, 0), (esc # ''OH'', KHome, 0), (esc # ''[1~'', KHome, 0),
      (esc # ''[7~'', KHome, 0), (esc # ''[F'', KEnd, 0), (esc # ''OF'', KEnd, 0),
      (esc # ''[4~'', KEnd, 0), (esc # ''[8~'', KEnd, 0), (esc # ''[5~'', KPageUp, 0),
      (esc # ''[6~'', KPageDown, 0), (esc # ''[2~'', KInsert, 0), (esc # ''[3~'', KDelete, 0),
      (esc # ''Op'', KChar 48, 0), (esc # ''Oq'', KChar 49, 0), (esc # ''Or'', KChar 50, 0),
      (esc # ''Os'', KChar 51, 0), (esc # ''Ot'', KChar 52, 0), (esc # ''Ou'', KChar 53, 0),
      (esc # ''Ov'', KChar 54, 0), (esc # ''Ow'', KChar 55, 0), (esc # ''Ox'', KChar 56, 0),
      (esc # ''Oy'', KChar 57, 0), (esc # ''On'', KChar 46, 0), (esc # ''Ol'', KChar 44, 0),
      (esc # ''Om'', KChar 45, 0), (esc # ''Ok'', KChar 43, 0), (esc # ''Oj'', KChar 42, 0),
      (esc # ''Oo'', KChar 47, 0), (esc # ''OM'', KEnter, 0), (esc # ''OP'', KF 1, 0),
      (esc # ''[11~'', KF 1, 0), (esc # ''OQ'', KF 2, 0), (esc # ''[12~'', KF 2, 0),
      (esc # ''OR'', KF 3, 0), (esc # ''[13~'', KF 3, 0), (esc # ''OS'', KF 4, 0),
      (esc # ''[14~'', KF 4, 0), (esc # ''[15~'', KF 5, 0), (esc # ''[17~'', KF 6, 0),
      (esc # ''[18~'', KF 7, 0), (esc # ''[19~'', KF 8, 0), (esc # ''[20~'', KF 9, 0),
      (esc # ''[21~'', KF 10, 0), (esc # ''[23~'', KF 11, 0), (esc # ''[24~'', KF 12, 0),
      (esc # ''[Z'', KBackTab, SHIFT)]"

definition is_ascii_alphabetic :: "char \<Rightarrow> bool" where
  "is_ascii_alphabetic c =
     (let b = (of_char c :: nat) in (65 \<le> b \<and> b \<le> 90) \<or> (97 \<le> b \<and> b \<le> 122))"

definition xterm_letter_table :: "(char \<times> key_code) list" where
  "xterm_letter_table =
     [(CHR ''A'', KUp), (CHR ''B'', KDown), (CHR ''C'', KRight), (CHR ''D'', KLeft),
      (CHR ''H'', KHome), (CHR ''F'', KEnd), (CHR ''P'', KF 1), (CHR ''Q'', KF 2),
      (CHR ''R'', KF 3), (CHR ''S'', KF 4)]"

definition xterm_tilde_table :: "(string \<times> key_code) list" where
  "xterm_tilde_table =
     [(''2'', KInsert), (''3'', KDelete), (''5'', KPageUp), (''6'', KPageDown), (''15'', KF 5),
      (''17'', KF 6), (''18'', KF 7), (''19'', KF 8), (''20'', KF 9), (''21'', KF 10), (''23'', KF 11),
      (''24'', KF 12)]"

text \<open>The key of a modified special sequence: its modifiers and event type, in either form.\<close>

definition modified_key :: "key_code \<Rightarrow> string \<Rightarrow> terminal_key option" where
  "modified_key code modifier_part =
     (case split_modifier_and_event modifier_part of (modifier_text, event_type) \<Rightarrow> do {
        mod_value \<leftarrow> parse_modifier modifier_text;
        kind \<leftarrow> parse_kitty_event_type event_type;
        Some (with_kind (new_key code (key_modifiers_from_u8 mod_value)) kind)
      })"

definition parse_xterm_modified_special_sequence :: "string \<Rightarrow> terminal_key option" where
  "parse_xterm_modified_special_sequence data = do {
     body \<leftarrow> strip_prefix data [esc, CHR ''[''];
     let tilde = do {
       tilde_body \<leftarrow> strip_suffix body ''~'';
       (code_part, modifier_part) \<leftarrow> split_once CHR '';'' tilde_body;
       code \<leftarrow> map_of xterm_tilde_table code_part;
       modified_key code modifier_part
     };
     (case strip_prefix body ''1;'' of
        None \<Rightarrow> tilde
      | Some inner \<Rightarrow>
          if inner = [] then None
          else if is_ascii_alphabetic (last inner)
          then do {
            code \<leftarrow> map_of xterm_letter_table (last inner);
            modified_key code (butlast inner)
          }
          else tilde)
   }"

definition parse_legacy_special_sequence :: "string \<Rightarrow> terminal_key option" where
  "parse_legacy_special_sequence data =
     (case map_of legacy_special_table data of
        Some (code, mods) \<Rightarrow> Some (new_key code mods)
      | None \<Rightarrow> parse_xterm_modified_special_sequence data)"

definition parse_legacy_ctrl_char :: "nat \<Rightarrow> terminal_key option" where
  "parse_legacy_ctrl_char ch =
     (if ch = 0 then Some (new_key (KChar 32) CONTROL)
      else if 1 \<le> ch \<and> ch \<le> 26 then map_option (\<lambda>c. new_key (KChar c) CONTROL) (char_from_u32 (ch + 96))
      else if ch = 27 then Some (new_key (KChar 91) CONTROL)
      else if ch = 28 then Some (new_key (KChar 92) CONTROL)
      else if ch = 29 then Some (new_key (KChar 93) CONTROL)
      else if ch = 30 then Some (new_key (KChar 94) CONTROL)
      else if ch = 31 then Some (new_key (KChar 45) CONTROL)
      else None)"

definition is_ascii_uppercase :: "nat \<Rightarrow> bool" where
  "is_ascii_uppercase c = (65 \<le> c \<and> c \<le> 90)"

definition parse_legacy_key_sequence :: "string \<Rightarrow> terminal_key option" where
  "parse_legacy_key_sequence data =
     (case parse_legacy_special_sequence data of
        Some key \<Rightarrow> Some key
      | None \<Rightarrow>
          if data = [CHR 0x0D] then Some (new_key KEnter 0)
          else if data = [CHR 0x09] then Some (new_key KTab 0)
          else if data = [esc] then Some (new_key KEsc 0)
          else if data = [esc, CHR 0x7F] then Some (new_key KBackspace ALT)
          else if data = [CHR 0x7F] then Some (new_key KBackspace 0)
          else if starts_with data [esc]
          then (let cs = str_chars (tl data)
                in if length cs = 1
                   then Some (new_key (KChar (hd cs)) (if is_ascii_uppercase (hd cs) then ALT OR SHIFT else ALT))
                   else None)
          else (let cs = str_chars data
                in if length cs = 1
                   then (case parse_legacy_ctrl_char (hd cs) of
                           Some ctrl_key \<Rightarrow> Some ctrl_key
                         | None \<Rightarrow> Some (new_key (KChar (hd cs))
                                           (if is_ascii_uppercase (hd cs) then SHIFT else 0)))
                   else None))"

definition parse_terminal_key_sequence :: "string \<Rightarrow> terminal_key option" where
  "parse_terminal_key_sequence data =
     or_else (parse_kitty_key_sequence data)
       (or_else (parse_modify_other_keys_sequence data) (parse_legacy_key_sequence data))"

end
