(* ===== verification/KeyEncode.thy ===== *)
theory KeyEncode
  imports KeyParse
begin

text \<open>
  The encoder of keys and mouse events for the program in a pane (\<open>src/input/encode.rs\<close>): text, the
  CSI u form of the Kitty protocol, xterm's modified special keys, and the legacy bytes.
\<close>

section \<open>Modifiers\<close>

definition xterm_modifier :: "key_modifiers \<Rightarrow> nat" where
  "xterm_modifier mods =
     1 + (if mods_contain mods SHIFT then 1 else 0) + (if mods_contain mods ALT then 2 else 0)
       + (if mods_contain mods CONTROL then 4 else 0)"

definition kitty_modifier :: "key_modifiers \<Rightarrow> nat" where
  "kitty_modifier mods =
     xterm_modifier mods + (if mods_contain mods SUPER then 8 else 0)
       + (if mods_contain mods HYPER then 16 else 0) + (if mods_contain mods META then 32 else 0)"

section \<open>Text\<close>

definition is_ascii_lowercase :: "nat \<Rightarrow> bool" where
  "is_ascii_lowercase c = (97 \<le> c \<and> c \<le> 122)"

definition to_ascii_uppercase :: "nat \<Rightarrow> nat" where
  "to_ascii_uppercase c = (if is_ascii_lowercase c then c - 32 else c)"

definition to_ascii_lowercase :: "nat \<Rightarrow> nat" where
  "to_ascii_lowercase c = (if is_ascii_uppercase c then c + 32 else c)"

definition is_shifted_ascii_punctuation :: "nat \<Rightarrow> bool" where
  "is_shifted_ascii_punctuation c =
     (c \<in> set (map of_char ''!@#$%^&*()_+{}|:\"<>?~''))"

definition shifted_text_char :: "terminal_key \<Rightarrow> nat \<Rightarrow> nat option" where
  "shifted_text_char key ch =
     (case Option.bind (tk_shifted_codepoint key) char_from_u32 of
        Some shifted \<Rightarrow> Some shifted
      | None \<Rightarrow>
          if is_ascii_uppercase ch then Some ch
          else if is_ascii_lowercase ch then Some (to_ascii_uppercase ch)
          else if is_shifted_ascii_punctuation ch then Some ch
          else None)"

definition encode_text_input :: "terminal_key \<Rightarrow> string option" where
  "encode_text_input key =
     (case tk_code key of
        KChar ch \<Rightarrow>
          if tk_modifiers key = 0
          then Some (if tk_kind key = KeyRelease then [] else encode_utf8 ch)
          else if tk_modifiers key \<noteq> SHIFT then None
          else map_option (\<lambda>shifted_ch. if tk_kind key = KeyRelease then [] else encode_utf8 shifted_ch)
                 (shifted_text_char key ch)
      | _ \<Rightarrow> None)"

section \<open>CSI u\<close>

definition KITTY_FLAG_REPORT_EVENT_TYPES :: u16 where "KITTY_FLAG_REPORT_EVENT_TYPES = 2"
definition KITTY_FLAG_REPORT_ALTERNATE_KEYS :: u16 where "KITTY_FLAG_REPORT_ALTERNATE_KEYS = 4"
definition KITTY_FLAG_REPORT_ALL_KEYS :: u16 where "KITTY_FLAG_REPORT_ALL_KEYS = 8"

definition canonical_kitty_char :: "nat \<Rightarrow> key_modifiers \<Rightarrow> nat" where
  "canonical_kitty_char ch mods =
     (if mods_contain mods SHIFT \<and> is_ascii_uppercase ch then to_ascii_lowercase ch else ch)"

definition alternate_shifted_codepoint :: "terminal_key \<Rightarrow> u16 \<Rightarrow> nat option" where
  "alternate_shifted_codepoint key flags =
     (if flags AND KITTY_FLAG_REPORT_ALTERNATE_KEYS = 0 then None
      else case tk_shifted_codepoint key of
             Some shifted \<Rightarrow> Some shifted
           | None \<Rightarrow>
               (case tk_code key of
                  KChar ch \<Rightarrow> then_some (mods_contain (tk_modifiers key) SHIFT \<and> is_ascii_uppercase ch) ch
                | _ \<Rightarrow> None))"

definition kitty_event_suffix :: "terminal_key \<Rightarrow> u16 \<Rightarrow> nat option" where
  "kitty_event_suffix key flags =
     (if flags AND KITTY_FLAG_REPORT_EVENT_TYPES = 0 then None
      else Some (case tk_kind key of KeyPress \<Rightarrow> 1 | KeyRepeat \<Rightarrow> 2 | KeyRelease \<Rightarrow> 3))"

definition legacy_csi_key :: "key_code \<Rightarrow> bool" where
  "legacy_csi_key code =
     (case code of KUp \<Rightarrow> True | KDown \<Rightarrow> True | KLeft \<Rightarrow> True | KRight \<Rightarrow> True | KHome \<Rightarrow> True | KEnd \<Rightarrow> True
      | KPageUp \<Rightarrow> True | KPageDown \<Rightarrow> True | KInsert \<Rightarrow> True | KDelete \<Rightarrow> True | KF _ \<Rightarrow> True | _ \<Rightarrow> False)"

definition csi_u_codepoint :: "terminal_key \<Rightarrow> u16 \<Rightarrow> (nat \<times> nat option) option" where
  "csi_u_codepoint key flags =
     (case tk_code key of
        KChar c \<Rightarrow> Some (canonical_kitty_char c (tk_modifiers key), alternate_shifted_codepoint key flags)
      | KEnter \<Rightarrow> Some (13, None) | KTab \<Rightarrow> Some (9, None) | KBackspace \<Rightarrow> Some (127, None)
      | KEsc \<Rightarrow> Some (27, None) | KLeft \<Rightarrow> Some (57417, None) | KRight \<Rightarrow> Some (57418, None)
      | KUp \<Rightarrow> Some (57419, None) | KDown \<Rightarrow> Some (57420, None) | KPageUp \<Rightarrow> Some (57421, None)
      | KPageDown \<Rightarrow> Some (57422, None) | KHome \<Rightarrow> Some (57423, None) | KEnd \<Rightarrow> Some (57424, None)
      | KInsert \<Rightarrow> Some (57425, None) | KDelete \<Rightarrow> Some (57426, None)
      | _ \<Rightarrow> None)"

text \<open>The \<open>format!\<close> of the sequence: the alternate code point and the event type are optional.\<close>

definition csi_u_sequence :: "nat \<Rightarrow> nat option \<Rightarrow> nat \<Rightarrow> nat option \<Rightarrow> string" where
  "csi_u_sequence codepoint alternate modifier event =
     [esc, CHR ''['']
     @ show_nat codepoint @ (case alternate of Some s \<Rightarrow> CHR '':'' # show_nat s | None \<Rightarrow> [])
     @ CHR '';'' # show_nat modifier @ (case event of Some e \<Rightarrow> CHR '':'' # show_nat e | None \<Rightarrow> [])
     @ ''u''"

definition try_encode_csi_u :: "terminal_key \<Rightarrow> u16 \<Rightarrow> string option" where
  "try_encode_csi_u key flags =
     (let mods = tk_modifiers key;
          event_suffix = kitty_event_suffix key flags;
          report_all_keys = (flags AND KITTY_FLAG_REPORT_ALL_KEYS \<noteq> 0)
      in if \<not> report_all_keys \<and> mods = 0 \<and>
            (tk_code key = KEnter \<or> tk_code key = KTab \<or> tk_code key = KBackspace)
         then None
         else if mods = 0 \<and> event_suffix = None \<and> \<not> report_all_keys then None
         else if legacy_csi_key (tk_code key) \<and> event_suffix = None \<and> \<not> report_all_keys then None
         else map_option (\<lambda>(codepoint, alternate_shifted).
                csi_u_sequence codepoint alternate_shifted (kitty_modifier mods) event_suffix)
                (csi_u_codepoint key flags))"

section \<open>Legacy encoding\<close>

definition encode_modified_special :: "key_code \<Rightarrow> key_modifiers \<Rightarrow> string option" where
  "encode_modified_special code mods =
     (let modifier = xterm_modifier mods;
          letter = (\<lambda>c. Some ([esc] @ ''[1;'' @ show_nat modifier @ [c]));
          tilde = (\<lambda>n. Some ([esc, CHR ''[''] @ show_nat n @ '';'' @ show_nat modifier @ ''~''))
      in if modifier \<le> 1 then None
         else case code of
                KUp \<Rightarrow> letter CHR ''A'' | KDown \<Rightarrow> letter CHR ''B'' | KRight \<Rightarrow> letter CHR ''C''
              | KLeft \<Rightarrow> letter CHR ''D'' | KHome \<Rightarrow> letter CHR ''H'' | KEnd \<Rightarrow> letter CHR ''F''
              | KInsert \<Rightarrow> tilde 2 | KDelete \<Rightarrow> tilde 3 | KPageUp \<Rightarrow> tilde 5 | KPageDown \<Rightarrow> tilde 6
              | KF n \<Rightarrow>
                  if n = 1 then letter CHR ''P'' else if n = 2 then letter CHR ''Q''
                  else if n = 3 then letter CHR ''R'' else if n = 4 then letter CHR ''S''
                  else Option.bind (map_of [(5, 15), (6, 17), (7, 18), (8, 19), (9, 20), (10, 21),
                                            (11, 23), (12, 24)] n) tilde
              | _ \<Rightarrow> None)"

definition encode_f_key :: "nat \<Rightarrow> string" where
  "encode_f_key n =
     unwrap_or (map_of [(1, esc # ''OP''), (2, esc # ''OQ''), (3, esc # ''OR''), (4, esc # ''OS''),
       (5, esc # ''[15~''), (6, esc # ''[17~''), (7, esc # ''[18~''), (8, esc # ''[19~''),
       (9, esc # ''[20~''), (10, esc # ''[21~''), (11, esc # ''[23~''), (12, esc # ''[24~'')] n) []"

text \<open>The byte of a control key; \<open>ch as u8\<close> keeps the low byte.\<close>

definition ctrl_byte :: "nat \<Rightarrow> char" where
  "ctrl_byte ch =
     (let upper = to_ascii_uppercase ch
      in if 65 \<le> upper \<and> upper \<le> 90 then char_of (upper - 64)
         else if upper \<in> {32, 64, 50} then CHR 0x00
         else if upper \<in> {91, 51} then CHR 0x1B
         else if upper \<in> {92, 52} then CHR 0x1C
         else if upper \<in> {93, 53} then CHR 0x1D
         else if upper \<in> {94, 54} then CHR 0x1E
         else if upper \<in> {95, 47, 55, 45} then CHR 0x1F
         else char_of (ch mod 256))"

definition encode_legacy_inner :: "terminal_key \<Rightarrow> string" where
  "encode_legacy_inner key =
     (case tk_code key of
        KChar ch \<Rightarrow>
          if mods_contain (tk_modifiers key) CONTROL then [ctrl_byte ch]
          else encode_utf8 (if tk_modifiers key = SHIFT then unwrap_or (shifted_text_char key ch) ch else ch)
      | KEnter \<Rightarrow> [CHR 0x0D] | KBackspace \<Rightarrow> [CHR 0x7F] | KTab \<Rightarrow> [CHR 0x09]
      | KBackTab \<Rightarrow> esc # ''[Z'' | KEsc \<Rightarrow> [esc] | KLeft \<Rightarrow> esc # ''[D'' | KRight \<Rightarrow> esc # ''[C''
      | KUp \<Rightarrow> esc # ''[A'' | KDown \<Rightarrow> esc # ''[B'' | KHome \<Rightarrow> esc # ''[H'' | KEnd \<Rightarrow> esc # ''[F''
      | KPageUp \<Rightarrow> esc # ''[5~'' | KPageDown \<Rightarrow> esc # ''[6~'' | KDelete \<Rightarrow> esc # ''[3~''
      | KInsert \<Rightarrow> esc # ''[2~'' | KF n \<Rightarrow> encode_f_key n
      | _ \<Rightarrow> [])"

definition encode_legacy :: "terminal_key \<Rightarrow> string" where
  "encode_legacy key =
     (let mods = tk_modifiers key
      in case (if mods \<noteq> 0 then encode_modified_special (tk_code key) mods else None) of
           Some bytes \<Rightarrow> bytes
         | None \<Rightarrow>
             if mods_contain mods ALT
             then esc # encode_legacy_inner (key\<lparr>tk_modifiers := mods_difference mods ALT\<rparr>)
             else encode_legacy_inner key)"

definition encode_terminal_key :: "terminal_key \<Rightarrow> keyboard_protocol \<Rightarrow> string" where
  "encode_terminal_key key protocol =
     (if tk_kind key = KeyRelease \<and> \<not> reports_event_types protocol then []
      else case encode_text_input key of
             Some bytes \<Rightarrow> bytes
           | None \<Rightarrow>
              (case (case protocol of Kitty flags \<Rightarrow> try_encode_csi_u key flags | Legacy \<Rightarrow> None) of
                 Some bytes \<Rightarrow> bytes
               | None \<Rightarrow> if tk_kind key = KeyRelease \<and> reports_event_types protocol then []
                         else encode_legacy key))"

definition encode_key :: "key_event \<Rightarrow> keyboard_protocol \<Rightarrow> string" where
  "encode_key key protocol = encode_terminal_key (key_of_event key) protocol"

definition encode_cursor_key :: "key_code \<Rightarrow> bool \<Rightarrow> string" where
  "encode_cursor_key code application_cursor =
     (case (code, application_cursor) of
        (KUp, True) \<Rightarrow> esc # ''OA'' | (KDown, True) \<Rightarrow> esc # ''OB''
      | (KRight, True) \<Rightarrow> esc # ''OC'' | (KLeft, True) \<Rightarrow> esc # ''OD''
      | (KUp, False) \<Rightarrow> esc # ''[A'' | (KDown, False) \<Rightarrow> esc # ''[B''
      | (KRight, False) \<Rightarrow> esc # ''[C'' | (KLeft, False) \<Rightarrow> esc # ''[D''
      | _ \<Rightarrow> encode_legacy (new_key code 0))"

section \<open>The mouse\<close>

datatype mouse_button = ButtonLeft | ButtonMiddle | ButtonRight

datatype mouse_event_kind = MouseDown mouse_button | MouseUp mouse_button | MouseDrag mouse_button
  | MouseMoved | ScrollUp | ScrollDown | ScrollLeft | ScrollRight

text \<open>\<open>push_mouse_codepoint\<close>: the bytes it appends, or \<open>None\<close>.\<close>

definition push_mouse_codepoint :: "nat \<Rightarrow> string option" where
  "push_mouse_codepoint v = map_option encode_utf8 (char_from_u32 v)"

definition u8_try_from :: "nat \<Rightarrow> char option" where
  "u8_try_from v = then_some (v < 256) (char_of v)"

text \<open>The button code with the modifiers; only the SGR encoding names the released button.\<close>

definition mouse_cb :: "u16 \<Rightarrow> bool \<Rightarrow> key_modifiers \<Rightarrow> mouse_protocol_encoding \<Rightarrow> u16" where
  "mouse_cb base_button release mods encoding =
     (let cb0 = (if release \<and> encoding \<noteq> MouseSgr then 3 else base_button);
          cb1 = (if mods_contain mods SHIFT then cb0 + 4 else cb0);
          cb2 = (if mods_contain mods ALT then cb1 + 8 else cb1)
      in if mods_contain mods CONTROL then cb2 + 16 else cb2)"

definition encode_mouse_cb ::
  "u16 \<Rightarrow> bool \<Rightarrow> u16 \<Rightarrow> u16 \<Rightarrow> key_modifiers \<Rightarrow> mouse_protocol_encoding \<Rightarrow> string option" where
  "encode_mouse_cb base_button release column0 row0 mods encoding =
     (let cb = mouse_cb base_button release mods encoding;
          column = unat column0 + 1;
          row = unat row0 + 1
      in case encoding of
           MouseSgr \<Rightarrow>
             Some ([esc] @ ''[<'' @ show_nat (unat cb) @ '';'' @ show_nat column @ '';'' @ show_nat row
                   @ (if release then ''m'' else ''M''))
         | MouseDefault \<Rightarrow> do {
             c1 \<leftarrow> u8_try_from (unat (cb + 32));
             c2 \<leftarrow> u8_try_from (column + 32);
             c3 \<leftarrow> u8_try_from (row + 32);
             Some [esc, CHR ''['', CHR ''M'', c1, c2, c3]
           }
         | MouseUtf8 \<Rightarrow> do {
             c1 \<leftarrow> push_mouse_codepoint (unat cb + 32);
             c2 \<leftarrow> push_mouse_codepoint (column + 32);
             c3 \<leftarrow> push_mouse_codepoint (row + 32);
             Some ([esc] @ ''[M'' @ c1 @ c2 @ c3)
           })"

definition encode_mouse_scroll ::
  "mouse_event_kind \<Rightarrow> u16 \<Rightarrow> u16 \<Rightarrow> key_modifiers \<Rightarrow> mouse_protocol_encoding \<Rightarrow> string option" where
  "encode_mouse_scroll kind column row mods encoding = do {
     button \<leftarrow> (case kind of ScrollUp \<Rightarrow> Some 64 | ScrollDown \<Rightarrow> Some 65 | ScrollLeft \<Rightarrow> Some 66
                 | ScrollRight \<Rightarrow> Some 67 | _ \<Rightarrow> None);
     encode_mouse_cb button False column row mods encoding
   }"

definition encode_mouse_button ::
  "mouse_event_kind \<Rightarrow> u16 \<Rightarrow> u16 \<Rightarrow> key_modifiers \<Rightarrow> mouse_protocol_encoding \<Rightarrow> string option" where
  "encode_mouse_button kind column row mods encoding = do {
     (button, release) \<leftarrow> (case kind of
        MouseDown ButtonLeft \<Rightarrow> Some (0, False) | MouseDown ButtonMiddle \<Rightarrow> Some (1, False)
      | MouseDown ButtonRight \<Rightarrow> Some (2, False) | MouseUp ButtonLeft \<Rightarrow> Some (0, True)
      | MouseUp ButtonMiddle \<Rightarrow> Some (1, True) | MouseUp ButtonRight \<Rightarrow> Some (2, True)
      | MouseDrag ButtonLeft \<Rightarrow> Some (32, False) | MouseDrag ButtonMiddle \<Rightarrow> Some (33, False)
      | MouseDrag ButtonRight \<Rightarrow> Some (34, False) | _ \<Rightarrow> None);
     encode_mouse_cb button release column row mods encoding
   }"

end
