(* ===== verification/Results.thy ===== *)
theory Results
  imports Prelude
begin

text \<open>
  \<open>Result<T, E>\<close> of the standard library as the sum \<open>'e + 'a\<close>: the \<open>?\<close> operator, \<open>map_err\<close>, \<open>ok()\<close>, the
  loops that stop at the first error, with and without a state they thread, and the collection of a list of
  results.  The congruence rules let recursive functions call themselves inside the loops.
\<close>

definition result_bind :: "'e + 'a \<Rightarrow> ('a \<Rightarrow> 'e + 'b) \<Rightarrow> 'e + 'b" where
  "result_bind m f = (case m of Inl e \<Rightarrow> Inl e | Inr a \<Rightarrow> f a)"

definition map_err :: "('e \<Rightarrow> 'f) \<Rightarrow> 'e + 'a \<Rightarrow> 'f + 'a" where
  "map_err f m = (case m of Inl e \<Rightarrow> Inl (f e) | Inr a \<Rightarrow> Inr a)"

definition result_map :: "('a \<Rightarrow> 'b) \<Rightarrow> 'e + 'a \<Rightarrow> 'e + 'b" where
  "result_map f m = (case m of Inl e \<Rightarrow> Inl e | Inr a \<Rightarrow> Inr (f a))"

definition ok :: "'e + 'a \<Rightarrow> 'a option" where
  "ok m = (case m of Inl _ \<Rightarrow> None | Inr a \<Rightarrow> Some a)"

definition ok_or :: "'a option \<Rightarrow> 'e \<Rightarrow> 'e + 'a" where
  "ok_or m e = (case m of None \<Rightarrow> Inl e | Some a \<Rightarrow> Inr a)"

lemma result_simps [simp]:
  "result_bind (Inl e) f = Inl e" "result_bind (Inr a) f = f a"
  "map_err g (Inl e) = Inl (g e)" "map_err g (Inr a) = Inr a"
  "result_map h (Inl e) = Inl e" "result_map h (Inr a) = Inr (h a)"
  "ok (Inl e) = None" "ok (Inr a) = Some a" "ok_or None e = Inl e" "ok_or (Some a) e = Inr a"
  by (simp_all add: result_bind_def map_err_def result_map_def ok_def ok_or_def)

lemma result_bind_Inr [simp]: "result_bind m f = Inr b \<longleftrightarrow> (\<exists>a. m = Inr a \<and> f a = Inr b)"
  by (cases m) auto

lemma map_err_Inr [simp]: "map_err f m = Inr a \<longleftrightarrow> m = Inr a"
  by (cases m) auto

lemma result_map_Inr [simp]: "result_map f m = Inr b \<longleftrightarrow> (\<exists>a. m = Inr a \<and> b = f a)"
  by (cases m) auto

lemma ok_Some [simp]: "ok m = Some a \<longleftrightarrow> m = Inr a"
  by (cases m) auto

lemma ok_or_Inr [simp]: "ok_or m e = Inr a \<longleftrightarrow> m = Some a"
  by (cases m) auto

lemma result_bind_assoc: "result_bind (result_bind m f) g = result_bind m (\<lambda>a. result_bind (f a) g)"
  by (cases m) auto

lemma result_bind_cong [fundef_cong]:
  "m = m' \<Longrightarrow> (\<And>a. m' = Inr a \<Longrightarrow> f a = g a) \<Longrightarrow> result_bind m f = result_bind m' g"
  by (cases m') auto

text \<open>\<open>for x in xs { f(x, &mut s)?; }\<close>\<close>

fun try_all :: "('a \<Rightarrow> 's \<Rightarrow> 'e + 's) \<Rightarrow> 'a list \<Rightarrow> 's \<Rightarrow> 'e + 's" where
  "try_all f [] s = Inr s"
| "try_all f (x # xs) s = result_bind (f x s) (try_all f xs)"

lemma try_all_cong [fundef_cong]:
  "xs = ys \<Longrightarrow> s = t \<Longrightarrow> (\<And>x s. x \<in> set ys \<Longrightarrow> f x s = g x s) \<Longrightarrow> try_all f xs s = try_all g ys t"
  by (induction ys arbitrary: xs s t) (auto simp: result_bind_def split: sum.splits)

text \<open>\<open>xs.iter().map(f).collect::<Result<Vec<_>, _>>()\<close>\<close>

fun collect_results :: "('a \<Rightarrow> 'e + 'b) \<Rightarrow> 'a list \<Rightarrow> 'e + 'b list" where
  "collect_results f [] = Inr []"
| "collect_results f (x # xs) =
     result_bind (f x) (\<lambda>y. result_bind (collect_results f xs) (\<lambda>ys. Inr (y # ys)))"

lemma collect_results_cong [fundef_cong]:
  "xs = ys \<Longrightarrow> (\<And>x. x \<in> set ys \<Longrightarrow> f x = g x) \<Longrightarrow> collect_results f xs = collect_results g ys"
  by (induction ys arbitrary: xs) (auto simp: result_bind_def split: sum.splits)

lemma collect_results_Inr: "collect_results f xs = Inr ys \<longleftrightarrow> list_all2 (\<lambda>x y. f x = Inr y) xs ys"
  by (induction xs arbitrary: ys) (auto simp: list_all2_Cons1)

lemma collect_results_total:
  "(\<And>x. x \<in> set xs \<Longrightarrow> \<exists>y. f x = Inr y) \<Longrightarrow> \<exists>ys. collect_results f xs = Inr ys"
  by (induction xs) force+

text \<open>An invariant of the state that every round keeps, and a fact about every element that was reached.\<close>

lemma try_all_Inr_induct:
  assumes "try_all f xs s = Inr t" and "P s"
    and "\<And>x s t. x \<in> set xs \<Longrightarrow> P s \<Longrightarrow> f x s = Inr t \<Longrightarrow> P t \<and> Q x"
  shows "P t \<and> (\<forall>x \<in> set xs. Q x)"
  using assms
proof (induction xs arbitrary: s)
  case (Cons x xs)
  from Cons.prems(1) obtain u where u: "f x s = Inr u" "try_all f xs u = Inr t" by auto
  from Cons.prems(3) [OF _ Cons.prems(2) u(1)] have "P u" "Q x" by simp_all
  have "P t \<and> (\<forall>x \<in> set xs. Q x)"
    by (rule Cons.IH [OF u(2) \<open>P u\<close>]) (rule Cons.prems(3), auto)
  with \<open>Q x\<close> show ?case by simp
qed simp

section \<open>Panics\<close>

text \<open>A computation that may panic; a panic ends it, whatever it was about to return.\<close>

datatype 'a outcome = Panic | Return 'a

definition outcome_bind :: "'a outcome \<Rightarrow> ('a \<Rightarrow> 'b outcome) \<Rightarrow> 'b outcome" where
  "outcome_bind m f = (case m of Panic \<Rightarrow> Panic | Return a \<Rightarrow> f a)"

lemma outcome_bind_simps [simp]:
  "outcome_bind Panic f = Panic" "outcome_bind (Return a) f = f a"
  by (simp_all add: outcome_bind_def)

lemma outcome_bind_eq_Return:
  "outcome_bind m f = Return b \<longleftrightarrow> (\<exists>a. m = Return a \<and> f a = Return b)"
  by (cases m) auto

lemma outcome_bind_cong [fundef_cong]:
  "m = m' \<Longrightarrow> (\<And>a. m' = Return a \<Longrightarrow> f a = g a) \<Longrightarrow> outcome_bind m f = outcome_bind m' g"
  by (cases m') auto

text \<open>The \<open>?\<close> operator on an \<open>Option\<close> inside a function that may panic.\<close>

definition try_some :: "'a option \<Rightarrow> ('a \<Rightarrow> 'b option outcome) \<Rightarrow> 'b option outcome" where
  "try_some m f = (case m of None \<Rightarrow> Return None | Some a \<Rightarrow> f a)"

lemma try_some_simps [simp]: "try_some None f = Return None" "try_some (Some a) f = f a"
  by (simp_all add: try_some_def)

text \<open>\<open>unwrap\<close> and \<open>expect\<close>.\<close>

definition expect :: "'a option \<Rightarrow> 'a outcome" where
  "expect m = (case m of None \<Rightarrow> Panic | Some a \<Rightarrow> Return a)"

lemma expect_simps [simp]: "expect None = Panic" "expect (Some a) = Return a"
  by (simp_all add: expect_def)

lemma expect_Return [simp]: "expect m = Return a \<longleftrightarrow> m = Some a"
  by (cases m) auto

end
