(* ===== verification/TerminalTheme.thy ===== *)
theory TerminalTheme
  imports RustChars Results "HOL-Library.Monad_Syntax"
begin

text \<open>
  Colours of the host terminal (\<open>src/terminal_theme.rs\<close>): the replies to OSC 10 and 11, and the sequences
  that set them.  A slice of a \<open>str\<close> that does not end on a character boundary panics; the parser slices
  a text it has not looked at, so its result is an \<open>outcome\<close>.
\<close>

section \<open>Slices\<close>

text \<open>\<open>&s[i..j]\<close> of a text; the bytes \<open>0x80\<close> to \<open>0xBF\<close> continue a character.\<close>

definition continuation_byte :: "char \<Rightarrow> bool" where
  "continuation_byte b = (let n = (of_char b :: nat) in 0x80 \<le> n \<and> n < 0xC0)"

definition is_char_boundary :: "string \<Rightarrow> nat \<Rightarrow> bool" where
  "is_char_boundary s i = (i = 0 \<or> i = length s \<or> (i < length s \<and> \<not> continuation_byte (s ! i)))"

definition str_slice :: "string \<Rightarrow> nat \<Rightarrow> nat \<Rightarrow> string outcome" where
  "str_slice s i j =
     (if i \<le> j \<and> is_char_boundary s i \<and> is_char_boundary s j then Return (take (j - i) (drop i s))
      else Panic)"

section \<open>Colours\<close>

record rgb_color =
  rgb_r :: u8
  rgb_g :: u8
  rgb_b :: u8

datatype host_appearance = Dark | Light

definition inferred_appearance :: "rgb_color \<Rightarrow> host_appearance" where
  "inferred_appearance c =
     (let luminance = unat (rgb_r c) * 299 + unat (rgb_g c) * 587 + unat (rgb_b c) * 114
      in if 128000 \<le> luminance then Light else Dark)"

record terminal_theme =
  tt_foreground :: "rgb_color option"
  tt_background :: "rgb_color option"

datatype default_color_kind = Foreground | Background

definition with_color :: "terminal_theme \<Rightarrow> default_color_kind \<Rightarrow> rgb_color \<Rightarrow> terminal_theme" where
  "with_color t kind color =
     (case kind of Foreground \<Rightarrow> t\<lparr>tt_foreground := Some color\<rparr>
      | Background \<Rightarrow> t\<lparr>tt_background := Some color\<rparr>)"

definition theme_is_empty :: "terminal_theme \<Rightarrow> bool" where
  "theme_is_empty t = (tt_foreground t = None \<and> tt_background t = None)"

section \<open>Replies\<close>

definition hex_digit_value :: "char \<Rightarrow> nat option" where
  "hex_digit_value c =
     (let n = of_char c in
      if 48 \<le> n \<and> n \<le> 57 then Some (n - 48)
      else if 97 \<le> n \<and> n \<le> 102 then Some (n - 87)
      else if 65 \<le> n \<and> n \<le> 70 then Some (n - 55) else None)"

definition is_ascii_hexdigit :: "char \<Rightarrow> bool" where
  "is_ascii_hexdigit c = (hex_digit_value c \<noteq> None)"

text \<open>\<open>u32::from_str_radix\<close> on at most four hexadecimal digits.\<close>

definition hex_value :: "string \<Rightarrow> nat" where
  "hex_value s = foldl (\<lambda>acc c. acc * 16 + unwrap_or (hex_digit_value c) 0) 0 s"

definition parse_hex_component :: "string \<Rightarrow> u8 option" where
  "parse_hex_component component =
     (if component = [] \<or> 4 < length component \<or> \<not> list_all is_ascii_hexdigit component then None
      else let val = hex_value component; mx = 2 ^ (length component * 4) - 1
           in Some (of_nat ((val * 255 + mx div 2) div mx)))"

text \<open>One component of the \<open>#\<close> form: the slice, then its value.\<close>

definition hash_component :: "string \<Rightarrow> nat \<Rightarrow> nat \<Rightarrow> (u8 \<Rightarrow> 'b option outcome) \<Rightarrow> 'b option outcome" where
  "hash_component hex i j f =
     outcome_bind (str_slice hex i j) (\<lambda>s. try_some (parse_hex_component s) f)"

definition parse_rgb_color :: "string \<Rightarrow> rgb_color option outcome" where
  "parse_rgb_color v =
     (case strip_prefix v ''rgb:'' of
        Some rgb \<Rightarrow>
          Return (case split_on CHR ''/'' rgb of
            [r, g, b] \<Rightarrow> do {
              r \<leftarrow> parse_hex_component r;
              g \<leftarrow> parse_hex_component g;
              b \<leftarrow> parse_hex_component b;
              Some \<lparr>rgb_r = r, rgb_g = g, rgb_b = b\<rparr> }
          | _ \<Rightarrow> None)
      | None \<Rightarrow>
          (case strip_prefix v ''#'' of
             None \<Rightarrow> Return None
           | Some hex \<Rightarrow>
               let digits = length hex div 3
               in if \<not> (1 \<le> digits \<and> digits \<le> 4) \<or> length hex \<noteq> digits * 3 then Return None
                  else hash_component hex 0 digits (\<lambda>r.
                    hash_component hex digits (digits * 2) (\<lambda>g.
                    hash_component hex (digits * 2) (length hex) (\<lambda>b.
                    Return (Some \<lparr>rgb_r = r, rgb_g = g, rgb_b = b\<rparr>))))))"

definition parse_default_color_response :: "string \<Rightarrow> (default_color_kind \<times> rgb_color) option outcome" where
  "parse_default_color_response sequence =
     try_some (strip_prefix sequence [CHR 0x1B, CHR '']'']) (\<lambda>rest.
     try_some (or_else (strip_suffix rest [CHR 0x1B, CHR 0x5C]) (strip_suffix rest [CHR 0x07])) (\<lambda>body.
     try_some (split_once CHR '';'' body) (\<lambda>(command, v).
     try_some (if command = ''10'' then Some Foreground else if command = ''11'' then Some Background else None)
       (\<lambda>kind. outcome_bind (parse_rgb_color v) (\<lambda>color. Return (map_option (Pair kind) color))))))"

section \<open>Sequences for the host\<close>

definition hex_char :: "nat \<Rightarrow> char" where
  "hex_char d = (if d < 10 then char_of (48 + d) else char_of (87 + d))"

text \<open>\<open>{:02x}\<close> of a byte.\<close>

definition show_hex2 :: "u8 \<Rightarrow> string" where
  "show_hex2 v = [hex_char (unat v div 16), hex_char (unat v mod 16)]"

definition osc_set_default_color_sequence :: "default_color_kind \<Rightarrow> rgb_color \<Rightarrow> string" where
  "osc_set_default_color_sequence kind color =
     [CHR 0x1B] @ '']'' @ (case kind of Foreground \<Rightarrow> ''10'' | Background \<Rightarrow> ''11'') @ '';rgb:'' @
     show_hex2 (rgb_r color) @ ''/'' @ show_hex2 (rgb_g color) @ ''/'' @ show_hex2 (rgb_b color) @
     [CHR 0x1B, CHR 0x5C]"

definition osc_reset_default_color_sequence :: "default_color_kind \<Rightarrow> string" where
  "osc_reset_default_color_sequence kind =
     (case kind of Foreground \<Rightarrow> [CHR 0x1B] @ '']110'' @ [CHR 0x1B, CHR 0x5C]
      | Background \<Rightarrow> [CHR 0x1B] @ '']111'' @ [CHR 0x1B, CHR 0x5C])"

section \<open>Lemmas\<close>

lemma hex_digit_value_hex_char: "d < 16 \<Longrightarrow> hex_digit_value (hex_char d) = Some d"
  by (auto simp: hex_digit_value_def hex_char_def Let_def)

lemma parse_hex_component_show_hex2: "parse_hex_component (show_hex2 v) = Some v"
proof -
  have v: "unat v < 256" using unsigned_less [of v, where ?'a = nat] by simp
  have h: "unat v div 16 < 16" "unat v mod 16 < 16" using v by (simp_all add: div_less_iff_less_mult)
  have "hex_value (show_hex2 v) = unat v"
    by (simp add: hex_value_def show_hex2_def hex_digit_value_hex_char h)
  moreover have "(unat v * 255 + 127) div 255 = unat v" by (simp add: div_add1_eq)
  ultimately show ?thesis
    by (simp add: parse_hex_component_def show_hex2_def is_ascii_hexdigit_def hex_digit_value_hex_char h)
qed

lemma show_hex2_digits: "c \<in> set (show_hex2 v) \<Longrightarrow> is_ascii_hexdigit c"
proof -
  have "unat v div 16 < 16" "unat v mod 16 < 16" using unsigned_less [of v, where ?'a = nat]
    by (simp_all add: div_less_iff_less_mult)
  then show "c \<in> set (show_hex2 v) \<Longrightarrow> ?thesis"
    by (auto simp: show_hex2_def is_ascii_hexdigit_def hex_digit_value_hex_char)
qed

lemma show_hex2_no_char: "\<not> is_ascii_hexdigit c \<Longrightarrow> c \<notin> set (show_hex2 v)"
  using show_hex2_digits by blast

text \<open>A text of ASCII bytes can be sliced anywhere, so the parser cannot panic on it.\<close>

definition ascii :: "string \<Rightarrow> bool" where
  "ascii s = (\<forall>c \<in> set s. of_char c < (128 :: nat))"

lemma ascii_slice:
  assumes "ascii s" and "i \<le> j" and "j \<le> length s"
  shows "str_slice s i j \<noteq> Panic"
proof -
  have "is_char_boundary s k" if "k \<le> length s" for k
    using that assms(1) nth_mem [of k s]
    by (auto simp: is_char_boundary_def continuation_byte_def Let_def ascii_def not_le)
  with assms show ?thesis by (simp add: str_slice_def)
qed

lemma hash_component_Panic:
  "hash_component hex i j f = Panic \<longleftrightarrow>
     str_slice hex i j = Panic \<or>
     (\<exists>s v. str_slice hex i j = Return s \<and> parse_hex_component s = Some v \<and> f v = Panic)"
  by (cases "str_slice hex i j"; cases "parse_hex_component (case str_slice hex i j of Return s \<Rightarrow> s)")
    (auto simp: hash_component_def try_some_def split: option.splits)

lemma ascii_drop: "ascii (p @ s) \<Longrightarrow> ascii s" "ascii (s @ p) \<Longrightarrow> ascii s"
  by (simp_all add: ascii_def)

lemma parse_rgb_color_ascii: "ascii v \<Longrightarrow> parse_rgb_color v \<noteq> Panic"
proof
  assume "ascii v" and p: "parse_rgb_color v = Panic"
  from p obtain hex where hex: "strip_prefix v ''#'' = Some hex"
    by (auto simp: parse_rgb_color_def split: option.splits)
  then have "ascii hex" using \<open>ascii v\<close> ascii_drop(1) [of "''#''" hex] by (simp add: strip_prefix_Some)
  note slice = ascii_slice [OF this]
  let ?d = "length hex div 3"
  have "hash_component hex 0 ?d (\<lambda>r. hash_component hex ?d (?d * 2) (\<lambda>g. hash_component hex (?d * 2) (length hex) (\<lambda>b.
      Return (Some \<lparr>rgb_r = r, rgb_g = g, rgb_b = b\<rparr>)))) \<noteq> Panic" if "length hex = ?d * 3"
    using that slice [of 0 ?d] slice [of ?d "?d * 2"] slice [of "?d * 2" "length hex"]
    by (auto simp: hash_component_Panic)
  with p hex show False by (auto simp: parse_rgb_color_def Let_def split: option.splits if_splits)
qed

lemma parse_default_color_response_ascii:
  "ascii sequence \<Longrightarrow> parse_default_color_response sequence \<noteq> Panic"
proof
  assume a: "ascii sequence" and p: "parse_default_color_response sequence = Panic"
  from p obtain rest body command v where rest: "strip_prefix sequence [CHR 0x1B, CHR '']''] = Some rest"
    and body: "or_else (strip_suffix rest [CHR 0x1B, CHR 0x5C]) (strip_suffix rest [CHR 0x07]) = Some body"
    and split: "split_once CHR '';'' body = Some (command, v)" and panic: "parse_rgb_color v = Panic"
    by (auto simp: parse_default_color_response_def try_some_def outcome_bind_def
        split: option.splits if_splits outcome.splits)
  have "ascii rest" using a rest ascii_drop(1) [of "[CHR 0x1B, CHR '']'']" rest] by (simp add: strip_prefix_Some)
  moreover have "\<exists>p. rest = body @ p"
    using body by (cases "strip_suffix rest [CHR 0x1B, CHR 0x5C]") (auto simp: strip_suffix_Some)
  ultimately have "ascii body" using ascii_drop(2) by blast
  moreover have "set v \<subseteq> set body"
    using split set_dropWhileD [of _ "\<lambda>x. x \<noteq> CHR '';''" body]
    by (auto simp: split_once_def split: list.splits)
  ultimately have "ascii v" by (auto simp: ascii_def)
  with panic parse_rgb_color_ascii show False by blast
qed

text \<open>The sequence that sets a colour is understood as a reply with that colour.\<close>

lemma parse_osc_set_default_color:
  "parse_default_color_response (osc_set_default_color_sequence kind color) = Return (Some (kind, color))"
proof -
  define num where "num = (case kind of Foreground \<Rightarrow> ''10'' | Background \<Rightarrow> ''11'')"
  define hs where "hs = show_hex2 (rgb_r color) @ ''/'' @ show_hex2 (rgb_g color) @ ''/'' @ show_hex2 (rgb_b color)"
  have seq: "osc_set_default_color_sequence kind color =
      [CHR 0x1B, CHR '']''] @ (num @ CHR '';'' # ''rgb:'' @ hs) @ [CHR 0x1B, CHR 0x5C]"
    by (simp add: osc_set_default_color_sequence_def num_def hs_def)
  have "\<not> is_ascii_hexdigit CHR ''/''" by code_simp
  note no = show_hex2_no_char [OF this]
  have "split_on CHR ''/'' hs = [show_hex2 (rgb_r color), show_hex2 (rgb_g color), show_hex2 (rgb_b color)]"
    using split_on_append [OF no, of "rgb_r color"] split_on_append [OF no, of "rgb_g color"]
      split_on_field [OF no, of "rgb_b color"] by (simp add: hs_def)
  then have rgb: "parse_rgb_color (''rgb:'' @ hs) = Return (Some color)"
    using strip_prefix_Some [of "''rgb:'' @ hs" "''rgb:''" hs]
    by (simp add: parse_rgb_color_def parse_hex_component_show_hex2)
  have "split_once CHR '';'' (num @ CHR '';'' # ''rgb:'' @ hs) = Some (num, ''rgb:'' @ hs)"
    by (rule split_once_append) (simp add: num_def split: default_color_kind.split)
  moreover have "strip_prefix ([CHR 0x1B, CHR '']''] @ t) [CHR 0x1B, CHR '']''] = Some t"
    "strip_suffix (t @ [CHR 0x1B, CHR 0x5C]) [CHR 0x1B, CHR 0x5C] = Some t" for t
    by (simp_all only: strip_prefix_Some strip_suffix_Some)
  ultimately show ?thesis
    unfolding seq parse_default_color_response_def
    by (simp only: try_some_simps or_else_simps prod.case rgb outcome_bind_simps)
      (simp add: num_def split: default_color_kind.split)
qed

end
