(* ===== verification/Utf8.thy ===== *)
theory Utf8
  imports TerminalTheme
begin

text \<open>
  \<open>str::from_utf8\<close> of the standard library: a byte string is valid if it is a sequence of well-formed
  characters; the error at its first ill-formed character says whether more bytes could complete it.
\<close>

section \<open>One character\<close>

datatype utf8_scan = Complete nat | Incomplete | Malformed

definition utf8_width :: "char \<Rightarrow> nat option" where
  "utf8_width b =
     (let n = (of_char b :: nat)
      in if n < 0x80 then Some 1 else if 0xC2 \<le> n \<and> n < 0xE0 then Some 2
         else if 0xE0 \<le> n \<and> n < 0xF0 then Some 3 else if 0xF0 \<le> n \<and> n < 0xF5 then Some 4 else None)"

text \<open>The second byte excludes overlong forms, surrogates and values above \<open>0x10FFFF\<close>.\<close>

definition second_byte_ok :: "char \<Rightarrow> char \<Rightarrow> bool" where
  "second_byte_ok b c =
     (let n = (of_char b :: nat); m = (of_char c :: nat)
      in continuation_byte c \<and> (n = 0xE0 \<longrightarrow> 0xA0 \<le> m) \<and> (n = 0xED \<longrightarrow> m < 0xA0) \<and>
         (n = 0xF0 \<longrightarrow> 0x90 \<le> m) \<and> (n = 0xF4 \<longrightarrow> m < 0x90))"

definition tail_ok :: "char \<Rightarrow> string \<Rightarrow> bool" where
  "tail_ok b cs = (case cs of [] \<Rightarrow> True | c # r \<Rightarrow> second_byte_ok b c \<and> list_all continuation_byte r)"

definition scan_char :: "char \<Rightarrow> string \<Rightarrow> utf8_scan" where
  "scan_char b bs =
     (case utf8_width b of
        None \<Rightarrow> Malformed
      | Some w \<Rightarrow> if \<not> tail_ok b (take (w - 1) bs) then Malformed
                  else if length bs < w - 1 then Incomplete else Complete w)"

lemma utf8_width_pos: "utf8_width b = Some w \<Longrightarrow> 1 \<le> w \<and> w \<le> 4"
  by (auto simp: utf8_width_def Let_def split: if_splits)

lemma scan_char_Complete: "scan_char b bs = Complete w \<Longrightarrow> 1 \<le> w \<and> w \<le> Suc (length bs)"
  using utf8_width_pos by (fastforce simp: scan_char_def split: option.splits if_splits)

section \<open>Texts\<close>

function utf8_valid :: "string \<Rightarrow> bool" where
  "utf8_valid [] = True"
| "utf8_valid (b # bs) =
     (case scan_char b bs of Complete w \<Rightarrow> utf8_valid (drop (w - 1) bs) | _ \<Rightarrow> False)"
  by pat_completeness auto
termination by (relation "measure length") auto

text \<open>The error of \<open>from_utf8\<close> is at the start and could be mended by more bytes.\<close>

definition starts_with_incomplete_utf8_char :: "string \<Rightarrow> bool" where
  "starts_with_incomplete_utf8_char s = (case s of [] \<Rightarrow> False | b # bs \<Rightarrow> scan_char b bs = Incomplete)"

lemma ascii_valid: "ascii s \<Longrightarrow> utf8_valid s"
proof (induction s rule: utf8_valid.induct)
  case (2 b bs)
  then have "utf8_width b = Some 1" and "ascii bs" by (auto simp: utf8_width_def ascii_def)
  then have "scan_char b bs = Complete 1" by (simp add: scan_char_def tail_ok_def)
  with 2 \<open>ascii bs\<close> show ?case by simp
qed simp

lemma encode_utf8_scan:
  assumes "scalar_value c"
  obtains b bs where "encode_utf8 c = b # bs" and "scan_char b bs = Complete (Suc (length bs))"
    and "\<And>rest. scan_char b (bs @ rest) = Complete (Suc (length bs))"
proof -
  have c: "c < 0x110000" and sur: "c < 0xD800 \<or> 0xE000 \<le> c" using assms by (auto simp: scalar_value_def)
  have "\<exists>b bs. encode_utf8 c = b # bs \<and> utf8_width b = Some (Suc (length bs)) \<and> tail_ok b bs"
  proof -
    consider "c < 0x80" | "0x80 \<le> c" "c < 0x800" | "0x800 \<le> c" "c < 0x10000" | "0x10000 \<le> c" by linarith
    then show ?thesis
    proof cases
      case 1
      then show ?thesis by (simp add: encode_utf8_def utf8_width_def tail_ok_def of_char_of)
    next
      case 2
      then have "2 \<le> c div 64" "c div 64 < 32" by (simp_all add: div_less_iff_less_mult less_eq_div_iff_mult_less_eq)
      with 2 show ?thesis
        by (simp add: encode_utf8_def utf8_width_def tail_ok_def second_byte_ok_def continuation_byte_def
            of_char_of Let_def)
    next
      case 3
      define g h l where "g = c div 4096" and "h = c div 64 mod 64" and "l = c mod 64"
      have e: "encode_utf8 c = [char_of (0xE0 + g), char_of (0x80 + h), char_of (0x80 + l)]"
        using 3 by (simp add: encode_utf8_def g_def h_def l_def)
      have bounds: "g < 16" "h < 64" "l < 64" using 3 by (simp_all add: g_def h_def l_def div_less_iff_less_mult)
      have part: "c div 64 = g * 64 + h"
        by (simp add: g_def h_def div_mult2_eq [of c 64 64, simplified])
      have "32 \<le> c div 64" using 3 by (simp add: less_eq_div_iff_mult_less_eq)
      then have ov: "g = 0 \<longrightarrow> 32 \<le> h" using part by simp
      have "c div 64 < 864 \<or> 896 \<le> c div 64"
        using sur by (auto simp: div_less_iff_less_mult less_eq_div_iff_mult_less_eq)
      then have su: "g = 13 \<longrightarrow> h < 32" using part bounds by auto
      have bytes: "of_char (char_of (0xE0 + g) :: char) = 0xE0 + g" "of_char (char_of (0x80 + h) :: char) = 0x80 + h"
        "of_char (char_of (0x80 + l) :: char) = 0x80 + l" using bounds by (simp_all only: of_char_of)
      show ?thesis using bounds ov su
        by (simp add: e utf8_width_def tail_ok_def second_byte_ok_def continuation_byte_def bytes Let_def
            del: of_char_of)
    next
      case 4
      define f g h l where "f = c div 262144" and "g = c div 4096 mod 64" and "h = c div 64 mod 64" and "l = c mod 64"
      have e: "encode_utf8 c = [char_of (0xF0 + f), char_of (0x80 + g), char_of (0x80 + h), char_of (0x80 + l)]"
        using 4 by (simp add: encode_utf8_def f_def g_def h_def l_def)
      have bounds: "f < 5" "g < 64" "h < 64" "l < 64" using c by (simp_all add: f_def g_def h_def l_def div_less_iff_less_mult)
      have part: "c div 4096 = f * 64 + g"
        by (simp add: f_def g_def div_mult2_eq [of c 4096 64, simplified])
      have "16 \<le> c div 4096" "c div 4096 < 272"
        using 4 c by (simp_all add: less_eq_div_iff_mult_less_eq div_less_iff_less_mult)
      then have ov: "f = 0 \<longrightarrow> 16 \<le> g" and up: "f = 4 \<longrightarrow> g < 16" using part by auto
      have bytes: "of_char (char_of (0xF0 + f) :: char) = 0xF0 + f" "of_char (char_of (0x80 + g) :: char) = 0x80 + g"
        "of_char (char_of (0x80 + h) :: char) = 0x80 + h" "of_char (char_of (0x80 + l) :: char) = 0x80 + l"
        using bounds by (simp_all only: of_char_of)
      show ?thesis using bounds ov up
        by (simp add: e utf8_width_def tail_ok_def second_byte_ok_def continuation_byte_def bytes Let_def
            del: of_char_of)
    qed
  qed
  then show thesis using that by (fastforce simp: scan_char_def)
qed

lemma utf8_valid_encode: "scalar_value c \<Longrightarrow> utf8_valid (encode_utf8 c)"
  by (erule encode_utf8_scan) simp

end
