(* ===== verification/RawInput.thy ===== *)
theory RawInput
  imports KeyEncode Utf8
begin

unbundle bit_operations_syntax

text \<open>
  The bytes of the host terminal (\<open>src/raw_input.rs\<close>): the extraction of one event from a buffer, the framer
  that cuts the stream into events and survives reads and timeouts at any place, and the conversion of its
  chunks into events.  A texts parser that slices off a character boundary panics (see \<open>TerminalTheme\<close>), so
  what can reach it returns an \<open>outcome\<close>; the draining loop terminates because every round consumes
  bytes or leaves a discarding state.
\<close>

section \<open>Searching\<close>

fun find_subsequence :: "string \<Rightarrow> string \<Rightarrow> nat option" where
  "find_subsequence [] needle = None"
| "find_subsequence (x # xs) needle =
     (if starts_with (x # xs) needle then Some 0 else map_option Suc (find_subsequence xs needle))"

definition find_csi_final :: "string \<Rightarrow> string \<Rightarrow> nat option" where
  "find_csi_final buffer finals = map_option (\<lambda>i. i + 3) (position (\<lambda>b. b \<in> set finals) (drop 2 buffer))"

section \<open>Mouse reports\<close>

record mouse_event =
  me_kind :: mouse_event_kind
  me_column :: u16
  me_row :: u16
  me_modifiers :: key_modifiers

definition parse_mouse_cb :: "u8 \<Rightarrow> (mouse_event_kind \<times> key_modifiers) option" where
  "parse_mouse_cb cb =
     (let button_number = (cb AND 3) OR drop_bit 4 (cb AND 0xC0);
          dragging = (cb AND 0x20 = 0x20);
          kind = (if button_number = 0 then Some (if dragging then MouseDrag ButtonLeft else MouseDown ButtonLeft)
             else if button_number = 1 then Some (if dragging then MouseDrag ButtonMiddle else MouseDown ButtonMiddle)
             else if button_number = 2 then Some (if dragging then MouseDrag ButtonRight else MouseDown ButtonRight)
             else if button_number = 3 then Some (if dragging then MouseMoved else MouseUp ButtonLeft)
             else if button_number = 4 then Some (if dragging then MouseMoved else ScrollUp)
             else if button_number = 5 then Some (if dragging then MouseMoved else ScrollDown)
             else if button_number = 6 \<and> \<not> dragging then Some ScrollLeft
             else if button_number = 7 \<and> \<not> dragging then Some ScrollRight
             else None);
          m1 = (if cb AND 4 \<noteq> 0 then SHIFT else 0);
          m2 = (if cb AND 8 \<noteq> 0 then m1 OR ALT else m1);
          mods = (if cb AND 16 \<noteq> 0 then m2 OR CONTROL else m2)
      in map_option (\<lambda>k. (k, mods)) kind)"

definition parse_u16 :: "string \<Rightarrow> u16 option" where
  "parse_u16 s = map_option of_nat (parse_uint 65535 s)"

text \<open>The fields behind the third are ignored, as the iterator of the code is.\<close>

definition parse_sgr_mouse :: "string \<Rightarrow> mouse_event option" where
  "parse_sgr_mouse sequence = do {
     body \<leftarrow> strip_prefix sequence (esc # ''[<'');
     if body = [] \<or> last body \<notin> {CHR ''M'', CHR ''m''} then None
     else (case split_on CHR '';'' (butlast body) of
       f1 # f2 # f3 # _ \<Rightarrow> do {
         cb \<leftarrow> parse_u8 f1;
         c \<leftarrow> parse_u16 f2;
         column \<leftarrow> checked_sub c 1;
         r \<leftarrow> parse_u16 f3;
         row \<leftarrow> checked_sub r 1;
         (kind, mods) \<leftarrow> parse_mouse_cb cb;
         Some \<lparr>me_kind = (case kind of MouseDown button \<Rightarrow>
                            (if last body = CHR ''m'' then MouseUp button else kind) | _ \<Rightarrow> kind),
               me_column = column, me_row = row, me_modifiers = mods\<rparr>
       }
     | _ \<Rightarrow> None)
   }"

section \<open>Control strings\<close>

datatype control_string_family = Osc | StTerminated | HostColorSchemeCsi | OrphanedSgrMouseTail

datatype control_string = CsComplete nat control_string_family | CsIncomplete control_string_family

definition st_string_terminator :: "string \<Rightarrow> nat option" where
  "st_string_terminator buffer = map_option (\<lambda>i. i + 2) (find_subsequence buffer [esc, CHR 0x5C])"

definition osc_string_terminator :: "string \<Rightarrow> nat option" where
  "osc_string_terminator buffer =
     (let st = map_option (\<lambda>i. i + 2) (find_subsequence buffer [esc, CHR 0x5C]);
          bel = map_option (\<lambda>i. i + 1) (position (\<lambda>b. b = CHR 0x07) buffer)
      in case (st, bel) of
           (Some st, Some bel) \<Rightarrow> Some (min st bel)
         | (Some st, None) \<Rightarrow> Some st
         | (None, Some bel) \<Rightarrow> Some bel
         | (None, None) \<Rightarrow> None)"

fun control_string_terminator_for_family :: "string \<Rightarrow> control_string_family \<Rightarrow> nat option" where
  "control_string_terminator_for_family buffer Osc = osc_string_terminator buffer"
| "control_string_terminator_for_family buffer StTerminated = st_string_terminator buffer"
| "control_string_terminator_for_family buffer HostColorSchemeCsi =
     map_option (\<lambda>i. i + 1) (position (\<lambda>b. b = CHR ''n'') buffer)"
| "control_string_terminator_for_family buffer OrphanedSgrMouseTail =
     map_option (\<lambda>i. i + 1) (position (\<lambda>b. b \<in> {CHR ''M'', CHR ''m''}) buffer)"

definition introducer_family :: "string \<Rightarrow> control_string_family option" where
  "introducer_family introducer =
     (if introducer = [esc, CHR '']''] then Some Osc
      else if introducer \<in> {[esc, CHR ''P''], [esc, CHR ''_''], [esc, CHR ''^''], [esc, CHR ''X'']}
      then Some StTerminated else None)"

definition control_string :: "string \<Rightarrow> control_string option" where
  "control_string buffer =
     (if length buffer < 2 then None
      else map_option (\<lambda>family.
             case control_string_terminator_for_family buffer family of
               Some len \<Rightarrow> CsComplete len family | None \<Rightarrow> CsIncomplete family)
             (introducer_family (take 2 buffer)))"

definition GHOSTTY_COLOR_SCHEME_DARK_REPORT :: string where
  "GHOSTTY_COLOR_SCHEME_DARK_REPORT = esc # ''[?997;1n''"

definition GHOSTTY_COLOR_SCHEME_LIGHT_REPORT :: string where
  "GHOSTTY_COLOR_SCHEME_LIGHT_REPORT = esc # ''[?997;2n''"

definition BRACKETED_PASTE_START :: string where "BRACKETED_PASTE_START = esc # ''[200~''"
definition BRACKETED_PASTE_END :: string where "BRACKETED_PASTE_END = esc # ''[201~''"

definition parse_host_color_scheme_report :: "string \<Rightarrow> host_appearance option" where
  "parse_host_color_scheme_report buffer =
     (if buffer = GHOSTTY_COLOR_SCHEME_DARK_REPORT then Some Dark
      else if buffer = GHOSTTY_COLOR_SCHEME_LIGHT_REPORT then Some Light else None)"

definition starts_with_incomplete_default_color_response :: "string \<Rightarrow> bool" where
  "starts_with_incomplete_default_color_response buffer =
     (control_string buffer = Some (CsIncomplete Osc) \<and>
      take 5 buffer \<in> {esc # '']10;'', esc # '']11;''})"

definition starts_with_incomplete_host_color_scheme_report :: "string \<Rightarrow> bool" where
  "starts_with_incomplete_host_color_scheme_report buffer =
     (starts_with buffer (esc # ''[?'') \<and>
      (starts_with GHOSTTY_COLOR_SCHEME_DARK_REPORT buffer \<or>
       starts_with GHOSTTY_COLOR_SCHEME_LIGHT_REPORT buffer) \<and>
      length buffer < length GHOSTTY_COLOR_SCHEME_DARK_REPORT)"

section \<open>One event\<close>

definition utf8_char_width :: "char \<Rightarrow> nat option" where
  "utf8_char_width first =
     (let b = (of_char first :: u8)
      in if b < 0x80 then Some 1
         else if b AND 0xE0 = 0xC0 then Some 2
         else if b AND 0xF0 = 0xE0 then Some 3
         else if b AND 0xF8 = 0xF0 then Some 4
         else None)"

definition first_complete_utf8_char_len :: "string \<Rightarrow> nat option" where
  "first_complete_utf8_char_len buffer =
     (case buffer of [] \<Rightarrow> None
      | b # _ \<Rightarrow> do {
          width \<leftarrow> utf8_char_width b;
          if length buffer < width \<or> \<not> utf8_valid (take width buffer) then None else Some width
        })"

definition csi_finals :: string where
  "csi_finals = ''@ABCDEFGHIJKLMNOPQRSTUVWXYZ['' @ [CHR 0x5C] @ '']^_'' @ [CHR 0x60] @
     ''abcdefghijklmnopqrstuvwxyz{|}~''"

text \<open>An escape right before a complete mouse report is a key of its own: \<open>Some r\<close> is the early return
  of \<open>r\<close>.\<close>

definition escape_before_mouse :: "string \<Rightarrow> nat option option" where
  "escape_before_mouse buffer =
     (if starts_with buffer (esc # esc # ''[<'')
      then (case find_csi_final (tl buffer) ''Mm'' of
              Some mouse_len \<Rightarrow>
                if \<not> utf8_valid (take mouse_len (tl buffer)) then Some None
                else if parse_sgr_mouse (take mouse_len (tl buffer)) \<noteq> None then Some (Some 1)
                else None
            | None \<Rightarrow> None)
      else None)"

fun complete_escape_sequence_len :: "string \<Rightarrow> nat option" where
  "complete_escape_sequence_len [] = None"
| "complete_escape_sequence_len [b] = None"
| "complete_escape_sequence_len (b # c # rest) =
     (let buffer = b # c # rest
      in case escape_before_mouse buffer of
           Some r \<Rightarrow> r
         | None \<Rightarrow>
             if b = esc \<and> c = esc then map_option Suc (complete_escape_sequence_len (c # rest))
             else if b = esc \<and> c = CHR ''[''
             then find_csi_final buffer (if starts_with buffer (esc # ''[<'') then ''Mm'' else csi_finals)
             else (case control_string buffer of
                     Some (CsComplete len _) \<Rightarrow> Some len
                   | Some (CsIncomplete _) \<Rightarrow> None
                   | None \<Rightarrow>
                       if b = esc \<and> c = CHR ''O'' then then_some (3 \<le> length buffer) 3
                       else do {
                         width \<leftarrow> utf8_char_width c;
                         if length buffer < 1 + width \<or> \<not> utf8_valid (take width (c # rest)) then None
                         else Some (1 + width)
                       }))"

datatype raw_input_event = RawKey terminal_key | RawPaste string | RawMouse mouse_event
  | OuterFocusGained | OuterFocusLost | RawHostDefaultColor default_color_kind rgb_color
  | RawHostColorSchemeChanged host_appearance | RawUnsupported

text \<open>The event of a complete escape sequence.\<close>

definition escape_event :: "string \<Rightarrow> raw_input_event outcome" where
  "escape_event sq =
     outcome_bind (parse_default_color_response sq) (\<lambda>color. Return
       (case color of
          Some (kind, color) \<Rightarrow> RawHostDefaultColor kind color
        | None \<Rightarrow>
            if sq = esc # ''[I'' then OuterFocusGained
            else if sq = esc # ''[O'' then OuterFocusLost
            else (case parse_host_color_scheme_report sq of
                    Some appearance \<Rightarrow> RawHostColorSchemeChanged appearance
                  | None \<Rightarrow>
                      (case parse_sgr_mouse sq of
                         Some mouse \<Rightarrow> RawMouse mouse
                       | None \<Rightarrow>
                           (case parse_terminal_key_sequence sq of
                              Some key \<Rightarrow> RawKey key
                            | None \<Rightarrow> RawUnsupported)))))"

definition extract_one_event :: "string \<Rightarrow> (raw_input_event \<times> nat) option outcome" where
  "extract_one_event buffer =
     (case buffer of
        [] \<Rightarrow> Return None
      | b # _ \<Rightarrow>
          if starts_with buffer BRACKETED_PASTE_START
          then try_some (find_subsequence buffer BRACKETED_PASTE_END) (\<lambda>stop.
                 let content = take (stop - length BRACKETED_PASTE_START) (drop (length BRACKETED_PASTE_START) buffer)
                 in Return (then_some (utf8_valid content) (RawPaste content, stop + length BRACKETED_PASTE_END)))
          else if b = esc
          then try_some (complete_escape_sequence_len buffer) (\<lambda>seq_len.
                 let sq = take seq_len buffer
                 in if \<not> utf8_valid sq then Return None
                    else outcome_bind (escape_event sq) (\<lambda>event. Return (Some (event, seq_len))))
          else Return (do {
                 consumed \<leftarrow> first_complete_utf8_char_len buffer;
                 let t = take consumed buffer;
                 if \<not> utf8_valid t then None
                 else do { key \<leftarrow> parse_terminal_key_sequence t; Some (RawKey key, consumed) }
               }))"

section \<open>The extent of an event\<close>

lemma find_subsequence_Some:
  "find_subsequence xs needle = Some i \<Longrightarrow> i + length needle \<le> length xs \<and> starts_with (drop i xs) needle"
proof (induction xs arbitrary: i)
  case (Cons x xs)
  then show ?case
    by (auto simp: starts_with_iff split: if_splits) (metis length_append le_add1 length_Cons)
qed simp

lemma starts_with_append: "starts_with xs p \<Longrightarrow> starts_with (xs @ ys) p"
  by (auto simp: starts_with_iff)

lemma starts_with_append_short: "starts_with (xs @ ys) p \<Longrightarrow> length p \<le> length xs \<Longrightarrow> starts_with xs p"
  by (simp add: starts_with_def)

lemma find_csi_final_bounds: "find_csi_final buffer finals = Some n \<Longrightarrow> 3 \<le> n \<and> n \<le> length buffer"
  using position_Some by (fastforce simp: find_csi_final_def)

lemma terminator_bounds:
  "control_string_terminator_for_family buffer family = Some n \<Longrightarrow> 1 \<le> n \<and> n \<le> length buffer"
proof -
  have sub: "find_subsequence buffer needle = Some i \<Longrightarrow> i + length needle \<le> length buffer" for needle i
    using find_subsequence_Some by blast
  show "control_string_terminator_for_family buffer family = Some n \<Longrightarrow> ?thesis"
    using position_Some [of _ buffer] sub [of "[esc, CHR 0x5C]"]
    by (cases family) (fastforce simp: osc_string_terminator_def st_string_terminator_def Let_def
        min_def split: option.splits if_splits)+
qed

lemma control_string_bounds: "control_string buffer = Some (CsComplete n family) \<Longrightarrow> 1 \<le> n \<and> n \<le> length buffer"
  using terminator_bounds
  by (auto simp: control_string_def Let_def split: option.splits if_splits)

lemma complete_escape_sequence_len_bounds:
  "complete_escape_sequence_len buffer = Some n \<Longrightarrow> 1 \<le> n \<and> n \<le> length buffer"
proof (induction buffer arbitrary: n rule: complete_escape_sequence_len.induct)
  case (3 b c rest)
  show ?case
  proof (cases "escape_before_mouse (b # c # rest)")
    case (Some r)
    with 3(2) show ?thesis by (auto simp: escape_before_mouse_def split: option.splits if_splits)
  next
    case None
    with 3 show ?thesis
      using find_csi_final_bounds [of "b # c # rest"] control_string_bounds [of "b # c # rest"]
      by (fastforce simp: Let_def bind_eq_Some_conv split: if_splits option.splits control_string.splits)
  qed
qed auto

lemma utf8_char_width_pos: "utf8_char_width b = Some w \<Longrightarrow> 1 \<le> w"
  by (auto simp: utf8_char_width_def Let_def split: if_splits)

text \<open>An event consumes at least one byte, and none beyond the buffer.\<close>

lemma extract_one_event_bounds:
  assumes "extract_one_event buffer = Return (Some (event, n))"
  shows "1 \<le> n \<and> n \<le> length buffer"
proof (cases buffer)
  case (Cons b bs)
  have paste: "length BRACKETED_PASTE_END = 6" by (simp add: BRACKETED_PASTE_END_def)
  consider "starts_with buffer BRACKETED_PASTE_START" | "\<not> starts_with buffer BRACKETED_PASTE_START" "b = esc"
    | "\<not> starts_with buffer BRACKETED_PASTE_START" "b \<noteq> esc" by blast
  then show ?thesis
  proof cases
    case 1
    with assms Cons show ?thesis
      using find_subsequence_Some [of buffer BRACKETED_PASTE_END]
      by (auto simp: extract_one_event_def try_some_def Let_def paste split: option.splits)
  next
    case 2
    with assms Cons show ?thesis
      using complete_escape_sequence_len_bounds [of buffer]
      by (auto simp: extract_one_event_def try_some_def Let_def outcome_bind_eq_Return split: option.splits if_splits)
  next
    case 3
    with assms Cons show ?thesis
      using utf8_char_width_pos
      by (auto simp: extract_one_event_def first_complete_utf8_char_len_def bind_eq_Some_conv split: if_splits)
  qed
qed (use assms in \<open>simp add: extract_one_event_def\<close>)

end
