(* ===== verification/RawFramer.thy ===== *)
theory RawFramer
  imports RawInput
begin

text \<open>
  The framer of raw input (\<open>RawInputByteFramer\<close> and \<open>RawInputFramer\<close> of \<open>src/raw_input.rs\<close>).  Bytes are pushed
  as they are read; complete events come out as chunks, and when no more input arrives for a while
  \<open>flush_timeout\<close> decides what an incomplete buffer means.  Replies of the host terminal that time out are
  discarded up to their terminator, so that their tails do not reach a pane as typed text.
\<close>

record raw_framer =
  rf_buffer :: string
  rf_discard_until :: "control_string_family option"
  rf_discarded_tail_bytes :: nat
  rf_lone_escape_recently_flushed :: bool
  rf_host_color_replies_awaited :: u8
  rf_held_pending_color_esc :: bool
  rf_host_color_scheme_change_tracking :: bool

definition new_framer :: raw_framer where
  "new_framer = \<lparr>rf_buffer = [], rf_discard_until = None, rf_discarded_tail_bytes = 0,
     rf_lone_escape_recently_flushed = False, rf_host_color_replies_awaited = 0,
     rf_held_pending_color_esc = False, rf_host_color_scheme_change_tracking = False\<rparr>"

definition HOST_COLOR_QUERY_REPLIES :: u8 where "HOST_COLOR_QUERY_REPLIES = 2"
definition MAX_ORPHANED_SGR_MOUSE_TAIL_BYTES :: nat where "MAX_ORPHANED_SGR_MOUSE_TAIL_BYTES = 32"
definition MAX_DISCARDED_CONTROL_TAIL_BYTES :: nat where "MAX_DISCARDED_CONTROL_TAIL_BYTES = 128"

definition host_color_query_sent :: "raw_framer \<Rightarrow> raw_framer" where
  "host_color_query_sent f =
     f\<lparr>rf_host_color_replies_awaited := HOST_COLOR_QUERY_REPLIES, rf_held_pending_color_esc := False\<rparr>"

definition enable_host_color_scheme_change_tracking :: "raw_framer \<Rightarrow> raw_framer" where
  "enable_host_color_scheme_change_tracking f = f\<lparr>rf_host_color_scheme_change_tracking := True\<rparr>"

definition has_pending_input :: "raw_framer \<Rightarrow> bool" where
  "has_pending_input f = (rf_buffer f \<noteq> [])"

definition has_pending_lone_escape :: "raw_framer \<Rightarrow> bool" where
  "has_pending_lone_escape f = (rf_buffer f = [esc])"

section \<open>Orphaned tails of mouse reports\<close>

definition digit_or_semicolon :: "char \<Rightarrow> bool" where
  "digit_or_semicolon b = (digit_value b \<noteq> None \<or> b = CHR '';'')"

definition starts_with_incomplete_sgr_mouse_sequence :: "string \<Rightarrow> bool" where
  "starts_with_incomplete_sgr_mouse_sequence buffer =
     (starts_with buffer (esc # ''[<'') \<and> list_all digit_or_semicolon (drop 3 buffer))"

definition has_pending_incomplete_sgr_mouse_sequence :: "raw_framer \<Rightarrow> bool" where
  "has_pending_incomplete_sgr_mouse_sequence f = starts_with_incomplete_sgr_mouse_sequence (rf_buffer f)"

definition has_pending_bracketed_paste :: "raw_framer \<Rightarrow> bool" where
  "has_pending_bracketed_paste f =
     (starts_with (rf_buffer f) BRACKETED_PASTE_START \<and>
      find_subsequence (rf_buffer f) BRACKETED_PASTE_END = None)"

definition starts_with_incomplete_orphaned_sgr_mouse_tail :: "string \<Rightarrow> bool" where
  "starts_with_incomplete_orphaned_sgr_mouse_tail buffer =
     (if MAX_ORPHANED_SGR_MOUSE_TAIL_BYTES < length buffer then False
      else (length buffer < 3 \<and> starts_with ''[<'' buffer) \<or>
           (starts_with buffer ''[<'' \<and> list_all digit_or_semicolon (drop 2 buffer)))"

text \<open>The rest of the buffer behind a complete tail, if there is one to discard.\<close>

definition discard_complete_orphaned_sgr_mouse_tail :: "string \<Rightarrow> string option" where
  "discard_complete_orphaned_sgr_mouse_tail buffer =
     (case control_string_terminator_for_family buffer OrphanedSgrMouseTail of
        None \<Rightarrow> None
      | Some terminator_len \<Rightarrow>
          if MAX_ORPHANED_SGR_MOUSE_TAIL_BYTES < terminator_len then None
          else let sq = esc # take terminator_len buffer
               in if \<not> utf8_valid sq \<or> parse_sgr_mouse sq = None then None
                  else Some (drop terminator_len buffer))"

definition discard_or_buffer_orphaned_sgr_mouse_tail :: "raw_framer \<Rightarrow> raw_framer" where
  "discard_or_buffer_orphaned_sgr_mouse_tail f =
     (case discard_complete_orphaned_sgr_mouse_tail (rf_buffer f) of
        Some buffer \<Rightarrow> f\<lparr>rf_buffer := buffer\<rparr>
      | None \<Rightarrow> f\<lparr>rf_discarded_tail_bytes := length (rf_buffer f),
                 rf_discard_until := then_some (length (rf_buffer f) \<le> MAX_DISCARDED_CONTROL_TAIL_BYTES)
                                               OrphanedSgrMouseTail,
                 rf_buffer := []\<rparr>)"

text \<open>Buffer and count afterwards, and whether the tail has ended.\<close>

definition discard_orphaned_sgr_mouse_tail :: "string \<Rightarrow> nat \<Rightarrow> string \<times> nat \<times> bool" where
  "discard_orphaned_sgr_mouse_tail buffer discarded =
     (let inspected = min (length buffer) (MAX_DISCARDED_CONTROL_TAIL_BYTES - discarded)
      in case position (\<lambda>b. \<not> digit_or_semicolon b) (take inspected buffer) of
           Some i \<Rightarrow>
             (if buffer ! i \<in> {CHR ''M'', CHR ''m''} then drop (Suc i) buffer else drop i buffer,
              discarded, True)
         | None \<Rightarrow> ([], discarded + inspected, inspected < length buffer))"

section \<open>Draining\<close>

datatype drain_step = DrainBreak raw_framer | DrainContinue raw_framer | DrainChunk string raw_framer

definition stop_discarding :: "raw_framer \<Rightarrow> string \<Rightarrow> raw_framer" where
  "stop_discarding f buffer =
     f\<lparr>rf_buffer := buffer, rf_discard_until := None, rf_discarded_tail_bytes := 0\<rparr>"

text \<open>The state after an event: how many colour replies are still awaited.\<close>

definition note_event :: "raw_framer \<Rightarrow> raw_input_event \<Rightarrow> raw_framer" where
  "note_event f event =
     (let f1 = (case event of
        RawHostDefaultColor _ _ \<Rightarrow>
          f\<lparr>rf_host_color_replies_awaited := saturating_sub (rf_host_color_replies_awaited f) 1\<rparr>
      | RawHostColorSchemeChanged _ \<Rightarrow>
          if rf_host_color_scheme_change_tracking f then host_color_query_sent f else f
      | _ \<Rightarrow> f)
      in f1\<lparr>rf_held_pending_color_esc := False\<rparr>)"

definition drain_event :: "raw_framer \<Rightarrow> drain_step outcome" where
  "drain_event f =
     outcome_bind (extract_one_event (rf_buffer f)) (\<lambda>r. Return (case r of
       None \<Rightarrow> DrainBreak f
     | Some (event, consumed) \<Rightarrow>
         DrainChunk (take consumed (rf_buffer f))
           ((note_event f event)\<lparr>rf_buffer := drop consumed (rf_buffer f)\<rparr>)))"

definition drain_discarding :: "raw_framer \<Rightarrow> drain_step outcome" where
  "drain_discarding f =
     (case rf_discard_until f of
        Some OrphanedSgrMouseTail \<Rightarrow>
          (case discard_orphaned_sgr_mouse_tail (rf_buffer f) (rf_discarded_tail_bytes f) of
             (buffer, discarded, stopped) \<Rightarrow> Return
               (if stopped then DrainContinue (stop_discarding f buffer)
                else DrainBreak (f\<lparr>rf_buffer := buffer, rf_discarded_tail_bytes := discarded\<rparr>)))
      | Some family \<Rightarrow>
          (case control_string_terminator_for_family (rf_buffer f) family of
             None \<Rightarrow> Return (DrainBreak f)
           | Some n \<Rightarrow> Return (DrainContinue (stop_discarding f (drop n (rf_buffer f)))))
      | None \<Rightarrow> drain_event f)"

definition drain_step :: "raw_framer \<Rightarrow> drain_step outcome" where
  "drain_step f =
     (if rf_lone_escape_recently_flushed f
      then if starts_with_incomplete_orphaned_sgr_mouse_tail (rf_buffer f) then Return (DrainBreak f)
           else (case discard_complete_orphaned_sgr_mouse_tail (rf_buffer f) of
                   Some buffer \<Rightarrow>
                     Return (DrainContinue (f\<lparr>rf_buffer := buffer, rf_lone_escape_recently_flushed := False\<rparr>))
                 | None \<Rightarrow> drain_discarding (f\<lparr>rf_lone_escape_recently_flushed := False\<rparr>))
      else drain_discarding f)"

definition drain_measure :: "raw_framer \<Rightarrow> nat" where
  "drain_measure f = 2 * length (rf_buffer f) + (if rf_discard_until f = None then 0 else 1)"

lemma note_event_fields [simp]:
  "rf_buffer (note_event f e) = rf_buffer f" "rf_discard_until (note_event f e) = rf_discard_until f"
  "rf_lone_escape_recently_flushed (note_event f e) = rf_lone_escape_recently_flushed f"
  by (simp_all add: note_event_def Let_def host_color_query_sent_def split: raw_input_event.split)

lemma discard_complete_shorter:
  "discard_complete_orphaned_sgr_mouse_tail buffer = Some r \<Longrightarrow> length r < length buffer"
  using terminator_bounds [of buffer OrphanedSgrMouseTail]
  by (fastforce simp: discard_complete_orphaned_sgr_mouse_tail_def Let_def split: option.splits if_splits)

lemma discard_orphaned_length:
  "discard_orphaned_sgr_mouse_tail buffer d = (r, d', b) \<Longrightarrow> length r \<le> length buffer"
  by (auto simp: discard_orphaned_sgr_mouse_tail_def Let_def split: option.splits if_splits)

lemma drain_event_decreases:
  "drain_event f = Return (DrainChunk c g) \<Longrightarrow> drain_measure g < drain_measure f"
  "drain_event f \<noteq> Return (DrainContinue g)"
  using extract_one_event_bounds [of "rf_buffer f"]
  by (fastforce simp: drain_event_def drain_measure_def outcome_bind_eq_Return split: option.splits)+

lemma stop_discarding_decreases:
  "rf_discard_until f \<noteq> None \<Longrightarrow> length b \<le> length (rf_buffer f) \<Longrightarrow>
     drain_measure (stop_discarding f b) < drain_measure f"
  by (auto simp: stop_discarding_def drain_measure_def)

lemma drain_discarding_cases:
  assumes "drain_discarding f = Return r"
  obtains (event) "rf_discard_until f = None" "drain_event f = Return r"
    | (stop) family b where "rf_discard_until f = Some family" "length b \<le> length (rf_buffer f)"
        "r = DrainContinue (stop_discarding f b)"
    | (wait) family g where "rf_discard_until f = Some family" "r = DrainBreak g"
proof (cases "rf_discard_until f")
  case None
  then show thesis using assms event by (simp add: drain_discarding_def)
next
  case (Some family)
  note cs = Some
  show thesis
  proof (cases "family = OrphanedSgrMouseTail")
    case True
    obtain b d s where o: "discard_orphaned_sgr_mouse_tail (rf_buffer f) (rf_discarded_tail_bytes f) = (b, d, s)"
      by (metis prod_cases3)
    show thesis using assms cs True o discard_orphaned_length [OF o] stop wait
      by (cases s) (auto simp: drain_discarding_def)
  next
    case False
    have r: "r = (case control_string_terminator_for_family (rf_buffer f) family of None \<Rightarrow> DrainBreak f
        | Some n \<Rightarrow> DrainContinue (stop_discarding f (drop n (rf_buffer f))))"
      using assms cs False by (cases family) (auto simp: drain_discarding_def split: option.splits)
    show thesis
    proof (cases "control_string_terminator_for_family (rf_buffer f) family")
      case None
      then show thesis using r wait [OF cs] by simp
    next
      case (Some n)
      then show thesis using r stop [OF cs, of "drop n (rf_buffer f)"] by simp
    qed
  qed
qed

lemma drain_discarding_decreases:
  "drain_discarding f = Return (DrainChunk c g) \<Longrightarrow> drain_measure g < drain_measure f"
  "drain_discarding f = Return (DrainContinue g) \<Longrightarrow> drain_measure g < drain_measure f"
  by (erule drain_discarding_cases; auto simp: drain_event_decreases intro: stop_discarding_decreases)+

lemma drain_step_decreases:
  "drain_step f = Return (DrainChunk c g) \<Longrightarrow> drain_measure g < drain_measure f"
  "drain_step f = Return (DrainContinue g) \<Longrightarrow> drain_measure g < drain_measure f"
proof -
  have m: "drain_measure (f\<lparr>rf_lone_escape_recently_flushed := b\<rparr>) = drain_measure f" for b
    by (simp add: drain_measure_def)
  show "drain_step f = Return (DrainChunk c g) \<Longrightarrow> drain_measure g < drain_measure f"
    "drain_step f = Return (DrainContinue g) \<Longrightarrow> drain_measure g < drain_measure f"
    using drain_discarding_decreases [of "f\<lparr>rf_lone_escape_recently_flushed := False\<rparr>", unfolded m]
      drain_discarding_decreases [of f] discard_complete_shorter [of "rf_buffer f"]
    by (fastforce simp: drain_step_def drain_measure_def split: if_splits option.splits)+
qed

function drain_available_chunks :: "raw_framer \<Rightarrow> (string list \<times> raw_framer) outcome" where
  "drain_available_chunks f =
     (case drain_step f of
        Panic \<Rightarrow> Panic
      | Return (DrainBreak g) \<Rightarrow> Return ([], g)
      | Return (DrainContinue g) \<Rightarrow> drain_available_chunks g
      | Return (DrainChunk c g) \<Rightarrow>
          outcome_bind (drain_available_chunks g) (\<lambda>(cs, h). Return (c # cs, h)))"
  by pat_completeness auto
termination by (relation "measure drain_measure") (auto dest: drain_step_decreases)

declare drain_available_chunks.simps [simp del]

definition push_bytes :: "raw_framer \<Rightarrow> string \<Rightarrow> (string list \<times> raw_framer) outcome" where
  "push_bytes f data = drain_available_chunks (f\<lparr>rf_buffer := rf_buffer f @ data\<rparr>)"

section \<open>Timeouts\<close>

definition osc_tail_bytes :: string where
  "osc_tail_bytes = '';:/#?._-+rgbRGB'' @ [esc]"

fun plausible_control_string_tail :: "control_string_family \<Rightarrow> string \<Rightarrow> bool" where
  "plausible_control_string_tail Osc buffer =
     list_all (\<lambda>b. digit_value b \<noteq> None \<or> b \<in> set osc_tail_bytes) buffer"
| "plausible_control_string_tail StTerminated buffer = (buffer \<noteq> [] \<and> last buffer = esc)"
| "plausible_control_string_tail HostColorSchemeCsi buffer =
     list_all (\<lambda>b. digit_value b \<noteq> None \<or> b \<in> set '';?n'') buffer"
| "plausible_control_string_tail OrphanedSgrMouseTail buffer =
     list_all (\<lambda>b. digit_value b \<noteq> None \<or> b \<in> set '';Mm'') buffer"

definition flush_discarding :: "raw_framer \<Rightarrow> control_string_family \<Rightarrow> raw_framer" where
  "flush_discarding f family =
     (if family = OrphanedSgrMouseTail
      then f\<lparr>rf_buffer := [], rf_discard_until := None, rf_discarded_tail_bytes := 0\<rparr>
      else let keep_split_st = (rf_buffer f \<noteq> [] \<and> last (rf_buffer f) = esc);
               keep_discarding = plausible_control_string_tail family (rf_buffer f);
               discarded = rf_discarded_tail_bytes f + length (rf_buffer f)
           in if keep_discarding \<and> discarded \<le> MAX_DISCARDED_CONTROL_TAIL_BYTES
              then f\<lparr>rf_buffer := (if keep_split_st then [esc] else []), rf_discarded_tail_bytes := discarded\<rparr>
              else f\<lparr>rf_buffer := [], rf_discard_until := None, rf_discarded_tail_bytes := 0\<rparr>)"

text \<open>What a timeout does with the bytes that draining has left.\<close>

definition flush_pending :: "raw_framer \<Rightarrow> string list \<times> raw_framer" where
  "flush_pending f =
     (let buffer = rf_buffer f
      in case rf_discard_until f of
           Some family \<Rightarrow> ([], flush_discarding f family)
         | None \<Rightarrow>
             if buffer = [] then ([], f)
             else if rf_lone_escape_recently_flushed f \<and> starts_with buffer ''[<''
             then ([], (discard_or_buffer_orphaned_sgr_mouse_tail f)\<lparr>rf_lone_escape_recently_flushed := False\<rparr>)
             else if starts_with_incomplete_sgr_mouse_sequence buffer
             then ([], f\<lparr>rf_discarded_tail_bytes := length buffer,
                        rf_discard_until := then_some (length buffer \<le> MAX_DISCARDED_CONTROL_TAIL_BYTES)
                                                      OrphanedSgrMouseTail,
                        rf_buffer := []\<rparr>)
             else if starts_with buffer BRACKETED_PASTE_START \<and> find_subsequence buffer BRACKETED_PASTE_END = None
             then ([], f)
             else if starts_with_incomplete_default_color_response buffer then ([], f)
             else if starts_with_incomplete_host_color_scheme_report buffer
             then ([], f\<lparr>rf_discard_until := Some HostColorSchemeCsi, rf_discarded_tail_bytes := 0, rf_buffer := []\<rparr>)
             else (case control_string buffer of
               Some (CsIncomplete family) \<Rightarrow>
                 ([], f\<lparr>rf_discard_until := Some family, rf_discarded_tail_bytes := 0, rf_buffer := []\<rparr>)
             | _ \<Rightarrow>
                 if buffer = [esc]
                 then if 0 < rf_host_color_replies_awaited f \<and> \<not> rf_held_pending_color_esc f
                      then ([], f\<lparr>rf_held_pending_color_esc := True\<rparr>)
                      else ([buffer], f\<lparr>rf_host_color_replies_awaited := 0, rf_held_pending_color_esc := False,
                                        rf_lone_escape_recently_flushed := True, rf_buffer := []\<rparr>)
                 else if utf8_valid buffer \<and> parse_terminal_key_sequence buffer \<noteq> None
                 then ([buffer], f\<lparr>rf_buffer := []\<rparr>)
                 else if starts_with_incomplete_utf8_char buffer then ([], f)
                 else if hd buffer = esc \<and> starts_with_incomplete_utf8_char (tl buffer) then ([], f)
                 else ([], f\<lparr>rf_lone_escape_recently_flushed := False, rf_buffer := []\<rparr>)))"

definition flush_timeout :: "raw_framer \<Rightarrow> (string list \<times> raw_framer) outcome" where
  "flush_timeout f =
     outcome_bind (drain_available_chunks f) (\<lambda>(chunks, g).
       case flush_pending g of (flushed, h) \<Rightarrow> Return (chunks @ flushed, h))"

section \<open>Events\<close>

fun events_from_chunks :: "string list \<Rightarrow> raw_input_event list outcome" where
  "events_from_chunks [] = Return []"
| "events_from_chunks (chunk # chunks) =
     outcome_bind (if chunk = [esc] then Return (Some (RawKey (new_key KEsc 0)))
                   else outcome_bind (extract_one_event chunk) (\<lambda>r. Return (map_option fst r)))
       (\<lambda>event. outcome_bind (events_from_chunks chunks) (\<lambda>events.
          Return (case event of Some e \<Rightarrow> e # events | None \<Rightarrow> events)))"

definition framer_push :: "raw_framer \<Rightarrow> string \<Rightarrow> (raw_input_event list \<times> raw_framer) outcome" where
  "framer_push f data =
     outcome_bind (push_bytes f data) (\<lambda>(chunks, g).
       outcome_bind (events_from_chunks chunks) (\<lambda>events. Return (events, g)))"

definition framer_flush_timeout :: "raw_framer \<Rightarrow> (raw_input_event list \<times> raw_framer) outcome" where
  "framer_flush_timeout f =
     outcome_bind (flush_timeout f) (\<lambda>(chunks, g).
       outcome_bind (events_from_chunks chunks) (\<lambda>events. Return (events, g)))"

definition parse_raw_input_bytes_sync :: "string \<Rightarrow> raw_input_event list outcome" where
  "parse_raw_input_bytes_sync data =
     outcome_bind (framer_push new_framer data) (\<lambda>(events, f).
       outcome_bind (framer_flush_timeout f) (\<lambda>(flushed, _). Return (events @ flushed)))"

definition parse_raw_input_bytes :: "string \<Rightarrow> raw_input_event list outcome" where
  "parse_raw_input_bytes data = parse_raw_input_bytes_sync data"

definition events_require_host_terminal_theme_query :: "raw_input_event list \<Rightarrow> bool" where
  "events_require_host_terminal_theme_query events =
     list_ex (\<lambda>e. case e of RawHostColorSchemeChanged _ \<Rightarrow> True | _ \<Rightarrow> False) events"

definition RAW_INPUT_IDLE_FLUSH_TIMEOUT_MS :: int where "RAW_INPUT_IDLE_FLUSH_TIMEOUT_MS = 10"
definition MOUSE_ACTIVE_ESCAPE_SEQUENCE_FLUSH_TIMEOUT_MS :: int where
  "MOUSE_ACTIVE_ESCAPE_SEQUENCE_FLUSH_TIMEOUT_MS = 150"

definition input_flush_timeout_ms :: "raw_framer \<Rightarrow> int" where
  "input_flush_timeout_ms f =
     (if has_pending_incomplete_sgr_mouse_sequence f then MOUSE_ACTIVE_ESCAPE_SEQUENCE_FLUSH_TIMEOUT_MS
      else RAW_INPUT_IDLE_FLUSH_TIMEOUT_MS)"

definition events_require_host_surface_redraw :: "raw_input_event list \<Rightarrow> bool \<Rightarrow> bool" where
  "events_require_host_surface_redraw events redraw_on_focus_gained =
     (redraw_on_focus_gained \<and> list_ex (\<lambda>e. e = OuterFocusGained) events)"

end
