(* ===== verification/RawStream.thy ===== *)
theory RawStream
  imports RawFramer
begin

text \<open>
  The framer as a stream processor.  An extractor that takes a positive part of the buffer, and takes the
  same part when more bytes follow, cuts a stream in one way only, however the stream arrives; the laws are
  a locale, interpreted on \<^const>\<open>extract_one_event\<close>.
\<close>

section \<open>Cutting a stream\<close>

inductive cuts :: "(string \<Rightarrow> ('e \<times> nat) option outcome) \<Rightarrow> string \<Rightarrow> ('e \<times> string) list \<Rightarrow> string \<Rightarrow> bool"
  for scan where
  stop: "scan b = Return None \<Longrightarrow> cuts scan b [] b"
| cut: "scan b = Return (Some (e, n)) \<Longrightarrow> cuts scan (drop n b) cs r \<Longrightarrow>
     cuts scan b ((e, take n b) # cs) r"

inductive panics :: "(string \<Rightarrow> ('e \<times> nat) option outcome) \<Rightarrow> string \<Rightarrow> bool" for scan where
  now: "scan b = Panic \<Longrightarrow> panics scan b"
| later: "scan b = Return (Some (e, n)) \<Longrightarrow> panics scan (drop n b) \<Longrightarrow> panics scan b"

locale stream_extractor =
  fixes scan :: "string \<Rightarrow> ('e \<times> nat) option outcome"
  assumes bounds: "scan b = Return (Some (e, n)) \<Longrightarrow> 1 \<le> n \<and> n \<le> length b"
    and stable: "scan b = Return (Some (e, n)) \<Longrightarrow> scan (b @ x) = Return (Some (e, n))"
    and stable_panic: "scan b = Panic \<Longrightarrow> scan (b @ x) = Panic"
begin

lemma cuts_concat: "cuts scan b cs r \<Longrightarrow> concat (map snd cs) @ r = b"
  by (induction rule: cuts.induct) auto

lemma cuts_nonempty: "cuts scan b cs r \<Longrightarrow> [] \<notin> snd ` set cs"
  by (induction rule: cuts.induct) (auto dest: bounds)

lemma cuts_rest: "cuts scan b cs r \<Longrightarrow> scan r = Return None"
  by (induction rule: cuts.induct) auto

lemma cuts_append:
  "cuts scan a cs r \<Longrightarrow> cuts scan (r @ b) ds s \<Longrightarrow> cuts scan (a @ b) (cs @ ds) s"
proof (induction rule: cuts.induct)
  case (cut a e n cs r)
  then have "cuts scan (drop n (a @ b)) (cs @ ds) s" using bounds [OF cut(1)] by simp
  from cuts.cut [of scan "a @ b" e n, OF stable [OF cut(1)] this] show ?case using bounds [OF cut(1)] by simp
qed simp

text \<open>Each piece is an event on its own.\<close>

lemma cuts_pieces:
  "cuts scan b cs r \<Longrightarrow> (e, c) \<in> set cs \<Longrightarrow> \<exists>b' n. scan b' = Return (Some (e, n)) \<and> c = take n b'"
  by (induction rule: cuts.induct) auto

lemma panics_append: "panics scan a \<Longrightarrow> panics scan (a @ b)"
proof (induction rule: panics.induct)
  case (later a e n)
  then have "panics scan (drop n (a @ b))" using bounds [OF later(1)] by simp
  with stable [OF later(1)] show ?case by (rule panics.later)
qed (rule panics.now, rule stable_panic)

lemma cuts_panics:
  "cuts scan a cs r \<Longrightarrow> panics scan (r @ b) \<Longrightarrow> panics scan (a @ b)"
proof (induction rule: cuts.induct)
  case (cut a e n cs r)
  then have "panics scan (drop n (a @ b))" using bounds [OF cut(1)] by simp
  with stable [OF cut(1)] show ?case by (rule panics.later)
qed simp

lemma cuts_or_panics: "(\<exists>cs r. cuts scan b cs r) \<or> panics scan b"
proof (induction b rule: length_induct)
  case (1 b)
  show ?case
  proof (cases "scan b")
    case Panic
    then show ?thesis using panics.now by blast
  next
    case (Return o')
    show ?thesis
    proof (cases o')
      case None
      then show ?thesis using Return cuts.stop by metis
    next
      case (Some p)
      obtain e n where p: "p = (e, n)" by (cases p)
      with Return Some have e: "scan b = Return (Some (e, n))" by simp
      then have "length (drop n b) < length b" using bounds [OF e] by auto
      with 1 show ?thesis using cuts.cut [of scan b e n, OF e] panics.later [of scan b e n, OF e] by blast
    qed
  qed
qed

end

section \<open>The extractor of the framer\<close>

lemma find_subsequence_append:
  "find_subsequence xs needle = Some i \<Longrightarrow> find_subsequence (xs @ ys) needle = Some i"
proof (induction xs arbitrary: i)
  case (Cons x xs)
  show ?case
  proof (cases "starts_with (x # xs) needle")
    case True
    with Cons.prems show ?thesis using starts_with_append [OF True, of ys] by simp
  next
    case False
    with Cons.prems obtain k where k: "find_subsequence xs needle = Some k" "i = Suc k" by auto
    have "\<not> starts_with (x # xs @ ys) needle"
      using False starts_with_append_short [of "x # xs" ys needle] find_subsequence_Some [OF k(1)] by auto
    with k Cons.IH show ?thesis by simp
  qed
qed simp

lemma find_subsequence_late:
  "find_subsequence xs needle = None \<Longrightarrow> find_subsequence (xs @ ys) needle = Some i \<Longrightarrow> needle \<noteq> [] \<Longrightarrow>
     length xs < i + length needle"
proof (induction xs arbitrary: i)
  case (Cons x xs)
  show ?case
  proof (cases i)
    case 0
    with Cons.prems have "starts_with (x # xs @ ys) needle" by (auto split: if_splits)
    with Cons.prems(1) show ?thesis
      using starts_with_append_short [of "x # xs" ys needle] 0 by (fastforce split: if_splits)
  next
    case (Suc k)
    with Cons show ?thesis by (auto split: if_splits)
  qed
qed auto

lemma find_csi_final_append:
  "find_csi_final xs finals = Some n \<Longrightarrow> find_csi_final (xs @ ys) finals = Some n"
proof -
  assume a: "find_csi_final xs finals = Some n"
  then have "drop 2 (xs @ ys) = drop 2 xs @ ys" using find_csi_final_bounds [OF a] by simp
  with a show ?thesis by (auto simp: find_csi_final_def position_append)
qed

lemma terminator_append:
  "control_string_terminator_for_family xs family = Some n \<Longrightarrow>
     control_string_terminator_for_family (xs @ ys) family = Some n"
proof (cases family)
  case Osc
  let ?st = "\<lambda>zs. find_subsequence zs [esc, CHR 0x5C]" and ?bel = "\<lambda>zs. position (\<lambda>b. b = CHR 0x07) zs"
  assume "control_string_terminator_for_family xs family = Some n"
  with Osc show ?thesis
    using find_subsequence_append [of xs "[esc, CHR 0x5C]" _ ys] find_subsequence_Some [of xs "[esc, CHR 0x5C]"]
      find_subsequence_late [of xs "[esc, CHR 0x5C]" ys] position_append [of "\<lambda>b. b = CHR 0x07" xs _ ys]
      position_late [of "\<lambda>b. b = CHR 0x07" xs ys] position_Some [of "\<lambda>b. b = CHR 0x07" xs]
    by (cases "?st xs"; cases "?bel xs"; cases "?st (xs @ ys)"; cases "?bel (xs @ ys)")
      (fastforce simp: osc_string_terminator_def Let_def min_def)+
qed (auto simp: st_string_terminator_def find_subsequence_append position_append)

lemma control_string_append:
  assumes "2 \<le> length xs"
  shows "control_string xs = None \<Longrightarrow> control_string (xs @ ys) = None"
    "control_string xs = Some (CsComplete n family) \<Longrightarrow> control_string (xs @ ys) = Some (CsComplete n family)"
proof -
  have i: "introducer_family (take 2 (xs @ ys)) = introducer_family (take 2 xs)" using assms by simp
  show "control_string xs = None \<Longrightarrow> control_string (xs @ ys) = None"
    using assms i by (simp add: control_string_def)
  show "control_string (xs @ ys) = Some (CsComplete n family)" if "control_string xs = Some (CsComplete n family)"
  proof -
    from that assms have "introducer_family (take 2 xs) = Some family"
      and "control_string_terminator_for_family xs family = Some n"
      by (auto simp: control_string_def split: option.splits)
    with assms i terminator_append show ?thesis by (simp add: control_string_def)
  qed
qed

lemma complete_escape_sequence_len_append:
  "complete_escape_sequence_len xs = Some n \<Longrightarrow> complete_escape_sequence_len (xs @ ys) = Some n"
proof (induction xs arbitrary: n rule: complete_escape_sequence_len.induct)
  case (3 b c rest)
  let ?b = "b # c # rest"
  note len = 3(2)
  have mouse: "escape_before_mouse (?b @ ys) = escape_before_mouse ?b"
  proof (cases "starts_with ?b (esc # esc # ''[<'')")
    case True
    then have bc: "b = esc" "c = esc" "\<exists>r. rest = CHR ''['' # CHR ''<'' # r" by (auto simp: starts_with_iff)
    show ?thesis
    proof (cases "find_csi_final (tl ?b) ''Mm''")
      case None
      then have "escape_before_mouse ?b = None" by (simp add: escape_before_mouse_def)
      then have "complete_escape_sequence_len (c # rest) \<noteq> None" using len bc by auto
      moreover have "escape_before_mouse (c # rest) = None" "\<not> (c = esc \<and> CHR ''['' = esc)"
        "starts_with (c # rest) (esc # ''[<'')"
        using bc by (auto simp: escape_before_mouse_def starts_with_iff)
      ultimately have False using None bc by auto
      then show ?thesis ..
    next
      case (Some m)
      then have "find_csi_final (tl (?b @ ys)) ''Mm'' = Some m" using find_csi_final_append [OF Some, of ys] by simp
      moreover have "take m (tl (?b @ ys)) = take m (tl ?b)" using find_csi_final_bounds [OF Some] by (cases m) auto
      ultimately show ?thesis using Some True starts_with_append [OF True, of ys]
        by (simp add: escape_before_mouse_def)
    qed
  next
    case False
    have "\<not> starts_with (?b @ ys) (esc # esc # ''[<'')"
    proof
      assume s: "starts_with (?b @ ys) (esc # esc # ''[<'')"
      with False have "length ?b < 4" using starts_with_append_short [of ?b ys] by fastforce
      with s have "b = esc" "c = esc" "rest = [] \<or> rest = [CHR ''['']"
        by (cases rest; cases "tl rest"; auto simp: starts_with_def)+
      with len show False
        by (auto simp: escape_before_mouse_def find_csi_final_def starts_with_def split: option.splits)
    qed
    with False show ?thesis by (simp add: escape_before_mouse_def)
  qed
  show ?case
  proof (cases "escape_before_mouse ?b")
    case (Some r)
    with len mouse show ?thesis by (auto simp: Let_def)
  next
    case None
    have sw: "starts_with (?b @ ys) (esc # ''[<'') = starts_with ?b (esc # ''[<'')"
      if "rest \<noteq> []" using that by (cases rest) (auto simp: starts_with_def)
    consider "b = esc" "c = esc" | "b = esc" "c = CHR ''[''" | "\<not> (b = esc \<and> c \<in> {esc, CHR ''[''})" by auto
    then show ?thesis
    proof cases
      case 1
      with 3(1) [OF _ None] len None mouse show ?thesis by auto
    next
      case 2
      have "rest \<noteq> []" using len None 2 by (auto simp: find_csi_final_def)
      with len None mouse 2 sw find_csi_final_append [of ?b _ n ys] show ?thesis by auto
    next
      case 3
      show ?thesis
      proof (cases "control_string ?b")
        case None
        have "control_string (?b @ ys) = None" using control_string_append(1) [OF _ None, of ys] by simp
        note none = this None mouse 3 \<open>escape_before_mouse ?b = None\<close>
        show ?thesis
        proof (cases "b = esc \<and> c = CHR ''O''")
          case True
          with len none show ?thesis by auto
        next
          case False
          with len none obtain w where w: "utf8_char_width c = Some w" "w \<le> length (c # rest)"
            "utf8_valid (take w (c # rest))" "n = Suc w"
            by (auto simp: bind_eq_Some_conv not_less Let_def split: if_splits)
          then have "take w (c # rest @ ys) = take w (c # rest)" by (cases w) auto
          with w none False show ?thesis by (auto simp: Let_def)
        qed
      next
        case (Some cs)
        with len 3 \<open>escape_before_mouse ?b = None\<close> obtain family where
          cs: "control_string ?b = Some (CsComplete n family)" by (cases cs) auto
        have "control_string (?b @ ys) = Some (CsComplete n family)"
          using control_string_append(2) [OF _ cs, of ys] by simp
        with mouse 3 \<open>escape_before_mouse ?b = None\<close> show ?thesis by auto
      qed
    qed
  qed
qed auto

lemma complete_escape_sequence_len_take:
  "complete_escape_sequence_len xs = Some n \<Longrightarrow> take n (xs @ ys) = take n xs"
  using complete_escape_sequence_len_bounds by fastforce

text \<open>The start of a bracketed paste is no complete sequence before its last byte.\<close>

lemma paste_start_prefix:
  assumes "starts_with (xs @ ys) BRACKETED_PASTE_START" and "\<not> starts_with xs BRACKETED_PASTE_START"
  shows "complete_escape_sequence_len xs = None"
proof -
  have "length xs < 6" using assms starts_with_append_short [of xs ys BRACKETED_PASTE_START]
    by (force simp: BRACKETED_PASTE_START_def)
  have start: "BRACKETED_PASTE_START = take 6 (xs @ ys)"
    using assms(1) by (simp add: starts_with_def BRACKETED_PASTE_START_def eval_nat_numeral)
  have "xs = take (length xs) BRACKETED_PASTE_START" "length xs \<in> set [0..<6]"
    using \<open>length xs < 6\<close> unfolding start by simp_all
  moreover have "list_all (\<lambda>n. complete_escape_sequence_len (take n BRACKETED_PASTE_START) = None) [0..<6]"
    by (simp add: BRACKETED_PASTE_START_def escape_before_mouse_def starts_with_def find_csi_final_def
        csi_finals_def upt_rec)
  ultimately show ?thesis unfolding list_all_iff by metis
qed

lemma first_complete_utf8_char_len_append:
  "first_complete_utf8_char_len xs = Some n \<Longrightarrow>
     first_complete_utf8_char_len (xs @ ys) = Some n \<and> take n (xs @ ys) = take n xs"
proof -
  assume a: "first_complete_utf8_char_len xs = Some n"
  then obtain b bs where xs: "xs = b # bs" and "utf8_char_width b = Some n" "n \<le> length xs" "utf8_valid (take n xs)"
    by (auto simp: first_complete_utf8_char_len_def bind_eq_Some_conv not_less split: list.splits if_splits)
  moreover from this have "take n (xs @ ys) = take n xs" by (cases n) auto
  ultimately show ?thesis by (simp add: first_complete_utf8_char_len_def)
qed

text \<open>An escape sequence that the extractor looks at is looked at in the same way when more bytes follow.\<close>

lemma extract_one_event_append:
  assumes "extract_one_event xs \<noteq> Return None"
  shows "extract_one_event (xs @ ys) = extract_one_event xs"
proof (cases xs)
  case (Cons b bs)
  show ?thesis
  proof (cases "starts_with xs BRACKETED_PASTE_START")
    case True
    with assms Cons obtain i where i: "find_subsequence xs BRACKETED_PASTE_END = Some i"
      by (cases "find_subsequence xs BRACKETED_PASTE_END") (auto simp: extract_one_event_def)
    then have "i + 6 \<le> length xs" using find_subsequence_Some [OF i] by (simp add: BRACKETED_PASTE_END_def)
    then have "take (i - length BRACKETED_PASTE_START) (drop (length BRACKETED_PASTE_START) (xs @ ys)) =
        take (i - length BRACKETED_PASTE_START) (drop (length BRACKETED_PASTE_START) xs)"
      by (simp add: BRACKETED_PASTE_START_def)
    then show ?thesis
      using True Cons i find_subsequence_append [OF i, of ys] starts_with_append [OF True, of ys]
      by (simp add: extract_one_event_def Let_def)
  next
    case no_paste: False
    show ?thesis
    proof (cases "b = esc")
      case True
      with assms no_paste Cons obtain n where n: "complete_escape_sequence_len xs = Some n"
        by (cases "complete_escape_sequence_len xs") (auto simp: extract_one_event_def)
      then have "\<not> starts_with (xs @ ys) BRACKETED_PASTE_START"
        using paste_start_prefix [OF _ no_paste, of ys] by auto
      then show ?thesis
        using True Cons no_paste n complete_escape_sequence_len_append [OF n, of ys]
          complete_escape_sequence_len_take [OF n, of ys]
        by (simp add: extract_one_event_def Let_def)
    next
      case False
      with assms no_paste Cons obtain n where n: "first_complete_utf8_char_len xs = Some n"
        by (cases "first_complete_utf8_char_len xs") (auto simp: extract_one_event_def)
      have "\<not> starts_with (xs @ ys) BRACKETED_PASTE_START"
        using False Cons by (auto simp: starts_with_iff BRACKETED_PASTE_START_def)
      then show ?thesis
        using False Cons no_paste n first_complete_utf8_char_len_append [OF n, of ys]
        by (simp add: extract_one_event_def Let_def)
    qed
  qed
qed (use assms in \<open>simp add: extract_one_event_def\<close>)

interpretation raw: stream_extractor extract_one_event
  by unfold_locales (auto simp: extract_one_event_append dest: extract_one_event_bounds)

lemma cuts_wait: "extract_one_event b = Return None \<Longrightarrow> cuts extract_one_event b [] b"
  by (rule cuts.stop)

section \<open>The framer between timeouts\<close>

text \<open>A framer that discards nothing and has not just released an escape.\<close>

definition plain_framer :: "raw_framer \<Rightarrow> bool" where
  "plain_framer f \<longleftrightarrow> rf_discard_until f = None \<and> \<not> rf_lone_escape_recently_flushed f"

text \<open>The state behind a list of events and the bytes that remain.\<close>

definition after_events :: "raw_framer \<Rightarrow> raw_input_event list \<Rightarrow> string \<Rightarrow> raw_framer" where
  "after_events f events r = (fold (\<lambda>e g. note_event g e) events f)\<lparr>rf_buffer := r\<rparr>"

lemma fold_note_event_buffer:
  "fold (\<lambda>e g. note_event g e) events (f\<lparr>rf_buffer := b\<rparr>) = (fold (\<lambda>e g. note_event g e) events f)\<lparr>rf_buffer := b\<rparr>"
proof (induction events arbitrary: f)
  case (Cons e es)
  have "note_event (f\<lparr>rf_buffer := b\<rparr>) e = (note_event f e)\<lparr>rf_buffer := b\<rparr>"
    by (simp add: note_event_def Let_def host_color_query_sent_def split: raw_input_event.split)
  with Cons show ?case by simp
qed simp

lemma plain_drain_step: "plain_framer f \<Longrightarrow> drain_step f = drain_event f"
  by (simp add: plain_framer_def drain_step_def drain_discarding_def)

lemma plain_note_event: "plain_framer (note_event f e) = plain_framer f"
  "plain_framer (f\<lparr>rf_buffer := b\<rparr>) = plain_framer f"
  by (simp_all add: plain_framer_def)

lemma drain_plain_cuts:
  assumes "plain_framer f" and "cuts extract_one_event (rf_buffer f) cs r"
  shows "drain_available_chunks f = Return (map snd cs, after_events f (map fst cs) r)"
  using assms(2,1)
proof (induction "rf_buffer f" cs r arbitrary: f rule: cuts.induct)
  case stop
  then show ?case
    by (subst drain_available_chunks.simps) (simp add: plain_drain_step drain_event_def after_events_def)
next
  case (cut e n cs r)
  let ?g = "(note_event f e)\<lparr>rf_buffer := drop n (rf_buffer f)\<rparr>"
  have "drain_available_chunks ?g = Return (map snd cs, after_events ?g (map fst cs) r)"
    by (rule cut(3)) (simp_all add: plain_note_event cut)
  moreover have "after_events ?g (map fst cs) r = after_events f (e # map fst cs) r"
    by (simp add: after_events_def fold_note_event_buffer)
  ultimately show ?case
    by (subst drain_available_chunks.simps) (simp add: plain_drain_step cut drain_event_def)
qed

lemma drain_plain_panics:
  assumes "panics extract_one_event (rf_buffer f)" and "plain_framer f"
  shows "drain_available_chunks f = Panic"
  using assms
proof (induction "rf_buffer f" arbitrary: f rule: panics.induct)
  case now
  then show ?case
    by (subst drain_available_chunks.simps) (simp add: plain_drain_step drain_event_def)
next
  case (later e n)
  let ?g = "(note_event f e)\<lparr>rf_buffer := drop n (rf_buffer f)\<rparr>"
  have "drain_available_chunks ?g = Panic"
    by (rule later(3)) (simp_all add: plain_note_event later)
  then show ?case
    by (subst drain_available_chunks.simps) (simp add: plain_drain_step later drain_event_def)
qed

lemma after_events_append:
  "after_events (after_events f es r) ds s = after_events f (es @ ds) s"
  by (simp add: after_events_def fold_note_event_buffer)

lemma plain_after_events: "plain_framer (after_events f es r) = plain_framer f"
  unfolding after_events_def by (induction es arbitrary: f) (simp_all add: plain_note_event)

lemma after_events_buffer [simp]: "rf_buffer (after_events f es r) = r"
  by (simp add: after_events_def)

lemma after_events_set_buffer: "(after_events f es r)\<lparr>rf_buffer := b\<rparr> = after_events f es b"
  by (simp add: after_events_def)

lemma push_bytes_cuts:
  assumes "plain_framer f" and "cuts extract_one_event (rf_buffer f @ data) cs r"
  shows "push_bytes f data = Return (map snd cs, after_events f (map fst cs) r)"
  using drain_plain_cuts [of "f\<lparr>rf_buffer := rf_buffer f @ data\<rparr>" cs r] assms
  by (simp add: push_bytes_def plain_note_event after_events_def fold_note_event_buffer)

lemma push_bytes_panics:
  "plain_framer f \<Longrightarrow> panics extract_one_event (rf_buffer f @ data) \<Longrightarrow> push_bytes f data = Panic"
  using drain_plain_panics by (simp add: push_bytes_def plain_note_event)

text \<open>Pushing bytes into a plain framer: its stream is cut, or its extractor panics.\<close>

lemma push_bytes_cases:
  assumes "plain_framer f"
  obtains (cuts) cs r where "cuts extract_one_event (rf_buffer f @ data) cs r"
      "push_bytes f data = Return (map snd cs, after_events f (map fst cs) r)"
    | (panic) "panics extract_one_event (rf_buffer f @ data)" "push_bytes f data = Panic"
  using raw.cuts_or_panics push_bytes_cuts [OF assms] push_bytes_panics [OF assms] by meson

end
