(* ===== verification/KeyProps.thy ===== *)
theory KeyProps
  imports KeyEncode
begin

text \<open>
  The properties of key input (\<open>src/input/\<close>): what the parser reads is what the encoder wrote, for the
  Kitty protocol, the modified special keys and legacy text, and the ranges of the mouse encodings.
\<close>

section \<open>Modifiers\<close>

lemma kitty_modifier_bound: "kitty_modifier mods \<le> 64" "1 \<le> kitty_modifier mods"
  by (simp_all add: kitty_modifier_def xterm_modifier_def)

lemma kitty_modifier_table:
  "list_all (\<lambda>n. key_modifiers_from_u8 (of_nat (kitty_modifier (of_nat n)) - 1) = of_nat n) [0..<64]"
  by code_simp

lemma kitty_modifier_round_trip:
  assumes "mods < 64"
  shows "key_modifiers_from_u8 (of_nat (kitty_modifier mods) - 1) = mods"
proof -
  have "unat mods \<in> set [0..<64]" using assms by (simp add: word_less_nat_alt)
  then show ?thesis using kitty_modifier_table unfolding list_all_iff by fastforce
qed

lemma parse_modifier_kitty:
  "parse_modifier (show_nat (kitty_modifier mods)) = Some (of_nat (kitty_modifier mods) - 1)"
proof -
  have b: "kitty_modifier mods < 256" "1 \<le> kitty_modifier mods" using kitty_modifier_bound [of mods] by auto
  then have "\<not> (of_nat (kitty_modifier mods) :: u8) < 1"
    by (simp add: word_less_nat_alt unat_of_nat)
  with b show ?thesis
    by (simp add: parse_modifier_def parse_u8_show_nat checked_sub_def)
qed

section \<open>Kitty sequences\<close>

lemma strip_csi_u:
  "strip_prefix (csi_u_sequence cp alt m ev) [esc, CHR ''[''] =
     Some (show_nat cp @ (case alt of Some s \<Rightarrow> CHR '':'' # show_nat s | None \<Rightarrow> []) @
       CHR '';'' # show_nat m @ (case ev of Some e \<Rightarrow> CHR '':'' # show_nat e | None \<Rightarrow> []) @ ''u'')"
  by (simp add: csi_u_sequence_def strip_prefix_Some)

lemma show_nat_no_sep: "CHR '';'' \<notin> set (show_nat n)" "CHR '':'' \<notin> set (show_nat n)"
  by (rule show_nat_no_char, simp)+

text \<open>The key part and the modifier part of a sequence the encoder writes.\<close>

lemma csi_u_fields:
  defines "opt \<equiv> \<lambda>x. case x of Some s \<Rightarrow> CHR '':'' # show_nat s | None \<Rightarrow> []"
  shows "split_on CHR '';'' (show_nat cp @ opt alt @ CHR '';'' # show_nat m @ opt ev) =
    [show_nat cp @ opt alt, show_nat m @ opt ev]"
proof -
  have no: "CHR '';'' \<notin> set (show_nat n @ opt x)" for n x
    using show_nat_no_sep by (auto simp: opt_def split: option.splits)
  show ?thesis
    using split_on_append [OF no, of cp alt "show_nat m @ opt ev"] split_on_field [OF no, of m ev] by simp
qed

lemma csi_u_key_fields:
  "split_on CHR '':'' (show_nat cp @ (case alt of Some s \<Rightarrow> CHR '':'' # show_nat s | None \<Rightarrow> [])) =
    show_nat cp # (case alt of Some s \<Rightarrow> [show_nat s] | None \<Rightarrow> [])"
  using split_on_append [OF show_nat_no_sep(2), of cp] split_on_field [OF show_nat_no_sep(2)]
  by (cases alt) simp_all

lemma csi_u_modifier_fields:
  "split_modifier_and_event (show_nat m @ (case ev of Some e \<Rightarrow> CHR '':'' # show_nat e | None \<Rightarrow> [])) =
    (show_nat m, map_option show_nat ev)"
  using split_once_append [OF show_nat_no_sep(2), of m] split_once_None [OF show_nat_no_sep(2), of m]
  by (cases ev) (simp_all add: split_modifier_and_event_def)

lemma parse_csi_u_sequence:
  assumes "cp < 4294967296" and "\<forall>s. alt = Some s \<longrightarrow> s < 4294967296" and "mods < 64"
    and code: "kitty_codepoint_to_keycode cp = Some code"
    and kind: "parse_kitty_event_type (map_option show_nat ev) = Some kind"
  shows "parse_kitty_key_sequence (csi_u_sequence cp alt (kitty_modifier mods) ev) =
    Some \<lparr>tk_code = code, tk_modifiers = mods, tk_kind = kind, tk_shifted_codepoint = alt\<rparr>"
proof -
  define opt where "opt = (\<lambda>x. case x of Some s \<Rightarrow> CHR '':'' # show_nat s | None \<Rightarrow> [])"
  let ?m = "kitty_modifier mods"
  let ?body = "show_nat cp @ opt alt @ CHR '';'' # show_nat ?m @ opt ev"
  have "strip_suffix (?body @ ''u'') ''u'' = Some ?body" by (simp add: strip_suffix_Some)
  moreover have "strip_prefix (csi_u_sequence cp alt ?m ev) [esc, CHR ''[''] = Some (?body @ ''u'')"
    unfolding strip_csi_u opt_def by simp
  ultimately show ?thesis
    using assms(1,2) parse_u32_show_nat [of cp] parse_u32_show_nat
      csi_u_fields [of cp alt ?m ev, folded opt_def] csi_u_key_fields [of cp alt, folded opt_def]
      csi_u_modifier_fields [of ?m ev, folded opt_def]
    by (cases alt) (simp_all add: parse_kitty_key_sequence_def Let_def parse_modifier_kitty code kind
        kitty_modifier_round_trip [OF assms(3)])
qed

lemma event_type_round_trip:
  "parse_kitty_event_type (map_option show_nat (kitty_event_suffix key flags)) =
    Some (if flags AND KITTY_FLAG_REPORT_EVENT_TYPES = 0 then KeyPress else tk_kind key)"
proof -
  have "show_nat 1 = ''1''" "show_nat 2 = ''2''" "show_nat 3 = ''3''" by code_simp+
  then show ?thesis
    by (cases "tk_kind key") (simp_all add: kitty_event_suffix_def parse_kitty_event_type_def)
qed

text \<open>The key the receiver of a Kitty sequence sees: a shifted capital becomes the letter with its
  alternate, and without event types every event is a press.\<close>

definition kitty_view :: "terminal_key \<Rightarrow> u16 \<Rightarrow> terminal_key" where
  "kitty_view key flags =
     (case tk_code key of
        KChar c \<Rightarrow> key\<lparr>tk_code := KChar (canonical_kitty_char c (tk_modifiers key)),
                       tk_shifted_codepoint := alternate_shifted_codepoint key flags\<rparr>
      | _ \<Rightarrow> key\<lparr>tk_shifted_codepoint := None\<rparr>)
     \<lparr>tk_kind := (if flags AND KITTY_FLAG_REPORT_EVENT_TYPES = 0 then KeyPress else tk_kind key)\<rparr>"

lemma kitty_view_fields:
  "tk_modifiers (kitty_view key flags) = tk_modifiers key"
  "tk_kind (kitty_view key flags) =
     (if flags AND KITTY_FLAG_REPORT_EVENT_TYPES = 0 then KeyPress else tk_kind key)"
  by (simp_all add: kitty_view_def split: key_code.split)

text \<open>Characters that the Kitty protocol does not use for keys.\<close>

definition kitty_text_char :: "nat \<Rightarrow> bool" where
  "kitty_text_char c \<longleftrightarrow> scalar_value c \<and> c \<notin> {8, 9, 13, 27, 127} \<and> \<not> is_kitty_functional_codepoint c"

lemma kitty_table_keys:
  "\<forall>(k, _) \<in> set kitty_key_table. k \<in> {8, 9, 13, 27, 127} \<or> is_kitty_functional_codepoint k"
  by (simp add: kitty_key_table_def is_kitty_functional_codepoint_def)

lemma kitty_text_keycode: "kitty_text_char c \<Longrightarrow> kitty_codepoint_to_keycode c = Some (KChar c)"
proof -
  assume c: "kitty_text_char c"
  then have "map_of kitty_key_table c = None"
    using kitty_table_keys by (force simp: kitty_text_char_def map_of_eq_None_iff)
  with c show ?thesis
    by (auto simp: kitty_codepoint_to_keycode_def kitty_text_char_def is_kitty_functional_codepoint_def
        char_from_u32_def)
qed

lemma kitty_text_canonical:
  "kitty_text_char c \<Longrightarrow> kitty_text_char (canonical_kitty_char c mods)"
  by (auto simp: kitty_text_char_def canonical_kitty_char_def to_ascii_lowercase_def is_ascii_uppercase_def
      scalar_value_def is_kitty_functional_codepoint_def)

lemma kitty_keycode_table:
  "map (\<lambda>c. kitty_codepoint_to_keycode c) [13, 9, 127, 27, 57417, 57418, 57419, 57420, 57421, 57422,
     57423, 57424, 57425, 57426] =
   [Some KEnter, Some KTab, Some KBackspace, Some KEsc, Some KLeft, Some KRight, Some KUp, Some KDown,
     Some KPageUp, Some KPageDown, Some KHome, Some KEnd, Some KInsert, Some KDelete]"
  by (simp add: kitty_codepoint_to_keycode_def kitty_key_table_def)

text \<open>The code point the encoder chooses stands for the key's code.\<close>

lemma csi_u_codepoint_keycode:
  assumes "csi_u_codepoint key flags = Some (cp, alt)"
    and "\<And>c. tk_code key = KChar c \<Longrightarrow> kitty_text_char c"
    and "\<And>s. tk_shifted_codepoint key = Some s \<Longrightarrow> s < 4294967296"
  shows "kitty_codepoint_to_keycode cp = Some (tk_code (kitty_view key flags))"
    and "alt = tk_shifted_codepoint (kitty_view key flags)"
    and "cp < 4294967296" and "\<forall>s. alt = Some s \<longrightarrow> s < 4294967296"
proof -
  have "kitty_codepoint_to_keycode cp = Some (tk_code (kitty_view key flags)) \<and>
      alt = tk_shifted_codepoint (kitty_view key flags) \<and> cp < 4294967296 \<and>
      (\<forall>s. alt = Some s \<longrightarrow> s < 4294967296)"
  proof (cases "\<exists>c. tk_code key = KChar c")
    case True
    then obtain c where c: "tk_code key = KChar c" by blast
    from assms(1) c have cp: "cp = canonical_kitty_char c (tk_modifiers key)"
      "alt = alternate_shifted_codepoint key flags" by (auto simp: csi_u_codepoint_def)
    note char_ok = kitty_text_canonical [OF assms(2) [OF c], of "tk_modifiers key"]
    have "cp < 4294967296" using char_ok by (auto simp: cp kitty_text_char_def scalar_value_def)
    moreover have "\<forall>s. alt = Some s \<longrightarrow> s < 4294967296"
      using assms(3) by (auto simp: cp alternate_shifted_codepoint_def is_ascii_uppercase_def
          split: if_splits option.splits key_code.splits)
    ultimately show ?thesis
      using kitty_text_keycode [OF char_ok] by (simp add: cp kitty_view_def c)
  next
    case False
    with assms(1) kitty_keycode_table show ?thesis
      by (cases "tk_code key") (auto simp: csi_u_codepoint_def kitty_view_def)
  qed
  then show "kitty_codepoint_to_keycode cp = Some (tk_code (kitty_view key flags))"
    "alt = tk_shifted_codepoint (kitty_view key flags)" "cp < 4294967296"
    "\<forall>s. alt = Some s \<longrightarrow> s < 4294967296" by simp_all
qed

lemma kitty_key_parses:
  assumes "try_encode_csi_u key flags = Some s" and "tk_modifiers key < 64"
    and "\<And>c. tk_code key = KChar c \<Longrightarrow> kitty_text_char c"
    and "\<And>s. tk_shifted_codepoint key = Some s \<Longrightarrow> s < 4294967296"
  shows "parse_terminal_key_sequence s = Some (kitty_view key flags)"
proof -
  from assms(1) obtain cp alt where cp: "csi_u_codepoint key flags = Some (cp, alt)"
    and s: "s = csi_u_sequence cp alt (kitty_modifier (tk_modifiers key)) (kitty_event_suffix key flags)"
    by (auto simp: try_encode_csi_u_def Let_def split: if_splits)
  note c = csi_u_codepoint_keycode [OF cp assms(3,4)]
  have "parse_kitty_key_sequence s =
      Some \<lparr>tk_code = tk_code (kitty_view key flags), tk_modifiers = tk_modifiers key,
        tk_kind = (if flags AND KITTY_FLAG_REPORT_EVENT_TYPES = 0 then KeyPress else tk_kind key),
        tk_shifted_codepoint = alt\<rparr>"
    unfolding s by (rule parse_csi_u_sequence [OF c(3,4) assms(2) c(1) event_type_round_trip])
  also have "\<dots> = Some (kitty_view key flags)"
    unfolding option.inject by (rule terminal_key.equality) (simp_all add: c(2) kitty_view_fields)
  finally show ?thesis by (simp add: parse_terminal_key_sequence_def)
qed


section \<open>Modified special keys\<close>

lemma parse_modifier_show:
  assumes "1 \<le> m" and "m < 256"
  shows "parse_modifier (show_nat m) = Some (of_nat m - 1)"
proof -
  have "\<not> (of_nat m :: u8) < 1" using assms by (simp add: word_less_nat_alt unat_of_nat)
  with assms show ?thesis by (simp add: parse_modifier_def parse_u8_show_nat checked_sub_def)
qed

lemma xterm_modifier_bound: "1 \<le> xterm_modifier mods" "xterm_modifier mods \<le> 8"
  by (simp_all add: xterm_modifier_def)

lemma xterm_modifier_round_trip:
  assumes "mods < 8"
  shows "key_modifiers_from_u8 (of_nat (xterm_modifier mods) - 1) = mods"
proof -
  have "list_all (\<lambda>n. key_modifiers_from_u8 (of_nat (xterm_modifier (of_nat n)) - 1) = of_nat n) [0..<8]"
    by code_simp
  moreover have "unat mods \<in> set [0..<8]" using assms by (simp add: word_less_nat_alt)
  ultimately show ?thesis unfolding list_all_iff by fastforce
qed

lemma modified_key_show:
  assumes "mods < 8"
  shows "modified_key code (show_nat (xterm_modifier mods)) = Some (new_key code mods)"
  using parse_modifier_show [OF xterm_modifier_bound(1)] xterm_modifier_bound(2) [of mods]
    split_once_None [OF show_nat_no_sep(2)]
  by (simp add: modified_key_def split_modifier_and_event_def xterm_modifier_round_trip [OF assms]
      parse_kitty_event_type_def new_key_def with_kind_def)

lemma strip_prefix_chars:
  "strip_prefix s [] = Some s" "strip_prefix [] (y # p) = None"
  "strip_prefix (x # s) (y # p) = (if x = y then strip_prefix s p else None)"
  by (simp_all add: strip_prefix_def starts_with_def)

lemma strip_suffix_chars:
  "strip_suffix (s @ [x]) [y] = (if x = y then Some s else None)" "strip_suffix [] [y] = None"
  "strip_suffix (z # s @ [x]) [y] = (if x = y then Some (z # s) else None)"
  by (auto simp: strip_suffix_def ends_with_iff)

lemma legacy_table_no_separator: "CHR '';'' \<in> set data \<Longrightarrow> map_of legacy_special_table data = None"
proof -
  have "\<forall>(k, _) \<in> set legacy_special_table. CHR '';'' \<notin> set k" by (simp add: legacy_special_table_def)
  then show "CHR '';'' \<in> set data \<Longrightarrow> ?thesis" by (auto simp: map_of_eq_None_iff)
qed

lemma parse_letter_sequence:
  assumes "mods < 8" and "map_of xterm_letter_table c = Some code"
  shows "parse_terminal_key_sequence ([esc] @ ''[1;'' @ show_nat (xterm_modifier mods) @ [c]) =
    Some (new_key code mods)"
proof -
  let ?data = "[esc] @ ''[1;'' @ show_nat (xterm_modifier mods) @ [c]"
  have c: "c \<noteq> CHR ''u''" "is_ascii_alphabetic c"
    using assms(2) by (auto simp: xterm_letter_table_def is_ascii_alphabetic_def split: if_splits)
  have "parse_kitty_key_sequence ?data = None"
    using c(1) strip_suffix_chars(1) [of "CHR ''1'' # CHR '';'' # show_nat (xterm_modifier mods)" c "CHR ''u''"]
    by (simp add: parse_kitty_key_sequence_def strip_prefix_chars)
  moreover have "parse_modify_other_keys_sequence ?data = None"
    by (simp add: parse_modify_other_keys_sequence_def strip_prefix_chars)
  moreover have "parse_xterm_modified_special_sequence ?data = Some (new_key code mods)"
    using c(2) by (simp add: parse_xterm_modified_special_sequence_def strip_prefix_chars assms(2)
        modified_key_show [OF assms(1)])
  ultimately show ?thesis
    by (simp add: parse_terminal_key_sequence_def parse_legacy_key_sequence_def
        parse_legacy_special_sequence_def legacy_table_no_separator)
qed

lemma show_tilde_codes:
  "show_nat 2 = ''2''" "show_nat 3 = ''3''" "show_nat 5 = ''5''" "show_nat 6 = ''6''"
  "show_nat 15 = ''15''" "show_nat 17 = ''17''" "show_nat 18 = ''18''" "show_nat 19 = ''19''"
  "show_nat 20 = ''20''" "show_nat 21 = ''21''" "show_nat 23 = ''23''" "show_nat 24 = ''24''"
  by code_simp+

lemma parse_tilde_sequence:
  assumes "mods < 8" and "n \<in> set [2, 3, 5, 6, 15, 17, 18, 19, 20, 21, 23, 24]"
    and code: "map_of xterm_tilde_table (show_nat n) = Some code"
  shows "parse_terminal_key_sequence ([esc, CHR ''[''] @ show_nat n @ '';'' @ show_nat (xterm_modifier mods) @ ''~'') =
    Some (new_key code mods)"
proof -
  define m where "m = show_nat (xterm_modifier mods)"
  define b where "b = show_nat n @ '';'' @ m"
  let ?data = "esc # CHR ''['' # b @ ''~''"
  have once: "split_once CHR '';'' b = Some (show_nat n, m)"
    using split_once_append [OF show_nat_no_sep(1)] by (simp add: b_def)
  have heads: "strip_prefix (b @ ''~'') ''1;'' = None" "strip_prefix (b @ ''~'') ''27;'' = None"
    using assms(2) by (auto simp: b_def show_tilde_codes strip_prefix_chars)
  have "parse_kitty_key_sequence ?data = None"
    by (simp add: parse_kitty_key_sequence_def strip_prefix_chars strip_suffix_chars)
  moreover have "parse_modify_other_keys_sequence ?data = None"
    using heads(2) by (simp add: parse_modify_other_keys_sequence_def strip_prefix_chars)
  moreover have "parse_xterm_modified_special_sequence ?data = Some (new_key code mods)"
    using modified_key_show [OF assms(1), of code, folded m_def]
    by (simp add: parse_xterm_modified_special_sequence_def strip_prefix_chars strip_suffix_chars heads(1)
        once code)
  moreover have "CHR '';'' \<in> set ?data" by (simp add: b_def)
  ultimately have "parse_terminal_key_sequence ?data = Some (new_key code mods)"
    by (simp add: parse_terminal_key_sequence_def parse_legacy_key_sequence_def
        parse_legacy_special_sequence_def legacy_table_no_separator)
  then show ?thesis by (simp add: b_def m_def)
qed

lemma encode_modified_special_mods:
  "encode_modified_special code mods = Some s \<Longrightarrow> \<not> xterm_modifier mods \<le> 1"
  by (auto simp: encode_modified_special_def)

lemma encode_modified_special_cases:
  assumes "encode_modified_special code mods = Some s"
  obtains (letter) c where "map_of xterm_letter_table c = Some code"
      "s = [esc] @ ''[1;'' @ show_nat (xterm_modifier mods) @ [c]"
    | (tilde) n where "n \<in> set [2, 3, 5, 6, 15, 17, 18, 19, 20, 21, 23, 24]"
      "map_of xterm_tilde_table (show_nat n) = Some code"
      "s = [esc, CHR ''[''] @ show_nat n @ '';'' @ show_nat (xterm_modifier mods) @ ''~''"
  supply e = assms [unfolded encode_modified_special_def Let_def]
  supply m = encode_modified_special_mods [OF assms]
proof (cases code)
  case (KF n)
  have tilde: thesis
    if "map_of [(5 :: nat, 15), (6, 17), (7, 18), (8, 19), (9, 20), (10, 21), (11, 23), (12, 24)] n = Some k"
      and "s = [esc, CHR ''[''] @ show_nat k @ '';'' @ show_nat (xterm_modifier mods) @ ''~''" for k
  proof -
    from that(1) have "k \<in> set [2, 3, 5, 6, 15, 17, 18, 19, 20, 21, 23, 24]"
      and "map_of xterm_tilde_table (show_nat k) = Some code"
      by (auto simp: KF xterm_tilde_table_def show_tilde_codes split: if_splits)
    with that(2) show thesis by (rule_tac tilde)
  qed
  from e m KF show thesis
    using letter [of "CHR ''P''"] letter [of "CHR ''Q''"] letter [of "CHR ''R''"] letter [of "CHR ''S''"]
    by (auto simp: xterm_letter_table_def bind_eq_Some_conv
        simp del: map_of.simps split: if_splits intro: tilde)
next
  case KUp
  with e m letter [of "CHR ''A''"] show thesis by (simp add: xterm_letter_table_def)
next
  case KDown
  with e m letter [of "CHR ''B''"] show thesis by (simp add: xterm_letter_table_def)
next
  case KRight
  with e m letter [of "CHR ''C''"] show thesis by (simp add: xterm_letter_table_def)
next
  case KLeft
  with e m letter [of "CHR ''D''"] show thesis by (simp add: xterm_letter_table_def)
next
  case KHome
  with e m letter [of "CHR ''H''"] show thesis by (simp add: xterm_letter_table_def)
next
  case KEnd
  with e m letter [of "CHR ''F''"] show thesis by (simp add: xterm_letter_table_def)
next
  case KInsert
  with e m tilde [of 2] show thesis by (simp add: xterm_tilde_table_def show_tilde_codes)
next
  case KDelete
  with e m tilde [of 3] show thesis by (simp add: xterm_tilde_table_def show_tilde_codes)
next
  case KPageUp
  with e m tilde [of 5] show thesis by (simp add: xterm_tilde_table_def show_tilde_codes)
next
  case KPageDown
  with e m tilde [of 6] show thesis by (simp add: xterm_tilde_table_def show_tilde_codes)
qed (use e m in simp_all)

lemma modified_special_parses:
  assumes "encode_modified_special code mods = Some s" and "mods < 8"
  shows "parse_terminal_key_sequence s = Some (new_key code mods) \<and>
    encode_terminal_key (new_key code mods) Legacy = s"
proof
  note m = encode_modified_special_mods [OF assms(1)]
  show "parse_terminal_key_sequence s = Some (new_key code mods)"
    using assms(1)
  proof (cases rule: encode_modified_special_cases)
    case (letter c)
    then show ?thesis using parse_letter_sequence [OF assms(2)] by simp
  next
    case (tilde n)
    then show ?thesis using parse_tilde_sequence [OF assms(2) tilde(1,2)] by simp
  qed
  have "mods \<noteq> 0" using m by (auto simp: xterm_modifier_def mods_contain_def modifier_defs split: if_splits)
  moreover have "\<not> (\<exists>c. code = KChar c)" using assms(1) by (auto simp: encode_modified_special_def Let_def split: if_splits)
  ultimately show "encode_terminal_key (new_key code mods) Legacy = s"
    using assms(1) by (auto simp: encode_terminal_key_def encode_text_input_def encode_legacy_def new_key_def
        Let_def split: key_code.split)
qed

section \<open>Legacy text\<close>

lemma legacy_table_shape:
  "map_of legacy_special_table data \<noteq> None \<Longrightarrow>
     \<exists>x y z. data = esc # x # y # z \<and> x \<in> {esc, CHR ''['', CHR ''O''}"
proof -
  have "\<forall>(k, _) \<in> set legacy_special_table. \<exists>x y z. k = esc # x # y # z \<and> x \<in> {esc, CHR ''['', CHR ''O''}"
    by (simp add: legacy_special_table_def)
  then show "map_of legacy_special_table data \<noteq> None \<Longrightarrow> ?thesis" by (auto simp: map_of_eq_None_iff)
qed

text \<open>A text that is no escape sequence is left to the last parser.\<close>

lemma no_sequence:
  assumes "\<And>x y z. data = esc # x # y # z \<Longrightarrow> x \<notin> {esc, CHR ''['', CHR ''O''}"
  shows "parse_kitty_key_sequence data = None" "parse_modify_other_keys_sequence data = None"
    "parse_legacy_special_sequence data = None"
proof -
  have sp: "p = [] \<and> t = []" if "strip_prefix data (esc # CHR ''['' # p) = Some t" for p t
    using that assms [of "CHR ''[''"] unfolding strip_prefix_Some by (cases "p @ t") auto
  have tb: "map_of legacy_special_table data = None" using legacy_table_shape [of data] assms by blast
  show "parse_kitty_key_sequence data = None" using sp [of "[]"]
    by (cases "strip_prefix data [esc, CHR ''['']")
      (auto simp: parse_kitty_key_sequence_def strip_suffix_chars)
  show "parse_modify_other_keys_sequence data = None" using sp [of "''27;''"]
    by (cases "strip_prefix data (esc # ''[27;'')") (auto simp: parse_modify_other_keys_sequence_def)
  show "parse_legacy_special_sequence data = None" using sp [of "[]"]
    by (cases "strip_prefix data [esc, CHR ''['']")
      (auto simp: parse_legacy_special_sequence_def parse_xterm_modified_special_sequence_def tb
        strip_prefix_chars strip_suffix_chars)
qed

lemma encode_utf8_inject:
  "scalar_value c \<Longrightarrow> scalar_value d \<Longrightarrow> encode_utf8 c = encode_utf8 d \<longleftrightarrow> c = d"
  by (metis str_chars_encode list.inject)

lemma encode_utf8_controls:
  assumes "scalar_value c"
  shows "encode_utf8 c = [CHR 0x0D] \<longleftrightarrow> c = 13" "encode_utf8 c = [CHR 0x09] \<longleftrightarrow> c = 9"
    "encode_utf8 c = [esc] \<longleftrightarrow> c = 27" "encode_utf8 c = [CHR 0x7F] \<longleftrightarrow> c = 127"
proof -
  have "encode_utf8 13 = [CHR 0x0D]" "encode_utf8 9 = [CHR 0x09]" "encode_utf8 27 = [esc]"
    "encode_utf8 127 = [CHR 0x7F]" by code_simp+
  moreover have "scalar_value 13" "scalar_value 9" "scalar_value 27" "scalar_value 127"
    by (simp_all add: scalar_value_def)
  ultimately show "encode_utf8 c = [CHR 0x0D] \<longleftrightarrow> c = 13" "encode_utf8 c = [CHR 0x09] \<longleftrightarrow> c = 9"
    "encode_utf8 c = [esc] \<longleftrightarrow> c = 27" "encode_utf8 c = [CHR 0x7F] \<longleftrightarrow> c = 127"
    by (metis encode_utf8_inject [OF assms])+
qed

lemma encode_utf8_long:
  assumes "scalar_value c" and "encode_utf8 c = x # y # z"
  shows "x \<notin> {esc, CHR ''['', CHR ''O''}"
proof -
  have c: "128 \<le> c" "c < 1114112" using assms by (auto simp: encode_utf8_def scalar_value_def split: if_splits)
  have "(192 :: nat) \<le> of_char x"
  proof (cases "c < 2048")
    case True
    with c assms(2) show ?thesis
      by (auto simp: encode_utf8_def of_char_of div_less_iff_less_mult)
  next
    case False
    with c assms(2) show ?thesis
      by (auto simp: encode_utf8_def of_char_of div_less_iff_less_mult split: if_splits)
  qed
  then show ?thesis by auto
qed

lemma parse_plain_text:
  assumes "scalar_value c"
  shows "parse_terminal_key_sequence (encode_utf8 c) = Some
    (if c = 13 then new_key KEnter 0 else if c = 9 then new_key KTab 0 else if c = 27 then new_key KEsc 0
     else if c = 127 then new_key KBackspace 0
     else case parse_legacy_ctrl_char c of Some key \<Rightarrow> key
          | None \<Rightarrow> new_key (KChar c) (if is_ascii_uppercase c then SHIFT else 0))"
proof -
  have "x \<notin> {esc, CHR ''['', CHR ''O''}" if "encode_utf8 c = esc # x # y # z" for x y z
    using encode_utf8_long [OF assms that] by simp
  note none = no_sequence [OF this]
  have "\<not> starts_with (encode_utf8 c) [esc]" if "c \<noteq> 27"
    using encode_utf8_long [OF assms, of esc] encode_utf8_controls(3) [OF assms] that
    by (auto simp: starts_with_iff neq_Nil_conv)
  moreover have "encode_utf8 c \<noteq> [esc, CHR 0x7F]" using encode_utf8_long [OF assms] by blast
  ultimately show ?thesis
    by (simp add: parse_terminal_key_sequence_def parse_legacy_key_sequence_def none
        encode_utf8_controls [OF assms] str_chars_encode [OF assms] Let_def split: option.split)
qed

lemma parse_alt_text:
  assumes "scalar_value c"
  shows "parse_terminal_key_sequence (esc # encode_utf8 c) = Some
    (if c = 127 then new_key KBackspace ALT
     else new_key (KChar c) (if is_ascii_uppercase c then ALT OR SHIFT else ALT))"
proof -
  have "esc # encode_utf8 c = esc # x # y # z \<Longrightarrow> x \<notin> {esc, CHR ''['', CHR ''O''}" for x y z
    using encode_utf8_long [OF assms] by blast
  note none = no_sequence [of "esc # encode_utf8 c", OF this]
  have "encode_utf8 c \<noteq> []" by (simp add: encode_utf8_def)
  then show ?thesis
    by (simp add: parse_terminal_key_sequence_def parse_legacy_key_sequence_def none
        encode_utf8_controls [OF assms] str_chars_encode [OF assms] starts_with_def)
qed

text \<open>A control character's key encodes to that character.\<close>

lemma encode_ctrl_char: "encode_terminal_key (new_key (KChar c) CONTROL) Legacy = [ctrl_byte c]"
  by (simp add: encode_terminal_key_def encode_text_input_def new_key_def modifier_defs encode_legacy_def
      encode_modified_special_def encode_legacy_inner_def mods_contain_def Let_def)

lemma ctrl_char_key:
  "parse_legacy_ctrl_char c = Some key \<Longrightarrow> encode_terminal_key key Legacy = [char_of c]"
proof -
  have "ctrl_byte (c + 96) = char_of c" if "1 \<le> c" "c \<le> 26"
    using that by (simp add: ctrl_byte_def to_ascii_uppercase_def is_ascii_lowercase_def Let_def)
  moreover have "ctrl_byte 32 = char_of (0 :: nat)" "ctrl_byte 91 = char_of (27 :: nat)"
    "ctrl_byte 92 = char_of (28 :: nat)" "ctrl_byte 93 = char_of (29 :: nat)"
    "ctrl_byte 94 = char_of (30 :: nat)" "ctrl_byte 45 = char_of (31 :: nat)" by code_simp+
  moreover assume "parse_legacy_ctrl_char c = Some key"
  ultimately show ?thesis
    by (auto simp: parse_legacy_ctrl_char_def encode_ctrl_char char_from_u32_def then_some_def split: if_splits)
qed

lemma encode_key_char:
  "encode_terminal_key (new_key (KChar c) 0) Legacy = encode_utf8 c"
  "is_ascii_uppercase c \<Longrightarrow> encode_terminal_key (new_key (KChar c) SHIFT) Legacy = encode_utf8 c"
  "encode_terminal_key (new_key (KChar c) ALT) Legacy = esc # encode_utf8 c"
  "is_ascii_uppercase c \<Longrightarrow> encode_terminal_key (new_key (KChar c) (ALT OR SHIFT)) Legacy = esc # encode_utf8 c"
  by (simp_all add: encode_terminal_key_def encode_text_input_def new_key_def modifier_defs
      shifted_text_char_def encode_legacy_def encode_modified_special_def encode_legacy_inner_def
      mods_contain_def mods_difference_def Let_def)

lemma encode_key_named:
  "encode_terminal_key (new_key KEnter 0) Legacy = [CHR 0x0D]"
  "encode_terminal_key (new_key KTab 0) Legacy = [CHR 0x09]"
  "encode_terminal_key (new_key KEsc 0) Legacy = [esc]"
  "encode_terminal_key (new_key KBackspace 0) Legacy = [CHR 0x7F]"
  "encode_terminal_key (new_key KBackspace ALT) Legacy = [esc, CHR 0x7F]"
  by code_simp+

lemma legacy_text_parses:
  assumes "scalar_value c"
  shows "\<exists>key alt_key.
    parse_terminal_key_sequence (encode_utf8 c) = Some key \<and>
    encode_terminal_key key Legacy = encode_utf8 c \<and>
    parse_terminal_key_sequence (esc # encode_utf8 c) = Some alt_key \<and>
    encode_terminal_key alt_key Legacy = esc # encode_utf8 c"
proof -
  have "encode_utf8 c = [char_of c]" if "parse_legacy_ctrl_char c = Some key" for key
    using that by (auto simp: parse_legacy_ctrl_char_def encode_utf8_def split: if_splits)
  then show ?thesis
    using encode_utf8_controls [OF assms] ctrl_char_key
    by (auto simp: parse_plain_text [OF assms] parse_alt_text [OF assms] encode_key_named encode_key_char
        split: option.split)
qed

section \<open>Mouse reports\<close>

lemma mouse_cb_bound:
  assumes "base_button \<le> 67"
  shows "unat (mouse_cb base_button release mods encoding) \<le> 95"
proof -
  define cb0 where "cb0 = (if release \<and> encoding \<noteq> MouseSgr then 3 else base_button)"
  have cb0: "unat cb0 \<le> 67" using assms by (simp add: cb0_def word_le_nat_alt)
  have add: "unat (v + w) = unat v + unat w" if "unat v + unat w < 65536" for v w :: u16
    using that by (simp add: unat_word_ariths)
  show ?thesis using cb0 by (simp add: mouse_cb_def Let_def cb0_def [symmetric] add)
qed

lemma u8_try_from_None: "u8_try_from v = None \<longleftrightarrow> 256 \<le> v"
  by (auto simp: u8_try_from_def)

lemma push_mouse_codepoint_None: "push_mouse_codepoint v = None \<longleftrightarrow> \<not> scalar_value v"
  by (auto simp: push_mouse_codepoint_def char_from_u32_def)

lemma encode_mouse_cb_reports:
  assumes "base_button \<le> 67"
  shows "encode_mouse_cb base_button release column row mods MouseSgr \<noteq> None"
    "encode_mouse_cb base_button release column row mods MouseDefault \<noteq> None \<longleftrightarrow> column \<le> 222 \<and> row \<le> 222"
    "encode_mouse_cb base_button release column row mods MouseUtf8 \<noteq> None \<longleftrightarrow>
       scalar_value (unat column + 33) \<and> scalar_value (unat row + 33)"
proof -
  define cb where "cb e = mouse_cb base_button release mods e" for e
  have cb: "unat (cb e) \<le> 95" for e unfolding cb_def by (rule mouse_cb_bound [OF assms])
  show "encode_mouse_cb base_button release column row mods MouseSgr \<noteq> None"
    by (simp add: encode_mouse_cb_def Let_def)
  have "unat (cb e + 32) < 256" for e using cb [of e] by (simp add: unat_word_ariths)
  then have some: "u8_try_from (unat (cb e + 32)) \<noteq> None" for e using u8_try_from_None leD by blast
  show "encode_mouse_cb base_button release column row mods MouseDefault \<noteq> None \<longleftrightarrow> column \<le> 222 \<and> row \<le> 222"
    using some [of MouseDefault] unfolding encode_mouse_cb_def cb_def [symmetric]
    by (auto simp: Let_def word_le_nat_alt bind_eq_None_conv u8_try_from_None bind_eq_Some_conv)
  have "scalar_value (unat (cb e) + 32)" for e using cb [of e] by (simp add: scalar_value_def)
  then show "encode_mouse_cb base_button release column row mods MouseUtf8 \<noteq> None \<longleftrightarrow>
       scalar_value (unat column + 33) \<and> scalar_value (unat row + 33)"
    unfolding encode_mouse_cb_def cb_def [symmetric]
    using push_mouse_codepoint_None
    by (auto simp: Let_def add.commute bind_eq_None_conv)
qed

end
