(* ===== verification/RawProps.thy ===== *)
theory RawProps
  imports RawStream KeyProps
begin

text \<open>
  The properties of raw input (\<open>src/raw_input.rs\<close>, with \<open>src/terminal_theme.rs\<close> and \<open>src/input/\<close> behind
  it): with nothing pending from a timeout the framing does not depend on how the bytes arrive and loses none
  of them, and what the encoders write is framed and read back exactly.
\<close>

section \<open>Framing\<close>

text \<open>C20: How the bytes of the terminal are split into reads does not matter: pushing two pieces one after the
  other gives the same chunks, the same state and the same panics as pushing them at once, in every state
  in which the framer has nothing pending from a timeout: it is not discarding the rest of a timed-out reply,
  and it has not just released a lone escape.\<close>

theorem framing_split_invariant:
  assumes "plain_framer f"
  shows "push_bytes f (a @ b) =
    outcome_bind (push_bytes f a) (\<lambda>(cs, g).
      outcome_bind (push_bytes g b) (\<lambda>(ds, h). Return (cs @ ds, h)))"
  using assms
proof (cases rule: push_bytes_cases [where data = a])
  case first: (cuts cs r)
  let ?g = "after_events f (map fst cs) r"
  have "plain_framer ?g" using assms by (simp add: plain_after_events)
  then show ?thesis
  proof (cases rule: push_bytes_cases [where data = b])
    case (cuts ds s)
    then have "cuts extract_one_event (r @ b) ds s" by simp
    from raw.cuts_append [OF first(1) this]
    have all: "cuts extract_one_event (rf_buffer f @ a @ b) (cs @ ds) s" by simp
    from push_bytes_cuts [OF assms this]
    have "push_bytes f (a @ b) = Return (map snd (cs @ ds), after_events f (map fst (cs @ ds)) s)" .
    with first(2) cuts(2) show ?thesis by (simp add: after_events_append)
  next
    case panic
    then have "panics extract_one_event (r @ b)" by simp
    from raw.cuts_panics [OF first(1) this] have "push_bytes f (a @ b) = Panic"
      using push_bytes_panics [OF assms] by simp
    with first(2) panic(2) show ?thesis by simp
  qed
next
  case panic
  from raw.panics_append [OF panic(1), of b] have "push_bytes f (a @ b) = Panic"
    using push_bytes_panics [OF assms] by simp
  with panic(2) show ?thesis by simp
qed

theorem framing_split_invariant_witness:
  "push_bytes new_framer ([esc] @ ''[A'') =
    outcome_bind (push_bytes new_framer [esc]) (\<lambda>(cs, g).
      outcome_bind (push_bytes g ''[A'') (\<lambda>(ds, h). Return (cs @ ds, h)))"
  by (rule framing_split_invariant) (simp add: plain_framer_def new_framer_def)

text \<open>C21: While nothing is pending from a timeout - the framer is not discarding the rest of a timed-out reply and
  has not just released a lone escape - it neither loses nor invents nor reorders bytes: the chunks a push
  returns and the bytes it keeps are, in order, the bytes it had and those it was given; no chunk is empty, what
  it keeps is not a complete event, and nothing is pending afterwards either, so the same holds of the next
  push.  (After a timeout it drops the rest of the reply on purpose.)\<close>

theorem framing_conserves:
  assumes "plain_framer f" and "push_bytes f data = Return (chunks, g)"
  shows "concat chunks @ rf_buffer g = rf_buffer f @ data \<and> [] \<notin> set chunks \<and>
    extract_one_event (rf_buffer g) = Return None \<and> plain_framer g"
  using assms(1)
proof (cases rule: push_bytes_cases [where data = data])
  case (cuts cs r)
  then show ?thesis
    using assms raw.cuts_concat [OF cuts(1)] raw.cuts_nonempty [OF cuts(1)] raw.cuts_rest [OF cuts(1)]
    by (auto simp: plain_after_events)
qed (use assms in simp)

theorem framing_conserves_witness:
  "\<exists>g. push_bytes new_framer (esc # ''[Aab'' @ [esc]) = Return ([esc # ''[A'', ''a'', ''b''], g) \<and>
     rf_buffer g = [esc]"
proof -
  have "(case push_bytes new_framer (esc # ''[Aab'' @ [esc]) of
    Return (cs, g) \<Rightarrow> cs = [esc # ''[A'', ''a'', ''b''] | Panic \<Rightarrow> False)"
    by code_simp
  then obtain g where g: "push_bytes new_framer (esc # ''[Aab'' @ [esc]) =
    Return ([esc # ''[A'', ''a'', ''b''], g)" by (auto split: outcome.splits)
  have "plain_framer new_framer" by (simp add: plain_framer_def new_framer_def)
  from framing_conserves [OF this g] g show ?thesis by (simp add: new_framer_def)
qed

section \<open>What the encoders write\<close>

lemma csi_finals_range: "c \<in> set csi_finals \<Longrightarrow> (64 :: nat) \<le> of_char c \<and> of_char c < (128 :: nat)"
proof -
  have "list_all (\<lambda>c. (64 :: nat) \<le> of_char c \<and> of_char c < (128 :: nat)) csi_finals" by code_simp
  then show "c \<in> set csi_finals \<Longrightarrow> ?thesis" by (auto simp: list_all_iff)
qed

lemma csi_sequence_len:
  assumes "body \<noteq> []" and "hd body \<noteq> CHR ''<''" and "\<forall>c \<in> set body. of_char c < (64 :: nat)"
    and "final \<in> set csi_finals"
  shows "complete_escape_sequence_len (esc # CHR ''['' # body @ final # rest) = Some (length body + 3)"
proof -
  have "\<forall>c \<in> set body. c \<notin> set csi_finals" using assms(3) csi_finals_range by fastforce
  from position_first [OF this assms(4)]
  have "find_csi_final (esc # CHR ''['' # body @ final # rest) csi_finals = Some (length body + 3)"
    by (simp add: find_csi_final_def)
  with assms(1,2) show ?thesis
    by (cases body) (auto simp: escape_before_mouse_def starts_with_def)
qed

lemma escape_event_csi:
  assumes "hd body \<notin> {CHR ''<'', CHR ''?'', CHR ''I'', CHR ''O''}" and "body \<noteq> []"
  shows "escape_event (esc # CHR ''['' # body) =
    Return (case parse_terminal_key_sequence (esc # CHR ''['' # body) of Some key \<Rightarrow> RawKey key | None \<Rightarrow> RawUnsupported)"
  using assms
  by (cases body)
    (simp_all add: escape_event_def parse_default_color_response_def strip_prefix_chars
      parse_host_color_scheme_report_def GHOSTTY_COLOR_SCHEME_DARK_REPORT_def
      GHOSTTY_COLOR_SCHEME_LIGHT_REPORT_def parse_sgr_mouse_def)

lemma paste_start_no_key: "parse_terminal_key_sequence BRACKETED_PASTE_START = None"
  by (simp add: BRACKETED_PASTE_START_def parse_terminal_key_sequence_def parse_kitty_key_sequence_def
      parse_modify_other_keys_sequence_def parse_legacy_key_sequence_def parse_legacy_special_sequence_def
      parse_xterm_modified_special_sequence_def strip_prefix_chars strip_suffix_def ends_with_def
      legacy_special_table_def split_once_def Let_def starts_with_def utf8_len_def)

text \<open>A key sequence with parameters is framed exactly, whatever follows it.\<close>

lemma csi_key_framed:
  assumes "body \<noteq> []" and digit: "of_char (hd body) < (58 :: nat)" and small: "\<forall>c \<in> set body. of_char c < (64 :: nat)"
    and final: "final \<in> set csi_finals"
    and key: "parse_terminal_key_sequence (esc # CHR ''['' # body @ [final]) = Some key"
  shows "extract_one_event ((esc # CHR ''['' # body @ [final]) @ rest) =
    Return (Some (RawKey key, length (esc # CHR ''['' # body @ [final])))"
proof -
  let ?sq = "esc # CHR ''['' # body @ [final]"
  have hd: "hd body \<notin> {CHR ''<'', CHR ''?'', CHR ''I'', CHR ''O''}" using digit by auto
  then have len: "complete_escape_sequence_len (?sq @ rest) = Some (length ?sq)"
    using csi_sequence_len [OF assms(1) _ small final, of rest] by simp
  have "\<not> starts_with (?sq @ rest) BRACKETED_PASTE_START"
  proof
    assume s: "starts_with (?sq @ rest) BRACKETED_PASTE_START"
    then obtain t where t: "?sq @ rest = BRACKETED_PASTE_START @ t" by (auto simp: starts_with_iff)
    have "complete_escape_sequence_len (BRACKETED_PASTE_START @ t) = Some 6"
      using csi_sequence_len [of "''200''" "CHR ''~''" t]
      by (simp add: BRACKETED_PASTE_START_def csi_finals_def)
    with len have "length ?sq = 6" unfolding t by (simp only: option.inject)
    then have "length ?sq = length BRACKETED_PASTE_START" by (simp add: BRACKETED_PASTE_START_def)
    with t have "?sq = BRACKETED_PASTE_START" using append_eq_append_conv by blast
    with key paste_start_no_key show False by simp
  qed
  moreover have "ascii ?sq" using small csi_finals_range [OF final] by (fastforce simp: ascii_def)
  ultimately show ?thesis
    using len escape_event_csi [of "body @ [final]"] hd assms(1) key ascii_valid [of ?sq]
    by (simp add: extract_one_event_def Let_def del: complete_escape_sequence_len.simps utf8_valid.simps)
qed

lemma show_nat_small: "c \<in> set (show_nat n) \<Longrightarrow> of_char c < (58 :: nat)"
  using set_show_nat by fastforce

lemma hd_show_nat: "of_char (hd (show_nat n @ r)) < (58 :: nat)"
  using show_nat_small [of "hd (show_nat n)" n] by simp

text \<open>C23: What the Kitty protocol writes is read back, wherever it stands in the stream: whenever the encoder
  produces a CSI u sequence for a key whose character is no control or functional code point, the reader
  cuts exactly that sequence off and delivers the key with its modifiers, its kind as far as event types
  are reported, and its shifted code point as far as alternate keys are reported.\<close>

theorem kitty_round_trip:
  assumes "try_encode_csi_u key flags = Some s" and "tk_modifiers key < 64"
    and "\<And>c. tk_code key = KChar c \<Longrightarrow> kitty_text_char c"
    and "\<And>c. tk_shifted_codepoint key = Some c \<Longrightarrow> c < 4294967296"
  shows "extract_one_event (s @ rest) = Return (Some (RawKey (kitty_view key flags), length s))"
proof -
  from assms(1) obtain cp alt m ev where s: "s = csi_u_sequence cp alt m ev"
    by (auto simp: try_encode_csi_u_def Let_def split: if_splits)
  define body where "body = show_nat cp @ (case alt of Some s \<Rightarrow> CHR '':'' # show_nat s | None \<Rightarrow> [])
      @ CHR '';'' # show_nat m @ (case ev of Some e \<Rightarrow> CHR '':'' # show_nat e | None \<Rightarrow> [])"
  have sq: "s = esc # CHR ''['' # body @ ''u''" by (simp add: s csi_u_sequence_def body_def)
  have "\<forall>c \<in> set body. of_char c < (64 :: nat)"
    using show_nat_small by (fastforce simp: body_def split: option.splits)
  moreover have "of_char (hd body) < (58 :: nat)" "body \<noteq> []"
    unfolding body_def by (rule hd_show_nat) simp
  moreover have "CHR ''u'' \<in> set csi_finals" by code_simp
  ultimately show ?thesis
    using csi_key_framed [of body "CHR ''u''" "kitty_view key flags" rest] kitty_key_parses [OF assms]
    by (simp add: sq)
qed

theorem kitty_round_trip_witness:
  "extract_one_event (csi_u_sequence 97 (Some 65) 6 (Some 3) @ ''x'') = Return (Some
     (RawKey (kitty_view (with_kind (new_key (KChar 65) (CONTROL OR SHIFT)) KeyRelease) 7),
      length (csi_u_sequence 97 (Some 65) 6 (Some 3))))"
proof -
  let ?key = "with_kind (new_key (KChar 65) (CONTROL OR SHIFT)) KeyRelease"
  have "try_encode_csi_u ?key 7 = Some (csi_u_sequence 97 (Some 65) 6 (Some 3))"
    by (simp add: try_encode_csi_u_def kitty_event_suffix_def csi_u_codepoint_def legacy_csi_key_def
        canonical_kitty_char_def alternate_shifted_codepoint_def with_kind_def new_key_def modifier_defs
        mods_contain_def kitty_modifier_def xterm_modifier_def is_ascii_uppercase_def to_ascii_lowercase_def
        KITTY_FLAG_REPORT_EVENT_TYPES_def KITTY_FLAG_REPORT_ALTERNATE_KEYS_def KITTY_FLAG_REPORT_ALL_KEYS_def)
  moreover have "tk_modifiers ?key < 64" by (simp add: with_kind_def new_key_def modifier_defs)
  moreover have "kitty_text_char c" if "tk_code ?key = KChar c" for c
    using that by (simp add: with_kind_def new_key_def kitty_text_char_def scalar_value_def
        is_kitty_functional_codepoint_def)
  moreover have "s < 4294967296" if "tk_shifted_codepoint ?key = Some s" for s
    using that by (simp add: with_kind_def new_key_def)
  ultimately show ?thesis by (rule kitty_round_trip)
qed

text \<open>Special keys with modifiers survive xterm's encoding: every sequence the legacy encoder writes for
  an arrow, editing or function key held with Shift, Alt and Control in any combination is cut off the
  stream exactly and delivered as the same key with the same modifiers, which the encoder sends on as the
  same bytes.\<close>

theorem modified_special_round_trip:
  assumes "encode_modified_special code mods = Some s" and "mods < 8"
  shows "extract_one_event (s @ rest) = Return (Some (RawKey (new_key code mods), length s)) \<and>
    encode_terminal_key (new_key code mods) Legacy = s"
proof -
  note p = modified_special_parses [OF assms]
  from assms(1) have "extract_one_event (s @ rest) = Return (Some (RawKey (new_key code mods), length s))"
  proof (cases rule: encode_modified_special_cases)
    case (letter c)
    define body where "body = ''1;'' @ show_nat (xterm_modifier mods)"
    have "\<forall>c \<in> set body. of_char c < (64 :: nat)" using show_nat_small by (fastforce simp: body_def)
    moreover have "c \<in> set csi_finals"
      using letter(1) by (auto simp: xterm_letter_table_def csi_finals_def split: if_splits)
    ultimately show ?thesis
      using csi_key_framed [of body c "new_key code mods" rest] p letter(2) by (simp add: body_def)
  next
    case (tilde n)
    define body where "body = show_nat n @ '';'' @ show_nat (xterm_modifier mods)"
    have "\<forall>c \<in> set body. of_char c < (64 :: nat)" using show_nat_small by (fastforce simp: body_def)
    moreover have "of_char (hd body) < (58 :: nat)" "body \<noteq> []" unfolding body_def by (rule hd_show_nat) simp
    moreover have "CHR ''~'' \<in> set csi_finals" by code_simp
    ultimately show ?thesis
      using csi_key_framed [of body "CHR ''~''" "new_key code mods" rest] p tilde(3) by (simp add: body_def)
  qed
  with p show ?thesis by blast
qed

theorem modified_special_round_trip_witness:
  "extract_one_event (([esc] @ ''[15;7~'') @ ''x'') =
     Return (Some (RawKey (new_key (KF 5) (CONTROL OR ALT)), length ([esc] @ ''[15;7~''))) \<and>
   encode_terminal_key (new_key (KF 5) (CONTROL OR ALT)) Legacy = [esc] @ ''[15;7~''"
proof -
  have "encode_modified_special (KF 5) (CONTROL OR ALT) = Some ([esc] @ ''[15;7~'')" by code_simp
  moreover have "CONTROL OR ALT < 8" by code_simp
  ultimately show ?thesis by (rule modified_special_round_trip)
qed

section \<open>Typed text\<close>

lemma and_high_bits:
  "w AND 0xE0 = push_bit 5 (drop_bit 5 w)" "w AND 0xF0 = push_bit 4 (drop_bit 4 w)"
  "w AND 0xF8 = push_bit 3 (drop_bit 3 w)" for w :: u8
proof -
  have bits: "n < 8 \<Longrightarrow> n \<in> {0, 1, 2, 3, 4, 5, 6, 7}" for n :: nat by auto
  show "w AND 0xE0 = push_bit 5 (drop_bit 5 w)" by (rule bit_word_eqI) (auto simp: bit_simps dest!: bits)
  show "w AND 0xF0 = push_bit 4 (drop_bit 4 w)" by (rule bit_word_eqI) (auto simp: bit_simps dest!: bits)
  show "w AND 0xF8 = push_bit 3 (drop_bit 3 w)" by (rule bit_word_eqI) (auto simp: bit_simps dest!: bits)
qed

lemma drop_bit_unat: "unat w div 2 ^ k = m \<Longrightarrow> drop_bit k w = of_nat m" for w :: u8
proof -
  assume a: "unat w div 2 ^ k = m"
  have "drop_bit k w = of_nat (unat (drop_bit k w))" by simp
  also have "unat (drop_bit k w) = m" unfolding a [symmetric] unat_drop_bit_eq by (rule drop_bit_eq_div)
  finally show ?thesis .
qed

text \<open>The lead bytes of well-formed characters have the width their high bits announce.\<close>

lemma utf8_char_width: "utf8_width b = Some w \<Longrightarrow> utf8_char_width b = Some w"
proof -
  define v where "v = (of_char b :: u8)"
  have n: "unat v = of_char b" by (simp add: v_def of_char_def unat_of_nat)
  have small: "v < 0x80 \<longleftrightarrow> of_char b < (128 :: nat)" by (simp add: word_less_nat_alt n)
  have d5: "drop_bit 5 v = of_nat (of_char b div 32)" by (rule drop_bit_unat) (simp add: n)
  have d4: "drop_bit 4 v = of_nat (of_char b div 16)" by (rule drop_bit_unat) (simp add: n)
  have d3: "drop_bit 3 v = of_nat (of_char b div 8)" by (rule drop_bit_unat) (simp add: n)
  define k where "k = (of_char b :: nat)"
  assume "utf8_width b = Some w"
  then consider "k < 128" "w = 1" | "194 \<le> k" "k < 224" "w = 2" | "224 \<le> k" "k < 240" "w = 3"
    | "240 \<le> k" "k < 245" "w = 4"
    by (auto simp: utf8_width_def Let_def k_def [symmetric] split: if_splits)
  then show ?thesis
  proof cases
    case 1
    then show ?thesis by (simp add: utf8_char_width_def v_def [symmetric] Let_def small k_def [symmetric])
  next
    case 2
    then have "k div 32 = 6" by simp
    with 2 show ?thesis
      by (simp add: utf8_char_width_def v_def [symmetric] Let_def small and_high_bits d5 k_def [symmetric] push_bit_eq_mult)
  next
    case 3
    then have "k div 32 = 7" "k div 16 = 14" by simp_all
    with 3 show ?thesis
      by (simp add: utf8_char_width_def v_def [symmetric] Let_def small and_high_bits d5 d4 k_def [symmetric] push_bit_eq_mult)
  next
    case 4
    then have "k div 32 = 7" "k div 16 = 15" "k div 8 = 30" by simp_all
    with 4 show ?thesis
      by (simp add: utf8_char_width_def v_def [symmetric] Let_def small and_high_bits d5 d4 d3 k_def [symmetric] push_bit_eq_mult)
  qed
qed

lemma text_char_event:
  assumes "scalar_value c" and "c \<noteq> 27"
  obtains key where "\<And>rest. extract_one_event (encode_utf8 c @ rest) = Return (Some (RawKey key, length (encode_utf8 c)))"
    and "encode_terminal_key key Legacy = encode_utf8 c"
proof -
  obtain key where key: "parse_terminal_key_sequence (encode_utf8 c) = Some key"
    "encode_terminal_key key Legacy = encode_utf8 c"
    using legacy_text_parses [OF assms(1)] by blast
  obtain b bs where b: "encode_utf8 c = b # bs" "scan_char b bs = Complete (Suc (length bs))"
    by (rule encode_utf8_scan [OF assms(1)])
  then have w: "utf8_char_width b = Some (Suc (length bs))"
    by (intro utf8_char_width) (auto simp: scan_char_def split: option.splits if_splits)
  have "b \<noteq> esc"
  proof
    assume "b = esc"
    then have "scan_char b bs = Complete 1" by (simp add: scan_char_def utf8_width_def tail_ok_def)
    with b \<open>b = esc\<close> have "encode_utf8 c = [esc]" by simp
    with encode_utf8_controls(3) [OF assms(1)] assms(2) show False by simp
  qed
  moreover from this have "\<not> starts_with (encode_utf8 c @ rest) BRACKETED_PASTE_START" for rest
    by (auto simp: b starts_with_iff BRACKETED_PASTE_START_def)
  moreover have "utf8_valid (encode_utf8 c)" by (rule utf8_valid_encode [OF assms(1)])
  ultimately have "extract_one_event (encode_utf8 c @ rest) = Return (Some (RawKey key, length (encode_utf8 c)))" for rest
    using key(1) w unfolding b
    by (simp add: extract_one_event_def first_complete_utf8_char_len_def del: utf8_valid.simps)
  with key(2) that show thesis by blast
qed

text \<open>C22: Text typed at the host terminal reaches a pane with the legacy protocol byte for byte: for every text
  without escapes, read into a fresh framer, there is one key per character, nothing stays behind, and the
  keys are encoded to exactly the bytes that were read.\<close>

theorem typed_text_round_trip:
  assumes "\<forall>c \<in> set cs. scalar_value c \<and> c \<noteq> 27"
  shows "\<exists>keys f. framer_push new_framer (concat (map encode_utf8 cs)) = Return (map RawKey keys, f) \<and>
    length keys = length cs \<and> rf_buffer f = [] \<and>
    map (\<lambda>key. encode_terminal_key key Legacy) keys = map encode_utf8 cs"
proof -
  from assms have "\<exists>keys. length keys = length cs \<and>
      cuts extract_one_event (concat (map encode_utf8 cs)) (zip (map RawKey keys) (map encode_utf8 cs)) [] \<and>
      events_from_chunks (map encode_utf8 cs) = Return (map RawKey keys) \<and>
      map (\<lambda>key. encode_terminal_key key Legacy) keys = map encode_utf8 cs"
  proof (induction cs)
    case Nil
    then show ?case by (simp add: cuts.stop extract_one_event_def)
  next
    case (Cons c cs)
    then obtain keys where keys: "length keys = length cs"
      "cuts extract_one_event (concat (map encode_utf8 cs)) (zip (map RawKey keys) (map encode_utf8 cs)) []"
      "events_from_chunks (map encode_utf8 cs) = Return (map RawKey keys)"
      "map (\<lambda>key. encode_terminal_key key Legacy) keys = map encode_utf8 cs" by auto
    from Cons.prems obtain key where key:
      "\<And>rest. extract_one_event (encode_utf8 c @ rest) = Return (Some (RawKey key, length (encode_utf8 c)))"
      "encode_terminal_key key Legacy = encode_utf8 c" by (auto elim: text_char_event)
    have "encode_utf8 c \<noteq> [esc]" using encode_utf8_controls(3) Cons.prems by auto
    then have "events_from_chunks (map encode_utf8 (c # cs)) = Return (map RawKey (key # keys))"
      using key(1) [of "[]"] keys(3) by simp
    moreover have "cuts extract_one_event (concat (map encode_utf8 (c # cs)))
        (zip (map RawKey (key # keys)) (map encode_utf8 (c # cs))) []"
      using cuts.cut [of extract_one_event "encode_utf8 c @ concat (map encode_utf8 cs)", OF key(1)] keys(2) by simp
    ultimately show ?case using keys key(2) by (intro exI [of _ "key # keys"]) simp
  qed
  then obtain keys where keys: "length keys = length cs"
    "cuts extract_one_event (concat (map encode_utf8 cs)) (zip (map RawKey keys) (map encode_utf8 cs)) []"
    "events_from_chunks (map encode_utf8 cs) = Return (map RawKey keys)"
    "map (\<lambda>key. encode_terminal_key key Legacy) keys = map encode_utf8 cs" by blast
  have "plain_framer new_framer" "rf_buffer new_framer = []" by (simp_all add: plain_framer_def new_framer_def)
  with push_bytes_cuts [of new_framer "concat (map encode_utf8 cs)"] keys(1,2)
  have "push_bytes new_framer (concat (map encode_utf8 cs)) =
      Return (map encode_utf8 cs, after_events new_framer (map RawKey keys) [])" by simp
  with keys show ?thesis
    by (intro exI [of _ keys] exI [of _ "after_events new_framer (map RawKey keys) []"]) (simp add: framer_push_def)
qed

theorem typed_text_round_trip_witness:
  "\<exists>keys f. framer_push new_framer (concat (map encode_utf8 [97, 0x4E2D, 13])) = Return (map RawKey keys, f) \<and>
    length keys = length [97 :: nat, 0x4E2D, 13] \<and> rf_buffer f = [] \<and>
    map (\<lambda>key. encode_terminal_key key Legacy) keys = map encode_utf8 [97, 0x4E2D, 13]"
  by (rule typed_text_round_trip) (simp add: scalar_value_def)

end
