(* ===== verification/RawReplyProps.thy ===== *)
theory RawReplyProps
  imports RawProps
begin

text \<open>
  The rest of the properties of raw input: mouse reports and colour replies are framed and read back exactly,
  texts of ASCII bytes cannot stop the reader, the escape key comes out, and late replies of the host
  terminal do not.
\<close>

section \<open>Mouse reports\<close>

text \<open>The events with a report: their base button, whether it is a release, and the kind its code stands for.\<close>

definition reported_kinds :: "(mouse_event_kind \<times> u16 \<times> bool \<times> mouse_event_kind) list" where
  "reported_kinds =
     [(MouseDown ButtonLeft, 0, False, MouseDown ButtonLeft), (MouseDown ButtonMiddle, 1, False, MouseDown ButtonMiddle),
      (MouseDown ButtonRight, 2, False, MouseDown ButtonRight), (MouseUp ButtonLeft, 0, True, MouseDown ButtonLeft),
      (MouseUp ButtonMiddle, 1, True, MouseDown ButtonMiddle), (MouseUp ButtonRight, 2, True, MouseDown ButtonRight),
      (MouseDrag ButtonLeft, 32, False, MouseDrag ButtonLeft), (MouseDrag ButtonMiddle, 33, False, MouseDrag ButtonMiddle),
      (MouseDrag ButtonRight, 34, False, MouseDrag ButtonRight), (ScrollUp, 64, False, ScrollUp),
      (ScrollDown, 65, False, ScrollDown), (ScrollLeft, 66, False, ScrollLeft), (ScrollRight, 67, False, ScrollRight)]"

lemma mouse_cb_table:
  "list_all (\<lambda>(_, base, r, k). list_all (\<lambda>mods.
      parse_mouse_cb (of_nat (unat (mouse_cb base r mods MouseSgr))) = Some (k, mods)) (map of_nat [0..<8]))
    reported_kinds"
  by code_simp

lemma reported_kinds_final:
  "(kind, base, r, k) \<in> set reported_kinds \<Longrightarrow>
     base \<le> 67 \<and> (case k of MouseDown b \<Rightarrow> if r then MouseUp b else k | _ \<Rightarrow> k) = kind"
  by (auto simp: reported_kinds_def)

lemma encode_mouse_reported:
  assumes "encode_mouse_button kind column row mods MouseSgr = Some s \<or>
    encode_mouse_scroll kind column row mods MouseSgr = Some s"
  obtains base r k where "(kind, base, r, k) \<in> set reported_kinds"
    "encode_mouse_cb base r column row mods MouseSgr = Some s"
proof -
  have "\<exists>base r k. (kind, base, r, k) \<in> set reported_kinds \<and> encode_mouse_cb base r column row mods MouseSgr = Some s"
    using assms
    by (auto simp: encode_mouse_button_def encode_mouse_scroll_def reported_kinds_def bind_eq_Some_conv
        split: mouse_event_kind.splits mouse_button.splits)
  then show thesis using that by blast
qed

lemma byte_cases: "mods < 8 \<Longrightarrow> mods \<in> set (map of_nat [0..<8])" for mods :: u8
  unfolding list.set_map by (rule image_eqI [of _ _ "unat mods"]) (simp_all add: word_less_nat_alt)

lemma parse_u16_coordinate:
  "c < 65535 \<Longrightarrow> Option.bind (parse_u16 (show_nat (unat c + 1))) (\<lambda>v. checked_sub v 1) = Some c" for c :: u16
proof -
  assume "c < 65535"
  then have c: "unat c < 65535" by (simp add: word_less_nat_alt)
  then have "parse_u16 (show_nat (unat c + 1)) = Some (of_nat (unat c + 1))"
    by (simp add: parse_u16_def parse_uint_show_nat)
  moreover have "\<not> (of_nat (unat c + 1) :: u16) < 1"
    using c by (simp only: word_less_nat_alt unat_of_nat) simp
  ultimately show ?thesis by (simp add: checked_sub_def)
qed

lemma parse_sgr_fields:
  assumes "cb < 256" and "parse_mouse_cb (of_nat cb) = Some (k, mods)" and "column < 65535" and "row < 65535"
    and final: "final \<in> {CHR ''M'', CHR ''m''}"
  shows "parse_sgr_mouse (esc # ''[<'' @ (show_nat cb @ '';'' @ show_nat (unat column + 1) @ '';'' @
      show_nat (unat row + 1)) @ [final]) =
    Some \<lparr>me_kind = (case k of MouseDown b \<Rightarrow> if final = CHR ''m'' then MouseUp b else k | _ \<Rightarrow> k),
      me_column = column, me_row = row, me_modifiers = mods\<rparr>"
proof -
  define x y where "x = show_nat (unat column + 1)" and "y = show_nat (unat row + 1)"
  define payload where "payload = show_nat cb @ '';'' @ x @ '';'' @ y"
  have fields: "split_on CHR '';'' payload = [show_nat cb, x, y]"
    using split_on_append [OF show_nat_no_sep(1)] split_on_field [OF show_nat_no_sep(1)]
    by (simp add: payload_def x_def y_def)
  obtain c where c: "parse_u16 x = Some c" "checked_sub c 1 = Some column"
    using parse_u16_coordinate [OF assms(3)] by (auto simp: bind_eq_Some_conv x_def)
  obtain d where d: "parse_u16 y = Some d" "checked_sub d 1 = Some row"
    using parse_u16_coordinate [OF assms(4)] by (auto simp: bind_eq_Some_conv y_def)
  have prefix: "strip_prefix (esc # ''[<'' @ payload @ [final]) (esc # ''[<'') = Some (payload @ [final])"
    by (simp add: strip_prefix_chars)
  have "parse_sgr_mouse (esc # ''[<'' @ payload @ [final]) =
      Some \<lparr>me_kind = (case k of MouseDown b \<Rightarrow> if final = CHR ''m'' then MouseUp b else k | _ \<Rightarrow> k),
        me_column = column, me_row = row, me_modifiers = mods\<rparr>"
    unfolding parse_sgr_mouse_def prefix using final assms(1,2)
    by (simp add: fields parse_u8_show_nat c d cong: mouse_event_kind.case_cong)
  then show ?thesis by (simp add: payload_def x_def y_def)
qed

text \<open>C34: Mouse reports survive: every button, drag and wheel event that the encoder reports in the SGR form, at any
  cell of a screen of up to 65535 columns and rows, with Shift, Alt and Control in any combination, is cut off the
  stream exactly and delivered as the same event at the same cell with the same modifiers.\<close>

theorem sgr_mouse_round_trip:
  assumes "encode_mouse_button kind column row mods MouseSgr = Some s \<or>
      encode_mouse_scroll kind column row mods MouseSgr = Some s"
    and "column < 65535" and "row < 65535" and "mods < 8"
  shows "extract_one_event (s @ rest) = Return (Some
    (RawMouse \<lparr>me_kind = kind, me_column = column, me_row = row, me_modifiers = mods\<rparr>, length s))"
  using assms(1)
proof (rule encode_mouse_reported)
  fix base r k
  assume kind: "(kind, base, r, k) \<in> set reported_kinds"
    and enc: "encode_mouse_cb base r column row mods MouseSgr = Some s"
  note kf = reported_kinds_final [OF kind]
  define cb where "cb = unat (mouse_cb base r mods MouseSgr)"
  define final where "final = (if r then CHR ''m'' else CHR ''M'')"
  define payload where "payload = show_nat cb @ '';'' @ show_nat (unat column + 1) @ '';'' @ show_nat (unat row + 1)"
  have cb: "cb < 256" using mouse_cb_bound [of base r mods MouseSgr] kf by (simp add: cb_def)
  have "parse_mouse_cb (of_nat cb) = Some (k, mods)"
    using mouse_cb_table kind byte_cases [OF assms(4)] unfolding list_all_iff cb_def by fastforce
  from parse_sgr_fields [OF cb this assms(2,3), of final]
  have mouse: "parse_sgr_mouse (esc # ''[<'' @ payload @ [final]) =
      Some \<lparr>me_kind = kind, me_column = column, me_row = row, me_modifiers = mods\<rparr>"
    using kf by (cases r; cases k) (simp_all add: payload_def final_def)
  have s: "s = esc # ''[<'' @ payload @ [final]"
    using enc by (cases r) (auto simp: encode_mouse_cb_def Let_def payload_def final_def cb_def)
  have small: "\<forall>c \<in> set (''<'' @ payload). of_char c < (64 :: nat)"
    using show_nat_small by (fastforce simp: payload_def)
  then have "\<forall>c \<in> set (''<'' @ payload). c \<notin> set ''Mm''" by auto
  from position_first [OF this, of final rest]
  have "find_csi_final (s @ rest) ''Mm'' = Some (length s)"
    by (simp add: find_csi_final_def s final_def)
  then have "complete_escape_sequence_len (s @ rest) = Some (length s)"
    by (simp add: s escape_before_mouse_def starts_with_def)
  moreover have "ascii s" using small by (fastforce simp: s ascii_def final_def)
  then have "utf8_valid s" by (rule ascii_valid)
  moreover have "escape_event s = Return (RawMouse \<lparr>me_kind = kind, me_column = column, me_row = row, me_modifiers = mods\<rparr>)"
    using mouse by (simp add: s escape_event_def parse_default_color_response_def strip_prefix_chars
        parse_host_color_scheme_report_def GHOSTTY_COLOR_SCHEME_DARK_REPORT_def GHOSTTY_COLOR_SCHEME_LIGHT_REPORT_def)
  moreover have "\<not> starts_with (s @ rest) BRACKETED_PASTE_START"
    by (simp add: s starts_with_def BRACKETED_PASTE_START_def)
  moreover have "s \<noteq> []" "hd s = esc" by (simp_all add: s)
  ultimately show ?thesis by (cases s) (simp_all add: extract_one_event_def Let_def del: utf8_valid.simps)
qed

theorem sgr_mouse_round_trip_witness:
  "extract_one_event (([esc] @ ''[<4;201;1m'') @ ''x'') = Return (Some
    (RawMouse \<lparr>me_kind = MouseUp ButtonLeft, me_column = 200, me_row = 0, me_modifiers = SHIFT\<rparr>,
     length ([esc] @ ''[<4;201;1m'')))"
proof (rule sgr_mouse_round_trip)
  have "show_nat 4 = ''4''" "show_nat 201 = ''201''" "show_nat (Suc 0) = ''1''" by code_simp+
  then show "encode_mouse_button (MouseUp ButtonLeft) 200 0 SHIFT MouseSgr = Some ([esc] @ ''[<4;201;1m'') \<or>
      encode_mouse_scroll (MouseUp ButtonLeft) 200 0 SHIFT MouseSgr = Some ([esc] @ ''[<4;201;1m'')"
    by (simp add: encode_mouse_button_def encode_mouse_cb_def mouse_cb_def mods_contain_def modifier_defs Let_def)
qed (simp_all add: modifier_defs)

section \<open>Colour replies\<close>

lemma find_st:
  "esc \<notin> set body \<Longrightarrow> find_subsequence (body @ [esc, CHR 0x5C] @ rest) [esc, CHR 0x5C] = Some (length body)"
  by (induction body) (auto simp: starts_with_def)

text \<open>The colours of the host terminal survive: the sequence that sets a default colour, read back as the
  reply it is shaped like, is cut off the stream exactly and delivered as that colour.\<close>

theorem default_color_round_trip:
  "extract_one_event (osc_set_default_color_sequence kind color @ rest) = Return (Some
    (RawHostDefaultColor kind color, length (osc_set_default_color_sequence kind color)))"
proof -
  define num where "num = (case kind of Foreground \<Rightarrow> ''10'' | Background \<Rightarrow> ''11'')"
  define body where "body = num @ '';rgb:'' @ show_hex2 (rgb_r color) @ ''/'' @ show_hex2 (rgb_g color) @ ''/'' @
    show_hex2 (rgb_b color)"
  define s where "s = osc_set_default_color_sequence kind color"
  have s: "s = esc # CHR '']'' # body @ [esc, CHR 0x5C]"
    by (simp add: s_def osc_set_default_color_sequence_def body_def num_def)
  have "\<not> is_ascii_hexdigit esc" "\<not> is_ascii_hexdigit CHR 0x07" by code_simp+
  note no = show_hex2_no_char [OF this(1)] show_hex2_no_char [OF this(2)]
  have body: "esc \<notin> set body" "CHR 0x07 \<notin> set body"
    using no by (auto simp: body_def num_def split: default_color_kind.split)
  have "find_subsequence (s @ rest) [esc, CHR 0x5C] = Some (length body + 2)"
    using find_st [OF body(1), of rest] by (simp add: s starts_with_def)
  moreover have "position (\<lambda>b. b = CHR 0x07) s = None" using body(2) by (auto simp: position_None s)
  then have "length s \<le> i" if "position (\<lambda>b. b = CHR 0x07) (s @ rest) = Some i" for i
    using position_late that by blast
  moreover have "length s = length body + 4" by (simp add: s)
  ultimately have "osc_string_terminator (s @ rest) = Some (length s)"
    by (cases "position (\<lambda>b. b = CHR 0x07) (s @ rest)") (simp_all add: osc_string_terminator_def min_def)
  then have "control_string (s @ rest) = Some (CsComplete (length s) Osc)"
    by (simp add: control_string_def introducer_family_def s)
  then have "complete_escape_sequence_len (s @ rest) = Some (length s)"
    by (simp add: s escape_before_mouse_def starts_with_def)
  moreover have "ascii s"
  proof -
    have "of_char c < (128 :: nat)" if "is_ascii_hexdigit c" for c
      using that by (auto simp: is_ascii_hexdigit_def hex_digit_value_def Let_def split: if_splits)
    then show ?thesis using show_hex2_digits
      by (auto simp: s body_def num_def ascii_def split: default_color_kind.split)
  qed
  then have "utf8_valid s" by (rule ascii_valid)
  moreover have "escape_event s = Return (RawHostDefaultColor kind color)"
    by (simp add: escape_event_def s_def parse_osc_set_default_color)
  moreover have "\<not> starts_with (s @ rest) BRACKETED_PASTE_START"
    by (simp add: s starts_with_def BRACKETED_PASTE_START_def)
  moreover have "s \<noteq> []" "hd s = esc" by (simp_all add: s)
  ultimately show ?thesis unfolding s_def [symmetric]
    by (cases s) (simp_all add: extract_one_event_def Let_def del: utf8_valid.simps)
qed

section \<open>Panics\<close>

lemma extract_one_event_ascii: "ascii b \<Longrightarrow> extract_one_event b \<noteq> Panic"
proof
  assume a: "ascii b" and p: "extract_one_event b = Panic"
  from p obtain n where "escape_event (take n b) = Panic"
    by (auto simp: extract_one_event_def try_some_def Let_def outcome_bind_def
        split: list.splits if_splits option.splits outcome.splits)
  then have "parse_default_color_response (take n b) = Panic"
    by (cases "parse_default_color_response (take n b)") (simp_all add: escape_event_def)
  moreover have "ascii (take n b)" using a by (meson ascii_def in_set_takeD)
  ultimately show False using parse_default_color_response_ascii by blast
qed

lemma panics_ascii: "panics extract_one_event b \<Longrightarrow> \<not> ascii b"
proof (induction rule: panics.induct)
  case (later b e n)
  then show ?case by (meson ascii_def in_set_dropD)
qed (use extract_one_event_ascii in blast)

lemma events_from_chunks_ascii: "\<forall>c \<in> set cs. ascii c \<Longrightarrow> events_from_chunks cs \<noteq> Panic"
  by (induction cs) (auto simp: outcome_bind_def extract_one_event_ascii split: outcome.splits)

text \<open>C35: A text of ASCII bytes cannot stop the reader: pushed to a framer that has nothing pending from a
  timeout, it is answered with events and a new state.  Without the assumption of ASCII it does not hold: the colour parser slices the text behind a number sign
  before it has looked at it, so a reply with an accented letter there panics.\<close>

theorem ascii_input_never_panics:
  assumes "plain_framer f" and "ascii (rf_buffer f @ data)"
  shows "framer_push f data \<noteq> Panic \<and>
    framer_push new_framer (esc # '']10;#'' @ encode_utf8 0xE9 @ ''a'' @ [CHR 0x07]) = Panic"
proof
  show "framer_push f data \<noteq> Panic"
    using assms(1)
  proof (cases rule: push_bytes_cases [where data = data])
    case (cuts cs r)
    have "ascii c" if "c \<in> snd ` set cs" for c
      using that assms(2) unfolding raw.cuts_concat [OF cuts(1), symmetric] ascii_def by fastforce
    then have "events_from_chunks (map snd cs) \<noteq> Panic" by (intro events_from_chunks_ascii) auto
    with cuts(2) show ?thesis
      by (auto simp: framer_push_def outcome_bind_def split: outcome.splits)
  qed (use assms(2) panics_ascii in blast)
  have "encode_utf8 0xE9 = [CHR 0xC3, CHR 0xA9]" by code_simp
  then have b: "esc # '']10;#'' @ encode_utf8 0xE9 @ ''a'' @ [CHR 0x07] =
      [esc, CHR '']'', CHR ''1'', CHR ''0'', CHR '';'', CHR ''#'', CHR 0xC3, CHR 0xA9, CHR ''a'', CHR 0x07]" by simp
  have "extract_one_event (esc # '']10;#'' @ encode_utf8 0xE9 @ ''a'' @ [CHR 0x07]) = Panic"
    unfolding b by code_simp
  then have "panics extract_one_event (esc # '']10;#'' @ encode_utf8 0xE9 @ ''a'' @ [CHR 0x07])" by (rule panics.now)
  then have "push_bytes new_framer (esc # '']10;#'' @ encode_utf8 0xE9 @ ''a'' @ [CHR 0x07]) = Panic"
    using push_bytes_panics [of new_framer] by (simp add: plain_framer_def new_framer_def)
  then show "framer_push new_framer (esc # '']10;#'' @ encode_utf8 0xE9 @ ''a'' @ [CHR 0x07]) = Panic"
    by (simp add: framer_push_def)
qed

theorem ascii_input_never_panics_witness:
  "framer_push new_framer ''ls'' \<noteq> Panic \<and>
    framer_push new_framer (esc # '']10;#'' @ encode_utf8 0xE9 @ ''a'' @ [CHR 0x07]) = Panic"
  by (rule ascii_input_never_panics) (simp_all add: plain_framer_def new_framer_def ascii_def)

section \<open>Timeouts\<close>

lemma drain_incomplete:
  assumes "rf_discard_until f = None" and "\<not> starts_with_incomplete_orphaned_sgr_mouse_tail (rf_buffer f)"
    and "discard_complete_orphaned_sgr_mouse_tail (rf_buffer f) = None"
    and "extract_one_event (rf_buffer f) = Return None"
  shows "drain_available_chunks f = Return ([], f\<lparr>rf_lone_escape_recently_flushed := False\<rparr>)"
proof -
  have "f = f\<lparr>rf_lone_escape_recently_flushed := False\<rparr>" if "\<not> rf_lone_escape_recently_flushed f" using that by simp
  with assms show ?thesis
    by (subst drain_available_chunks.simps)
      (auto simp: drain_step_def drain_discarding_def drain_event_def)
qed

lemma lone_escape_drain:
  assumes "rf_buffer f = [esc]" and "rf_discard_until f = None"
  shows "drain_available_chunks f = Return ([], f\<lparr>rf_lone_escape_recently_flushed := False\<rparr>)"
  by (rule drain_incomplete)
    (simp_all add: assms starts_with_incomplete_orphaned_sgr_mouse_tail_def starts_with_def
      MAX_ORPHANED_SGR_MOUSE_TAIL_BYTES_def discard_complete_orphaned_sgr_mouse_tail_def
      extract_one_event_def BRACKETED_PASTE_START_def)

lemma lone_escape_flush:
  assumes "rf_buffer f = [esc]" and "rf_discard_until f = None"
  shows "flush_timeout f =
    (if 0 < rf_host_color_replies_awaited f \<and> \<not> rf_held_pending_color_esc f
     then Return ([], f\<lparr>rf_lone_escape_recently_flushed := False, rf_held_pending_color_esc := True\<rparr>)
     else Return ([[esc]], f\<lparr>rf_lone_escape_recently_flushed := True, rf_host_color_replies_awaited := 0,
                             rf_held_pending_color_esc := False, rf_buffer := []\<rparr>))"
  using assms
  by (simp add: flush_timeout_def lone_escape_drain flush_pending_def Let_def starts_with_def
      starts_with_incomplete_sgr_mouse_sequence_def BRACKETED_PASTE_START_def
      starts_with_incomplete_default_color_response_def control_string_def
      starts_with_incomplete_host_color_scheme_report_def)

text \<open>The escape key comes out of a framer that is not discarding the rest of a timed-out reply: an escape that
  is alone in the buffer when the input pauses is delivered as the Escape key at the first timeout, or at the second one if a colour reply of the host is awaited, and
  the buffer is empty then.\<close>

lemma escape_key_delivered:
  assumes "rf_buffer f = [esc]" and "rf_discard_until f = None"
  shows "\<exists>g. rf_buffer g = [] \<and>
    (framer_flush_timeout f = Return ([RawKey (new_key KEsc 0)], g) \<or>
     0 < rf_host_color_replies_awaited f \<and>
     (\<exists>h. framer_flush_timeout f = Return ([], h) \<and>
          framer_flush_timeout h = Return ([RawKey (new_key KEsc 0)], g)))"
proof (cases "0 < rf_host_color_replies_awaited f \<and> \<not> rf_held_pending_color_esc f")
  case True
  let ?h = "f\<lparr>rf_lone_escape_recently_flushed := False, rf_held_pending_color_esc := True\<rparr>"
  have "framer_flush_timeout f = Return ([], ?h)"
    using True lone_escape_flush [OF assms] by (simp add: framer_flush_timeout_def)
  moreover obtain g where "framer_flush_timeout ?h = Return ([RawKey (new_key KEsc 0)], g)" "rf_buffer g = []"
    using lone_escape_flush [of ?h] assms by (simp add: framer_flush_timeout_def)
  ultimately show ?thesis using True by blast
next
  case False
  with lone_escape_flush [OF assms] have "flush_timeout f = Return ([[esc]],
      f\<lparr>rf_lone_escape_recently_flushed := True, rf_host_color_replies_awaited := 0,
        rf_held_pending_color_esc := False, rf_buffer := []\<rparr>)" by (simp only: if_False)
  then show ?thesis by (simp add: framer_flush_timeout_def)
qed

lemma escape_key_delivered_example:
  "\<exists>g. rf_buffer g = [] \<and>
    (framer_flush_timeout (host_color_query_sent new_framer\<lparr>rf_buffer := [esc]\<rparr>) = Return ([RawKey (new_key KEsc 0)], g) \<or>
     0 < rf_host_color_replies_awaited (host_color_query_sent new_framer\<lparr>rf_buffer := [esc]\<rparr>) \<and>
     (\<exists>h. framer_flush_timeout (host_color_query_sent new_framer\<lparr>rf_buffer := [esc]\<rparr>) = Return ([], h) \<and>
          framer_flush_timeout h = Return ([RawKey (new_key KEsc 0)], g)))"
  by (rule escape_key_delivered) (simp_all add: host_color_query_sent_def new_framer_def)

text \<open>A framer that discards a reply drops everything up to its terminator.\<close>

lemma push_discarding:
  assumes "rf_discard_until f = Some family" and "family \<noteq> OrphanedSgrMouseTail"
    and "\<not> rf_lone_escape_recently_flushed f"
    and "control_string_terminator_for_family (rf_buffer f @ data) family = Some n"
  shows "push_bytes f data = push_bytes (stop_discarding f []) (drop n (rf_buffer f @ data))"
proof -
  let ?f = "f\<lparr>rf_buffer := rf_buffer f @ data\<rparr>"
  have "drain_step ?f = Return (DrainContinue (stop_discarding ?f (drop n (rf_buffer f @ data))))"
    using assms by (cases family)
      (simp_all add: drain_step_def drain_discarding_def del: control_string_terminator_for_family.simps)
  then have "push_bytes f data = drain_available_chunks (stop_discarding ?f (drop n (rf_buffer f @ data)))"
    unfolding push_bytes_def by (subst drain_available_chunks.simps) simp
  moreover have "stop_discarding ?f b = (stop_discarding f [])\<lparr>rf_buffer := b\<rparr>" for b
    by (rule raw_framer.equality) (simp_all add: stop_discarding_def)
  ultimately show ?thesis by (simp add: push_bytes_def stop_discarding_def [of f "[]"])
qed

lemma control_string_introducer:
  "control_string b = Some (CsIncomplete family) \<Longrightarrow>
     \<exists>c r. b = esc # c # r \<and> c \<in> {CHR '']'', CHR ''P'', CHR ''_'', CHR ''^'', CHR ''X''} \<and>
       family \<in> {Osc, StTerminated}"
  by (cases b; cases "tl b")
    (auto simp: control_string_def introducer_family_def split: option.splits if_splits)

lemma incomplete_control_string_waits:
  assumes "control_string b = Some (CsIncomplete family)"
  shows "extract_one_event b = Return None"
proof -
  obtain c r where b: "b = esc # c # r" "c \<in> {CHR '']'', CHR ''P'', CHR ''_'', CHR ''^'', CHR ''X''}"
    using control_string_introducer [OF assms] by blast
  then have "complete_escape_sequence_len b = None"
    using assms by (auto simp: escape_before_mouse_def starts_with_def)
  with b show ?thesis by (auto simp: extract_one_event_def starts_with_def BRACKETED_PASTE_START_def)
qed

text \<open>When an incomplete control string other than a colour reply times out, nothing is delivered, and when the
  rest of it arrives in the next read with its terminator, only the bytes behind the terminator are looked at, by
  a framer whose buffer is empty.\<close>

lemma late_reply_discarded:
  assumes "plain_framer f" and "control_string (rf_buffer f) = Some (CsIncomplete family)"
    and "\<not> starts_with_incomplete_default_color_response (rf_buffer f)"
    and "control_string_terminator_for_family late family = Some n"
  shows "\<exists>g h. flush_timeout f = Return ([], g) \<and> plain_framer h \<and> rf_buffer h = [] \<and>
    push_bytes g late = push_bytes h (drop n late)"
proof -
  obtain c r where b: "rf_buffer f = esc # c # r" "c \<in> {CHR '']'', CHR ''P'', CHR ''_'', CHR ''^'', CHR ''X''}"
    and fam: "family \<in> {Osc, StTerminated}"
    using control_string_introducer [OF assms(2)] by blast
  let ?g = "f\<lparr>rf_discard_until := Some family, rf_discarded_tail_bytes := 0, rf_buffer := []\<rparr>"
  have "drain_available_chunks f = Return ([], f)"
    using drain_plain_cuts [OF assms(1) cuts_wait [OF incomplete_control_string_waits [OF assms(2)]]]
    by (simp add: after_events_def)
  moreover have "flush_pending f = ([], ?g)"
    using b assms(1-3)
    by (auto simp: flush_pending_def Let_def plain_framer_def starts_with_incomplete_sgr_mouse_sequence_def
        starts_with_def BRACKETED_PASTE_START_def starts_with_incomplete_host_color_scheme_report_def)
  ultimately have "flush_timeout f = Return ([], ?g)" by (simp add: flush_timeout_def)
  moreover have "push_bytes ?g late = push_bytes (stop_discarding ?g []) (drop n late)"
    using push_discarding [of ?g family late n] fam assms(1,4) by (auto simp: plain_framer_def)
  moreover have "plain_framer (stop_discarding ?g [])" "rf_buffer (stop_discarding ?g []) = []"
    using assms(1) by (simp_all add: stop_discarding_def plain_framer_def)
  ultimately show ?thesis by blast
qed

lemma late_reply_discarded_example:
  "\<exists>g h. flush_timeout (new_framer\<lparr>rf_buffer := esc # '']52;c;''\<rparr>) = Return ([], g) \<and> plain_framer h \<and> rf_buffer h = [] \<and>
    push_bytes g (''QQ'' @ [CHR 0x07] @ ''ls'') = push_bytes h (drop 3 (''QQ'' @ [CHR 0x07] @ ''ls''))"
proof (rule late_reply_discarded)
  show "control_string_terminator_for_family (''QQ'' @ [CHR 0x07] @ ''ls'') Osc = Some 3" by code_simp
qed (simp_all add: plain_framer_def new_framer_def control_string_def introducer_family_def
      osc_string_terminator_def starts_with_def starts_with_incomplete_default_color_response_def)

text \<open>Alt with the left bracket is a key to the timeout of the byte framer, which returns its two bytes as a chunk;
  the conversion into events drops it, because it asks for a complete sequence again.\<close>

lemma alt_bracket_dropped:
  shows "parse_terminal_key_sequence (esc # ''['') = Some (new_key (KChar 91) ALT)"
    and "flush_timeout (new_framer\<lparr>rf_buffer := esc # ''[''\<rparr>) = Return ([esc # ''[''], new_framer)"
    and "framer_flush_timeout (new_framer\<lparr>rf_buffer := esc # ''[''\<rparr>) = Return ([], new_framer)"
proof -
  have "scalar_value 91" by (simp add: scalar_value_def)
  moreover have "encode_utf8 91 = ''[''" by code_simp
  ultimately show p: "parse_terminal_key_sequence (esc # ''['') = Some (new_key (KChar 91) ALT)"
    using parse_alt_text [of 91] by (simp add: is_ascii_uppercase_def)
  have e: "extract_one_event (esc # ''['') = Return None"
    by (simp add: extract_one_event_def starts_with_def BRACKETED_PASTE_START_def escape_before_mouse_def find_csi_final_def)
  have "drain_available_chunks (new_framer\<lparr>rf_buffer := esc # ''[''\<rparr>) = Return ([], new_framer\<lparr>rf_buffer := esc # ''[''\<rparr>)"
    using drain_plain_cuts [of "new_framer\<lparr>rf_buffer := esc # ''[''\<rparr>" "[]" "esc # ''[''"] cuts_wait [OF e]
    by (simp add: plain_framer_def after_events_def new_framer_def)
  moreover have "utf8_valid (esc # ''['')" by (rule ascii_valid) (simp add: ascii_def)
  ultimately show f: "flush_timeout (new_framer\<lparr>rf_buffer := esc # ''[''\<rparr>) = Return ([esc # ''[''], new_framer)"
    by (simp add: flush_timeout_def flush_pending_def new_framer_def starts_with_def p control_string_def
        introducer_family_def starts_with_incomplete_sgr_mouse_sequence_def BRACKETED_PASTE_START_def
        starts_with_incomplete_default_color_response_def starts_with_incomplete_host_color_scheme_report_def
        del: utf8_valid.simps)
  show "framer_flush_timeout (new_framer\<lparr>rf_buffer := esc # ''[''\<rparr>) = Return ([], new_framer)"
    using f e by (simp add: framer_flush_timeout_def)
qed

end
