(* ===== verification/StrLines.thy ===== *)
theory StrLines
  imports Utf8
begin

text \<open>
  The lines of a text, as \<open>str::lines\<close> of the standard library gives them, and the offsets at which they
  start.  The lines with their terminators, whose concatenation is the text, are the reference: they say
  which part of the text a slice at the start of a line is.
\<close>

section \<open>Lines\<close>

definition newline :: "char" where "newline = CHR 0x0A"
definition carriage_return :: "char" where "carriage_return = CHR 0x0D"

text \<open>\<open>str::split_inclusive('\n')\<close>\<close>

fun lines_inclusive :: "string \<Rightarrow> string list" where
  "lines_inclusive [] = []"
| "lines_inclusive (c # s) =
     (if c = newline then [c] # lines_inclusive s
      else (case lines_inclusive s of [] \<Rightarrow> [[c]] | l # ls \<Rightarrow> (c # l) # ls))"

definition strip_newline :: "string \<Rightarrow> string" where
  "strip_newline l =
     (case strip_suffix l [newline] of
        None \<Rightarrow> l
      | Some m \<Rightarrow> unwrap_or (strip_suffix m [carriage_return]) m)"

definition str_lines :: "string \<Rightarrow> string list" where
  "str_lines s = map strip_newline (lines_inclusive s)"

text \<open>\<open>char_indices().nth(n)\<close>, or the length of the text: the offset of the character number \<open>n\<close>.\<close>

fun char_offset :: "nat \<Rightarrow> string \<Rightarrow> nat" where
  "char_offset 0 s = 0"
| "char_offset (Suc n) s =
     (case s of [] \<Rightarrow> 0 | b # _ \<Rightarrow> min (length s) (utf8_len b + char_offset n (drop (utf8_len b) s)))"

section \<open>Facts\<close>

lemma concat_lines_inclusive [simp]: "concat (lines_inclusive s) = s"
  by (induction s rule: lines_inclusive.induct) (auto split: list.splits)

lemma lines_inclusive_Nil_iff [simp]: "lines_inclusive s = [] \<longleftrightarrow> s = []"
  by (cases s) (auto split: list.splits)

lemma lines_inclusive_nonempty: "l \<in> set (lines_inclusive s) \<Longrightarrow> l \<noteq> []"
  by (induction s arbitrary: l rule: lines_inclusive.induct) (auto split: list.splits if_splits)

lemma lines_inclusive_append:
  "lines_inclusive (s @ newline # t) = lines_inclusive (s @ [newline]) @ lines_inclusive t"
  by (induction s) (auto split: list.splits)

text \<open>Only the last line of a text can lack its terminator.\<close>

lemma lines_inclusive_terminated:
  "lines_inclusive s = ls @ l # r # rs \<Longrightarrow> ends_with l [newline]"
proof (induction s arbitrary: ls l rule: lines_inclusive.induct)
  case (2 c s)
  show ?case
  proof (cases "c = newline")
    case True
    with 2 show ?thesis by (cases ls) (auto simp: ends_with_iff)
  next
    case False
    with "2.prems" obtain k ks where k: "lines_inclusive s = k # ks" and e: "(c # k) # ks = ls @ l # r # rs"
      by (cases "lines_inclusive s") auto
    show ?thesis
    proof (cases ls)
      case Nil
      with e k have "lines_inclusive s = [] @ k # r # rs" and l: "l = c # k" by auto
      from "2.IH"(2) [OF False this(1)] obtain t where "k = t @ [newline]" by (auto simp: ends_with_iff)
      with l have "l = (c # t) @ [newline]" by simp
      then show ?thesis unfolding ends_with_iff by blast
    next
      case (Cons x xs)
      with e k have "lines_inclusive s = (k # xs) @ l # r # rs" by auto
      from "2.IH"(2) [OF False this] show ?thesis .
    qed
  qed
qed simp

lemma lines_inclusive_line:
  "newline \<notin> set m \<Longrightarrow> lines_inclusive (m @ newline # t) = (m @ [newline]) # lines_inclusive t"
  by (induction m) auto

lemma lines_inclusive_first:
  "lines_inclusive s = l # r # rs \<Longrightarrow> \<exists>m. newline \<notin> set m \<and> l = m @ [newline]"
proof (induction s arbitrary: l)
  case (Cons c s)
  show ?case
  proof (cases "c = newline")
    case False
    with Cons.prems obtain k where "lines_inclusive s = k # r # rs" and l: "l = c # k"
      by (auto split: list.splits)
    with Cons.IH obtain m where "newline \<notin> set m" "k = m @ [newline]" by blast
    with l False have "newline \<notin> set (c # m) \<and> l = (c # m) @ [newline]" by simp
    then show ?thesis by blast
  qed (use Cons.prems in auto)
qed simp

text \<open>The first lines of a text are the lines of their concatenation.\<close>

lemma lines_inclusive_prefix: "lines_inclusive s = as @ bs \<Longrightarrow> lines_inclusive (concat as) = as"
proof (induction as arbitrary: s)
  case (Cons l as)
  show ?case
  proof (cases "as @ bs")
    case Nil
    with Cons.prems have "lines_inclusive s = [l]" by simp
    then have "concat [l] = s" by (metis concat_lines_inclusive)
    with \<open>lines_inclusive s = [l]\<close> Nil show ?thesis by simp
  next
    case rest: (Cons r rs)
    with Cons.prems have "lines_inclusive s = l # r # rs" by simp
    then obtain m where m: "newline \<notin> set m" "l = m @ [newline]" using lines_inclusive_first by blast
    have "s = m @ newline # concat (as @ bs)"
      using Cons.prems m by (metis append.assoc append_Cons append_Nil concat.simps(2) concat_lines_inclusive)
    then have "lines_inclusive s = l # lines_inclusive (concat (as @ bs))"
      using m by (simp add: lines_inclusive_line)
    with Cons.prems have "lines_inclusive (concat (as @ bs)) = as @ bs" by simp
    from Cons.IH [OF this] m show ?thesis by (simp add: lines_inclusive_line)
  qed
qed simp

definition crlf_free :: "string \<Rightarrow> bool" where
  "crlf_free s = list_all (\<lambda>l. \<not> ends_with l [carriage_return, newline]) (lines_inclusive s)"

lemma length_strip_newline:
  assumes "ends_with l [newline]" and "\<not> ends_with l [carriage_return, newline]"
  shows "Suc (length (strip_newline l)) = length l"
proof -
  from assms(1) obtain m where m: "l = m @ [newline]" by (auto simp: ends_with_iff)
  then have "strip_suffix l [newline] = Some m" by (simp add: strip_suffix_Some)
  moreover have "strip_suffix m [carriage_return] = None"
    using assms(2) m by (auto simp: strip_suffix_def ends_with_iff)
  ultimately show ?thesis by (simp add: strip_newline_def m)
qed

lemma length_strip_newline_le: "length (strip_newline l) \<le> length l"
  by (auto simp: strip_newline_def strip_suffix_def unwrap_or_def split: option.splits)

section \<open>Slices at ASCII characters of a valid text\<close>

text \<open>In a valid text an ASCII byte is a character of its own: what follows it is a valid text.\<close>

lemma tail_ok_continuation: "tail_ok b cs \<Longrightarrow> c \<in> set cs \<Longrightarrow> continuation_byte c"
  by (cases cs) (auto simp: tail_ok_def list_all_iff second_byte_ok_def Let_def)

lemma utf8_valid_behind_ascii:
  "utf8_valid (s @ c # t) \<Longrightarrow> of_char c < (128 :: nat) \<Longrightarrow> utf8_valid t"
proof (induction s rule: utf8_valid.induct)
  case 1
  then have "utf8_width c = Some 1" by (simp add: utf8_width_def)
  then have "scan_char c t = Complete 1" by (simp add: scan_char_def tail_ok_def)
  with 1 show ?case by simp
next
  case (2 b bs)
  from "2.prems" obtain w where w: "scan_char b (bs @ c # t) = Complete w"
    and valid: "utf8_valid (drop (w - 1) (bs @ c # t))" by (auto split: utf8_scan.splits)
  have "w - 1 \<le> length bs"
  proof (rule ccontr)
    assume "\<not> w - 1 \<le> length bs"
    then have "c \<in> set (take (w - 1) (bs @ c # t))" by (auto simp: take_Cons')
    moreover have "tail_ok b (take (w - 1) (bs @ c # t))" using w
      by (auto simp: scan_char_def split: option.splits if_splits)
    ultimately have "continuation_byte c" by (rule tail_ok_continuation [rotated])
    with "2.prems"(2) show False by (simp add: continuation_byte_def Let_def)
  qed
  then have "scan_char b bs = Complete w" and "drop (w - 1) (bs @ c # t) = drop (w - 1) bs @ c # t"
    using w by (auto simp: scan_char_def split: option.splits if_splits)
  with "2.IH" [OF this(1)] valid "2.prems"(2) show ?case by simp
qed

lemma utf8_valid_boundary: "utf8_valid t \<Longrightarrow> t \<noteq> [] \<Longrightarrow> \<not> continuation_byte (hd t)"
  by (cases t) (auto simp: scan_char_def utf8_width_def continuation_byte_def Let_def
      split: if_splits option.splits utf8_scan.splits)

lemma line_start_boundary:
  assumes "utf8_valid s" and "lines_inclusive s = ls @ rs"
  shows "is_char_boundary s (length (concat ls))"
proof -
  have s: "s = concat ls @ concat rs" using assms(2) by (metis concat_append concat_lines_inclusive)
  show ?thesis
  proof (cases "ls = [] \<or> rs = []")
    case True
    then show ?thesis using s by (auto simp: is_char_boundary_def)
  next
    case False
    then obtain l ls' r rs' where split: "ls = ls' @ [l]" "rs = r # rs'"
      by (metis append_butlast_last_id neq_Nil_conv)
    with assms(2) have "ends_with l [newline]" by (auto intro: lines_inclusive_terminated)
    then obtain m where m: "concat ls = m @ [newline]" using split by (auto simp: ends_with_iff)
    have "utf8_valid (concat rs)"
      by (rule utf8_valid_behind_ascii [of m newline]) (use assms(1) s m in \<open>auto simp: newline_def\<close>)
    moreover have "concat rs \<noteq> []"
      using lines_inclusive_nonempty [of r s] assms(2) split by simp
    ultimately have "\<not> continuation_byte (hd (concat rs))" by (rule utf8_valid_boundary)
    moreover have "s ! length (concat ls) = hd (concat rs)"
      using s \<open>concat rs \<noteq> []\<close> by (metis hd_conv_nth nth_append_length_plus add.right_neutral)
    moreover have "length (concat ls) < length s"
      using s \<open>concat rs \<noteq> []\<close> by (metis length_append length_greater_0_conv less_add_same_cancel1)
    ultimately show ?thesis by (simp add: is_char_boundary_def)
  qed
qed

text \<open>A slice between the starts of two lines.\<close>

lemma str_slice_lines:
  assumes "utf8_valid s" and "lines_inclusive s = as @ bs @ cs"
  shows "str_slice s (length (concat as)) (length (concat (as @ bs))) = Return (concat bs)"
proof -
  have s: "s = concat as @ concat bs @ concat cs" using assms(2) by (metis concat_append concat_lines_inclusive)
  have "is_char_boundary s (length (concat as))" "is_char_boundary s (length (concat (as @ bs)))"
    using line_start_boundary [OF assms(1), of as "bs @ cs"] line_start_boundary [OF assms(1), of "as @ bs" cs]
      assms(2) by simp_all
  then show ?thesis by (simp add: str_slice_def) (simp add: s)
qed

end
