(* ===== verification/ManifestRegions.thy ===== *)
theory ManifestRegions
  imports StrLines
begin

text \<open>
  The regions of a screen that the rules of a detection manifest look at (\<open>src/detect/manifest.rs\<close>, from
  \<open>region\<close> on).  A region is a slice of the screen at line starts, found by counting the bytes of the lines
  \<open>str::lines\<close> returns; a slice inside a character panics, so the result is an \<open>outcome\<close>.
\<close>

section \<open>Kinds of lines\<close>

definition prompt_mark :: "string" where "prompt_mark = [CHR 0xE2, CHR 0x80, CHR 0xBA]"

definition codex_prompt_line :: "string \<Rightarrow> bool" where
  "codex_prompt_line line = (line = prompt_mark \<or> starts_with line (prompt_mark @ '' ''))"

definition codex_block_marker_line :: "string \<Rightarrow> bool" where
  "codex_block_marker_line line =
     (starts_with line [CHR 0xE2, CHR 0x80, CHR 0xA2] \<or> starts_with line [CHR 0xE2, CHR 0x96, CHR 0xA0] \<or>
      starts_with line [CHR 0xE2, CHR 0x9C, CHR 0x97] \<or> starts_with line [CHR 0xE2, CHR 0x9C, CHR 0x93])"

definition is_horizontal_rule :: "string \<Rightarrow> bool" where
  "is_horizontal_rule line =
     (let trimmed = trim line
      in if trimmed = [] then False
         else let rule_chars = length (takeWhile (\<lambda>ch. ch = 0x2500) (str_chars trimmed))
              in if rule_chars = 0 then False
                 else let suffix = trim_start (drop (char_offset rule_chars trimmed) trimmed)
                      in suffix = [] \<or> 3 \<le> rule_chars)"

definition blank_line :: "string \<Rightarrow> bool" where
  "blank_line line = (trim line = [])"

section \<open>Offsets of lines\<close>

definition line_start_offset :: "string \<Rightarrow> string list \<Rightarrow> nat \<Rightarrow> nat" where
  "line_start_offset content lines index =
     min (sum_list (map (\<lambda>line. length line + 1) (take (min index (length lines)) lines))) (length content)"

definition slice_from_line_index :: "string \<Rightarrow> string list \<Rightarrow> nat \<Rightarrow> string outcome" where
  "slice_from_line_index content lines index =
     (let byte_offset = line_start_offset content lines index
      in str_slice content (min byte_offset (length content)) (length content))"

text \<open>\<open>rposition\<close>: the index of the last element that satisfies the test.\<close>

fun rposition :: "('a \<Rightarrow> bool) \<Rightarrow> 'a list \<Rightarrow> nat option" where
  "rposition P [] = None"
| "rposition P (x # xs) =
     (case rposition P xs of Some i \<Rightarrow> Some (Suc i) | None \<Rightarrow> if P x then Some 0 else None)"

section \<open>Regions at the end of the screen\<close>

definition bottom_lines :: "string \<Rightarrow> nat \<Rightarrow> string outcome" where
  "bottom_lines content count =
     (let lines = str_lines content in slice_from_line_index content lines (length lines - count))"

definition bottom_non_empty_lines :: "string \<Rightarrow> nat \<Rightarrow> string outcome" where
  "bottom_non_empty_lines content count =
     (let lines = str_lines content;
          picked = take count (filter (\<lambda>entry. \<not> blank_line (snd entry)) (rev (List.enumerate 0 lines)))
      in if picked = [] then Return [] else slice_from_line_index content lines (fst (last picked)))"

definition last_non_empty_line :: "string \<Rightarrow> string" where
  "last_non_empty_line content =
     unwrap_or (find (\<lambda>line. \<not> blank_line line) (rev (str_lines content))) []"

section \<open>Regions at the prompt\<close>

definition after_last_prompt_marker :: "string \<Rightarrow> string outcome" where
  "after_last_prompt_marker content =
     (let lines = str_lines content
      in case rposition codex_prompt_line lines of
           None \<Rightarrow> Return content
         | Some index \<Rightarrow> slice_from_line_index content lines (index + 1))"

definition current_codex_prompt_index :: "string list \<Rightarrow> nat option" where
  "current_codex_prompt_index lines =
     (case rposition codex_prompt_line lines of
        None \<Rightarrow> None
      | Some prompt_index \<Rightarrow>
          if list_ex codex_block_marker_line (drop (prompt_index + 1) lines) then None
          else Some prompt_index)"

definition before_current_prompt_marker :: "string \<Rightarrow> string outcome" where
  "before_current_prompt_marker content =
     (let lines = str_lines content
      in case current_codex_prompt_index lines of
           None \<Rightarrow> Return content
         | Some index \<Rightarrow>
             let byte_offset = sum_list (map (\<lambda>line. length line + 1) (take index lines))
             in str_slice content 0 (min byte_offset (length content)))"

definition whole_recent_without_current_prompt_marker :: "string \<Rightarrow> string" where
  "whole_recent_without_current_prompt_marker content =
     (if current_codex_prompt_index (str_lines content) \<noteq> None then [] else content)"

definition current_prompt_block_marker :: "string \<Rightarrow> string option" where
  "current_prompt_block_marker content =
     (let lines = str_lines content
      in case current_codex_prompt_index lines of
           None \<Rightarrow> None
         | Some prompt_index \<Rightarrow> find codex_block_marker_line (rev (take prompt_index lines)))"

definition after_current_prompt_block_marker :: "string \<Rightarrow> string option outcome" where
  "after_current_prompt_block_marker content =
     (let lines = str_lines content
      in try_some (current_codex_prompt_index lines) (\<lambda>prompt_index.
           try_some (rposition codex_block_marker_line (take prompt_index lines)) (\<lambda>block_index.
             outcome_bind (slice_from_line_index content lines block_index) (\<lambda>s. Return (Some s)))))"

section \<open>Regions at the prompt box\<close>

text \<open>The loop of \<open>prompt_box_top_border_index\<close> over the lines from the last to the first.\<close>

fun top_border_loop :: "nat \<Rightarrow> (nat \<times> string) list \<Rightarrow> nat option" where
  "top_border_loop border_count [] = None"
| "top_border_loop border_count ((index, line) # rest) =
     (if is_horizontal_rule line
      then if border_count + 1 = 2 then Some index else top_border_loop (border_count + 1) rest
      else top_border_loop border_count rest)"

definition prompt_box_top_border_index :: "string list \<Rightarrow> nat option" where
  "prompt_box_top_border_index lines = top_border_loop 0 (rev (List.enumerate 0 lines))"

definition prompt_box_body :: "string \<Rightarrow> string option outcome" where
  "prompt_box_body content =
     (let lines = str_lines content
      in try_some (prompt_box_top_border_index lines) (\<lambda>upper.
           let start = line_start_offset content lines (upper + 1);
               end_index = (case position is_horizontal_rule (drop (upper + 1) lines) of
                              None \<Rightarrow> length lines | Some relative \<Rightarrow> upper + 1 + relative);
               stop = line_start_offset content lines end_index
           in outcome_bind (str_slice content (min start (length content)) (min stop (length content)))
                (\<lambda>s. Return (Some s))))"

definition above_prompt_box :: "string \<Rightarrow> string outcome" where
  "above_prompt_box content =
     (let lines = str_lines content
      in case prompt_box_top_border_index lines of
           None \<Rightarrow> Return content
         | Some upper \<Rightarrow>
             let stop = line_start_offset content lines upper
             in str_slice content 0 (min stop (length content)))"

text \<open>One round of the loop of \<open>after_last_horizontal_rule\<close> on \<open>(last_rule_end, offset)\<close>.\<close>

definition rule_end_step :: "string \<Rightarrow> string \<Rightarrow> nat \<times> nat \<Rightarrow> nat \<times> nat" where
  "rule_end_step content line st =
     (let (last_rule_end, offset) = st; next_offset = offset + length line + 1
      in (if is_horizontal_rule line then min next_offset (length content) else last_rule_end, next_offset))"

definition after_last_horizontal_rule :: "string \<Rightarrow> string outcome" where
  "after_last_horizontal_rule content =
     (let (last_rule_end, _) = fold (rule_end_step content) (str_lines content) (0, 0)
      in str_slice content last_rule_end (length content))"

section \<open>Regions by name\<close>

record detection_input =
  di_screen :: string
  di_osc_title :: string
  di_osc_progress :: string

definition region_count :: "string \<Rightarrow> string \<Rightarrow> nat option" where
  "region_count spec name =
     Option.bind (strip_prefix spec name) (\<lambda>rest.
     Option.bind (strip_prefix rest ''('') (\<lambda>rest.
     Option.bind (strip_suffix rest '')'') (\<lambda>count. parse_uint USIZE_MAX count)))"

definition outcome_or_empty :: "string option outcome \<Rightarrow> string outcome" where
  "outcome_or_empty m = outcome_bind m (\<lambda>s. Return (unwrap_or s []))"

definition region :: "detection_input \<Rightarrow> string \<Rightarrow> string outcome" where
  "region input spec =
     (let trimmed = trim spec; content = di_screen input
      in if trimmed = ''osc_title'' then Return (di_osc_title input)
         else if trimmed = ''osc_progress'' then Return (di_osc_progress input)
         else if trimmed = ''whole_recent'' then Return content
         else if trimmed = ''after_last_prompt_marker'' then after_last_prompt_marker content
         else if trimmed = ''before_current_prompt_marker'' then before_current_prompt_marker content
         else if trimmed = ''whole_recent_without_current_prompt_marker''
           then Return (whole_recent_without_current_prompt_marker content)
         else if trimmed = ''current_prompt_block_marker''
           then Return (unwrap_or (current_prompt_block_marker content) [])
         else if trimmed = ''after_current_prompt_block_marker''
           then outcome_or_empty (after_current_prompt_block_marker content)
         else if trimmed = ''prompt_box_body'' then outcome_or_empty (prompt_box_body content)
         else if trimmed = ''above_prompt_box'' then above_prompt_box content
         else if trimmed = ''last_non_empty_above_prompt_box''
           then outcome_bind (above_prompt_box content) (\<lambda>s. Return (last_non_empty_line s))
         else if trimmed = ''after_last_horizontal_rule'' then after_last_horizontal_rule content
         else case region_count trimmed ''bottom_lines'' of
                Some count \<Rightarrow> bottom_lines content count
              | None \<Rightarrow>
                  (case region_count trimmed ''bottom_non_empty_lines'' of
                     Some count \<Rightarrow> bottom_non_empty_lines content count
                   | None \<Rightarrow> Return []))"

definition fixed_region_names :: "string list" where
  "fixed_region_names =
     [''whole_recent'', ''after_last_prompt_marker'', ''before_current_prompt_marker'',
      ''whole_recent_without_current_prompt_marker'', ''current_prompt_block_marker'',
      ''after_current_prompt_block_marker'', ''prompt_box_body'', ''above_prompt_box'',
      ''last_non_empty_above_prompt_box'', ''after_last_horizontal_rule'', ''osc_title'', ''osc_progress'']"

text \<open>\<open>validate_region_name\<close>: nothing, or the trimmed name that no region has.\<close>

definition validate_region_name :: "string \<Rightarrow> string option" where
  "validate_region_name spec =
     (let trimmed = trim spec
      in if trimmed \<in> set fixed_region_names then None
         else if region_count trimmed ''bottom_lines'' \<noteq> None \<or>
                 region_count trimmed ''bottom_non_empty_lines'' \<noteq> None then None
         else Some trimmed)"

end
