(* ===== verification/ManifestRegionSpec.thy ===== *)
theory ManifestRegionSpec
  imports ManifestRegions
begin

text \<open>
  The regions of a screen as lists of lines: what each region is meant to be, without offsets, and the proof
  that the slices of \<open>src/detect/manifest.rs\<close> are these lists of lines on every screen without the line
  terminator CR LF.
\<close>

section \<open>The reference\<close>

text \<open>The parts of a list around the last element that satisfies the test.\<close>

fun split_last :: "('a \<Rightarrow> bool) \<Rightarrow> 'a list \<Rightarrow> ('a list \<times> 'a \<times> 'a list) option" where
  "split_last P [] = None"
| "split_last P (x # xs) =
     (case split_last P xs of
        Some (before, y, behind) \<Rightarrow> Some (x # before, y, behind)
      | None \<Rightarrow> if P x then Some ([], x, xs) else None)"

definition prompt_line :: "string \<Rightarrow> bool" where
  "prompt_line l = codex_prompt_line (strip_newline l)"
definition marker_line :: "string \<Rightarrow> bool" where
  "marker_line l = codex_block_marker_line (strip_newline l)"
definition rule_line :: "string \<Rightarrow> bool" where
  "rule_line l = is_horizontal_rule (strip_newline l)"
definition inked_line :: "string \<Rightarrow> bool" where
  "inked_line l \<longleftrightarrow> \<not> blank_line (strip_newline l)"

text \<open>The current prompt: the last prompt line, unless a block marker follows it.\<close>

definition current_prompt :: "string list \<Rightarrow> (string list \<times> string \<times> string list) option" where
  "current_prompt ls =
     option_filter (\<lambda>(_, _, behind). \<not> list_ex marker_line behind) (split_last prompt_line ls)"

text \<open>The prompt box: what is above the last but one rule, and what is between the last two.\<close>

definition prompt_box :: "string list \<Rightarrow> (string list \<times> string list) option" where
  "prompt_box ls =
     (case split_last rule_line ls of None \<Rightarrow> None
      | Some (before, _, _) \<Rightarrow> map_option (\<lambda>(upper, _, body). (upper, body)) (split_last rule_line before))"

definition above_box :: "string list \<Rightarrow> string list" where
  "above_box ls = (case prompt_box ls of None \<Rightarrow> ls | Some (upper, _) \<Rightarrow> upper)"

text \<open>The lines from the \<open>n\<close>-th last line that is not blank on.\<close>

fun last_inked :: "nat \<Rightarrow> string list \<Rightarrow> string list" where
  "last_inked n [] = []"
| "last_inked n (l # ls) =
     (if inked_line l \<and> length (filter inked_line (l # ls)) \<le> n then l # ls else last_inked n ls)"

definition last_line :: "string list \<Rightarrow> string" where
  "last_line ls = (case split_last inked_line ls of None \<Rightarrow> [] | Some (_, l, _) \<Rightarrow> strip_newline l)"

definition region_of_lines :: "string list \<Rightarrow> string \<Rightarrow> string" where
  "region_of_lines ls name =
     (if name = ''whole_recent'' then concat ls
      else if name = ''after_last_prompt_marker''
        then (case split_last prompt_line ls of None \<Rightarrow> concat ls | Some (_, _, behind) \<Rightarrow> concat behind)
      else if name = ''before_current_prompt_marker''
        then (case current_prompt ls of None \<Rightarrow> concat ls | Some (before, _, _) \<Rightarrow> concat before)
      else if name = ''whole_recent_without_current_prompt_marker''
        then (if current_prompt ls = None then concat ls else [])
      else if name = ''current_prompt_block_marker''
        then (case current_prompt ls of None \<Rightarrow> []
              | Some (before, _, _) \<Rightarrow>
                  (case split_last marker_line before of None \<Rightarrow> [] | Some (_, m, _) \<Rightarrow> strip_newline m))
      else if name = ''after_current_prompt_block_marker''
        then (case current_prompt ls of None \<Rightarrow> []
              | Some (before, p, behind) \<Rightarrow>
                  (case split_last marker_line before of None \<Rightarrow> []
                   | Some (_, m, block) \<Rightarrow> concat (m # block @ p # behind)))
      else if name = ''prompt_box_body''
        then (case prompt_box ls of None \<Rightarrow> [] | Some (_, body) \<Rightarrow> concat body)
      else if name = ''above_prompt_box'' then concat (above_box ls)
      else if name = ''last_non_empty_above_prompt_box'' then last_line (above_box ls)
      else if name = ''after_last_horizontal_rule''
        then (case split_last rule_line ls of None \<Rightarrow> concat ls | Some (_, _, behind) \<Rightarrow> concat behind)
      else case region_count name ''bottom_lines'' of
             Some n \<Rightarrow> concat (drop (length ls - n) ls)
           | None \<Rightarrow>
               (case region_count name ''bottom_non_empty_lines'' of
                  Some n \<Rightarrow> concat (last_inked n ls) | None \<Rightarrow> []))"

section \<open>Positions\<close>

lemma split_last_None: "split_last P xs = None \<longleftrightarrow> (\<forall>x \<in> set xs. \<not> P x)"
  by (induction xs) (auto split: option.splits)

lemma split_last_Some:
  "split_last P xs = Some (b, y, a) \<longleftrightarrow> xs = b @ y # a \<and> P y \<and> (\<forall>x \<in> set a. \<not> P x)"
proof (induction xs arbitrary: b)
  case (Cons x xs)
  show ?case
  proof (cases b)
    case Nil
    then show ?thesis using split_last_None [of P xs] by (auto split: option.splits)
  next
    case (Cons z b')
    then show ?thesis using Cons.IH [of b'] by (auto split: option.splits)
  qed
qed simp

lemma split_last_cases:
  obtains (none) "split_last P xs = None" "\<forall>x \<in> set xs. \<not> P x"
    | (some) b y a where "split_last P xs = Some (b, y, a)" "xs = b @ y # a" "P y" "\<forall>x \<in> set a. \<not> P x"
proof (cases "split_last P xs")
  case None
  with none show thesis by (simp add: split_last_None)
next
  case (Some t)
  with some show thesis by (cases t) (auto simp: split_last_Some)
qed

lemma rposition_None: "rposition P xs = None \<longleftrightarrow> (\<forall>x \<in> set xs. \<not> P x)"
  by (induction xs) (auto split: option.splits)

lemma rposition_Some_append: "P y \<Longrightarrow> \<forall>x \<in> set a. \<not> P x \<Longrightarrow> rposition P (b @ y # a) = Some (length b)"
  by (induction b) (auto simp: rposition_None split: option.splits)

lemma rposition_map: "rposition P (map f xs) = rposition (\<lambda>x. P (f x)) xs"
  by (induction xs) (auto split: option.splits)

lemma rposition_split_last: "rposition P xs = map_option (\<lambda>(b, _, _). length b) (split_last P xs)"
  by (cases rule: split_last_cases [of P xs]) (simp_all add: rposition_None rposition_Some_append)

lemma position_append_cases:
  "\<forall>x \<in> set a. \<not> P x \<Longrightarrow> P y \<Longrightarrow> position P (a @ y # b) = Some (length a)"
  by (induction a) auto

lemma find_skip: "\<forall>x \<in> set xs. \<not> P x \<Longrightarrow> find P (xs @ ys) = find P ys"
  by (induction xs) auto

lemma find_rev_split_last: "find P (rev xs) = map_option (\<lambda>(_, y, _). y) (split_last P xs)"
proof (cases rule: split_last_cases [of P xs])
  case none
  then have "find P (rev xs) = None" by (auto simp: find_None_iff)
  with none show ?thesis by simp
next
  case (some b y a)
  then show ?thesis using find_skip [of "rev a" P "y # rev b"] by simp
qed

section \<open>Slices are lists of lines\<close>

lemma sum_terminated:
  "\<forall>l \<in> set ls. Suc (length (strip_newline l)) = length l \<Longrightarrow>
    sum_list (map (\<lambda>line. length line + 1) (map strip_newline ls)) = length (concat ls)"
  by (induction ls) auto

lemma length_line_le:
  assumes "l \<in> set (lines_inclusive s)" and "crlf_free s"
  shows "length l \<le> Suc (length (strip_newline l))"
proof (cases "ends_with l [newline]")
  case True
  with assms show ?thesis by (auto simp: crlf_free_def list_all_iff length_strip_newline)
next
  case False
  then show ?thesis by (simp add: strip_newline_def strip_suffix_def)
qed

lemma sum_lines_ge:
  "\<forall>l \<in> set ls. length l \<le> Suc (length (strip_newline l)) \<Longrightarrow>
    length (concat ls) \<le> sum_list (map (\<lambda>line. length line + 1) (map strip_newline ls))"
  by (induction ls) auto

lemma line_start_offset_eq:
  assumes "crlf_free s"
  shows "line_start_offset s (str_lines s) i = length (concat (take i (lines_inclusive s)))"
proof (cases "i < length (lines_inclusive s)")
  case True
  let ?ls = "lines_inclusive s"
  have "Suc (length (strip_newline l)) = length l" if l: "l \<in> set (take i ?ls)" for l
  proof -
    from l obtain as bs where "take i ?ls = as @ l # bs" by (meson split_list)
    then have "?ls = as @ l # bs @ drop i ?ls" by (metis append_Cons append_assoc append_take_drop_id)
    moreover obtain r rs where "bs @ drop i ?ls = r # rs" using True by (cases "bs @ drop i ?ls") auto
    ultimately have "ends_with l [newline]" by (metis lines_inclusive_terminated)
    moreover have "\<not> ends_with l [carriage_return, newline]"
      using assms in_set_takeD [OF l] by (auto simp: crlf_free_def list_all_iff)
    ultimately show ?thesis by (rule length_strip_newline)
  qed
  then have "sum_list (map (\<lambda>line. length line + 1) (map strip_newline (take i ?ls))) = length (concat (take i ?ls))"
    by (intro sum_terminated) blast
  moreover have "length (concat (take i ?ls)) \<le> length s"
    by (metis append_take_drop_id concat_append concat_lines_inclusive le_add1 length_append)
  ultimately show ?thesis using True by (simp add: line_start_offset_def str_lines_def take_map)
next
  case False
  have "length s \<le> sum_list (map (\<lambda>line. length line + 1) (map strip_newline (lines_inclusive s)))"
    using sum_lines_ge [of "lines_inclusive s"] length_line_le [OF _ assms] by simp
  with False show ?thesis by (simp add: line_start_offset_def str_lines_def)
qed

lemma line_offset_le: "length (concat (take i (lines_inclusive s))) \<le> length s"
  by (metis append_take_drop_id concat_append concat_lines_inclusive le_add1 length_append)

lemma slice_lines:
  assumes "utf8_valid s" and "crlf_free s" and "lines_inclusive s = as @ bs @ cs"
  shows "str_slice s (line_start_offset s (str_lines s) (length as))
    (line_start_offset s (str_lines s) (length as + length bs)) = Return (concat bs)"
  using str_slice_lines [OF assms(1,3)] assms(3) by (simp add: line_start_offset_eq [OF assms(2)])

lemma slice_from_line:
  assumes "utf8_valid s" and "crlf_free s"
  shows "slice_from_line_index s (str_lines s) i = Return (concat (drop i (lines_inclusive s)))"
proof -
  have "str_slice s (length (concat (take i (lines_inclusive s)))) (length (concat (lines_inclusive s))) =
      Return (concat (drop i (lines_inclusive s)))"
    using str_slice_lines [OF assms(1), of "take i (lines_inclusive s)" "drop i (lines_inclusive s)" "[]"]
    by simp
  then show ?thesis
    by (simp add: slice_from_line_index_def line_start_offset_eq [OF assms(2)] line_offset_le)
qed

lemma slice_to_line:
  assumes "utf8_valid s" and "crlf_free s"
  shows "str_slice s 0 (line_start_offset s (str_lines s) i) = Return (concat (take i (lines_inclusive s)))"
  using str_slice_lines [OF assms(1), of "[]" "take i (lines_inclusive s)" "drop i (lines_inclusive s)"]
  by (simp add: line_start_offset_eq [OF assms(2)])

section \<open>The regions\<close>

lemma rposition_lines: "rposition P (str_lines s) =
    map_option (\<lambda>(b, _, _). length b) (split_last (\<lambda>l. P (strip_newline l)) (lines_inclusive s))"
  by (simp only: str_lines_def rposition_map) (simp only: rposition_split_last)

lemma find_map_find: "find P (map f xs) = map_option f (find (\<lambda>x. P (f x)) xs)"
  by (induction xs) auto

lemma on_line_folds:
  "(\<lambda>l. codex_prompt_line (strip_newline l)) = prompt_line"
  "(\<lambda>l. codex_block_marker_line (strip_newline l)) = marker_line"
  "(\<lambda>l. is_horizontal_rule (strip_newline l)) = rule_line"
  "(\<lambda>l. \<not> blank_line (strip_newline l)) = inked_line"
  by (simp_all add: fun_eq_iff prompt_line_def marker_line_def rule_line_def inked_line_def)

lemma after_last_prompt_marker_eq:
  assumes "utf8_valid s" and "crlf_free s"
  shows "after_last_prompt_marker s = Return (case split_last prompt_line (lines_inclusive s) of
    None \<Rightarrow> concat (lines_inclusive s) | Some (_, _, behind) \<Rightarrow> concat behind)"
  by (cases rule: split_last_cases [of prompt_line "lines_inclusive s"])
     (simp_all add: after_last_prompt_marker_def rposition_lines on_line_folds
        slice_from_line [OF assms])

lemma list_ex_lines: "list_ex P (map strip_newline ls) = list_ex (\<lambda>l. P (strip_newline l)) ls"
  by (simp add: list_ex_iff)

lemma current_codex_prompt_index_eq:
  "current_codex_prompt_index (str_lines s) =
    map_option (\<lambda>(b, _, _). length b) (current_prompt (lines_inclusive s))"
proof (cases rule: split_last_cases [of prompt_line "lines_inclusive s"])
  case none
  then show ?thesis
    by (simp add: current_codex_prompt_index_def current_prompt_def rposition_lines on_line_folds
        option_filter_def)
next
  case (some b y a)
  then have "drop (Suc (length b)) (str_lines s) = map strip_newline a" by (simp add: str_lines_def)
  with some show ?thesis
    by (simp add: current_codex_prompt_index_def current_prompt_def rposition_lines on_line_folds
        option_filter_def list_ex_lines)
qed

lemma current_prompt_Some: "current_prompt ls = Some (b, p, a) \<Longrightarrow> ls = b @ p # a"
  by (auto simp: current_prompt_def split_last_Some)

lemma current_prompt_cases:
  obtains (none) "current_prompt ls = None"
    | (some) b p a where "current_prompt ls = Some (b, p, a)" "ls = b @ p # a"
  using current_prompt_Some by (metis not_Some_eq prod_cases3)

lemma before_current_prompt_marker_eq:
  assumes "utf8_valid s" and "crlf_free s"
  shows "before_current_prompt_marker s = Return (case current_prompt (lines_inclusive s) of
    None \<Rightarrow> concat (lines_inclusive s) | Some (before, _, _) \<Rightarrow> concat before)"
proof (cases rule: current_prompt_cases [of "lines_inclusive s"])
  case none
  then show ?thesis by (simp add: before_current_prompt_marker_def current_codex_prompt_index_eq)
next
  case (some b p a)
  then have "min (length b) (length (str_lines s)) = length b" by (simp add: str_lines_def)
  then have "before_current_prompt_marker s = str_slice s 0 (line_start_offset s (str_lines s) (length b))"
    using some by (simp add: before_current_prompt_marker_def current_codex_prompt_index_eq line_start_offset_def)
  also have "\<dots> = Return (concat b)"
    by (simp only: slice_to_line [OF assms]) (simp add: some)
  finally show ?thesis by (simp only: some(1)) simp
qed

lemma current_prompt_block_marker_eq:
  "unwrap_or (current_prompt_block_marker s) [] = (case current_prompt (lines_inclusive s) of None \<Rightarrow> []
    | Some (before, _, _) \<Rightarrow>
        (case split_last marker_line before of None \<Rightarrow> [] | Some (_, m, _) \<Rightarrow> strip_newline m))"
proof (cases rule: current_prompt_cases [of "lines_inclusive s"])
  case none
  then show ?thesis by (simp add: current_prompt_block_marker_def current_codex_prompt_index_eq)
next
  case (some b p a)
  have "find codex_block_marker_line (rev (take (length b) (str_lines s))) =
      find codex_block_marker_line (map strip_newline (rev b))"
    by (simp add: str_lines_def some(2) rev_map)
  also have "\<dots> = map_option strip_newline (find marker_line (rev b))"
    by (simp add: find_map_find on_line_folds)
  finally show ?thesis using some(1)
    by (simp add: current_prompt_block_marker_def current_codex_prompt_index_eq find_rev_split_last
        split: option.splits)
qed

lemma after_current_prompt_block_marker_eq:
  assumes "utf8_valid s" and "crlf_free s"
  shows "outcome_or_empty (after_current_prompt_block_marker s) =
    Return (case current_prompt (lines_inclusive s) of None \<Rightarrow> []
     | Some (before, p, behind) \<Rightarrow>
         (case split_last marker_line before of None \<Rightarrow> []
          | Some (_, m, block) \<Rightarrow> concat (m # block @ p # behind)))"
proof (cases rule: current_prompt_cases [of "lines_inclusive s"])
  case none
  then show ?thesis
    by (simp add: after_current_prompt_block_marker_def current_codex_prompt_index_eq outcome_or_empty_def)
next
  case (some b p a)
  have "take (length b) (str_lines s) = map strip_newline b" by (simp add: str_lines_def some(2))
  then have block: "rposition codex_block_marker_line (take (length b) (str_lines s)) =
      map_option (\<lambda>(b, _, _). length b) (split_last marker_line b)"
    by (simp only: rposition_map on_line_folds) (simp only: rposition_split_last)
  show ?thesis
  proof (cases rule: split_last_cases [of marker_line b])
    case none
    then show ?thesis using some(1) block
      by (simp add: after_current_prompt_block_marker_def current_codex_prompt_index_eq outcome_or_empty_def)
  next
    case marker: (some c m d)
    then show ?thesis using some block
      by (simp add: after_current_prompt_block_marker_def current_codex_prompt_index_eq outcome_or_empty_def
          slice_from_line [OF assms])
  qed
qed

lemma top_border_skip:
  "\<forall>(i, l) \<in> set xs. \<not> is_horizontal_rule l \<Longrightarrow> top_border_loop n (xs @ ys) = top_border_loop n ys"
  by (induction xs) auto

lemma enumerate_append: "List.enumerate n (xs @ ys) = List.enumerate n xs @ List.enumerate (n + length xs) ys"
  by (induction xs arbitrary: n) simp_all

lemma top_border_split_last:
  "top_border_loop k (rev (List.enumerate n (map strip_newline ls))) =
    (case split_last rule_line ls of
       None \<Rightarrow> None
     | Some (b, _, _) \<Rightarrow> if k + 1 = 2 then Some (n + length b)
         else top_border_loop (k + 1) (rev (List.enumerate n (map strip_newline b))))"
proof (cases rule: split_last_cases [of rule_line ls])
  case none
  then have "\<forall>(i, l) \<in> set (rev (List.enumerate n (map strip_newline ls))). \<not> is_horizontal_rule l"
    by (auto simp: in_set_enumerate_eq rule_line_def)
  then show ?thesis using none top_border_skip [of _ k "[]"] by fastforce
next
  case (some b y a)
  then have skip: "\<forall>(i, l) \<in> set (rev (List.enumerate (Suc (n + length b)) (map strip_newline a))). \<not> is_horizontal_rule l"
    by (auto simp: in_set_enumerate_eq rule_line_def)
  have "rev (List.enumerate n (map strip_newline ls)) =
      rev (List.enumerate (Suc (n + length b)) (map strip_newline a)) @
      (n + length b, strip_newline y) # rev (List.enumerate n (map strip_newline b))"
    by (simp add: some(2) enumerate_append)
  with some show ?thesis by (simp add: top_border_skip [OF skip] rule_line_def)
qed

lemma prompt_box_top_border_index_eq:
  "prompt_box_top_border_index (str_lines s) =
    map_option (\<lambda>(upper, _). length upper) (prompt_box (lines_inclusive s))"
  by (simp add: prompt_box_top_border_index_def str_lines_def top_border_split_last prompt_box_def
      split: option.splits prod.splits)

lemma prompt_box_Some:
  assumes "prompt_box ls = Some (upper, body)"
  obtains y z below where "ls = upper @ y # body @ z # below" and "\<forall>l \<in> set body. \<not> rule_line l" and "rule_line z"
  using assms by (auto simp: prompt_box_def split_last_Some split: option.splits prod.splits)

lemma prompt_box_cases:
  obtains (none) "prompt_box ls = None"
    | (some) upper body y z below where "prompt_box ls = Some (upper, body)"
        "ls = upper @ y # body @ z # below" "\<forall>l \<in> set body. \<not> rule_line l" "rule_line z"
  by (metis not_Some_eq prompt_box_Some surj_pair)

lemma prompt_box_body_eq:
  assumes "utf8_valid s" and "crlf_free s"
  shows "outcome_or_empty (prompt_box_body s) =
    Return (case prompt_box (lines_inclusive s) of None \<Rightarrow> [] | Some (_, body) \<Rightarrow> concat body)"
proof (cases rule: prompt_box_cases [of "lines_inclusive s"])
  case none
  then show ?thesis
    by (simp add: prompt_box_body_def prompt_box_top_border_index_eq outcome_or_empty_def)
next
  case (some upper body y z below)
  have "drop (Suc (length upper)) (str_lines s) = map strip_newline body @ strip_newline z # map strip_newline below"
    by (simp add: str_lines_def some(2))
  then have pos: "position is_horizontal_rule (drop (Suc (length upper)) (str_lines s)) = Some (length body)"
    using some position_append_cases [of "map strip_newline body" is_horizontal_rule "strip_newline z"]
    by (simp add: rule_line_def)
  have "str_slice s (line_start_offset s (str_lines s) (length (upper @ [y])))
      (line_start_offset s (str_lines s) (length (upper @ [y]) + length body)) = Return (concat body)"
    by (rule slice_lines [OF assms]) (simp add: some(2))
  then have "str_slice s (line_start_offset s (str_lines s) (Suc (length upper)))
      (line_start_offset s (str_lines s) (Suc (length upper + length body))) = Return (concat body)" by simp
  moreover have "line_start_offset s (str_lines s) i \<le> length s" for i by (simp add: line_start_offset_def)
  ultimately show ?thesis using some(1) pos
    by (simp add: prompt_box_body_def prompt_box_top_border_index_eq outcome_or_empty_def min_absorb1)
qed

lemma above_prompt_box_eq:
  assumes "utf8_valid s" and "crlf_free s"
  shows "above_prompt_box s = Return (concat (above_box (lines_inclusive s)))"
proof (cases rule: prompt_box_cases [of "lines_inclusive s"])
  case none
  then show ?thesis by (simp add: above_prompt_box_def prompt_box_top_border_index_eq above_box_def)
next
  case (some upper body y z below)
  have "min (line_start_offset s (str_lines s) i) (length s) = line_start_offset s (str_lines s) i" for i
    by (simp add: line_start_offset_def)
  moreover have "take (length upper) (lines_inclusive s) = upper" by (simp add: some(2))
  ultimately show ?thesis using some(1)
    by (simp add: above_prompt_box_def prompt_box_top_border_index_eq above_box_def slice_to_line [OF assms])
qed

lemma above_box_prefix: "\<exists>below. ls = above_box ls @ below"
  by (cases rule: prompt_box_cases [of ls]) (auto simp: above_box_def)

lemma last_non_empty_line_eq: "last_non_empty_line s = last_line (lines_inclusive s)"
  by (simp add: last_non_empty_line_def last_line_def str_lines_def rev_map find_map_find on_line_folds
      find_rev_split_last split: option.splits)

lemma last_non_empty_above: "last_non_empty_line (concat (above_box (lines_inclusive s))) =
    last_line (above_box (lines_inclusive s))"
  using above_box_prefix [of "lines_inclusive s"] lines_inclusive_prefix
  by (metis last_non_empty_line_eq)

lemma rule_end_fold:
  "fold (rule_end_step s) lines (e, off) =
    (case rposition is_horizontal_rule lines of
       None \<Rightarrow> e
     | Some i \<Rightarrow> min (off + sum_list (map (\<lambda>line. length line + 1) (take (Suc i) lines))) (length s),
     off + sum_list (map (\<lambda>line. length line + 1) lines))"
  by (induction lines arbitrary: e off)
     (auto simp: rule_end_step_def Let_def split: option.splits)

lemma rposition_less: "rposition P xs = Some i \<Longrightarrow> i < length xs"
  by (induction xs arbitrary: i) (auto split: option.splits if_splits)

lemma after_last_horizontal_rule_eq:
  assumes "utf8_valid s" and "crlf_free s"
  shows "after_last_horizontal_rule s = Return (case split_last rule_line (lines_inclusive s) of
    None \<Rightarrow> concat (lines_inclusive s) | Some (_, _, behind) \<Rightarrow> concat behind)"
proof (cases rule: split_last_cases [of rule_line "lines_inclusive s"])
  case none
  then show ?thesis
    using slice_from_line [OF assms, of 0]
    by (simp add: after_last_horizontal_rule_def rule_end_fold rposition_lines on_line_folds
        slice_from_line_index_def line_start_offset_def)
next
  case (some b y a)
  have i: "rposition is_horizontal_rule (str_lines s) = Some (length b)"
    using some(1) by (simp add: rposition_lines on_line_folds)
  then have "Suc (length b) \<le> length (str_lines s)" using rposition_less [OF i] by simp
  then have "after_last_horizontal_rule s = slice_from_line_index s (str_lines s) (Suc (length b))"
    by (simp add: after_last_horizontal_rule_def rule_end_fold i slice_from_line_index_def line_start_offset_def
        min_absorb1)
  also have "\<dots> = Return (concat a)" by (simp only: slice_from_line [OF assms] some(2)) simp
  finally show ?thesis using some(1) by simp
qed

text \<open>The numbered lines that are not blank, from the last to the first.\<close>

definition inked_entries :: "nat \<Rightarrow> string list \<Rightarrow> (nat \<times> string) list" where
  "inked_entries k lines = filter (\<lambda>entry. \<not> blank_line (snd entry)) (rev (List.enumerate k lines))"

lemma inked_entries_simps:
  "inked_entries k [] = []"
  "inked_entries k (line # lines) =
     inked_entries (Suc k) lines @ (if blank_line line then [] else [(k, line)])"
  by (simp_all add: inked_entries_def)

lemma length_inked_entries:
  "length (inked_entries k (map strip_newline ls)) = length (filter inked_line ls)"
  by (induction ls arbitrary: k) (simp_all add: inked_entries_simps inked_line_def)

lemma inked_entries_last:
  "if take n (inked_entries k (map strip_newline ls)) = [] then last_inked n ls = []
   else k \<le> fst (last (take n (inked_entries k (map strip_newline ls)))) \<and>
     drop (fst (last (take n (inked_entries k (map strip_newline ls)))) - k) ls = last_inked n ls"
  (is "?last k ls")
proof (induction ls arbitrary: k)
  case (Cons l ls)
  let ?E = "inked_entries (Suc k) (map strip_newline ls)"
  show "?last k (l # ls)"
  proof (cases "inked_line l \<and> Suc (length ?E) \<le> n")
    case True
    then have "take n (inked_entries k (map strip_newline (l # ls))) = ?E @ [(k, strip_newline l)]"
      by (auto simp: inked_entries_simps inked_line_def take_Cons')
    with True show ?thesis by (simp add: length_inked_entries)
  next
    case False
    then have e: "take n (inked_entries k (map strip_newline (l # ls))) = take n ?E"
      by (auto simp: inked_entries_simps inked_line_def not_less_eq_eq)
    have "last_inked n (l # ls) = last_inked n ls" using False by (auto simp: length_inked_entries)
    moreover have "drop (m - k) (l # ls) = drop (m - Suc k) ls" if "Suc k \<le> m" for m
      using that Suc_diff_Suc [of k m] by (metis Suc_le_lessD drop_Suc_Cons)
    ultimately show ?thesis unfolding e using Cons.IH [of "Suc k"] by (auto split: if_splits)
  qed
qed (simp add: inked_entries_simps)

lemma bottom_non_empty_lines_eq:
  assumes "utf8_valid s" and "crlf_free s"
  shows "bottom_non_empty_lines s n = Return (concat (last_inked n (lines_inclusive s)))"
  using inked_entries_last [where k = 0 and n = n and ls = "lines_inclusive s"]
  by (cases "take n (inked_entries 0 (str_lines s)) = []")
     (simp_all add: bottom_non_empty_lines_def Let_def inked_entries_def [symmetric]
        str_lines_def [symmetric] slice_from_line [OF assms] del: take_eq_Nil take_eq_Nil2)

lemma bottom_lines_eq:
  assumes "utf8_valid s" and "crlf_free s"
  shows "bottom_lines s n =
    Return (concat (drop (length (lines_inclusive s) - n) (lines_inclusive s)))"
  by (simp add: bottom_lines_def slice_from_line [OF assms]) (simp add: str_lines_def)

lemma whole_without_prompt_eq:
  "whole_recent_without_current_prompt_marker s =
    (if current_prompt (lines_inclusive s) = None then concat (lines_inclusive s) else [])"
  by (simp add: whole_recent_without_current_prompt_marker_def current_codex_prompt_index_eq)

text \<open>The regions of the screen; the two of the OSC texts are those texts.\<close>

lemma region_screen:
  assumes "utf8_valid (di_screen input)" and "crlf_free (di_screen input)"
    and "trim spec \<noteq> ''osc_title''" and "trim spec \<noteq> ''osc_progress''"
  shows "region input spec = Return (region_of_lines (lines_inclusive (di_screen input)) (trim spec))"
  unfolding region_def Let_def region_of_lines_def
  by (simp only: assms(3,4) if_False after_last_prompt_marker_eq [OF assms(1,2)]
      before_current_prompt_marker_eq [OF assms(1,2)] whole_without_prompt_eq current_prompt_block_marker_eq
      after_current_prompt_block_marker_eq [OF assms(1,2)] prompt_box_body_eq [OF assms(1,2)]
      above_prompt_box_eq [OF assms(1,2)] after_last_horizontal_rule_eq [OF assms(1,2)]
      bottom_lines_eq [OF assms(1,2)] bottom_non_empty_lines_eq [OF assms(1,2)]
      outcome_bind_simps last_non_empty_above concat_lines_inclusive
      if_distrib [of Return] option.case_distrib [of Return] cong: option.case_cong)

text \<open>The text of a region, by its name: the OSC texts, or lines of the screen.\<close>

definition region_text :: "detection_input \<Rightarrow> string \<Rightarrow> string" where
  "region_text input spec =
     (let name = trim spec
      in if name = ''osc_title'' then di_osc_title input
         else if name = ''osc_progress'' then di_osc_progress input
         else region_of_lines (lines_inclusive (di_screen input)) name)"

definition plain_screen :: "detection_input \<Rightarrow> bool" where
  "plain_screen input \<longleftrightarrow> utf8_valid (di_screen input) \<and> crlf_free (di_screen input)"

lemma region_eq: "plain_screen input \<Longrightarrow> region input spec = Return (region_text input spec)"
  using region_screen [of input spec]
  by (cases "trim spec = ''osc_title'' \<or> trim spec = ''osc_progress''")
     (auto simp: plain_screen_def region_text_def region_def Let_def)

end
