(* ===== verification/ManifestVersions.thy ===== *)
theory ManifestVersions
  imports RustChars Results "HOL-Library.List_Lexorder"
begin

text \<open>
  The versions of detection manifests (\<open>src/detect/manifest_update.rs\<close>): dotted numbers, kept as the text
  they were read from and compared segment by segment, a missing segment counting as zero.
\<close>

section \<open>Parsing\<close>

datatype version_error =
    EmptyVersion | EmptySegment string | NotNumeric string | OversizedSegment string

datatype manifest_version = ManifestVersion (version_text: string)

definition U64_MAX :: nat where "U64_MAX = 2 ^ 64 - 1"

definition is_ascii_digit :: "char \<Rightarrow> bool" where
  "is_ascii_digit c = (digit_value c \<noteq> None)"

text \<open>The body of the loop over the segments.\<close>

definition check_segment :: "string \<Rightarrow> string \<Rightarrow> unit \<Rightarrow> version_error + unit" where
  "check_segment trimmed segment u =
     (if segment = [] then Inl (EmptySegment trimmed)
      else if \<not> list_all is_ascii_digit segment then Inl (NotNumeric trimmed)
      else if parse_uint U64_MAX segment = None then Inl (OversizedSegment trimmed)
      else Inr ())"

definition parse_version :: "string \<Rightarrow> version_error + manifest_version" where
  "parse_version v =
     (let trimmed = trim v
      in if trimmed = [] then Inl EmptyVersion
         else result_bind (try_all (check_segment trimmed) (split_on CHR ''.'' trimmed) ())
                (\<lambda>_. Inr (ManifestVersion trimmed)))"

section \<open>Comparing\<close>

datatype ordering = LessThan | Equal | GreaterThan

definition compare_nat :: "nat \<Rightarrow> nat \<Rightarrow> ordering" where
  "compare_nat m n = (if m < n then LessThan else if m = n then Equal else GreaterThan)"

definition segment_number :: "string \<Rightarrow> nat" where
  "segment_number s = unwrap_or (parse_uint U64_MAX s) 0"

text \<open>The loop of \<open>cmp\<close> over the two iterators.\<close>

fun compare_segments :: "string list \<Rightarrow> string list \<Rightarrow> ordering" where
  "compare_segments (l # ls) (r # rs) =
     (case compare_nat (segment_number l) (segment_number r) of
        Equal \<Rightarrow> compare_segments ls rs | other \<Rightarrow> other)"
| "compare_segments (l # ls) [] = (if segment_number l = 0 then compare_segments ls [] else GreaterThan)"
| "compare_segments [] (r # rs) = (if segment_number r = 0 then compare_segments [] rs else LessThan)"
| "compare_segments [] [] = Equal"

definition version_cmp :: "manifest_version \<Rightarrow> manifest_version \<Rightarrow> ordering" where
  "version_cmp a b =
     compare_segments (split_on CHR ''.'' (version_text a)) (split_on CHR ''.'' (version_text b))"

definition version_less :: "manifest_version \<Rightarrow> manifest_version \<Rightarrow> bool" where
  "version_less a b = (version_cmp a b = LessThan)"

section \<open>The order of versions\<close>

text \<open>The number of a version: its segments without the zeros at the end.\<close>

fun drop_zeros :: "nat list \<Rightarrow> nat list" where
  "drop_zeros [] = []"
| "drop_zeros (n # ns) = (let r = drop_zeros ns in if n = 0 \<and> r = [] then [] else n # r)"

definition version_key :: "manifest_version \<Rightarrow> nat list" where
  "version_key v = drop_zeros (map segment_number (split_on CHR ''.'' (version_text v)))"

lemma nil_less: "[] < ns \<longleftrightarrow> ns \<noteq> []" for ns :: "nat list"
  by (cases ns) auto

lemma compare_segments_key:
  "compare_segments ls rs =
    (let a = drop_zeros (map segment_number ls); b = drop_zeros (map segment_number rs)
     in if a < b then LessThan else if a = b then Equal else GreaterThan)"
  by (induction ls rs rule: compare_segments.induct)
     (auto simp: compare_nat_def Let_def nil_less split: if_splits)

lemma version_cmp_key:
  "version_cmp a b =
    (if version_key a < version_key b then LessThan
     else if version_key a = version_key b then Equal else GreaterThan)"
  by (simp add: version_cmp_def version_key_def compare_segments_key Let_def)

lemma version_cmp_iff:
  "version_cmp a b = LessThan \<longleftrightarrow> version_key a < version_key b"
  "version_cmp a b = Equal \<longleftrightarrow> version_key a = version_key b"
  "version_cmp a b = GreaterThan \<longleftrightarrow> version_key b < version_key a"
  by (auto simp: version_cmp_key)

lemma version_less_key: "version_less a b \<longleftrightarrow> version_key a < version_key b"
  by (simp add: version_less_def version_cmp_iff)

text \<open>A parsed version is the trimmed text, whose segments are numbers that fit 64 bits.\<close>

lemma parse_version_Inr:
  "parse_version s = Inr v \<longleftrightarrow> v = ManifestVersion (trim s) \<and> trim s \<noteq> [] \<and>
    (\<forall>g \<in> set (split_on CHR ''.'' (trim s)).
       g \<noteq> [] \<and> list_all is_ascii_digit g \<and> parse_uint U64_MAX g \<noteq> None)"
proof -
  have "try_all (check_segment t) gs u = Inr w \<longleftrightarrow>
      (\<forall>g \<in> set gs. g \<noteq> [] \<and> list_all is_ascii_digit g \<and> parse_uint U64_MAX g \<noteq> None)" for t gs u w
    by (induction gs arbitrary: u) (auto simp: check_segment_def)
  then show ?thesis by (auto simp: parse_version_def Let_def)
qed

end
