(* ===== verification/ManifestRules.thy ===== *)
theory ManifestRules
  imports ManifestRegions ManifestVersions Detect
begin

text \<open>
  Detection manifests (\<open>src/detect/manifest.rs\<close>): rules with a region and a tree of gates, the limits a
  manifest must keep, the compilation of its gates and the test of a compiled gate on the text of a region.
  Regular expressions and the lower-casing of texts are not code of the program; what it uses of them is a
  \<open>text_lib\<close>.
\<close>

section \<open>Data\<close>

record 'r text_lib =
  tl_regex_new :: "string \<Rightarrow> string + 'r"
  tl_is_match :: "'r \<Rightarrow> string \<Rightarrow> bool"
  tl_to_lowercase :: "string \<Rightarrow> string"

datatype manifest_state = ManifestIdle | ManifestWorking | ManifestBlocked | ManifestUnknown

fun agent_state_from :: "manifest_state \<Rightarrow> agent_state" where
  "agent_state_from ManifestIdle = Idle"
| "agent_state_from ManifestWorking = Working"
| "agent_state_from ManifestBlocked = Blocked"
| "agent_state_from ManifestUnknown = Unknown"

datatype manifest_gate = ManifestGate
  (gate_all: "manifest_gate list") (gate_any: "manifest_gate list") (gate_not: "manifest_gate list")
  (gate_contains: "string list") (gate_regex: "string list") (gate_line_regex: "string list")

datatype 'r compiled_gate = CompiledGate
  (cg_all: "'r compiled_gate list") (cg_any: "'r compiled_gate list") (cg_not: "'r compiled_gate list")
  (cg_contains: "string list") (cg_regex: "'r list") (cg_line_regex: "'r list")

record manifest_rule =
  mr_id :: string
  mr_state :: "manifest_state option"
  mr_priority :: int
  mr_region :: string
  mr_visible_idle :: bool
  mr_visible_blocker :: bool
  mr_visible_working :: bool
  mr_skip_state_update :: bool
  mr_all :: "manifest_gate list"
  mr_any :: "manifest_gate list"
  mr_not :: "manifest_gate list"
  mr_contains :: "string list"
  mr_regex :: "string list"
  mr_line_regex :: "string list"

record agent_manifest =
  am_id :: string
  am_version :: "manifest_version option"
  am_min_engine_version :: "nat option"
  am_aliases :: "string list"
  am_rules :: "manifest_rule list"

definition MAX_RULES_PER_MANIFEST :: nat where "MAX_RULES_PER_MANIFEST = 128"
definition MAX_GATE_DEPTH :: nat where "MAX_GATE_DEPTH = 8"
definition MAX_TOTAL_GATES :: nat where "MAX_TOTAL_GATES = 512"
definition MAX_MATCHERS_PER_GATE :: nat where "MAX_MATCHERS_PER_GATE = 32"
definition MAX_TOTAL_MATCHERS :: nat where "MAX_TOTAL_MATCHERS = 1024"
definition MAX_MATCHER_CHARS :: nat where "MAX_MATCHER_CHARS = 512"

definition manifest_gate_from_rule :: "manifest_rule \<Rightarrow> manifest_gate" where
  "manifest_gate_from_rule rule =
     ManifestGate (mr_all rule) (mr_any rule) (mr_not rule) (mr_contains rule) (mr_regex rule)
       (mr_line_regex rule)"

lemma member_le_size_list: "n \<in> set ns \<Longrightarrow> size n \<le> size_list size ns"
  by (rule size_list_estimation' [where x = n]) simp_all

lemma gate_children_size [termination_simp]:
  "n \<in> set (gate_all g) \<Longrightarrow> size n < size g"
  "n \<in> set (gate_any g) \<Longrightarrow> size n < size g"
  "n \<in> set (gate_not g) \<Longrightarrow> size n < size g"
  by - (cases g, fastforce dest: member_le_size_list)+

lemma compiled_children_size [termination_simp]:
  "n \<in> set (cg_all g) \<Longrightarrow> size n < size g"
  "n \<in> set (cg_any g) \<Longrightarrow> size n < size g"
  "n \<in> set (cg_not g) \<Longrightarrow> size n < size g"
  by - (cases g, fastforce dest: member_le_size_list)+

section \<open>Validation\<close>

datatype gate_error =
    GateTooDeep string
  | TooManyGates
  | TooManyGateMatchers string nat
  | TooManyMatchers
  | MatcherTooLong string
  | NoPositiveMatcher string
  | InvalidPattern string string string string
  | EmptyNotGate string
  | NotGateWithoutMatcher

datatype manifest_error =
    ManifestWithoutRules
  | TooManyRules nat
  | EmptyRuleId
  | SkipWithoutUnknown string
  | SkipWithVisibleState string
  | InvalidRegion string string
  | InvalidGates string gate_error

record manifest_complexity =
  total_gates :: nat
  total_matchers :: nat

definition gate_has_positive_matcher :: "manifest_gate \<Rightarrow> bool" where
  "gate_has_positive_matcher gate \<longleftrightarrow>
     gate_contains gate \<noteq> [] \<or> gate_regex gate \<noteq> [] \<or> gate_line_regex gate \<noteq> [] \<or>
     gate_all gate \<noteq> [] \<or> gate_any gate \<noteq> []"

definition gate_has_any_matcher :: "manifest_gate \<Rightarrow> bool" where
  "gate_has_any_matcher gate \<longleftrightarrow> gate_has_positive_matcher gate \<or> gate_not gate \<noteq> []"

definition validate_matcher_limits ::
    "manifest_gate \<Rightarrow> string \<Rightarrow> manifest_complexity \<Rightarrow> gate_error + manifest_complexity" where
  "validate_matcher_limits gate ctx c =
     (let matcher_count = length (gate_contains gate) + length (gate_regex gate) + length (gate_line_regex gate)
      in if MAX_MATCHERS_PER_GATE < matcher_count then Inl (TooManyGateMatchers ctx matcher_count)
         else let c1 = c\<lparr>total_matchers := total_matchers c + matcher_count\<rparr>
              in if MAX_TOTAL_MATCHERS < total_matchers c1 then Inl TooManyMatchers
                 else if list_ex (\<lambda>v. MAX_MATCHER_CHARS < length (str_chars v))
                           (gate_contains gate @ gate_regex gate @ gate_line_regex gate)
                      then Inl (MatcherTooLong ctx)
                      else Inr c1)"

text \<open>The loop of \<open>validate_regex_patterns\<close>, which leaves the counts alone.\<close>

definition validate_regex_patterns ::
    "'r text_lib \<Rightarrow> string list \<Rightarrow> string \<Rightarrow> string \<Rightarrow> manifest_complexity \<Rightarrow> gate_error + manifest_complexity" where
  "validate_regex_patterns lib patterns ctx field =
     try_all (\<lambda>pattern c.
       result_bind (map_err (InvalidPattern ctx field pattern) (tl_regex_new lib pattern)) (\<lambda>_. Inr c))
     patterns"

text \<open>The count of a gate, with the limits on depth and number.\<close>

definition enter_gate :: "string \<Rightarrow> nat \<Rightarrow> manifest_complexity \<Rightarrow> gate_error + manifest_complexity" where
  "enter_gate ctx depth c =
     (if MAX_GATE_DEPTH < depth then Inl (GateTooDeep ctx)
      else let c1 = c\<lparr>total_gates := total_gates c + 1\<rparr>
           in if MAX_TOTAL_GATES < total_gates c1 then Inl TooManyGates else Inr c1)"

function validate_gate ::
    "'r text_lib \<Rightarrow> manifest_gate \<Rightarrow> string \<Rightarrow> nat \<Rightarrow> manifest_complexity \<Rightarrow> gate_error + manifest_complexity"
  and validate_not_gate ::
    "'r text_lib \<Rightarrow> manifest_gate \<Rightarrow> nat \<Rightarrow> manifest_complexity \<Rightarrow> gate_error + manifest_complexity" where
  "validate_gate lib gate ctx depth c =
     result_bind (enter_gate ctx depth c) (\<lambda>c.
     result_bind (validate_matcher_limits gate ctx c) (\<lambda>c.
     if \<not> gate_has_positive_matcher gate then Inl (NoPositiveMatcher ctx) else
     result_bind (validate_regex_patterns lib (gate_regex gate) ctx ''regex'' c) (\<lambda>c.
     result_bind (validate_regex_patterns lib (gate_line_regex gate) ctx ''line_regex'' c) (\<lambda>c.
     result_bind (try_all (\<lambda>nested c. validate_gate lib nested ''all gate'' (depth + 1) c) (gate_all gate) c) (\<lambda>c.
     result_bind (try_all (\<lambda>nested c. validate_gate lib nested ''any gate'' (depth + 1) c) (gate_any gate) c) (\<lambda>c.
     try_all (\<lambda>nested c. if \<not> gate_has_any_matcher nested then Inl (EmptyNotGate ctx)
                        else validate_not_gate lib nested (depth + 1) c) (gate_not gate) c))))))"
| "validate_not_gate lib gate depth c =
     result_bind (enter_gate ''not gate'' depth c) (\<lambda>c.
     result_bind (validate_matcher_limits gate ''not gate'' c) (\<lambda>c.
     if \<not> gate_has_any_matcher gate then Inl NotGateWithoutMatcher else
     result_bind (validate_regex_patterns lib (gate_regex gate) ''not gate'' ''regex'' c) (\<lambda>c.
     result_bind (validate_regex_patterns lib (gate_line_regex gate) ''not gate'' ''line_regex'' c) (\<lambda>c.
     result_bind (try_all (\<lambda>nested c. validate_gate lib nested ''not all gate'' (depth + 1) c) (gate_all gate) c) (\<lambda>c.
     result_bind (try_all (\<lambda>nested c. validate_gate lib nested ''not any gate'' (depth + 1) c) (gate_any gate) c) (\<lambda>c.
     try_all (\<lambda>nested c. validate_not_gate lib nested (depth + 1) c) (gate_not gate) c))))))"
  by pat_completeness auto
termination
  by (relation "measure (\<lambda>x. case x of Inl (_, gate, _) \<Rightarrow> size gate | Inr (_, gate, _) \<Rightarrow> size gate)")
     (auto simp: gate_children_size)

declare validate_gate.simps [simp del] validate_not_gate.simps [simp del]

definition validate_rule_gate ::
    "'r text_lib \<Rightarrow> manifest_rule \<Rightarrow> manifest_complexity \<Rightarrow> gate_error + manifest_complexity" where
  "validate_rule_gate lib rule c = validate_gate lib (manifest_gate_from_rule rule) ''rule'' 0 c"

text \<open>The body of the loop over the rules.\<close>

definition validate_rule ::
    "'r text_lib \<Rightarrow> manifest_rule \<Rightarrow> manifest_complexity \<Rightarrow> manifest_error + manifest_complexity" where
  "validate_rule lib rule c =
     (if trim (mr_id rule) = [] then Inl EmptyRuleId
      else if mr_skip_state_update rule \<and> mr_state rule \<noteq> Some ManifestUnknown
        then Inl (SkipWithoutUnknown (mr_id rule))
      else if mr_skip_state_update rule \<and>
              (mr_visible_idle rule \<or> mr_visible_blocker rule \<or> mr_visible_working rule)
        then Inl (SkipWithVisibleState (mr_id rule))
      else case validate_region_name (mr_region rule) of
             Some err \<Rightarrow> Inl (InvalidRegion (mr_id rule) err)
           | None \<Rightarrow> map_err (InvalidGates (mr_id rule)) (validate_rule_gate lib rule c))"

definition validate_manifest :: "'r text_lib \<Rightarrow> agent_manifest \<Rightarrow> manifest_error + unit" where
  "validate_manifest lib manifest =
     (if am_rules manifest = [] then Inl ManifestWithoutRules
      else if MAX_RULES_PER_MANIFEST < length (am_rules manifest)
        then Inl (TooManyRules (length (am_rules manifest)))
      else result_bind (try_all (validate_rule lib) (am_rules manifest) \<lparr>total_gates = 0, total_matchers = 0\<rparr>)
             (\<lambda>_. Inr ()))"

section \<open>Compilation\<close>

fun compile_gate :: "'r text_lib \<Rightarrow> manifest_gate \<Rightarrow> string + 'r compiled_gate" where
  "compile_gate lib gate =
     result_bind (collect_results (compile_gate lib) (gate_all gate)) (\<lambda>all.
     result_bind (collect_results (compile_gate lib) (gate_any gate)) (\<lambda>any.
     result_bind (collect_results (compile_gate lib) (gate_not gate)) (\<lambda>not_gate.
     result_bind (collect_results (tl_regex_new lib) (gate_regex gate)) (\<lambda>regex.
     result_bind (collect_results (tl_regex_new lib) (gate_line_regex gate)) (\<lambda>line_regex.
     Inr (CompiledGate all any not_gate (map (tl_to_lowercase lib) (gate_contains gate)) regex line_regex))))))"

declare compile_gate.simps [simp del]

text \<open>The error names the rule; a \<open>CompiledRule\<close> is its gate.\<close>

definition compile_manifest :: "'r text_lib \<Rightarrow> agent_manifest \<Rightarrow> (string \<times> string) + 'r compiled_gate list" where
  "compile_manifest lib manifest =
     collect_results (\<lambda>rule.
       map_err (Pair (mr_id rule)) (compile_gate lib (manifest_gate_from_rule rule)))
     (am_rules manifest)"

section \<open>Matching\<close>

text \<open>\<open>str::contains\<close>\<close>

fun str_contains :: "string \<Rightarrow> string \<Rightarrow> bool" where
  "str_contains [] p = (p = [])"
| "str_contains (c # s) p = (starts_with (c # s) p \<or> str_contains s p)"

fun compiled_gate_matches :: "'r text_lib \<Rightarrow> 'r compiled_gate \<Rightarrow> string \<Rightarrow> string \<Rightarrow> bool" where
  "compiled_gate_matches lib gate content lower_content \<longleftrightarrow>
     (if \<not> list_all (str_contains lower_content) (cg_contains gate) then False
      else if \<not> list_all (\<lambda>regex. tl_is_match lib regex content) (cg_regex gate) then False
      else if \<not> list_all (\<lambda>regex. list_ex (tl_is_match lib regex) (str_lines content)) (cg_line_regex gate) then False
      else if \<not> list_all (\<lambda>nested. compiled_gate_matches lib nested content lower_content) (cg_all gate) then False
      else if cg_any gate \<noteq> [] \<and> \<not> list_ex (\<lambda>nested. compiled_gate_matches lib nested content lower_content) (cg_any gate)
        then False
      else if list_ex (\<lambda>nested. compiled_gate_matches lib nested content lower_content) (cg_not gate) then False
      else True)"

declare compiled_gate_matches.simps [simp del]

definition compiled_rule_matches :: "'r text_lib \<Rightarrow> 'r compiled_gate \<Rightarrow> string \<Rightarrow> bool" where
  "compiled_rule_matches lib rule content =
     compiled_gate_matches lib rule content (tl_to_lowercase lib content)"

end
