(* ===== verification/ManifestFiles.thy ===== *)
theory ManifestFiles
  imports ManifestRules
begin

text \<open>
  The files behind the detection manifests (\<open>src/detect/manifest_update.rs\<close>): paths, the file system as far as
  it is read and written, atomic writes, and the status file of the updates.  TOML, the directories of the
  user and the texts of the bundled manifests are not Rust code of the program; they are an environment.
\<close>

section \<open>Files\<close>

type_synonym path = "string list"

datatype stored_file = Missing | Unreadable string | Content string

type_synonym file_system = "path \<Rightarrow> stored_file"

datatype io_error = NotFound | IoError string

definition file_exists :: "file_system \<Rightarrow> path \<Rightarrow> bool" where
  "file_exists fs p = (fs p \<noteq> Missing)"

definition read_to_string :: "file_system \<Rightarrow> path \<Rightarrow> io_error + string" where
  "read_to_string fs p =
     (case fs p of Missing \<Rightarrow> Inl NotFound | Unreadable e \<Rightarrow> Inl (IoError e) | Content s \<Rightarrow> Inr s)"

section \<open>Errors\<close>

datatype write_error = NoParent path | WriteFailed string

datatype load_error =
    ReadFailed io_error
  | TomlFailed string
  | ManifestInvalid manifest_error
  | IdMismatch string agent
  | MissingVersion
  | MissingEngineVersion
  | EngineTooNew nat

datatype update_error =
    CatalogToml string
  | UnsupportedSchema nat
  | EmptyPath string
  | UnsafePath string string
  | DuplicateAgent string
  | NoBasePath string
  | UnsafeManifestPath string
  | FetchFailed string
  | ManifestRejected load_error
  | OlderThanCached manifest_version manifest_version
  | ChangedWithoutBump manifest_version
  | CommitFailed write_error

section \<open>The status of the updates\<close>

text \<open>The messages in the status: one that was read from the file, or the error it is formatted from.\<close>

datatype status_error = ErrorText string | ErrorValue update_error

datatype update_result =
    ResultText string | Checked | CheckFailed update_error | SaveFailed write_error

record agent_remote_status =
  ars_cached_version :: "string option"
  ars_attempted_version :: "string option"
  ars_last_checked_unix :: "nat option"
  ars_last_result :: string
  ars_last_error :: "status_error option"

record manifest_update_status =
  mus_last_check_unix :: "nat option"
  mus_last_result :: "update_result option"
  mus_agents :: "string \<rightharpoonup> agent_remote_status"

definition default_status :: manifest_update_status where
  "default_status = \<lparr>mus_last_check_unix = None, mus_last_result = None, mus_agents = Map.empty\<rparr>"

definition agent_status :: "manifest_update_status \<Rightarrow> agent \<Rightarrow> agent_remote_status option" where
  "agent_status st agent = mus_agents st (agent_label agent)"

section \<open>The environment\<close>

record catalog_agent_entry =
  cat_id :: string
  cat_path :: string

record manifest_catalog =
  cat_schema_version :: nat
  cat_agents :: "catalog_agent_entry list"

record 'r manifest_env =
  me_lib :: "'r text_lib"
  me_toml_manifest :: "string \<Rightarrow> string + agent_manifest"
  me_toml_catalog :: "string \<Rightarrow> string + manifest_catalog"
  me_toml_status :: "string \<Rightarrow> string + manifest_update_status"
  me_status_toml :: "manifest_update_status \<Rightarrow> string + string"
  me_bundled_text :: "string \<Rightarrow> string"
  me_config_dir :: path
  me_state_dir :: path

definition toml_file_name :: "agent \<Rightarrow> string" where
  "toml_file_name agent = agent_label agent @ ''.toml''"

definition state_root :: "'r manifest_env \<Rightarrow> path" where
  "state_root env = me_state_dir env @ [''agent-detection'']"

definition status_path :: "'r manifest_env \<Rightarrow> path" where
  "status_path env = state_root env @ [''status.toml'']"

definition remote_manifest_path :: "'r manifest_env \<Rightarrow> agent \<Rightarrow> path" where
  "remote_manifest_path env agent = state_root env @ [''remote'', toml_file_name agent]"

definition override_path :: "'r manifest_env \<Rightarrow> agent \<Rightarrow> path option" where
  "override_path env agent = Some (me_config_dir env @ [''agent-detection'', toml_file_name agent])"

definition load_status :: "'r manifest_env \<Rightarrow> file_system \<Rightarrow> manifest_update_status" where
  "load_status env fs =
     (case read_to_string fs (status_path env) of
        Inl _ \<Rightarrow> default_status
      | Inr content \<Rightarrow> (case me_toml_status env content of Inl _ \<Rightarrow> default_status | Inr st \<Rightarrow> st))"

section \<open>Atomic writes\<close>

text \<open>
  What the operating system answers to the steps of one write: an error, or nothing.  A failed step leaves a
  temporary file, perhaps with a part of the content, that is removed if the system lets it.
\<close>

record io_answers =
  io_create_dir :: "string option"
  io_create_file :: "string option"
  io_write_sync :: "string option"
  io_rename :: "string option"
  io_partial :: string
  io_removed :: bool
  io_temp_name :: "string \<Rightarrow> string"

definition remove_temp :: "io_answers \<Rightarrow> path \<Rightarrow> file_system \<Rightarrow> file_system" where
  "remove_temp io tmp fs = (if io_removed io then fs(tmp := Missing) else fs)"

definition atomic_write ::
    "io_answers \<Rightarrow> path \<Rightarrow> string \<Rightarrow> file_system \<Rightarrow> (write_error + unit) \<times> file_system" where
  "atomic_write io path bytes fs =
     (if path = [] then (Inl (NoParent path), fs)
      else case io_create_dir io of
        Some e \<Rightarrow> (Inl (WriteFailed e), fs)
      | None \<Rightarrow>
          let tmp_path = butlast path @ [io_temp_name io (last path)]
          in case io_create_file io of
               Some e \<Rightarrow> (Inl (WriteFailed e), fs)
             | None \<Rightarrow>
                 (case io_write_sync io of
                    Some e \<Rightarrow> (Inl (WriteFailed e), remove_temp io tmp_path (fs(tmp_path := Content (io_partial io))))
                  | None \<Rightarrow>
                      let written = fs(tmp_path := Content bytes)
                      in case io_rename io of
                           Some e \<Rightarrow> (Inl (WriteFailed e), remove_temp io tmp_path written)
                         | None \<Rightarrow> (Inr (), written(path := Content bytes, tmp_path := Missing))))"

text \<open>\<open>.{name}.{pid}.{nanos}.tmp\<close>\<close>

definition temp_name :: "nat \<Rightarrow> nat \<Rightarrow> string \<Rightarrow> string" where
  "temp_name pid nanos name = ''.'' @ name @ ''.'' @ show_nat pid @ ''.'' @ show_nat nanos @ ''.tmp''"

definition proper_io :: "io_answers \<Rightarrow> bool" where
  "proper_io io \<longleftrightarrow> (\<exists>pid nanos. io_temp_name io = temp_name pid nanos)"

definition save_status ::
    "'r manifest_env \<Rightarrow> io_answers \<Rightarrow> manifest_update_status \<Rightarrow> file_system \<Rightarrow> (write_error + unit) \<times> file_system" where
  "save_status env io st fs =
     (case io_create_dir io of
        Some e \<Rightarrow> (Inl (WriteFailed e), fs)
      | None \<Rightarrow>
          (case me_status_toml env st of
             Inl e \<Rightarrow> (Inl (WriteFailed e), fs)
           | Inr content \<Rightarrow> atomic_write io (status_path env) content fs))"

definition commit_remote_manifest ::
    "'r manifest_env \<Rightarrow> io_answers \<Rightarrow> agent \<Rightarrow> string \<Rightarrow> file_system \<Rightarrow> (write_error + unit) \<times> file_system" where
  "commit_remote_manifest env io agent content fs =
     (case io_create_dir io of
        Some e \<Rightarrow> (Inl (WriteFailed e), fs)
      | None \<Rightarrow> atomic_write io (remote_manifest_path env agent) content fs)"

section \<open>Facts\<close>

lemma temp_name_longer: "length (temp_name pid nanos name) > length name"
  by (simp add: temp_name_def)

text \<open>A write that fails leaves the file as it was, one that succeeds leaves exactly the new content; every
  other file but the temporary one is untouched.\<close>

definition temp_path :: "io_answers \<Rightarrow> path \<Rightarrow> path" where
  "temp_path io p = butlast p @ [io_temp_name io (last p)]"

lemma temp_path_neq: "proper_io io \<Longrightarrow> temp_path io p \<noteq> p"
  using temp_name_longer [of "last p"] by (metis last_snoc less_irrefl proper_io_def temp_path_def)

lemma atomic_write_result:
  assumes "atomic_write io path bytes fs = (r, fs')" and "proper_io io"
  shows "fs' path = (case r of Inl _ \<Rightarrow> fs path | Inr _ \<Rightarrow> Content bytes)"
    and "p \<noteq> path \<Longrightarrow> p \<noteq> temp_path io path \<Longrightarrow> fs' p = fs p"
  using assms temp_path_neq [OF assms(2), of path]
  by (auto simp: atomic_write_def temp_path_def [symmetric] remove_temp_def Let_def split: if_splits option.splits)

end
