(* ===== verification/ManifestValid.thy ===== *)
theory ManifestValid
  imports ManifestRules
begin

text \<open>
  What validation accepts, as conditions on the tree of gates and not as counters threaded through it, what
  compilation keeps of a gate, and what a compiled gate tests.
\<close>

section \<open>Gates that are accepted\<close>

definition gate_children :: "manifest_gate \<Rightarrow> manifest_gate list" where
  "gate_children g = gate_all g @ gate_any g @ gate_not g"

lemma gate_children_less [termination_simp]: "n \<in> set (gate_children g) \<Longrightarrow> size n < size g"
  by (auto simp: gate_children_def gate_children_size)

definition own_matchers :: "manifest_gate \<Rightarrow> string list" where
  "own_matchers g = gate_contains g @ gate_regex g @ gate_line_regex g"

fun gate_levels :: "manifest_gate \<Rightarrow> nat" where
  "gate_levels g = Suc (foldr max (map gate_levels (gate_children g)) 0)"

fun gate_count :: "manifest_gate \<Rightarrow> nat" where
  "gate_count g = Suc (sum_list (map gate_count (gate_children g)))"

fun matcher_count :: "manifest_gate \<Rightarrow> nat" where
  "matcher_count g = length (own_matchers g) + sum_list (map matcher_count (gate_children g))"

definition patterns_compile :: "'r text_lib \<Rightarrow> manifest_gate \<Rightarrow> bool" where
  "patterns_compile lib g = list_all (\<lambda>p. ok (tl_regex_new lib p) \<noteq> None) (gate_regex g @ gate_line_regex g)"

definition matchers_small :: "manifest_gate \<Rightarrow> bool" where
  "matchers_small g \<longleftrightarrow> length (own_matchers g) \<le> MAX_MATCHERS_PER_GATE \<and>
     list_all (\<lambda>v. length (str_chars v) \<le> MAX_MATCHER_CHARS) (own_matchers g)"

text \<open>A gate that must be able to match by itself, and one under a \<open>not\<close>, which may consist of exclusions.\<close>

fun sound_gate :: "'r text_lib \<Rightarrow> bool \<Rightarrow> manifest_gate \<Rightarrow> bool" where
  "sound_gate lib positive g \<longleftrightarrow>
     matchers_small g \<and> patterns_compile lib g \<and>
     (if positive then gate_has_positive_matcher g else gate_has_any_matcher g) \<and>
     list_all (sound_gate lib True) (gate_all g) \<and> list_all (sound_gate lib True) (gate_any g) \<and>
     list_all (sound_gate lib False) (gate_not g)"

declare gate_levels.simps [simp del] gate_count.simps [simp del] matcher_count.simps [simp del]
  sound_gate.simps [simp del]

definition sound_rule :: "'r text_lib \<Rightarrow> manifest_rule \<Rightarrow> bool" where
  "sound_rule lib rule \<longleftrightarrow>
     trim (mr_id rule) \<noteq> [] \<and> validate_region_name (mr_region rule) = None \<and>
     (mr_skip_state_update rule \<longrightarrow> mr_state rule = Some ManifestUnknown \<and> \<not> mr_visible_idle rule \<and>
        \<not> mr_visible_blocker rule \<and> \<not> mr_visible_working rule) \<and>
     sound_gate lib True (manifest_gate_from_rule rule) \<and>
     gate_levels (manifest_gate_from_rule rule) \<le> Suc MAX_GATE_DEPTH"

definition sound_manifest :: "'r text_lib \<Rightarrow> agent_manifest \<Rightarrow> bool" where
  "sound_manifest lib m \<longleftrightarrow>
     am_rules m \<noteq> [] \<and> length (am_rules m) \<le> MAX_RULES_PER_MANIFEST \<and>
     list_all (sound_rule lib) (am_rules m) \<and>
     sum_list (map (\<lambda>r. gate_count (manifest_gate_from_rule r)) (am_rules m)) \<le> MAX_TOTAL_GATES \<and>
     sum_list (map (\<lambda>r. matcher_count (manifest_gate_from_rule r)) (am_rules m)) \<le> MAX_TOTAL_MATCHERS"

section \<open>Counting\<close>

definition grow :: "manifest_complexity \<Rightarrow> nat \<Rightarrow> nat \<Rightarrow> manifest_complexity" where
  "grow c n m = \<lparr>total_gates = total_gates c + n, total_matchers = total_matchers c + m\<rparr>"

definition fits :: "manifest_complexity \<Rightarrow> bool" where
  "fits c \<longleftrightarrow> total_gates c \<le> MAX_TOTAL_GATES \<and> total_matchers c \<le> MAX_TOTAL_MATCHERS"

lemma grow_simps [simp]:
  "grow (grow c a b) n m = grow c (a + n) (b + m)"
  "grow c 0 0 = c"
  "total_gates (grow c n m) = total_gates c + n" "total_matchers (grow c n m) = total_matchers c + m"
  by (simp_all add: grow_def add.assoc)

lemma fits_smaller: "fits (grow c (a + n) (b + m)) \<Longrightarrow> fits (grow c a b)"
  by (simp add: fits_def)

text \<open>A check that counts \<open>n\<close> gates and \<open>m\<close> matchers and otherwise tests \<open>P\<close>.\<close>

definition counts :: "('a \<Rightarrow> manifest_complexity \<Rightarrow> 'e + manifest_complexity) \<Rightarrow> 'a \<Rightarrow> bool \<Rightarrow> nat \<Rightarrow> nat \<Rightarrow> bool" where
  "counts f x P n m \<longleftrightarrow>
     (\<forall>c c'. fits c \<longrightarrow> (f x c = Inr c' \<longleftrightarrow> P \<and> c' = grow c n m \<and> fits c'))"

lemma countsD: "counts f x P n m \<Longrightarrow> fits c \<Longrightarrow> f x c = Inr c' \<longleftrightarrow> P \<and> c' = grow c n m \<and> fits c'"
  unfolding counts_def by blast

lemma try_all_counts:
  assumes "\<And>x. x \<in> set xs \<Longrightarrow> counts f x (P x) (n x) (m x)" and "fits c"
  shows "try_all f xs c = Inr c' \<longleftrightarrow>
    (\<forall>x \<in> set xs. P x) \<and> c' = grow c (sum_list (map n xs)) (sum_list (map m xs)) \<and> fits c'"
  using assms
proof (induction xs arbitrary: c)
  case (Cons x xs)
  note first = countsD [OF Cons.prems(1) [OF list.set_intros(1)] Cons.prems(2)]
  have rest: "try_all f xs d = Inr c' \<longleftrightarrow>
      (\<forall>x \<in> set xs. P x) \<and> c' = grow d (sum_list (map n xs)) (sum_list (map m xs)) \<and> fits c'"
    if "fits d" for d by (rule Cons.IH [OF _ that]) (simp add: Cons.prems(1))
  show ?case
  proof
    assume "try_all f (x # xs) c = Inr c'"
    then obtain d where d: "f x c = Inr d" "try_all f xs d = Inr c'" by auto
    from iffD1 [OF first d(1)] have "P x" "d = grow c (n x) (m x)" "fits d" by blast+
    with d(2) rest [of d] show "(\<forall>x \<in> set (x # xs). P x) \<and>
      c' = grow c (sum_list (map n (x # xs))) (sum_list (map m (x # xs))) \<and> fits c'" by auto
  next
    assume r: "(\<forall>x \<in> set (x # xs). P x) \<and>
      c' = grow c (sum_list (map n (x # xs))) (sum_list (map m (x # xs))) \<and> fits c'"
    then have d: "fits (grow c (n x) (m x))" by (auto intro: fits_smaller)
    with r first have "f x c = Inr (grow c (n x) (m x))" by simp
    with r rest [OF d] show "try_all f (x # xs) c = Inr c'" by auto
  qed
qed auto

lemma validate_regex_patterns_Inr:
  "validate_regex_patterns lib ps ctx field c = Inr c' \<longleftrightarrow>
    list_all (\<lambda>p. ok (tl_regex_new lib p) \<noteq> None) ps \<and> c' = c"
proof -
  have "(\<exists>r. tl_regex_new lib p = Inr r) \<longleftrightarrow> ok (tl_regex_new lib p) \<noteq> None" for p
    by (cases "tl_regex_new lib p") auto
  then show ?thesis
    unfolding validate_regex_patterns_def by (induction ps arbitrary: c) (auto simp del: not_None_eq)
qed

text \<open>The checks of a gate before its nested gates: they count the gate and its own matchers.\<close>

definition checked_gate :: "'r text_lib \<Rightarrow> bool \<Rightarrow> manifest_gate \<Rightarrow> nat \<Rightarrow> bool" where
  "checked_gate lib positive g depth \<longleftrightarrow>
     depth \<le> MAX_GATE_DEPTH \<and> matchers_small g \<and> patterns_compile lib g \<and>
     (if positive then gate_has_positive_matcher g else gate_has_any_matcher g)"

lemma some_too_long: "list_ex (\<lambda>v. k < f v) xs \<longleftrightarrow> \<not> list_all (\<lambda>v. f v \<le> k) xs" for k :: nat
  by (auto simp: list_ex_iff list_all_iff not_le)

lemma enter_limits:
  assumes "fits c"
  shows "result_bind (enter_gate ctx depth c) (\<lambda>c. validate_matcher_limits g ctx c) = Inr c' \<longleftrightarrow>
    depth \<le> MAX_GATE_DEPTH \<and> matchers_small g \<and> c' = grow c 1 (length (own_matchers g)) \<and> fits c'"
  using assms
  by (auto simp: enter_gate_def validate_matcher_limits_def Let_def matchers_small_def own_matchers_def
      fits_def grow_def not_less some_too_long add.assoc simp del: list_all_append)

lemma sum_children:
  "sum_list (map f (gate_children g)) =
    sum_list (map f (gate_all g)) + sum_list (map f (gate_any g)) + sum_list (map f (gate_not g))" for f :: "_ \<Rightarrow> nat"
  by (simp add: gate_children_def)

lemma foldr_max_le: "foldr max ns 0 \<le> k \<longleftrightarrow> (\<forall>n \<in> set ns. n \<le> k)" for k :: nat
  by (induction ns) auto

lemma gate_levels_le: "gate_levels g \<le> Suc k \<longleftrightarrow> (\<forall>n \<in> set (gate_children g). gate_levels n \<le> k)"
  by (subst gate_levels.simps) (simp add: foldr_max_le)

text \<open>The loops over the three lists of nested gates, behind the checks of the gate itself.\<close>

lemma nested_gates_Inr:
  assumes "fits c"
    and "\<And>n. n \<in> set (gate_all g) \<Longrightarrow> counts f n (P n) (gate_count n) (matcher_count n)"
    and "\<And>n. n \<in> set (gate_any g) \<Longrightarrow> counts f' n (P n) (gate_count n) (matcher_count n)"
    and "\<And>n. n \<in> set (gate_not g) \<Longrightarrow> counts f'' n (Q n) (gate_count n) (matcher_count n)"
  shows "result_bind (try_all f (gate_all g) c) (\<lambda>c. result_bind (try_all f' (gate_any g) c)
      (\<lambda>c. try_all f'' (gate_not g) c)) = Inr c' \<longleftrightarrow>
    (\<forall>n \<in> set (gate_all g) \<union> set (gate_any g). P n) \<and> (\<forall>n \<in> set (gate_not g). Q n) \<and>
    c' = grow c (sum_list (map gate_count (gate_children g))) (sum_list (map matcher_count (gate_children g))) \<and>
    fits c'"
proof -
  have all: "try_all f (gate_all g) c = Inr d \<longleftrightarrow> (\<forall>n \<in> set (gate_all g). P n) \<and>
      d = grow c (sum_list (map gate_count (gate_all g))) (sum_list (map matcher_count (gate_all g))) \<and> fits d"
    if "fits c" for c d by (rule try_all_counts) (use assms(2) that in auto)
  have any: "try_all f' (gate_any g) c = Inr d \<longleftrightarrow> (\<forall>n \<in> set (gate_any g). P n) \<and>
      d = grow c (sum_list (map gate_count (gate_any g))) (sum_list (map matcher_count (gate_any g))) \<and> fits d"
    if "fits c" for c d by (rule try_all_counts) (use assms(3) that in auto)
  have nots: "try_all f'' (gate_not g) c = Inr d \<longleftrightarrow> (\<forall>n \<in> set (gate_not g). Q n) \<and>
      d = grow c (sum_list (map gate_count (gate_not g))) (sum_list (map matcher_count (gate_not g))) \<and> fits d"
    if "fits c" for c d by (rule try_all_counts) (use assms(4) that in auto)
  show ?thesis (is "?l \<longleftrightarrow> ?r")
  proof
    assume ?l
    then obtain d e where d: "try_all f (gate_all g) c = Inr d" and e: "try_all f' (gate_any g) d = Inr e"
      and c': "try_all f'' (gate_not g) e = Inr c'" by auto
    from iffD1 [OF all [OF assms(1)] d] have "fits d" and 1: "\<forall>n \<in> set (gate_all g). P n"
      "d = grow c (sum_list (map gate_count (gate_all g))) (sum_list (map matcher_count (gate_all g)))" by blast+
    from iffD1 [OF any [OF this(1)] e] have "fits e" and 2: "\<forall>n \<in> set (gate_any g). P n"
      "e = grow d (sum_list (map gate_count (gate_any g))) (sum_list (map matcher_count (gate_any g)))" by blast+
    from iffD1 [OF nots [OF this(1)] c'] 1 2 show ?r by (auto simp: sum_children)
  next
    assume r: ?r
    let ?d = "grow c (sum_list (map gate_count (gate_all g))) (sum_list (map matcher_count (gate_all g)))"
    let ?e = "grow ?d (sum_list (map gate_count (gate_any g))) (sum_list (map matcher_count (gate_any g)))"
    from r have "fits ?d" "fits ?e" by (auto simp: sum_children fits_def)
    moreover from r have "c' = grow ?e (sum_list (map gate_count (gate_not g))) (sum_list (map matcher_count (gate_not g)))"
      by (simp add: sum_children)
    ultimately show ?l using r iffD2 [OF all [OF assms(1)], of ?d] iffD2 [OF any [OF \<open>fits ?d\<close>], of ?e]
        iffD2 [OF nots [OF \<open>fits ?e\<close>], of c'] by auto
  qed
qed

lemma checked_step:
  assumes "fits c"
  shows "result_bind (enter_gate ctx depth c) (\<lambda>c. result_bind (validate_matcher_limits g ctx c) (\<lambda>c.
      if \<not> ok_kind then Inl e else
      result_bind (validate_regex_patterns lib (gate_regex g) ctx' f1 c) (\<lambda>c.
      result_bind (validate_regex_patterns lib (gate_line_regex g) ctx' f2 c) k))) = Inr c' \<longleftrightarrow>
    depth \<le> MAX_GATE_DEPTH \<and> matchers_small g \<and> ok_kind \<and> patterns_compile lib g \<and>
    fits (grow c 1 (length (own_matchers g))) \<and> k (grow c 1 (length (own_matchers g))) = Inr c'"
proof -
  have "result_bind (enter_gate ctx depth c) (\<lambda>c. result_bind (validate_matcher_limits g ctx c) K) = Inr c' \<longleftrightarrow>
      depth \<le> MAX_GATE_DEPTH \<and> matchers_small g \<and> fits (grow c 1 (length (own_matchers g))) \<and>
      K (grow c 1 (length (own_matchers g))) = Inr c'" for K
    using enter_limits [OF assms, of ctx depth g] by (auto simp: result_bind_assoc [symmetric] simp del: One_nat_def)
  then show ?thesis
    by (auto simp: validate_regex_patterns_Inr patterns_compile_def simp del: not_None_eq One_nat_def split: if_splits)
qed

lemma sum_levels:
  "depth + gate_levels g \<le> Suc MAX_GATE_DEPTH \<longleftrightarrow>
    depth \<le> MAX_GATE_DEPTH \<and> (\<forall>n \<in> set (gate_children g). Suc depth + gate_levels n \<le> Suc MAX_GATE_DEPTH)"
proof (cases "depth \<le> MAX_GATE_DEPTH")
  case True
  then have "depth + gate_levels g \<le> Suc MAX_GATE_DEPTH \<longleftrightarrow> gate_levels g \<le> Suc (MAX_GATE_DEPTH - depth)" by auto
  moreover have "gate_levels n \<le> MAX_GATE_DEPTH - depth \<longleftrightarrow> Suc depth + gate_levels n \<le> Suc MAX_GATE_DEPTH" for n
    using True by auto
  ultimately show ?thesis using True by (simp only: gate_levels_le simp_thms)
next
  case False
  then show ?thesis by (subst gate_levels.simps) simp
qed

lemma sound_gate_not_empty: "sound_gate lib False g \<Longrightarrow> gate_has_any_matcher g"
  by (subst (asm) sound_gate.simps) simp

lemma counts_congD: "counts f x P n m \<Longrightarrow> (P \<longleftrightarrow> Q) \<Longrightarrow> counts f x Q n m"
  by simp

text \<open>The two validators count every gate and matcher of the tree once and test each gate.\<close>

lemma validate_counts:
  "counts (\<lambda>g c. validate_gate lib g ctx depth c) g
     (sound_gate lib True g \<and> depth + gate_levels g \<le> Suc MAX_GATE_DEPTH) (gate_count g) (matcher_count g) \<and>
   counts (\<lambda>g c. validate_not_gate lib g depth c) g
     (sound_gate lib False g \<and> depth + gate_levels g \<le> Suc MAX_GATE_DEPTH) (gate_count g) (matcher_count g)"
proof (induction g arbitrary: ctx depth rule: measure_induct_rule [of size])
  case (less g)
  let ?S = "\<lambda>pos n. sound_gate lib pos n \<and> Suc depth + gate_levels n \<le> Suc MAX_GATE_DEPTH"
  have nested: "counts (\<lambda>n c. validate_gate lib n ctx (depth + 1) c) n (?S True n) (gate_count n) (matcher_count n)"
    "counts (\<lambda>n c. validate_not_gate lib n (depth + 1) c) n (?S False n) (gate_count n) (matcher_count n)"
    if "n \<in> set (gate_children g)" for n ctx
    using less.IH [OF gate_children_less [OF that], of ctx "depth + 1"] by simp_all
  have guarded: "counts (\<lambda>n c. if \<not> gate_has_any_matcher n then Inl e else validate_not_gate lib n (depth + 1) c) n
      (?S False n) (gate_count n) (matcher_count n)" if "n \<in> set (gate_children g)" for n e
    using nested(2) [OF that] sound_gate_not_empty by (auto simp: counts_def)
  have "n \<in> set (gate_all g) \<or> n \<in> set (gate_any g) \<or> n \<in> set (gate_not g) \<Longrightarrow> n \<in> set (gate_children g)" for n
    by (auto simp: gate_children_def)
  note child = this
  have sums: "grow (grow c 1 (length (own_matchers g))) (sum_list (map gate_count (gate_children g)))
      (sum_list (map matcher_count (gate_children g))) = grow c (gate_count g) (matcher_count g)" for c
    by (simp add: gate_count.simps [of g] matcher_count.simps [of g])
  have tree: "sound_gate lib pos g \<and> depth + gate_levels g \<le> Suc MAX_GATE_DEPTH \<longleftrightarrow>
      depth \<le> MAX_GATE_DEPTH \<and> matchers_small g \<and>
      (if pos then gate_has_positive_matcher g else gate_has_any_matcher g) \<and> patterns_compile lib g \<and>
      (\<forall>n \<in> set (gate_all g) \<union> set (gate_any g). ?S True n) \<and> (\<forall>n \<in> set (gate_not g). ?S False n)" for pos
    unfolding sum_levels [of depth g] sound_gate.simps [of lib pos g] by (auto simp: gate_children_def list_all_iff)
  have smaller: "fits (grow c (gate_count g) (matcher_count g)) \<Longrightarrow> fits (grow c 1 (length (own_matchers g)))" for c
    unfolding sums [symmetric] by (simp add: fits_def)
  have final: "(D \<and> M \<and> K \<and> R \<and> fits (grow c 1 (length (own_matchers g))) \<and>
        (A \<and> N \<and> c' = grow c (gate_count g) (matcher_count g) \<and> fits c')) \<longleftrightarrow>
      (D \<and> M \<and> K \<and> R \<and> A \<and> N) \<and> c' = grow c (gate_count g) (matcher_count g) \<and> fits c'" for D M K R A N c c'
    using smaller [of c] by auto
  show ?case
  proof (intro conjI; unfold counts_def; intro allI impI)
    fix c c' :: manifest_complexity assume c: "fits c"
    show "validate_gate lib g ctx depth c = Inr c' \<longleftrightarrow>
      (sound_gate lib True g \<and> depth + gate_levels g \<le> Suc MAX_GATE_DEPTH) \<and>
      c' = grow c (gate_count g) (matcher_count g) \<and> fits c'"
      unfolding tree if_True
      by (rule trans [OF _ final], subst validate_gate.simps, subst checked_step [OF c], intro conj_cong refl,
          subst nested_gates_Inr [where P = "?S True" and Q = "?S False"])
         (assumption | rule nested guarded, rule child, simp | simp only: sums)+
  next
    fix c c' :: manifest_complexity assume c: "fits c"
    show "validate_not_gate lib g depth c = Inr c' \<longleftrightarrow>
      (sound_gate lib False g \<and> depth + gate_levels g \<le> Suc MAX_GATE_DEPTH) \<and>
      c' = grow c (gate_count g) (matcher_count g) \<and> fits c'"
      unfolding tree if_False
      by (rule trans [OF _ final], subst validate_not_gate.simps, subst checked_step [OF c], intro conj_cong refl,
          subst nested_gates_Inr [where P = "?S True" and Q = "?S False"])
         (assumption | rule nested, rule child, simp | simp only: sums)+
  qed
qed

section \<open>Manifests that are accepted\<close>

lemma validate_rule_counts:
  "counts (validate_rule lib) rule (sound_rule lib rule) (gate_count (manifest_gate_from_rule rule))
    (matcher_count (manifest_gate_from_rule rule))"
proof -
  have gate: "validate_rule_gate lib rule c = Inr c' \<longleftrightarrow>
      (sound_gate lib True (manifest_gate_from_rule rule) \<and>
       gate_levels (manifest_gate_from_rule rule) \<le> Suc MAX_GATE_DEPTH) \<and>
      c' = grow c (gate_count (manifest_gate_from_rule rule)) (matcher_count (manifest_gate_from_rule rule)) \<and> fits c'"
    if "fits c" for c c'
    using countsD [OF conjunct1 [OF validate_counts [where depth = 0]] that]
    by (simp add: validate_rule_gate_def)
  show ?thesis
    unfolding counts_def
    by (auto simp: validate_rule_def sound_rule_def gate split: option.splits)
qed

lemma validate_manifest_Inr: "validate_manifest lib m = Inr u \<longleftrightarrow> sound_manifest lib m"
proof -
  let ?zero = "\<lparr>total_gates = 0, total_matchers = 0\<rparr>"
  have "(\<exists>c. try_all (validate_rule lib) (am_rules m) ?zero = Inr c) \<longleftrightarrow>
      list_all (sound_rule lib) (am_rules m) \<and>
      sum_list (map (\<lambda>r. gate_count (manifest_gate_from_rule r)) (am_rules m)) \<le> MAX_TOTAL_GATES \<and>
      sum_list (map (\<lambda>r. matcher_count (manifest_gate_from_rule r)) (am_rules m)) \<le> MAX_TOTAL_MATCHERS"
    by (subst try_all_counts [OF validate_rule_counts]) (auto simp: fits_def list_all_iff)
  then show ?thesis by (auto simp: validate_manifest_def sound_manifest_def)
qed

section \<open>Compilation\<close>

lemma regexes_compile:
  "list_all (\<lambda>p. ok (tl_regex_new lib p) \<noteq> None) ps \<Longrightarrow> \<exists>rs. collect_results (tl_regex_new lib) ps = Inr rs"
  by (rule collect_results_total) (auto simp: list_all_iff)

lemma sound_gate_compiles: "sound_gate lib pos g \<Longrightarrow> \<exists>c. compile_gate lib g = Inr c"
proof (induction g arbitrary: pos rule: measure_induct_rule [of size])
  case (less g)
  note sound = less.prems [unfolded sound_gate.simps [of lib pos g]]
  have "\<exists>cs. collect_results (compile_gate lib) (gate_all g) = Inr cs"
    "\<exists>cs. collect_results (compile_gate lib) (gate_any g) = Inr cs"
    "\<exists>cs. collect_results (compile_gate lib) (gate_not g) = Inr cs"
    using sound less.IH by (auto intro!: collect_results_total simp: list_all_iff gate_children_size)
  moreover have "\<exists>rs. collect_results (tl_regex_new lib) (gate_regex g) = Inr rs"
    "\<exists>rs. collect_results (tl_regex_new lib) (gate_line_regex g) = Inr rs"
    using sound by (auto intro!: regexes_compile simp: patterns_compile_def)
  ultimately show ?case by (subst compile_gate.simps) auto
qed

lemma sound_manifest_compiles: "sound_manifest lib m \<Longrightarrow> \<exists>cs. compile_manifest lib m = Inr cs"
  unfolding compile_manifest_def sound_manifest_def
  by (rule collect_results_total) (auto simp: list_all_iff sound_rule_def dest!: sound_gate_compiles)

lemma compile_manifest_length: "compile_manifest lib m = Inr cs \<Longrightarrow> length cs = length (am_rules m)"
  by (simp add: compile_manifest_def collect_results_Inr list_all2_lengthD)

section \<open>What a compiled gate tests\<close>

definition pattern_matches :: "'r text_lib \<Rightarrow> string \<Rightarrow> string \<Rightarrow> bool" where
  "pattern_matches lib content p = is_some_and (ok (tl_regex_new lib p)) (\<lambda>r. tl_is_match lib r content)"

text \<open>The meaning of a gate of the manifest, without compilation.\<close>

fun gate_holds :: "'r text_lib \<Rightarrow> string \<Rightarrow> manifest_gate \<Rightarrow> bool" where
  "gate_holds lib content g \<longleftrightarrow>
     list_all (\<lambda>needle. str_contains (tl_to_lowercase lib content) (tl_to_lowercase lib needle)) (gate_contains g) \<and>
     list_all (pattern_matches lib content) (gate_regex g) \<and>
     list_all (\<lambda>p. list_ex (\<lambda>line. pattern_matches lib line p) (str_lines content)) (gate_line_regex g) \<and>
     list_all (gate_holds lib content) (gate_all g) \<and>
     (gate_any g = [] \<or> list_ex (gate_holds lib content) (gate_any g)) \<and>
     \<not> list_ex (gate_holds lib content) (gate_not g)"

declare gate_holds.simps [simp del]

lemma list_all2_all: "list_all2 R xs ys \<Longrightarrow> (\<And>x y. x \<in> set xs \<Longrightarrow> R x y \<Longrightarrow> P x = Q y) \<Longrightarrow>
    list_all P xs = list_all Q ys \<and> list_ex P xs = list_ex Q ys \<and> (xs = [] \<longleftrightarrow> ys = [])"
  by (induction rule: list_all2_induct) auto

lemma compiled_gate_matches_iff:
  "compile_gate lib g = Inr c \<Longrightarrow>
    compiled_gate_matches lib c content (tl_to_lowercase lib content) = gate_holds lib content g"
proof (induction g arbitrary: c rule: measure_induct_rule [of size])
  case (less g)
  from less.prems obtain as bs ns rs ls where
      as: "list_all2 (\<lambda>x y. compile_gate lib x = Inr y) (gate_all g) as"
    and bs: "list_all2 (\<lambda>x y. compile_gate lib x = Inr y) (gate_any g) bs"
    and ns: "list_all2 (\<lambda>x y. compile_gate lib x = Inr y) (gate_not g) ns"
    and rs: "list_all2 (\<lambda>x y. tl_regex_new lib x = Inr y) (gate_regex g) rs"
    and ls: "list_all2 (\<lambda>x y. tl_regex_new lib x = Inr y) (gate_line_regex g) ls"
    and c: "c = CompiledGate as bs ns (map (tl_to_lowercase lib) (gate_contains g)) rs ls"
    by (subst (asm) compile_gate.simps) (auto simp: collect_results_Inr)
  let ?m = "\<lambda>c. compiled_gate_matches lib c content (tl_to_lowercase lib content)"
  have "list_all (gate_holds lib content) (gate_all g) = list_all ?m as"
    using list_all2_all [OF as, of "gate_holds lib content" ?m] less.IH gate_children_size(1) by blast
  moreover have "list_ex (gate_holds lib content) (gate_any g) = list_ex ?m bs \<and> (gate_any g = [] \<longleftrightarrow> bs = [])"
    using list_all2_all [OF bs, of "gate_holds lib content" ?m] less.IH gate_children_size(2) by blast
  moreover have "list_ex (gate_holds lib content) (gate_not g) = list_ex ?m ns"
    using list_all2_all [OF ns, of "gate_holds lib content" ?m] less.IH gate_children_size(3) by blast
  moreover have "list_all (pattern_matches lib content) (gate_regex g) =
      list_all (\<lambda>r. tl_is_match lib r content) rs"
    using list_all2_all [OF rs, of "pattern_matches lib content" "\<lambda>r. tl_is_match lib r content"]
    by (simp add: pattern_matches_def)
  moreover have "list_all (\<lambda>p. list_ex (\<lambda>line. pattern_matches lib line p) (str_lines content)) (gate_line_regex g) =
      list_all (\<lambda>r. list_ex (tl_is_match lib r) (str_lines content)) ls"
    using list_all2_all [OF ls, of "\<lambda>p. list_ex (\<lambda>line. pattern_matches lib line p) (str_lines content)"
        "\<lambda>r. list_ex (tl_is_match lib r) (str_lines content)"]
    by (simp add: pattern_matches_def)
  ultimately show ?case
    by (simp add: c compiled_gate_matches.simps [of lib "CompiledGate _ _ _ _ _ _"] gate_holds.simps [of lib content g]
        list.pred_map comp_def)
qed

end
