(* ===== verification/ManifestEngine.thy ===== *)
theory ManifestEngine
  imports ManifestFiles ManifestValid
begin

text \<open>
  The detection engine (\<open>src/detect/manifest.rs\<close>): which manifest of an agent is loaded, and which of its rules
  decides the state the screen shows.  A region may panic, and so may the load of a bundled manifest; what
  runs them is an \<open>outcome\<close>.
\<close>

section \<open>Loaded manifests\<close>

text \<open>The \<open>?\<close> operator on an \<open>Option\<close> whose computation may panic.\<close>

definition try_some_outcome :: "'a option outcome \<Rightarrow> ('a \<Rightarrow> 'b option outcome) \<Rightarrow> 'b option outcome" where
  "try_some_outcome m f = outcome_bind m (\<lambda>a. try_some a f)"

datatype manifest_source = Bundled | Remote path string | Override path

fun manifest_source_kind :: "manifest_source \<Rightarrow> string" where
  "manifest_source_kind Bundled = ''bundled''"
| "manifest_source_kind (Remote _ _) = ''remote''"
| "manifest_source_kind (Override _) = ''local override''"

datatype load_warning =
    OverrideNotCompiled path "string \<times> string"
  | OverrideIdMismatch path string agent
  | OverrideNotLoaded path load_error
  | RemoteOlder path manifest_version manifest_version
  | RemoteNotCompiled path "string \<times> string"
  | RemoteNotLoaded path load_error

record 'r loaded_screen_manifest =
  lm_manifest :: agent_manifest
  lm_compiled_rules :: "'r compiled_gate list"
  lm_source :: manifest_source
  lm_warning :: "load_warning option"
  lm_cached_remote_version :: "string option"
  lm_local_override_shadowing_remote :: bool

definition parse_manifest :: "'r manifest_env \<Rightarrow> string \<Rightarrow> load_error + agent_manifest" where
  "parse_manifest env content =
     result_bind (map_err TomlFailed (me_toml_manifest env content)) (\<lambda>manifest.
     result_bind (map_err ManifestInvalid (validate_manifest (me_lib env) manifest)) (\<lambda>_. Inr manifest))"

definition manifest_matches_agent :: "agent_manifest \<Rightarrow> agent \<Rightarrow> bool" where
  "manifest_matches_agent manifest agent =
     (let id = agent_label agent
      in am_id manifest = id \<or> list_ex (\<lambda>alias. alias = id) (am_aliases manifest) \<or>
         parse_agent_label (am_id manifest) = Some agent \<or>
         list_ex (\<lambda>alias. parse_agent_label alias = Some agent) (am_aliases manifest))"

definition MANIFEST_ENGINE_VERSION :: nat where "MANIFEST_ENGINE_VERSION = 2"

definition parse_remote_manifest_for_agent ::
    "'r manifest_env \<Rightarrow> agent \<Rightarrow> string \<Rightarrow> load_error + (agent_manifest \<times> manifest_version)" where
  "parse_remote_manifest_for_agent env agent content =
     result_bind (parse_manifest env content) (\<lambda>manifest.
     if \<not> manifest_matches_agent manifest agent then Inl (IdMismatch (am_id manifest) agent) else
     result_bind (ok_or (am_version manifest) MissingVersion) (\<lambda>version.
     result_bind (ok_or (am_min_engine_version manifest) MissingEngineVersion) (\<lambda>min_engine_version.
     if MANIFEST_ENGINE_VERSION < min_engine_version then Inl (EngineTooNew min_engine_version)
     else Inr (manifest, version))))"

definition loaded_manifest ::
    "'r manifest_env \<Rightarrow> agent_manifest \<Rightarrow> manifest_source \<Rightarrow> load_warning option \<Rightarrow> string option \<Rightarrow> bool \<Rightarrow>
     (string \<times> string) + 'r loaded_screen_manifest" where
  "loaded_manifest env manifest source warning cached_remote_version shadowing =
     result_bind (compile_manifest (me_lib env) manifest) (\<lambda>compiled_rules.
     Inr \<lparr>lm_manifest = manifest, lm_compiled_rules = compiled_rules, lm_source = source,
          lm_warning = warning, lm_cached_remote_version = cached_remote_version,
          lm_local_override_shadowing_remote = shadowing\<rparr>)"

definition bundled_loaded_manifest ::
    "'r manifest_env \<Rightarrow> agent_manifest \<Rightarrow> load_warning option \<Rightarrow> string option \<Rightarrow> bool \<Rightarrow>
     'r loaded_screen_manifest outcome" where
  "bundled_loaded_manifest env manifest warning cached_remote_version shadowing =
     (case loaded_manifest env manifest Bundled warning cached_remote_version shadowing of
        Inl _ \<Rightarrow> Panic | Inr loaded \<Rightarrow> Return loaded)"

definition bundled_manifest_ids :: "string list" where
  "bundled_manifest_ids =
     [''amp'', ''agy'', ''claude'', ''cline'', ''codex'', ''cursor'', ''devin'', ''droid'', ''gemini'',
      ''grok'', ''hermes'', ''kilo'', ''kimi'', ''kiro'', ''maki'', ''opencode'', ''pi'', ''qodercli'',
      ''copilot'']"

definition bundled_manifest :: "'r manifest_env \<Rightarrow> agent \<Rightarrow> agent_manifest option outcome" where
  "bundled_manifest env agent =
     (let id = agent_label agent
      in case find (\<lambda>manifest_id. manifest_id = id) bundled_manifest_ids of
           None \<Rightarrow> Return None
         | Some manifest_id \<Rightarrow>
             (case parse_manifest env (me_bundled_text env manifest_id) of
                Inl _ \<Rightarrow> Panic | Inr manifest \<Rightarrow> Return (Some manifest)))"

definition read_override_manifest ::
    "'r manifest_env \<Rightarrow> file_system \<Rightarrow> path \<Rightarrow> load_error + agent_manifest" where
  "read_override_manifest env fs path =
     result_bind (map_err ReadFailed (read_to_string fs path)) (parse_manifest env)"

definition read_remote_manifest ::
    "'r manifest_env \<Rightarrow> file_system \<Rightarrow> agent \<Rightarrow> agent_manifest \<Rightarrow> 'r loaded_screen_manifest option outcome" where
  "read_remote_manifest env fs agent bundled =
     (let path = remote_manifest_path env agent;
          fallback = (\<lambda>warning cached.
            outcome_bind (bundled_loaded_manifest env bundled (Some warning) cached False)
              (\<lambda>loaded. Return (Some loaded)))
      in if \<not> file_exists fs path then Return None
         else case result_bind (map_err ReadFailed (read_to_string fs path)) (\<lambda>content.
                     result_map fst (parse_remote_manifest_for_agent env agent content)) of
           Inl err \<Rightarrow> fallback (RemoteNotLoaded path err) None
         | Inr manifest \<Rightarrow>
             let version = (case am_version manifest of None \<Rightarrow> ''unknown'' | Some v \<Rightarrow> version_text v);
                 load = (case loaded_manifest env manifest (Remote path version) None None False of
                           Inr loaded \<Rightarrow> Return (Some loaded)
                         | Inl err \<Rightarrow> fallback (RemoteNotCompiled path err) None)
             in case (am_version manifest, am_version bundled) of
                  (Some remote_version, Some bundled_version) \<Rightarrow>
                    if version_less remote_version bundled_version
                    then fallback (RemoteOlder path remote_version bundled_version)
                           (Some (version_text remote_version))
                    else load
                | _ \<Rightarrow> load)"

text \<open>\<open>remote.unwrap_or_else(|| bundled_loaded_manifest(..))\<close>\<close>

definition remote_or_bundled ::
    "'r manifest_env \<Rightarrow> 'r loaded_screen_manifest option \<Rightarrow> agent_manifest \<Rightarrow> string option \<Rightarrow> bool \<Rightarrow>
     'r loaded_screen_manifest outcome" where
  "remote_or_bundled env remote bundled cached_remote_version shadowing =
     (case remote of Some loaded \<Rightarrow> Return loaded
      | None \<Rightarrow> bundled_loaded_manifest env bundled None cached_remote_version shadowing)"

definition cached_version_of :: "'r loaded_screen_manifest \<Rightarrow> string option" where
  "cached_version_of loaded =
     (if lm_cached_remote_version loaded \<noteq> None then lm_cached_remote_version loaded
      else case lm_source loaded of Remote _ version \<Rightarrow> Some version | _ \<Rightarrow> None)"

definition load_manifest_uncached ::
    "'r manifest_env \<Rightarrow> file_system \<Rightarrow> agent \<Rightarrow> 'r loaded_screen_manifest option outcome" where
  "load_manifest_uncached env fs agent =
     try_some_outcome (bundled_manifest env agent) (\<lambda>bundled.
     outcome_bind (read_remote_manifest env fs agent bundled) (\<lambda>remote0.
     let cached_remote_version = Option.bind remote0 cached_version_of;
         remote1 = map_option (\<lambda>l. l\<lparr>lm_cached_remote_version := cached_remote_version\<rparr>) remote0
     in case override_path env agent of
          None \<Rightarrow>
            outcome_bind (remote_or_bundled env remote1 bundled cached_remote_version False)
              (\<lambda>l. Return (Some l))
        | Some path \<Rightarrow>
            let shadowing = file_exists fs path \<and> cached_remote_version \<noteq> None;
                remote = map_option (\<lambda>l. l\<lparr>lm_local_override_shadowing_remote := shadowing\<rparr>) remote1;
                otherwise = remote_or_bundled env remote bundled cached_remote_version shadowing;
                warn = (\<lambda>w. outcome_bind otherwise (\<lambda>l. Return (Some (l\<lparr>lm_warning := Some w\<rparr>))))
            in if \<not> file_exists fs path then outcome_bind otherwise (\<lambda>l. Return (Some l))
               else case read_override_manifest env fs path of
                 Inr manifest \<Rightarrow>
                   if manifest_matches_agent manifest agent
                   then (case loaded_manifest env manifest (Override path) None cached_remote_version shadowing of
                           Inr loaded \<Rightarrow> Return (Some loaded)
                         | Inl err \<Rightarrow> warn (OverrideNotCompiled path err))
                   else warn (OverrideIdMismatch path (am_id manifest) agent)
               | Inl err \<Rightarrow> warn (OverrideNotLoaded path err)))"

section \<open>The cache\<close>

type_synonym 'r manifest_cache = "(agent \<times> 'r loaded_screen_manifest option) list"

fun collect_outcomes :: "('a \<Rightarrow> 'b outcome) \<Rightarrow> 'a list \<Rightarrow> 'b list outcome" where
  "collect_outcomes f [] = Return []"
| "collect_outcomes f (x # xs) =
     outcome_bind (f x) (\<lambda>y. outcome_bind (collect_outcomes f xs) (\<lambda>ys. Return (y # ys)))"

definition build_manifest_cache :: "'r manifest_env \<Rightarrow> file_system \<Rightarrow> 'r manifest_cache outcome" where
  "build_manifest_cache env fs =
     collect_outcomes (\<lambda>agent.
       outcome_bind (load_manifest_uncached env fs agent) (\<lambda>loaded. Return (agent, loaded)))
     screen_manifest_agents"

definition load_manifest :: "'r manifest_cache \<Rightarrow> agent \<Rightarrow> 'r loaded_screen_manifest option" where
  "load_manifest cache agent = Option.bind (find (\<lambda>entry. fst entry = agent) cache) snd"

record agent_manifest_summary =
  ams_agent :: agent
  ams_active_source :: manifest_source
  ams_active_version :: "string option"
  ams_cached_remote_version :: "string option"
  ams_local_override_shadowing_remote :: bool
  ams_warning :: "load_warning option"

definition manifest_summary_from_loaded :: "agent \<Rightarrow> 'r loaded_screen_manifest \<Rightarrow> agent_manifest_summary" where
  "manifest_summary_from_loaded agent loaded =
     \<lparr>ams_agent = agent, ams_active_source = lm_source loaded,
      ams_active_version = map_option version_text (am_version (lm_manifest loaded)),
      ams_cached_remote_version = lm_cached_remote_version loaded,
      ams_local_override_shadowing_remote = lm_local_override_shadowing_remote loaded,
      ams_warning = lm_warning loaded\<rparr>"

definition manifest_summaries_from_cache :: "'r manifest_cache \<Rightarrow> agent_manifest_summary list" where
  "manifest_summaries_from_cache cache =
     List.map_filter (\<lambda>(agent, loaded). map_option (manifest_summary_from_loaded agent) loaded) cache"

text \<open>\<open>reload_manifests\<close>: the summaries, and the cache that replaces the old one.\<close>

definition reload_manifests ::
    "'r manifest_env \<Rightarrow> file_system \<Rightarrow> (agent_manifest_summary list \<times> 'r manifest_cache) outcome" where
  "reload_manifests env fs =
     outcome_bind (build_manifest_cache env fs) (\<lambda>cache.
     Return (manifest_summaries_from_cache cache, cache))"

section \<open>Explaining a screen\<close>

record matched_rule =
  mat_id :: string
  mat_priority :: int
  mat_region :: string
  mat_state :: agent_state

record rule_evidence =
  evi_contains :: "string list"
  evi_regex :: "string list"
  evi_line_regex :: "string list"
  evi_all_count :: nat
  evi_any_count :: nat
  evi_not_count :: nat
  evi_region_bytes :: nat
  evi_region_preview :: string

record evaluated_rule =
  evr_id :: string
  evr_priority :: int
  evr_region :: string
  evr_evidence :: rule_evidence
  evr_state :: agent_state
  evr_matched :: bool

record detection_explain =
  dx_agent :: "string option"
  dx_state :: agent_state
  dx_source :: "manifest_source option"
  dx_matched_rule :: "matched_rule option"
  dx_screen_detection_skipped :: bool
  dx_visible_idle :: bool
  dx_visible_blocker :: bool
  dx_visible_working :: bool
  dx_skip_state_update :: bool
  dx_skipped_update_reason :: "string option"
  dx_fallback_reason :: "string option"
  dx_evaluated_rules :: "evaluated_rule list"
  dx_warning :: "load_warning option"
  dx_manifest_version :: "string option"
  dx_cached_remote_version :: "string option"
  dx_local_override_shadowing_remote :: bool
  dx_remote_update_status :: "string option"
  dx_remote_update_error :: "status_error option"

definition into_detection :: "detection_explain \<Rightarrow> agent_detection" where
  "into_detection x =
     \<lparr>det_state = dx_state x, det_skip_state_update = dx_skip_state_update x,
      det_visible_idle = dx_visible_idle x, det_visible_blocker = dx_visible_blocker x,
      det_visible_working = dx_visible_working x\<rparr>"

definition bounded_preview :: "string \<Rightarrow> string" where
  "bounded_preview content =
     (let preview = take (char_offset 240 content) content
      in if 240 < length (str_chars content) then preview @ ''...'' else preview)"

definition rule_evidence_of :: "manifest_rule \<Rightarrow> string \<Rightarrow> rule_evidence" where
  "rule_evidence_of rule region_text =
     \<lparr>evi_contains = mr_contains rule, evi_regex = mr_regex rule, evi_line_regex = mr_line_regex rule,
      evi_all_count = length (mr_all rule), evi_any_count = length (mr_any rule),
      evi_not_count = length (mr_not rule), evi_region_bytes = length region_text,
      evi_region_preview = bounded_preview region_text\<rparr>"

definition rule_state :: "manifest_rule \<Rightarrow> agent_state" where
  "rule_state rule = unwrap_or (map_option agent_state_from (mr_state rule)) Unknown"

text \<open>The loop over the rules: the best match so far and the rules evaluated so far.\<close>

definition evaluate_rule ::
    "'r text_lib \<Rightarrow> detection_input \<Rightarrow> manifest_rule \<Rightarrow> 'r compiled_gate \<Rightarrow>
     manifest_rule option \<times> evaluated_rule list \<Rightarrow> (manifest_rule option \<times> evaluated_rule list) outcome" where
  "evaluate_rule lib input rule compiled_rule st =
     outcome_bind (region input (mr_region rule)) (\<lambda>region_text.
       let (matched, evaluated_rules) = st;
           matched_rule = compiled_rule_matches lib compiled_rule region_text;
           evaluated = evaluated_rules @
             [\<lparr>evr_id = mr_id rule, evr_priority = mr_priority rule, evr_region = mr_region rule,
               evr_evidence = rule_evidence_of rule region_text, evr_state = rule_state rule,
               evr_matched = matched_rule\<rparr>]
       in if \<not> matched_rule then Return (matched, evaluated)
          else case matched of
                 Some previous \<Rightarrow>
                   if mr_priority rule \<le> mr_priority previous then Return (matched, evaluated)
                   else Return (Some rule, evaluated)
               | None \<Rightarrow> Return (Some rule, evaluated))"

fun evaluate_rules ::
    "'r text_lib \<Rightarrow> detection_input \<Rightarrow> (manifest_rule \<times> 'r compiled_gate) list \<Rightarrow>
     manifest_rule option \<times> evaluated_rule list \<Rightarrow> (manifest_rule option \<times> evaluated_rule list) outcome" where
  "evaluate_rules lib input [] st = Return st"
| "evaluate_rules lib input ((rule, compiled_rule) # rest) st =
     outcome_bind (evaluate_rule lib input rule compiled_rule st) (evaluate_rules lib input rest)"

definition DEFAULT_KNOWN_AGENT_IDLE_FALLBACK :: string where
  "DEFAULT_KNOWN_AGENT_IDLE_FALLBACK = ''default_known_agent_idle_fallback''"

definition fallback_explain ::
    "(agent \<Rightarrow> agent_remote_status option) \<Rightarrow> agent option \<Rightarrow> ('r loaded_screen_manifest \<times> evaluated_rule list) option \<Rightarrow>
     bool \<Rightarrow> detection_explain" where
  "fallback_explain statuses agent context include_update_status =
     (let remote_update_status = (if include_update_status then Option.bind agent statuses else None)
      in \<lparr>dx_agent = map_option agent_label agent,
          dx_state = (if agent \<noteq> None then Idle else Unknown),
          dx_source = map_option (\<lambda>(loaded, _). lm_source loaded) context,
          dx_matched_rule = None, dx_screen_detection_skipped = False,
          dx_visible_idle = False, dx_visible_blocker = False, dx_visible_working = False,
          dx_skip_state_update = False, dx_skipped_update_reason = None,
          dx_fallback_reason = then_some (agent \<noteq> None) DEFAULT_KNOWN_AGENT_IDLE_FALLBACK,
          dx_evaluated_rules = (case context of None \<Rightarrow> [] | Some (_, evaluated) \<Rightarrow> evaluated),
          dx_warning = Option.bind context (\<lambda>(loaded, _). lm_warning loaded),
          dx_manifest_version =
            Option.bind context (\<lambda>(loaded, _). map_option version_text (am_version (lm_manifest loaded))),
          dx_cached_remote_version = Option.bind context (\<lambda>(loaded, _). lm_cached_remote_version loaded),
          dx_local_override_shadowing_remote =
            is_some_and context (\<lambda>(loaded, _). lm_local_override_shadowing_remote loaded),
          dx_remote_update_status = map_option ars_last_result remote_update_status,
          dx_remote_update_error = Option.bind remote_update_status ars_last_error\<rparr>)"

definition evaluate_loaded_manifest ::
    "'r text_lib \<Rightarrow> (agent \<Rightarrow> agent_remote_status option) \<Rightarrow> agent \<Rightarrow> detection_input \<Rightarrow> 'r loaded_screen_manifest \<Rightarrow>
     bool \<Rightarrow> detection_explain outcome" where
  "evaluate_loaded_manifest lib statuses agent input loaded include_update_status =
     outcome_bind
       (evaluate_rules lib input (zip (am_rules (lm_manifest loaded)) (lm_compiled_rules loaded)) (None, []))
       (\<lambda>(matched, evaluated_rules).
         case matched of
           None \<Rightarrow> Return (fallback_explain statuses (Some agent) (Some (loaded, evaluated_rules)) include_update_status)
         | Some rule \<Rightarrow>
             let state = rule_state rule;
                 remote_update_status = (if include_update_status then statuses agent else None)
             in Return \<lparr>dx_agent = Some (agent_label agent), dx_state = state,
                  dx_source = Some (lm_source loaded),
                  dx_matched_rule = Some \<lparr>mat_id = mr_id rule, mat_priority = mr_priority rule,
                    mat_region = mr_region rule, mat_state = state\<rparr>,
                  dx_screen_detection_skipped = False,
                  dx_visible_idle = (mr_visible_idle rule \<and> state = Idle),
                  dx_visible_blocker = (mr_visible_blocker rule \<and> state = Blocked),
                  dx_visible_working = (mr_visible_working rule \<and> state = Working),
                  dx_skip_state_update = mr_skip_state_update rule,
                  dx_skipped_update_reason =
                    then_some (mr_skip_state_update rule) (''matched_rule:'' @ mr_id rule),
                  dx_fallback_reason = None, dx_evaluated_rules = evaluated_rules,
                  dx_warning = lm_warning loaded,
                  dx_manifest_version = map_option version_text (am_version (lm_manifest loaded)),
                  dx_cached_remote_version = lm_cached_remote_version loaded,
                  dx_local_override_shadowing_remote = lm_local_override_shadowing_remote loaded,
                  dx_remote_update_status = map_option ars_last_result remote_update_status,
                  dx_remote_update_error = Option.bind remote_update_status ars_last_error\<rparr>)"

definition outcome_map :: "('a \<Rightarrow> 'b) \<Rightarrow> 'a outcome \<Rightarrow> 'b outcome" where
  "outcome_map f m = outcome_bind m (\<lambda>a. Return (f a))"

definition explain_with_input ::
    "'r text_lib \<Rightarrow> (agent \<Rightarrow> agent_remote_status option) \<Rightarrow> 'r manifest_cache \<Rightarrow> agent \<Rightarrow> detection_input \<Rightarrow>
     detection_explain outcome" where
  "explain_with_input lib statuses cache agent input =
     (case load_manifest cache agent of
        None \<Rightarrow> Return (fallback_explain statuses (Some agent) (None :: ('r loaded_screen_manifest \<times> _) option) True)
      | Some loaded \<Rightarrow> evaluate_loaded_manifest lib statuses agent input loaded True)"

definition detect_with_osc ::
    "'r text_lib \<Rightarrow> 'r manifest_cache \<Rightarrow> agent \<Rightarrow> detection_input \<Rightarrow> agent_detection outcome" where
  "detect_with_osc lib cache agent input =
     outcome_map into_detection
       (case load_manifest cache agent of
          None \<Rightarrow> Return (fallback_explain Map.empty (Some agent) (None :: ('r loaded_screen_manifest \<times> _) option) False)
        | Some loaded \<Rightarrow> evaluate_loaded_manifest lib Map.empty agent input loaded False)"

definition screen_only :: "string \<Rightarrow> detection_input" where
  "screen_only content = \<lparr>di_screen = content, di_osc_title = [], di_osc_progress = []\<rparr>"

definition detect ::
    "'r text_lib \<Rightarrow> 'r manifest_cache \<Rightarrow> agent \<Rightarrow> string \<Rightarrow> agent_detection outcome" where
  "detect lib cache agent screen_content = detect_with_osc lib cache agent (screen_only screen_content)"

definition explain ::
    "'r text_lib \<Rightarrow> (agent \<Rightarrow> agent_remote_status option) \<Rightarrow> 'r manifest_cache \<Rightarrow> agent \<Rightarrow> string \<Rightarrow>
     detection_explain outcome" where
  "explain lib statuses cache agent screen_content =
     explain_with_input lib statuses cache agent (screen_only screen_content)"

definition explain_for_label ::
    "'r text_lib \<Rightarrow> (agent \<Rightarrow> agent_remote_status option) \<Rightarrow> 'r manifest_cache \<Rightarrow> string \<Rightarrow> string \<Rightarrow>
     detection_explain outcome" where
  "explain_for_label lib statuses cache label screen_content =
     (case parse_agent_label label of
        None \<Rightarrow> Return
          \<lparr>dx_agent = Some label, dx_state = Unknown, dx_source = None, dx_matched_rule = None,
           dx_screen_detection_skipped = False, dx_visible_idle = False, dx_visible_blocker = False,
           dx_visible_working = False, dx_skip_state_update = False, dx_skipped_update_reason = None,
           dx_fallback_reason = Some ''unknown_agent'', dx_evaluated_rules = [], dx_warning = None,
           dx_manifest_version = None, dx_cached_remote_version = None,
           dx_local_override_shadowing_remote = False, dx_remote_update_status = None,
           dx_remote_update_error = None\<rparr>
      | Some agent \<Rightarrow> explain lib statuses cache agent screen_content)"

definition should_skip_state_update ::
    "'r text_lib \<Rightarrow> 'r manifest_cache \<Rightarrow> agent \<Rightarrow> string \<Rightarrow> bool outcome" where
  "should_skip_state_update lib cache agent screen_content =
     (case load_manifest cache agent of
        None \<Rightarrow> Return False
      | Some loaded \<Rightarrow>
          outcome_map dx_skip_state_update
            (evaluate_loaded_manifest lib Map.empty agent (screen_only screen_content) loaded False))"

fun agent_state_label :: "agent_state \<Rightarrow> string" where
  "agent_state_label Idle = ''idle''"
| "agent_state_label Working = ''working''"
| "agent_state_label Blocked = ''blocked''"
| "agent_state_label Unknown = ''unknown''"

end
