(* ===== verification/ManifestUpdate.thy ===== *)
theory ManifestUpdate
  imports ManifestEngine
begin

text \<open>
  Updates of the detection manifests from a catalog (\<open>src/detect/manifest_update.rs\<close>): the catalog, its URLs,
  the check of a fetched manifest against the one that is cached, and the round over all agents of the
  catalog.  What \<open>curl\<close> answers to a URL is a parameter, and so is what the system answers to each write.
\<close>

section \<open>The catalog\<close>

record catalog_agent =
  ca_agent :: agent
  ca_path :: string

definition safe_path :: "string \<Rightarrow> bool" where
  "safe_path path \<longleftrightarrow>
     \<not> (str_contains path ''://'' \<or> starts_with path ''/'' \<or>
        list_ex (\<lambda>part. part = ''..'') (split_on CHR ''/'' path))"

text \<open>The body of the loop over the entries, on the labels seen and the agents collected.\<close>

definition catalog_step ::
    "catalog_agent_entry \<Rightarrow> string set \<times> catalog_agent list \<Rightarrow> update_error + (string set \<times> catalog_agent list)" where
  "catalog_step entry st =
     (let (seen, agents) = st
      in case parse_agent_label (cat_id entry) of
           None \<Rightarrow> Inr (seen, agents)
         | Some agent \<Rightarrow>
             if trim (cat_path entry) = [] then Inl (EmptyPath (cat_id entry))
             else if \<not> safe_path (cat_path entry) then Inl (UnsafePath (cat_id entry) (cat_path entry))
             else if agent_label agent \<in> seen then Inl (DuplicateAgent (cat_id entry))
             else Inr (insert (agent_label agent) seen,
                       agents @ [\<lparr>ca_agent = agent, ca_path = cat_path entry\<rparr>]))"

definition parse_catalog :: "'r manifest_env \<Rightarrow> string \<Rightarrow> update_error + catalog_agent list" where
  "parse_catalog env content =
     result_bind (map_err CatalogToml (me_toml_catalog env content)) (\<lambda>catalog.
     if cat_schema_version catalog \<noteq> 1 then Inl (UnsupportedSchema (cat_schema_version catalog))
     else result_map snd (try_all catalog_step (cat_agents catalog) ({}, [])))"

definition base_url :: "string \<Rightarrow> update_error + string" where
  "base_url url = (case rsplit_once CHR ''/'' url of None \<Rightarrow> Inl (NoBasePath url) | Some (base, _) \<Rightarrow> Inr base)"

definition trim_end_matches :: "char \<Rightarrow> string \<Rightarrow> string" where
  "trim_end_matches c s = rev (dropWhile (\<lambda>x. x = c) (rev s))"

definition join_url :: "string \<Rightarrow> string \<Rightarrow> update_error + string" where
  "join_url base path =
     (if \<not> safe_path path then Inl (UnsafeManifestPath path)
      else Inr (trim_end_matches CHR ''/'' base @ ''/'' @ path))"

section \<open>One manifest\<close>

record manifest_update_commit =
  muc_agent :: agent
  muc_version :: manifest_version

definition cached_remote_version :: "'r manifest_env \<Rightarrow> file_system \<Rightarrow> agent \<Rightarrow> manifest_version option" where
  "cached_remote_version env fs agent =
     Option.bind (ok (read_to_string fs (remote_manifest_path env agent))) (\<lambda>content.
     map_option snd (ok (parse_remote_manifest_for_agent env agent content)))"

definition process_agent_manifest ::
    "'r manifest_env \<Rightarrow> io_answers \<Rightarrow> agent \<Rightarrow> string \<Rightarrow> file_system \<Rightarrow>
     (update_error + manifest_update_commit option) \<times> file_system" where
  "process_agent_manifest env io agent content fs =
     (case parse_remote_manifest_for_agent env agent content of
        Inl err \<Rightarrow> (Inl (ManifestRejected err), fs)
      | Inr (manifest, version) \<Rightarrow>
          let commit =
            (case commit_remote_manifest env io agent content fs of
               (Inl err, fs') \<Rightarrow> (Inl (CommitFailed err), fs')
             | (Inr _, fs') \<Rightarrow> (Inr (Some \<lparr>muc_agent = agent, muc_version = version\<rparr>), fs'))
          in case cached_remote_version env fs agent of
               None \<Rightarrow> commit
             | Some current \<Rightarrow>
                 (case version_cmp version current of
                    LessThan \<Rightarrow> (Inl (OlderThanCached version current), fs)
                  | Equal \<Rightarrow>
                      let committed = unwrap_or (ok (read_to_string fs (remote_manifest_path env agent))) []
                      in if committed \<noteq> content then (Inl (ChangedWithoutBump version), fs)
                         else (Inr None, fs)
                  | GreaterThan \<Rightarrow> commit))"

section \<open>A round of updates\<close>

record update_world =
  uw_fetch :: "string \<Rightarrow> string + string"
  uw_commit_io :: "agent \<Rightarrow> io_answers"
  uw_status_io :: io_answers
  uw_now :: nat

record manifest_update_output =
  muo_updated :: "manifest_update_commit list"
  muo_status :: manifest_update_status

definition set_agent_status ::
    "agent \<Rightarrow> agent_remote_status \<Rightarrow> manifest_update_status \<Rightarrow> manifest_update_status" where
  "set_agent_status agent s st = st\<lparr>mus_agents := (mus_agents st)(agent_label agent \<mapsto> s)\<rparr>"

type_synonym update_state = "manifest_update_status \<times> manifest_update_commit list \<times> file_system"

text \<open>What one entry of the catalog does once its URL is known.\<close>

definition update_entry ::
    "'r manifest_env \<Rightarrow> update_world \<Rightarrow> catalog_agent \<Rightarrow> string \<Rightarrow> update_state \<Rightarrow> update_state" where
  "update_entry env w entry manifest_url st =
     (let (status, updated, fs) = st;
          agent = ca_agent entry;
          (result, fs') =
            (case uw_fetch w manifest_url of
               Inl e \<Rightarrow> (Inl (FetchFailed e), fs)
             | Inr content \<Rightarrow> process_agent_manifest env (uw_commit_io w agent) agent content fs);
          cached = map_option version_text (cached_remote_version env fs' agent)
      in case result of
           Inr (Some commit) \<Rightarrow>
             (set_agent_status agent
                \<lparr>ars_cached_version = Some (version_text (muc_version commit)),
                 ars_attempted_version = Some (version_text (muc_version commit)),
                 ars_last_checked_unix = Some (uw_now w), ars_last_result = ''updated'',
                 ars_last_error = None\<rparr> status, updated @ [commit], fs')
         | Inr None \<Rightarrow>
             (set_agent_status agent
                \<lparr>ars_cached_version = cached, ars_attempted_version = None,
                 ars_last_checked_unix = Some (uw_now w), ars_last_result = ''current'',
                 ars_last_error = None\<rparr> status, updated, fs')
         | Inl err \<Rightarrow>
             (set_agent_status agent
                \<lparr>ars_cached_version = cached, ars_attempted_version = None,
                 ars_last_checked_unix = Some (uw_now w), ars_last_result = ''failed'',
                 ars_last_error = Some (ErrorValue err)\<rparr> status, updated, fs'))"

text \<open>The loop over the catalog; an URL that cannot be joined ends the round with what was committed so far.\<close>

fun update_entries ::
    "'r manifest_env \<Rightarrow> update_world \<Rightarrow> string \<Rightarrow> catalog_agent list \<Rightarrow> update_state \<Rightarrow>
     (update_error + update_state) \<times> file_system" where
  "update_entries env w base [] st = (Inr st, snd (snd st))"
| "update_entries env w base (entry # entries) st =
     (case join_url base (ca_path entry) of
        Inl err \<Rightarrow> (Inl err, snd (snd st))
      | Inr manifest_url \<Rightarrow> update_entries env w base entries (update_entry env w entry manifest_url st))"

definition check_and_update_from_url ::
    "'r manifest_env \<Rightarrow> update_world \<Rightarrow> string \<Rightarrow> file_system \<Rightarrow>
     (update_error + manifest_update_output) \<times> file_system" where
  "check_and_update_from_url env w url fs =
     (case result_bind (map_err FetchFailed (uw_fetch w url)) (\<lambda>content.
             result_bind (parse_catalog env content) (\<lambda>catalog.
             result_bind (base_url url) (\<lambda>base. Inr (catalog, base)))) of
        Inl err \<Rightarrow> (Inl err, fs)
      | Inr (catalog, base) \<Rightarrow>
          let status = (load_status env fs)
                \<lparr>mus_last_check_unix := Some (uw_now w), mus_last_result := Some Checked\<rparr>
          in case update_entries env w base catalog (status, [], fs) of
               (Inl err, fs') \<Rightarrow> (Inl err, fs')
             | (Inr (status', updated, _), fs') \<Rightarrow>
                 (case save_status env (uw_status_io w) status' fs' of
                    (Inr _, fs'') \<Rightarrow> (Inr \<lparr>muo_updated = updated, muo_status = status'\<rparr>, fs'')
                  | (Inl err, fs'') \<Rightarrow>
                      (Inr \<lparr>muo_updated = updated,
                            muo_status = status'\<lparr>mus_last_result := Some (SaveFailed err)\<rparr>\<rparr>, fs'')))"

text \<open>\<open>auto_update\<close>: the event it sends, and whether the cache is reloaded.\<close>

definition auto_update ::
    "'r manifest_env \<Rightarrow> update_world \<Rightarrow> string \<Rightarrow> file_system \<Rightarrow>
     manifest_update_output \<times> bool \<times> file_system" where
  "auto_update env w url fs =
     (case check_and_update_from_url env w url fs of
        (Inr output, fs') \<Rightarrow> (output, muo_updated output \<noteq> [], fs')
      | (Inl err, fs') \<Rightarrow>
          let status = (load_status env fs')
                \<lparr>mus_last_check_unix := Some (uw_now w), mus_last_result := Some (CheckFailed err)\<rparr>
          in (\<lparr>muo_updated = [], muo_status = status\<rparr>, False,
              snd (save_status env (uw_status_io w) status fs')))"

end
