(* ===== verification/ManifestProps.thy ===== *)
theory ManifestProps
  imports ManifestRegionSpec ManifestUpdate
begin

text \<open>
  The properties of screen detection (\<open>src/detect/manifest.rs\<close>): which manifests are accepted, what a region
  is, which rule decides a screen, how versions are ordered and which manifest of an agent is loaded.
\<close>

section \<open>Regions\<close>

lemma region_bottom_line:
  "trim ''bottom_lines(1)'' = ''bottom_lines(1)''" "region_count ''bottom_lines(1)'' ''bottom_lines'' = Some 1"
  "region input ''bottom_lines(1)'' = bottom_lines (di_screen input) 1"
proof -
  show t: "trim ''bottom_lines(1)'' = ''bottom_lines(1)''" by code_simp
  have "strip_prefix ''bottom_lines(1)'' ''bottom_lines'' = Some ''(1)''" by code_simp
  moreover have "strip_prefix ''(1)'' ''('' = Some ''1)''" "strip_suffix ''1)'' '')'' = Some ''1''" by code_simp+
  moreover have "parse_uint USIZE_MAX ''1'' = Some 1"
    by (simp add: parse_uint_def digit_value_def USIZE_MAX_def option_filter_def Let_def)
  ultimately show c: "region_count ''bottom_lines(1)'' ''bottom_lines'' = Some 1" by (simp add: region_count_def)
  show "region input ''bottom_lines(1)'' = bottom_lines (di_screen input) 1"
    by (simp add: region_def t c)
qed

text \<open>C25: On a screen without the line end CR LF every region is what its name says, as whole lines of the
  screen found without any offsets, and no slice panics.  With CR LF the offsets are too small by one for
  each line above: the last line of the screen below is cut out of the middle of a character.\<close>

theorem regions_by_lines:
  "(plain_screen input \<longrightarrow> region input spec = Return (region_text input spec)) \<and>
   (\<exists>screen. utf8_valid screen \<and> region (screen_only screen) ''bottom_lines(1)'' = Panic)"
proof
  let ?screen = "''a'' @ [CHR 0x0D, CHR 0x0A] @ ''b'' @ [CHR 0x0D, CHR 0x0A] @ ''c'' @ [CHR 0xC3, CHR 0xA9] @
    [CHR 0x0D, CHR 0x0A] @ ''x''"
  have "utf8_valid ?screen" by code_simp
  moreover have "bottom_lines ?screen 1 = Panic" by code_simp
  then have "region (screen_only ?screen) ''bottom_lines(1)'' = Panic"
    by (simp add: region_bottom_line screen_only_def)
  ultimately show "\<exists>screen. utf8_valid screen \<and> region (screen_only screen) ''bottom_lines(1)'' = Panic"
    by blast
qed (simp add: region_eq)

theorem regions_by_lines_witness:
  "region (screen_only ''ab'') ''bottom_lines(1)'' = Return (region_text (screen_only ''ab'') ''bottom_lines(1)'')"
proof -
  have "plain_screen (screen_only ''ab'')" by code_simp
  then show ?thesis using regions_by_lines by blast
qed

section \<open>Validation\<close>

text \<open>C26: Validation accepts exactly the manifests that keep the limits on rules, gates, nesting, matchers and
  their length, whose rules are named, look at a region that exists and skip updates only for an unknown
  state without visible evidence, whose patterns all compile, and whose gates all can match: the counters it
  threads through the tree count every gate and every matcher once.\<close>

theorem manifest_accepted_iff:
  "validate_manifest lib m = Inr () \<longleftrightarrow>
    am_rules m \<noteq> [] \<and> length (am_rules m) \<le> 128 \<and> list_all (sound_rule lib) (am_rules m) \<and>
    (\<Sum>r \<leftarrow> am_rules m. gate_count (manifest_gate_from_rule r)) \<le> 512 \<and>
    (\<Sum>r \<leftarrow> am_rules m. matcher_count (manifest_gate_from_rule r)) \<le> 1024"
  unfolding validate_manifest_Inr sound_manifest_def MAX_RULES_PER_MANIFEST_def MAX_TOTAL_GATES_def
    MAX_TOTAL_MATCHERS_def ..

section \<open>The rule that decides\<close>

definition rule_hits :: "'r text_lib \<Rightarrow> detection_input \<Rightarrow> manifest_rule \<Rightarrow> bool" where
  "rule_hits lib input rule =
     gate_holds lib (region_text input (mr_region rule)) (manifest_gate_from_rule rule)"

text \<open>The first of the elements with the highest priority.\<close>

fun first_highest :: "manifest_rule list \<Rightarrow> manifest_rule option" where
  "first_highest [] = None"
| "first_highest (r # rs) =
     (case first_highest rs of
        Some s \<Rightarrow> if mr_priority r < mr_priority s then Some s else Some r
      | None \<Rightarrow> Some r)"

lemma first_highest_None: "first_highest rs = None \<longleftrightarrow> rs = []"
  by (cases rs) (auto split: option.splits)

lemma first_highest_Some:
  "first_highest rs = Some w \<Longrightarrow> \<exists>before behind. rs = before @ w # behind \<and>
    (\<forall>r \<in> set before. mr_priority r < mr_priority w) \<and> (\<forall>r \<in> set behind. mr_priority r \<le> mr_priority w)"
proof (induction rs arbitrary: w)
  case (Cons r rs)
  consider (here) "w = r" "\<forall>s \<in> set rs. mr_priority s \<le> mr_priority r"
    | (later) "first_highest rs = Some w" "mr_priority r < mr_priority w"
  proof (cases "first_highest rs")
    case None
    with Cons.prems here show thesis by (simp add: first_highest_None)
  next
    case (Some s)
    from Cons.IH [OF this] have le: "\<forall>q \<in> set rs. mr_priority q \<le> mr_priority s"
      by (auto simp: order.strict_implies_order)
    show thesis
    proof (cases "mr_priority r < mr_priority s")
      case True
      with Some Cons.prems later show thesis by simp
    next
      case False
      with Some Cons.prems have "w = r" by simp
      moreover have "\<forall>s \<in> set rs. mr_priority s \<le> mr_priority r" using le False by force
      ultimately show thesis by (rule here)
    qed
  qed
  then show ?case
  proof cases
    case here
    then show ?thesis by (intro exI [of _ "[]"] exI [of _ rs]) simp
  next
    case later
    with Cons.IH obtain b a where "rs = b @ w # a" "\<forall>r \<in> set b. mr_priority r < mr_priority w"
      "\<forall>r \<in> set a. mr_priority r \<le> mr_priority w" by blast
    with later(2) have "r # rs = (r # b) @ w # a \<and> (\<forall>r \<in> set (r # b). mr_priority r < mr_priority w)" by simp
    with \<open>\<forall>r \<in> set a. mr_priority r \<le> mr_priority w\<close> show ?thesis by blast
  qed
qed simp

text \<open>The loop keeps the first rule of the highest priority among the rules that match.\<close>

definition better :: "manifest_rule option \<Rightarrow> manifest_rule option \<Rightarrow> manifest_rule option" where
  "better m n = (case (m, n) of (Some r, Some s) \<Rightarrow> if mr_priority r < mr_priority s then n else m
     | (Some _, None) \<Rightarrow> m | (None, _) \<Rightarrow> n)"

lemma first_highest_Cons: "first_highest (r # rs) = better (Some r) (first_highest rs)"
  by (auto simp: better_def split: option.splits)

lemma better_assoc: "better (better a b) c = better a (better b c)"
  by (cases a; cases b; cases c) (auto simp: better_def)

lemma better_simps [simp]: "better None m = m" "better m None = m"
  by (auto simp: better_def split: option.splits)

lemma evaluate_rules_eq:
  assumes "plain_screen input"
    and "list_all2 (\<lambda>rule c. compile_gate lib (manifest_gate_from_rule rule) = Inr c) rules cs"
  shows "\<exists>ev. evaluate_rules lib input (zip rules cs) (m, evs) =
    Return (better m (first_highest (filter (rule_hits lib input) rules)), ev)"
  using assms(2)
proof (induction arbitrary: m evs rule: list_all2_induct)
  case (Cons rule rules c cs)
  have matches: "compiled_rule_matches lib c (region_text input (mr_region rule)) = rule_hits lib input rule"
    using Cons.hyps(1) by (simp add: compiled_rule_matches_def compiled_gate_matches_iff rule_hits_def)
  have "\<exists>ev. evaluate_rule lib input rule c (m, evs) =
      Return (if rule_hits lib input rule then better m (Some rule) else m, ev)"
    by (cases "rule_hits lib input rule"; cases m)
       (auto simp: evaluate_rule_def region_eq [OF assms(1)] matches Let_def better_def)
  then obtain ev where one: "evaluate_rule lib input rule c (m, evs) =
      Return (if rule_hits lib input rule then better m (Some rule) else m, ev)" by blast
  from Cons.IH [of "if rule_hits lib input rule then better m (Some rule) else m" ev] show ?case
    by (auto simp: one first_highest_Cons better_assoc simp del: first_highest.simps)
qed simp

text \<open>C24: For a manifest that is loaded with its own compiled rules, and a screen that is valid text without CR LF
  line ends, exactly the rules whose gates hold on their regions compete, and the first one of the highest
  priority decides: it is reported with its state, its evidence counts only with the state it is evidence for,
  and it alone can skip the update.  If no rule holds, a known agent is idle without evidence.  Nothing on the
  way panics then; on a screen with CR LF line ends the slice of a region can.\<close>

theorem detection_winner:
  assumes "plain_screen input"
    and "compile_manifest lib (lm_manifest loaded) = Inr (lm_compiled_rules loaded)"
  shows "\<exists>x. evaluate_loaded_manifest lib statuses agent input loaded upd = Return x \<and>
    (case first_highest (filter (rule_hits lib input) (am_rules (lm_manifest loaded))) of
       None \<Rightarrow> dx_matched_rule x = None \<and>
         into_detection x = \<lparr>det_state = Idle, det_skip_state_update = False, det_visible_idle = False,
           det_visible_blocker = False, det_visible_working = False\<rparr>
     | Some w \<Rightarrow>
         rule_hits lib input w \<and> w \<in> set (am_rules (lm_manifest loaded)) \<and>
         (\<exists>before behind. filter (rule_hits lib input) (am_rules (lm_manifest loaded)) = before @ w # behind \<and>
           list_all (\<lambda>r. mr_priority r < mr_priority w) before \<and>
           list_all (\<lambda>r. mr_priority r \<le> mr_priority w) behind) \<and>
         map_option mat_id (dx_matched_rule x) = Some (mr_id w) \<and>
         into_detection x = \<lparr>det_state = rule_state w, det_skip_state_update = mr_skip_state_update w,
           det_visible_idle = (mr_visible_idle w \<and> rule_state w = Idle),
           det_visible_blocker = (mr_visible_blocker w \<and> rule_state w = Blocked),
           det_visible_working = (mr_visible_working w \<and> rule_state w = Working)\<rparr>)"
proof -
  let ?hits = "filter (rule_hits lib input) (am_rules (lm_manifest loaded))"
  from assms(2) have "list_all2 (\<lambda>rule c. compile_gate lib (manifest_gate_from_rule rule) = Inr c)
      (am_rules (lm_manifest loaded)) (lm_compiled_rules loaded)"
    by (simp add: compile_manifest_def collect_results_Inr)
  from evaluate_rules_eq [OF assms(1) this, of None "[]"] obtain ev where
    loop: "evaluate_rules lib input (zip (am_rules (lm_manifest loaded)) (lm_compiled_rules loaded)) (None, []) =
      Return (first_highest ?hits, ev)" by auto
  show ?thesis
  proof (cases "first_highest ?hits")
    case None
    then show ?thesis
      by (simp add: evaluate_loaded_manifest_def loop fallback_explain_def into_detection_def Let_def)
  next
    case (Some w)
    from first_highest_Some [OF Some] obtain b a where split: "?hits = b @ w # a"
      "\<forall>r \<in> set b. mr_priority r < mr_priority w" "\<forall>r \<in> set a. mr_priority r \<le> mr_priority w" by blast
    then have "w \<in> set ?hits" by simp
    then have w: "rule_hits lib input w" "w \<in> set (am_rules (lm_manifest loaded))" by simp_all
    from split have "\<exists>before behind. ?hits = before @ w # behind \<and>
        list_all (\<lambda>r. mr_priority r < mr_priority w) before \<and>
        list_all (\<lambda>r. mr_priority r \<le> mr_priority w) behind" by (auto simp: list_all_iff)
    with w show ?thesis
      by (simp add: evaluate_loaded_manifest_def loop Some into_detection_def Let_def)
  qed
qed

text \<open>A manifest to evaluate: patterns are texts that match where they occur.\<close>

definition sample_lib :: "string text_lib" where
  "sample_lib = \<lparr>tl_regex_new = Inr, tl_is_match = (\<lambda>r s. str_contains s r), tl_to_lowercase = map ascii_lower\<rparr>"

definition sample_rule :: "string \<Rightarrow> manifest_state \<Rightarrow> int \<Rightarrow> string \<Rightarrow> manifest_rule" where
  "sample_rule name state priority needle =
     \<lparr>mr_id = name, mr_state = Some state, mr_priority = priority, mr_region = ''whole_recent'',
      mr_visible_idle = False, mr_visible_blocker = True, mr_visible_working = True,
      mr_skip_state_update = False, mr_all = [], mr_any = [], mr_not = [],
      mr_contains = [needle], mr_regex = [], mr_line_regex = []\<rparr>"

definition sample_manifest :: agent_manifest where
  "sample_manifest =
     \<lparr>am_id = ''claude'', am_version = Some (ManifestVersion ''1.2''), am_min_engine_version = Some 1,
      am_aliases = [],
      am_rules = [sample_rule ''busy'' ManifestWorking 5 ''Esc'', sample_rule ''asks'' ManifestBlocked 9 ''y/n'']\<rparr>"

definition sample_loaded :: "string loaded_screen_manifest" where
  "sample_loaded =
     \<lparr>lm_manifest = sample_manifest,
      lm_compiled_rules = [CompiledGate [] [] [] [''esc''] [] [], CompiledGate [] [] [] [''y/n''] [] []],
      lm_source = Bundled, lm_warning = None, lm_cached_remote_version = None,
      lm_local_override_shadowing_remote = False\<rparr>"

lemma sample_compiles:
  "compile_manifest sample_lib sample_manifest = Inr [CompiledGate [] [] [] [''esc''] [] [], CompiledGate [] [] [] [''y/n''] [] []]"
  by code_simp

theorem detection_winner_witness:
  "\<exists>x. evaluate_loaded_manifest sample_lib Map.empty Claude (screen_only ''Proceed? Y/N (ESC quits)'')
      sample_loaded False = Return x \<and>
    map_option mat_id (dx_matched_rule x) = Some ''asks'' \<and> det_state (into_detection x) = Blocked"
proof -
  let ?input = "screen_only ''Proceed? Y/N (ESC quits)''"
  have plain: "plain_screen ?input" by code_simp
  have compiled: "compile_manifest sample_lib (lm_manifest sample_loaded) = Inr (lm_compiled_rules sample_loaded)"
    using sample_compiles by (simp add: sample_loaded_def)
  have "first_highest (filter (rule_hits sample_lib ?input) (am_rules (lm_manifest sample_loaded))) =
      Some (sample_rule ''asks'' ManifestBlocked 9 ''y/n'')" by code_simp
  moreover have "rule_state (sample_rule ''asks'' ManifestBlocked 9 ''y/n'') = Blocked"
    "mr_id (sample_rule ''asks'' ManifestBlocked 9 ''y/n'') = ''asks''" by code_simp+
  ultimately show ?thesis
    using detection_winner [OF plain compiled, of Map.empty Claude False] by auto
qed

section \<open>Versions\<close>

text \<open>C36: Versions are compared as the lists of their numbers without the zeros at the end, so the comparison
  is a linear order on them in which a missing segment counts as zero, and a text that is read as a version
  is read back unchanged from its display.\<close>

theorem version_order:
  "version_cmp a b =
    (let left = version_key a; right = version_key b
     in if left < right then LessThan else if left = right then Equal else GreaterThan) \<and>
   (case parse_version s of Inl _ \<Rightarrow> True
    | Inr v \<Rightarrow> version_text v = trim s \<and> parse_version (version_text v) = Inr v)"
  by (auto simp: version_cmp_key Let_def parse_version_Inr trim_idempotent split: sum.splits)

end
