(* ===== verification/ManifestLoadProps.thy ===== *)
theory ManifestLoadProps
  imports ManifestProps
begin

text \<open>
  Which manifest of an agent is loaded, and what updates do to the cached manifests
  (\<open>src/detect/manifest.rs\<close>, \<open>src/detect/manifest_update.rs\<close>): a local override before a remote manifest
  before the bundled one, and cached versions that never decrease.
\<close>

section \<open>Loading\<close>

text \<open>The manifests that may be used besides the bundled one.\<close>

definition usable_override :: "'r manifest_env \<Rightarrow> file_system \<Rightarrow> agent \<Rightarrow> (path \<times> agent_manifest) option" where
  "usable_override env fs agent =
     Option.bind (override_path env agent) (\<lambda>path.
     map_option (Pair path)
       (option_filter (\<lambda>m. manifest_matches_agent m agent) (ok (read_override_manifest env fs path))))"

definition usable_remote ::
    "'r manifest_env \<Rightarrow> file_system \<Rightarrow> agent \<Rightarrow> agent_manifest \<Rightarrow> (agent_manifest \<times> manifest_version) option" where
  "usable_remote env fs agent bundled =
     option_filter (\<lambda>(_, version). is_none_or (am_version bundled) (\<lambda>b. \<not> version_less version b))
       (Option.bind (ok (read_to_string fs (remote_manifest_path env agent)))
          (\<lambda>content. ok (parse_remote_manifest_for_agent env agent content)))"

lemma parse_manifest_sound: "parse_manifest env content = Inr m \<Longrightarrow> sound_manifest (me_lib env) m"
  by (auto simp: parse_manifest_def validate_manifest_Inr)

lemma parse_remote_Inr:
  "parse_remote_manifest_for_agent env agent content = Inr (m, v) \<Longrightarrow>
    sound_manifest (me_lib env) m \<and> am_version m = Some v \<and> manifest_matches_agent m agent"
  by (auto simp: parse_remote_manifest_for_agent_def intro: parse_manifest_sound split: if_splits)

text \<open>What every loaded manifest is, apart from its warning and the fields on remote versions.\<close>

definition loaded_as :: "'r manifest_env \<Rightarrow> agent_manifest \<Rightarrow> manifest_source \<Rightarrow> 'r loaded_screen_manifest \<Rightarrow> bool" where
  "loaded_as env m source loaded \<longleftrightarrow>
     lm_manifest loaded = m \<and> lm_source loaded = source \<and>
     compile_manifest (me_lib env) m = Inr (lm_compiled_rules loaded)"

lemma loaded_as_updates [simp]:
  "loaded_as env m source (l\<lparr>lm_warning := w\<rparr>) = loaded_as env m source l"
  "loaded_as env m source (l\<lparr>lm_cached_remote_version := c\<rparr>) = loaded_as env m source l"
  "loaded_as env m source (l\<lparr>lm_local_override_shadowing_remote := s\<rparr>) = loaded_as env m source l"
  by (simp_all add: loaded_as_def)

lemma sound_loads:
  assumes "sound_manifest (me_lib env) m"
  obtains l where "loaded_manifest env m source warning cached shadowing = Inr l" and "loaded_as env m source l"
proof -
  from sound_manifest_compiles [OF assms] obtain cs where cs: "compile_manifest (me_lib env) m = Inr cs" by blast
  let ?l = "\<lparr>lm_manifest = m, lm_compiled_rules = cs, lm_source = source, lm_warning = warning,
    lm_cached_remote_version = cached, lm_local_override_shadowing_remote = shadowing\<rparr>"
  have "loaded_manifest env m source warning cached shadowing = Inr ?l" by (simp add: loaded_manifest_def cs)
  moreover have "loaded_as env m source ?l" by (simp add: loaded_as_def cs)
  ultimately show thesis by (rule that)
qed

lemma bundled_loads:
  assumes "sound_manifest (me_lib env) bundled"
  obtains l where "bundled_loaded_manifest env bundled warning cached shadowing = Return l"
    and "loaded_as env bundled Bundled l"
proof -
  from sound_loads [OF assms] obtain l where "loaded_manifest env bundled Bundled warning cached shadowing = Inr l"
    "loaded_as env bundled Bundled l" by blast
  then show thesis by (intro that) (simp_all add: bundled_loaded_manifest_def)
qed

definition remote_source :: "'r manifest_env \<Rightarrow> agent \<Rightarrow> manifest_version \<Rightarrow> manifest_source" where
  "remote_source env agent version = Remote (remote_manifest_path env agent) (version_text version)"

text \<open>The remote manifest is loaded if it is usable; else what is returned, if anything, is the bundled one.\<close>

lemma read_remote_cases:
  assumes "sound_manifest (me_lib env) bundled"
  shows "\<exists>remote. read_remote_manifest env fs agent bundled = Return remote \<and>
    (case usable_remote env fs agent bundled of
       Some (m, v) \<Rightarrow> (\<exists>l. remote = Some l \<and> loaded_as env m (remote_source env agent v) l)
     | None \<Rightarrow> (\<forall>l. remote = Some l \<longrightarrow> loaded_as env bundled Bundled l))"
proof (cases "file_exists fs (remote_manifest_path env agent)")
  case False
  then have "usable_remote env fs agent bundled = None"
    by (auto simp: usable_remote_def file_exists_def read_to_string_def option_filter_def)
  with False show ?thesis by (simp add: read_remote_manifest_def)
next
  case True
  have fallback: "\<exists>r. outcome_bind (bundled_loaded_manifest env bundled w c s) (\<lambda>l. Return (Some l)) = Return r \<and>
      (\<forall>l. r = Some l \<longrightarrow> loaded_as env bundled Bundled l)" for w c s
    by (rule bundled_loads [OF assms, of w c s]) auto
  let ?read = "result_bind (map_err ReadFailed (read_to_string fs (remote_manifest_path env agent)))
    (\<lambda>content. parse_remote_manifest_for_agent env agent content)"
  show ?thesis
  proof (cases ?read)
    case (Inl err)
    then have "usable_remote env fs agent bundled = None"
      by (cases "read_to_string fs (remote_manifest_path env agent)") (auto simp: usable_remote_def option_filter_def)
    moreover from Inl have "result_bind (map_err ReadFailed (read_to_string fs (remote_manifest_path env agent)))
        (\<lambda>content. result_map fst (parse_remote_manifest_for_agent env agent content)) = Inl err"
      by (cases "read_to_string fs (remote_manifest_path env agent)") auto
    ultimately show ?thesis using True by (simp add: read_remote_manifest_def Let_def fallback)
  next
    case (Inr mv)
    obtain m v where mv: "mv = (m, v)" by (cases mv)
    from Inr obtain content where content: "read_to_string fs (remote_manifest_path env agent) = Inr content"
      "parse_remote_manifest_for_agent env agent content = Inr (m, v)" by (auto simp: mv)
    note m = parse_remote_Inr [OF content(2)]
    from sound_loads [OF conjunct1 [OF m]] obtain l where
      l: "loaded_manifest env m (Remote (remote_manifest_path env agent) (version_text v)) None None False = Inr l"
        "loaded_as env m (Remote (remote_manifest_path env agent) (version_text v)) l" by blast
    show ?thesis
    proof (cases "is_none_or (am_version bundled) (\<lambda>b. \<not> version_less v b)")
      case True
      then have "usable_remote env fs agent bundled = Some (m, v)"
        using content by (simp add: usable_remote_def option_filter_def)
      moreover have "read_remote_manifest env fs agent bundled = Return (Some l)"
        using True content m l \<open>file_exists _ _\<close>
        by (simp add: read_remote_manifest_def Let_def is_none_or_iff split: option.split)
      ultimately show ?thesis using l(2) by (simp add: remote_source_def)
    next
      case False
      then obtain b where b: "am_version bundled = Some b" "version_less v b" by (auto simp: is_none_or_iff)
      with content have "usable_remote env fs agent bundled = None"
        by (simp add: usable_remote_def option_filter_def)
      moreover have "read_remote_manifest env fs agent bundled =
          outcome_bind (bundled_loaded_manifest env bundled
            (Some (RemoteOlder (remote_manifest_path env agent) v b)) (Some (version_text v)) False)
            (\<lambda>l. Return (Some l))"
        using content m b \<open>file_exists _ _\<close> by (simp add: read_remote_manifest_def Let_def)
      ultimately show ?thesis by (simp add: fallback)
    qed
  qed
qed

definition shipped_manifest ::
    "'r manifest_env \<Rightarrow> file_system \<Rightarrow> agent \<Rightarrow> agent_manifest \<Rightarrow> agent_manifest \<times> manifest_source" where
  "shipped_manifest env fs agent bundled =
     (case usable_remote env fs agent bundled of
        Some (m, v) \<Rightarrow> (m, remote_source env agent v) | None \<Rightarrow> (bundled, Bundled))"

lemma remote_or_bundled_loads:
  assumes "sound_manifest (me_lib env) bundled"
    and "read_remote_manifest env fs agent bundled = Return remote"
    and "\<And>l. loaded_as env m source (upd l) = loaded_as env m source l"
    and "shipped_manifest env fs agent bundled = (m, source)"
  shows "\<exists>l. remote_or_bundled env (map_option upd remote) bundled c s = Return l \<and> loaded_as env m source l"
proof (cases remote)
  case None
  with read_remote_cases [OF assms(1), of fs agent] assms(2,4) have "m = bundled \<and> source = Bundled"
    by (auto simp: shipped_manifest_def split: option.splits prod.splits)
  with None bundled_loads [OF assms(1), of None c s] show ?thesis by (auto simp: remote_or_bundled_def)
next
  case (Some l)
  with read_remote_cases [OF assms(1), of fs agent] assms(2,4) have "loaded_as env m source l"
    by (auto simp: shipped_manifest_def split: option.splits prod.splits)
  with Some assms(3) show ?thesis by (simp add: remote_or_bundled_def)
qed

lemma screen_agent_bundled:
  "agent \<in> set screen_manifest_agents \<Longrightarrow> agent_label agent \<in> set bundled_manifest_ids"
  by (auto simp: screen_manifest_agents_def bundled_manifest_ids_def)

lemma find_self: "x \<in> set xs \<Longrightarrow> find (\<lambda>y. y = x) xs = Some x"
  by (induction xs) auto

lemma override_loads:
  assumes "usable_override env fs agent = Some (path, m)"
  shows "override_path env agent = Some path" "read_override_manifest env fs path = Inr m"
    "manifest_matches_agent m agent" "file_exists fs path" "sound_manifest (me_lib env) m"
  using assms
  by (auto simp: usable_override_def read_override_manifest_def file_exists_def read_to_string_def override_path_def
      intro: parse_manifest_sound split: stored_file.splits)

text \<open>C27: If the bundled manifest of an agent is valid, loading never panics, whatever the files of the user hold:
  a local override that is read, valid and meant for the agent is used, else a cached remote manifest that is
  valid, meant for the agent and this engine, and not older than the bundled one, else the bundled one; and
  the rules that are run are the compiled rules of that manifest.\<close>

theorem loaded_manifest_precedence:
  assumes "agent \<in> set screen_manifest_agents"
    and "parse_manifest env (me_bundled_text env (agent_label agent)) = Inr bundled"
  shows "\<exists>loaded. load_manifest_uncached env fs agent = Return (Some loaded) \<and>
    compile_manifest (me_lib env) (lm_manifest loaded) = Inr (lm_compiled_rules loaded) \<and>
    (lm_manifest loaded, lm_source loaded) =
      (case usable_override env fs agent of
         Some (path, m) \<Rightarrow> (m, Override path)
       | None \<Rightarrow>
           (case usable_remote env fs agent bundled of
              Some (m, v) \<Rightarrow> (m, remote_source env agent v)
            | None \<Rightarrow> (bundled, Bundled)))"
proof -
  have bundled: "bundled_manifest env agent = Return (Some bundled)"
    using find_self [OF screen_agent_bundled [OF assms(1)]] assms(2) by (simp add: bundled_manifest_def)
  note sound = parse_manifest_sound [OF assms(2)]
  from read_remote_cases [OF sound, of fs agent] obtain remote where
    remote: "read_remote_manifest env fs agent bundled = Return remote" by blast
  obtain path where path: "override_path env agent = Some path" by (simp add: override_path_def)
  obtain m source where ship: "shipped_manifest env fs agent bundled = (m, source)" by fastforce
  define cached where "cached = Option.bind remote cached_version_of"
  define shadowing where "shadowing \<longleftrightarrow> file_exists fs path \<and> cached \<noteq> None"
  define upd where "upd l = l\<lparr>lm_cached_remote_version := cached, lm_local_override_shadowing_remote := shadowing\<rparr>"
    for l :: "'a loaded_screen_manifest"
  have "map_option (\<lambda>l. l\<lparr>lm_local_override_shadowing_remote := shadowing\<rparr>)
      (map_option (\<lambda>l. l\<lparr>lm_cached_remote_version := cached\<rparr>) remote) = map_option upd remote"
    by (cases remote) (simp_all add: upd_def)
  note unfolds = load_manifest_uncached_def bundled remote path try_some_outcome_def Let_def
    cached_def [symmetric] shadowing_def [symmetric] this
  obtain l where l: "remote_or_bundled env (map_option upd remote) bundled cached shadowing = Return l"
    "loaded_as env m source l"
    using remote_or_bundled_loads [OF sound remote _ ship, of upd cached shadowing] by (auto simp: upd_def)
  have load: "load_manifest_uncached env fs agent =
      (let warn = (\<lambda>w. Return (Some (l\<lparr>lm_warning := Some w\<rparr>)))
       in if \<not> file_exists fs path then Return (Some l)
          else case read_override_manifest env fs path of
            Inr manifest \<Rightarrow>
              if manifest_matches_agent manifest agent
              then (case loaded_manifest env manifest (Override path) None cached shadowing of
                      Inr loaded \<Rightarrow> Return (Some loaded) | Inl err \<Rightarrow> warn (OverrideNotCompiled path err))
              else warn (OverrideIdMismatch path (am_id manifest) agent)
          | Inl err \<Rightarrow> warn (OverrideNotLoaded path err))"
    by (simp only: unfolds outcome_bind_simps try_some_simps option.case l(1))
  let ?used = "case usable_override env fs agent of Some (path, m) \<Rightarrow> (m, Override path) | None \<Rightarrow> (m, source)"
  have "\<exists>k n src. load_manifest_uncached env fs agent = Return (Some k) \<and> loaded_as env n src k \<and> (n, src) = ?used"
  proof (cases "usable_override env fs agent")
    case None
    consider (gone) "\<not> file_exists fs path"
      | (bad) err where "file_exists fs path" "read_override_manifest env fs path = Inl err"
      | (other) n where "file_exists fs path" "read_override_manifest env fs path = Inr n"
          "\<not> manifest_matches_agent n agent"
      using None path by (cases "read_override_manifest env fs path")
        (auto simp: usable_override_def option_filter_def split: if_splits)
    then have "\<exists>w. load_manifest_uncached env fs agent = Return (Some (l\<lparr>lm_warning := w\<rparr>))"
    proof cases
      case gone
      then have "load_manifest_uncached env fs agent = Return (Some (l\<lparr>lm_warning := lm_warning l\<rparr>))"
        by (simp add: load)
      then show ?thesis by blast
    qed (auto simp: load)
    then show ?thesis using None l(2) by (metis loaded_as_updates(1) option.case(1))
  next
    case (Some pm)
    then obtain n where n: "usable_override env fs agent = Some (path, n)"
      using path override_loads(1) by (cases pm) fastforce
    note o = override_loads [OF n]
    from sound_loads [OF o(5), of "Override path" None cached shadowing] obtain k where
      k: "loaded_manifest env n (Override path) None cached shadowing = Inr k" "loaded_as env n (Override path) k" by blast
    have "load_manifest_uncached env fs agent = Return (Some k)"
      using o(2-4) k(1) by (simp add: load)
    with k(2) n show ?thesis by auto
  qed
  then show ?thesis
    unfolding ship [symmetric] unfolding shipped_manifest_def loaded_as_def by auto
qed

text \<open>An environment whose manifests are the sample with the version that is their text.\<close>

definition sample_env :: "string manifest_env" where
  "sample_env =
     \<lparr>me_lib = sample_lib,
      me_toml_manifest = (\<lambda>s. case parse_version s of Inl _ \<Rightarrow> Inl ''version''
         | Inr v \<Rightarrow> Inr (sample_manifest\<lparr>am_version := Some v\<rparr>)),
      me_toml_catalog = (\<lambda>_. Inr \<lparr>cat_schema_version = 1,
         cat_agents = [\<lparr>cat_id = ''claude'', cat_path = ''claude.toml''\<rparr>]\<rparr>),
      me_toml_status = (\<lambda>_. Inl ''status''), me_status_toml = (\<lambda>_. Inr ''status''),
      me_bundled_text = (\<lambda>_. ''1.2''), me_config_dir = [''config''], me_state_dir = [''state'']\<rparr>"

lemma sample_versions:
  "parse_version ''1.2'' = Inr (ManifestVersion ''1.2'')" "parse_version ''1.10'' = Inr (ManifestVersion ''1.10'')"
  "version_key (ManifestVersion ''1.2'') = [1, 2]" "version_key (ManifestVersion ''1.10'') = [1, 10]"
proof -
  have numbers: "parse_uint U64_MAX ''1'' = Some 1" "parse_uint U64_MAX ''2'' = Some 2" "parse_uint U64_MAX ''10'' = Some 10"
    by (simp_all add: parse_uint_def digit_value_def U64_MAX_def option_filter_def Let_def)
  have trims: "trim ''1.2'' = ''1.2''" "trim ''1.10'' = ''1.10''" by code_simp+
  have splits: "split_on CHR ''.'' ''1.2'' = [''1'', ''2'']" "split_on CHR ''.'' ''1.10'' = [''1'', ''10'']" by code_simp+
  have digits: "list_all is_ascii_digit ''1''" "list_all is_ascii_digit ''2''" "list_all is_ascii_digit ''10''" by code_simp+
  show "parse_version ''1.2'' = Inr (ManifestVersion ''1.2'')" "parse_version ''1.10'' = Inr (ManifestVersion ''1.10'')"
    using digits by (simp_all add: parse_version_Inr trims splits numbers)
  show "version_key (ManifestVersion ''1.2'') = [1, 2]" "version_key (ManifestVersion ''1.10'') = [1, 10]"
    by (simp_all add: version_key_def splits segment_number_def numbers Let_def)
qed

lemma sample_parses:
  assumes "parse_version s = Inr v"
  shows "parse_manifest sample_env s = Inr (sample_manifest\<lparr>am_version := Some v\<rparr>)"
    "parse_remote_manifest_for_agent sample_env Claude s = Inr (sample_manifest\<lparr>am_version := Some v\<rparr>, v)"
proof -
  have "validate_manifest sample_lib (sample_manifest\<lparr>am_version := x\<rparr>) = validate_manifest sample_lib sample_manifest" for x
    by (simp add: validate_manifest_def)
  moreover have "validate_manifest sample_lib sample_manifest = Inr ()" by code_simp
  ultimately show "parse_manifest sample_env s = Inr (sample_manifest\<lparr>am_version := Some v\<rparr>)"
    using assms by (simp add: parse_manifest_def sample_env_def)
  then show "parse_remote_manifest_for_agent sample_env Claude s = Inr (sample_manifest\<lparr>am_version := Some v\<rparr>, v)"
    by (simp add: parse_remote_manifest_for_agent_def manifest_matches_agent_def sample_manifest_def
        MANIFEST_ENGINE_VERSION_def Let_def)
qed

definition sample_files :: "string \<Rightarrow> file_system" where
  "sample_files remote = (\<lambda>_. Missing)(remote_manifest_path sample_env Claude := Content remote)"

theorem loaded_manifest_precedence_witness:
  "\<exists>loaded. load_manifest_uncached sample_env (sample_files ''1.10'') Claude = Return (Some loaded) \<and>
    lm_source loaded = Remote [''state'', ''agent-detection'', ''remote'', ''claude.toml''] ''1.10''"
proof -
  have "Claude \<in> set screen_manifest_agents" by (simp add: screen_manifest_agents_def)
  moreover have "parse_manifest sample_env (me_bundled_text sample_env (agent_label Claude)) =
      Inr (sample_manifest\<lparr>am_version := Some (ManifestVersion ''1.2'')\<rparr>)"
    using sample_parses(1) [OF sample_versions(1)] by (simp add: sample_env_def)
  moreover have "usable_override sample_env (sample_files ''1.10'') Claude = None"
    by (simp add: usable_override_def override_path_def read_override_manifest_def read_to_string_def sample_files_def
        remote_manifest_path_def state_root_def sample_env_def option_filter_def)
  moreover have "\<exists>m. usable_remote sample_env (sample_files ''1.10'') Claude
      (sample_manifest\<lparr>am_version := Some (ManifestVersion ''1.2'')\<rparr>) = Some (m, ManifestVersion ''1.10'')"
    using sample_parses(2) [OF sample_versions(2)]
    by (simp add: usable_remote_def sample_files_def read_to_string_def option_filter_def version_less_key
        sample_versions(3,4))
  ultimately show ?thesis
    using loaded_manifest_precedence [of Claude sample_env _ "sample_files ''1.10''"]
    by (fastforce simp: remote_source_def remote_manifest_path_def state_root_def sample_env_def toml_file_name_def)
qed

end
