(* ===== verification/ManifestUpdateProps.thy ===== *)
theory ManifestUpdateProps
  imports ManifestLoadProps
begin

text \<open>
  What a round of updates does to the cached manifests (\<open>src/detect/manifest_update.rs\<close>): the catalog names
  safe paths and every agent once, a round that fails changes no file, and a cached manifest is replaced
  only by one with a greater version.
\<close>

section \<open>The catalog\<close>

definition catalog_inv :: "string set \<times> catalog_agent list \<Rightarrow> bool" where
  "catalog_inv st \<longleftrightarrow>
     (let (seen, agents) = st
      in seen = agent_label ` ca_agent ` set agents \<and> distinct (map ca_agent agents) \<and>
         (\<forall>a \<in> set agents. trim (ca_path a) \<noteq> [] \<and> safe_path (ca_path a)))"

lemma catalog_step_inv: "catalog_inv st \<Longrightarrow> catalog_step entry st = Inr st' \<Longrightarrow> catalog_inv st'"
  by (cases st) (auto simp: catalog_inv_def catalog_step_def split: option.splits if_splits)

lemma parse_catalog_inv:
  assumes "parse_catalog env content = Inr agents"
  shows "distinct (map ca_agent agents)" "\<forall>a \<in> set agents. trim (ca_path a) \<noteq> [] \<and> safe_path (ca_path a)"
proof -
  from assms obtain entries seen where "try_all catalog_step entries ({}, []) = Inr (seen, agents)"
    by (auto simp: parse_catalog_def split: if_splits)
  from try_all_Inr_induct [where P = catalog_inv and Q = "\<lambda>_. True", OF this] have "catalog_inv (seen, agents)"
    using catalog_step_inv by (auto simp: catalog_inv_def [of "({}, [])"])
  then show "distinct (map ca_agent agents)" "\<forall>a \<in> set agents. trim (ca_path a) \<noteq> [] \<and> safe_path (ca_path a)"
    by (auto simp: catalog_inv_def)
qed

section \<open>Files\<close>

lemma remote_path_inj: "remote_manifest_path env a = remote_manifest_path env b \<longleftrightarrow> a = b"
  using agent_label_inj by (auto simp: remote_manifest_path_def toml_file_name_def)

lemma label_no_dot: "toml_file_name a \<noteq> CHR ''.'' # s"
  by (cases a) (simp_all add: toml_file_name_def)

lemma remote_not_temp: "proper_io io \<Longrightarrow> remote_manifest_path env b \<noteq> temp_path io (remote_manifest_path env a)"
  using label_no_dot by (auto simp: proper_io_def temp_path_def remote_manifest_path_def temp_name_def)

lemma remote_not_status:
  "remote_manifest_path env a \<noteq> status_path env" "remote_manifest_path env a \<noteq> temp_path io (status_path env)"
  by (auto simp: remote_manifest_path_def status_path_def temp_path_def)

definition same_remotes :: "'r manifest_env \<Rightarrow> file_system \<Rightarrow> file_system \<Rightarrow> agent set \<Rightarrow> bool" where
  "same_remotes env fs fs' A \<longleftrightarrow> (\<forall>a \<in> A. fs' (remote_manifest_path env a) = fs (remote_manifest_path env a))"

lemma cached_same:
  "fs' (remote_manifest_path env a) = fs (remote_manifest_path env a) \<Longrightarrow>
    cached_remote_version env fs' a = cached_remote_version env fs a"
  by (simp add: cached_remote_version_def read_to_string_def)

lemma commit_effect:
  assumes "commit_remote_manifest env io agent content fs = (r, fs')" and "proper_io io"
  shows "same_remotes env fs fs' (- {agent})"
    and "fs' (remote_manifest_path env agent) =
      (case r of Inl _ \<Rightarrow> fs (remote_manifest_path env agent) | Inr _ \<Rightarrow> Content content)"
proof -
  have "same_remotes env fs fs' (- {agent}) \<and> fs' (remote_manifest_path env agent) =
      (case r of Inl _ \<Rightarrow> fs (remote_manifest_path env agent) | Inr _ \<Rightarrow> Content content)"
  proof (cases "io_create_dir io")
    case None
    with assms(1) have w: "atomic_write io (remote_manifest_path env agent) content fs = (r, fs')"
      by (simp add: commit_remote_manifest_def)
    have "fs' (remote_manifest_path env b) = fs (remote_manifest_path env b)" if "b \<noteq> agent" for b
      using atomic_write_result(2) [OF w assms(2)] remote_not_temp [OF assms(2)] that remote_path_inj by metis
    with atomic_write_result(1) [OF w assms(2)] show ?thesis by (simp add: same_remotes_def)
  next
    case (Some e)
    with assms(1) show ?thesis by (auto simp: commit_remote_manifest_def same_remotes_def)
  qed
  then show "same_remotes env fs fs' (- {agent})" "fs' (remote_manifest_path env agent) =
      (case r of Inl _ \<Rightarrow> fs (remote_manifest_path env agent) | Inr _ \<Rightarrow> Content content)" by auto
qed

lemma save_status_effect:
  assumes "save_status env io st fs = (r, fs')" and "proper_io io"
  shows "same_remotes env fs fs' UNIV"
proof -
  from assms(1) consider "fs' = fs" | content where "atomic_write io (status_path env) content fs = (r, fs')"
    by (auto simp: save_status_def split: option.splits sum.splits)
  then show ?thesis
  proof cases
    case (2 content)
    show ?thesis
      using atomic_write_result(2) [OF 2 assms(2)] remote_not_status by (metis same_remotes_def)
  qed (simp add: same_remotes_def)
qed

section \<open>One manifest\<close>

text \<open>The manifest of an agent is replaced by one of a greater version, or of any version if none was valid.\<close>

definition newer :: "'r manifest_env \<Rightarrow> file_system \<Rightarrow> agent \<Rightarrow> manifest_version \<Rightarrow> bool" where
  "newer env fs agent v \<longleftrightarrow> is_none_or (cached_remote_version env fs agent) (\<lambda>u. version_less u v)"

lemma process_cases:
  assumes "process_agent_manifest env io agent content fs = (r, fs')" and "proper_io io"
  obtains (kept) "same_remotes env fs fs' UNIV" "\<And>c. r \<noteq> Inr (Some c)"
    | (replaced) v where "r = Inr (Some \<lparr>muc_agent = agent, muc_version = v\<rparr>)"
        "same_remotes env fs fs' (- {agent})" "cached_remote_version env fs' agent = Some v" "newer env fs agent v"
proof (cases "parse_remote_manifest_for_agent env agent content")
  case (Inl e)
  with assms(1) kept show thesis by (auto simp: process_agent_manifest_def same_remotes_def)
next
  case (Inr mv)
  obtain m v where mv: "mv = (m, v)" by (cases mv)
  obtain q fs1 where q: "commit_remote_manifest env io agent content fs = (q, fs1)" by fastforce
  note effect = commit_effect [OF q assms(2)]
  show thesis
  proof (cases "newer env fs agent v")
    case True
    then have "process_agent_manifest env io agent content fs =
        (case q of Inl err \<Rightarrow> Inl (CommitFailed err)
         | Inr _ \<Rightarrow> Inr (Some \<lparr>muc_agent = agent, muc_version = v\<rparr>), fs1)"
      by (auto simp: process_agent_manifest_def Inr mv q newer_def is_none_or_iff version_less_key version_cmp_key
          Let_def split: option.splits sum.splits)
    with assms(1) have r: "fs' = fs1" "r = (case q of Inl err \<Rightarrow> Inl (CommitFailed err)
         | Inr _ \<Rightarrow> Inr (Some \<lparr>muc_agent = agent, muc_version = v\<rparr>))" by simp_all
    show thesis
    proof (cases q)
      case (Inl e)
      with effect r show thesis by (intro kept) (auto simp: same_remotes_def)
    next
      case (Inr u)
      with effect(2) r have "cached_remote_version env fs' agent = Some v"
        using \<open>parse_remote_manifest_for_agent env agent content = Inr mv\<close> mv
        by (simp add: cached_remote_version_def read_to_string_def)
      with Inr effect(1) r True show thesis by (intro replaced) auto
    qed
  next
    case False
    then obtain u where u: "cached_remote_version env fs agent = Some u" "\<not> version_less u v"
      by (auto simp: newer_def is_none_or_iff)
    then have "version_cmp v u \<noteq> GreaterThan" by (simp add: version_less_key version_cmp_iff)
    then have "fs' = fs" "\<And>c. r \<noteq> Inr (Some c)"
      using assms(1) by (auto simp: process_agent_manifest_def Inr mv u Let_def split: ordering.splits if_splits)
    then show thesis by (intro kept) (simp_all add: same_remotes_def)
  qed
qed

section \<open>A round\<close>

definition proper_world :: "update_world \<Rightarrow> bool" where
  "proper_world w \<longleftrightarrow> proper_io (uw_status_io w) \<and> (\<forall>a. proper_io (uw_commit_io w a))"

text \<open>Each cached manifest is the old one or one of a greater version.\<close>

definition advances :: "'r manifest_env \<Rightarrow> file_system \<Rightarrow> file_system \<Rightarrow> bool" where
  "advances env fs fs' \<longleftrightarrow>
     (\<forall>a. fs' (remote_manifest_path env a) = fs (remote_manifest_path env a) \<or>
          is_some_and (cached_remote_version env fs' a) (newer env fs a))"

lemma same_advances: "same_remotes env fs fs' UNIV \<Longrightarrow> advances env fs fs'"
  by (simp add: same_remotes_def advances_def)

lemma newer_same: "cached_remote_version env fs' a = cached_remote_version env fs a \<Longrightarrow> newer env fs' a = newer env fs a"
  by (simp add: newer_def fun_eq_iff)

lemma newer_trans:
  "newer env fs a u \<Longrightarrow> cached_remote_version env fs' a = Some u \<Longrightarrow> newer env fs' a v \<Longrightarrow> newer env fs a v"
  by (auto simp: newer_def is_none_or_iff version_less_key)

lemma advances_trans:
  assumes "advances env fs fs'" and "advances env fs' fs''"
  shows "advances env fs fs''"
  unfolding advances_def
proof
  fix a
  from assms(1) consider (same) "fs' (remote_manifest_path env a) = fs (remote_manifest_path env a)"
    | (new) u where "cached_remote_version env fs' a = Some u" "newer env fs a u"
    by (auto simp: advances_def is_some_and_iff)
  moreover from assms(2) consider (same') "fs'' (remote_manifest_path env a) = fs' (remote_manifest_path env a)"
    | (new') v where "cached_remote_version env fs'' a = Some v" "newer env fs' a v"
    by (auto simp: advances_def is_some_and_iff)
  ultimately show "fs'' (remote_manifest_path env a) = fs (remote_manifest_path env a) \<or>
      is_some_and (cached_remote_version env fs'' a) (newer env fs a)"
    by cases (metis (full_types) cached_same is_some_and_simps(2) newer_same newer_trans)+
qed

text \<open>One entry commits at most its own agent.\<close>

lemma update_entry_commit:
  assumes "uw_fetch w url = Inr content"
    and "process_agent_manifest env (uw_commit_io w (ca_agent e)) (ca_agent e) content fs = (Inr (Some c), fs')"
  obtains status' where "update_entry env w e url (status, updated, fs) = (status', updated @ [c], fs')"
  using assms by (simp add: update_entry_def Let_def)

lemma update_entry_effect:
  assumes "proper_world w"
  obtains (kept) status' fs' where "update_entry env w e url (status, updated, fs) = (status', updated, fs')"
      "same_remotes env fs fs' UNIV"
    | (committed) status' fs' v where
      "update_entry env w e url (status, updated, fs) =
        (status', updated @ [\<lparr>muc_agent = ca_agent e, muc_version = v\<rparr>], fs')"
      "same_remotes env fs fs' (- {ca_agent e})" "cached_remote_version env fs' (ca_agent e) = Some v"
      "newer env fs (ca_agent e) v"
proof (cases "uw_fetch w url")
  case (Inl err)
  then show thesis by (intro kept [where fs' = fs]) (simp_all add: update_entry_def Let_def same_remotes_def)
next
  case (Inr content)
  obtain r fs' where p: "process_agent_manifest env (uw_commit_io w (ca_agent e)) (ca_agent e) content fs = (r, fs')"
    by fastforce
  from assms have io: "proper_io (uw_commit_io w (ca_agent e))" by (simp add: proper_world_def)
  from p io show thesis
  proof (cases rule: process_cases)
    case kept: kept
    show thesis
    proof (cases r)
      case (Inl err)
      with Inr p kept(1) show thesis by (intro that(1) [where fs' = fs']) (simp_all add: update_entry_def Let_def)
    next
      case res: (Inr c)
      with kept(2) have "c = None" by (cases c) auto
      with Inr p kept(1) res show thesis by (intro that(1) [where fs' = fs']) (simp_all add: update_entry_def Let_def)
    qed
  next
    case (replaced v)
    from Inr p [unfolded replaced(1)] obtain status' where
      "update_entry env w e url (status, updated, fs) =
        (status', updated @ [\<lparr>muc_agent = ca_agent e, muc_version = v\<rparr>], fs')"
      by (rule update_entry_commit)
    then show thesis using replaced(2-4) by (rule that(2))
  qed
qed

definition commits_cached :: "'r manifest_env \<Rightarrow> manifest_update_commit list \<Rightarrow> file_system \<Rightarrow> bool" where
  "commits_cached env commits fs \<longleftrightarrow>
     list_all (\<lambda>c. cached_remote_version env fs (muc_agent c) = Some (muc_version c)) commits"

lemma commits_cached_same:
  "commits_cached env cs fs \<Longrightarrow> same_remotes env fs fs' A \<Longrightarrow> muc_agent ` set cs \<subseteq> A \<Longrightarrow> commits_cached env cs fs'"
  unfolding commits_cached_def list_all_iff same_remotes_def by (metis cached_same image_subset_iff)

lemma join_safe: "safe_path p \<Longrightarrow> \<exists>url. join_url base p = Inr url"
  by (simp add: join_url_def)

text \<open>The loop over a catalog of safe paths and distinct agents never stops early.\<close>

lemma update_entries_effect:
  assumes "proper_world w" and "\<forall>e \<in> set entries. safe_path (ca_path e)" and "distinct (map ca_agent entries)"
    and "commits_cached env updated fs" and "muc_agent ` set updated \<inter> ca_agent ` set entries = {}"
  shows "\<exists>status' updated' fs'. update_entries env w base entries (status, updated, fs) = (Inr (status', updated', fs'), fs') \<and>
    advances env fs fs' \<and> commits_cached env updated' fs'"
  using assms(2-)
proof (induction entries arbitrary: status updated fs)
  case Nil
  then show ?case by (simp add: advances_def)
next
  case (Cons e entries)
  from join_safe obtain url where url: "join_url base (ca_path e) = Inr url" using Cons.prems(1) by fastforce
  from assms(1) show ?case
  proof (cases rule: update_entry_effect [where e = e and url = url and status = status and updated = updated
        and fs = fs and env = env])
    case (kept status' fs')
    have "commits_cached env updated fs'" using Cons.prems(3) kept(2) by (rule commits_cached_same) simp
    then obtain s u f where "update_entries env w base entries (status', updated, fs') = (Inr (s, u, f), f)"
      "advances env fs' f" "commits_cached env u f"
      using Cons.IH [of updated fs' status'] Cons.prems by auto
    moreover from this(2) same_advances [OF kept(2)] have "advances env fs f" by (blast intro: advances_trans)
    ultimately show ?thesis using url kept(1) by simp
  next
    case (committed status' fs' v)
    let ?updated = "updated @ [\<lparr>muc_agent = ca_agent e, muc_version = v\<rparr>]"
    have "commits_cached env updated fs'"
      using Cons.prems(3) committed(2) by (rule commits_cached_same) (use Cons.prems(4) in auto)
    with committed(3) have "commits_cached env ?updated fs'" by (simp add: commits_cached_def)
    moreover have "muc_agent ` set ?updated \<inter> ca_agent ` set entries = {}" using Cons.prems(2,4) by auto
    ultimately obtain s u f where "update_entries env w base entries (status', ?updated, fs') = (Inr (s, u, f), f)"
      "advances env fs' f" "commits_cached env u f"
      using Cons.IH [of ?updated fs' status'] Cons.prems by auto
    moreover have "advances env fs fs'"
      using committed(2-4) by (auto simp: advances_def same_remotes_def)
    with \<open>advances env fs' f\<close> have "advances env fs f" by (blast intro: advances_trans)
    ultimately show ?thesis using url committed(1) by simp
  qed
qed

text \<open>C37: A catalog that is accepted names every agent at most once, each with a path that stays below the
  directory of the catalog: not blank, not absolute, without a scheme and without a parent segment; so its
  URL can always be joined.\<close>

theorem catalog_paths_safe:
  assumes "parse_catalog env content = Inr agents"
  shows "distinct (map ca_agent agents) \<and>
    list_all (\<lambda>a. trim (ca_path a) \<noteq> [] \<and> \<not> str_contains (ca_path a) ''://'' \<and> \<not> starts_with (ca_path a) ''/'' \<and>
      ''..'' \<notin> set (split_on CHR ''/'' (ca_path a)) \<and>
      join_url base (ca_path a) = Inr (trim_end_matches CHR ''/'' base @ ''/'' @ ca_path a)) agents"
  using parse_catalog_inv [OF assms] by (auto simp: list_all_iff safe_path_def join_url_def list_ex_iff)

theorem catalog_paths_safe_witness:
  "join_url ''https://host/d/'' ''claude.toml'' = Inr ''https://host/d/claude.toml''"
proof -
  have "parse_catalog sample_env [] = Inr [\<lparr>ca_agent = Claude, ca_path = ''claude.toml''\<rparr>]" by code_simp
  from catalog_paths_safe [OF this, of "''https://host/d/''"] show ?thesis
    by (simp add: trim_end_matches_def)
qed

text \<open>C28: However the fetches and the writes of a round end, every cached manifest is afterwards the one it was
  or one of a greater version (of any version, if none was valid), a round that fails changes no file, and
  what a round reports as updated is what is cached.\<close>

theorem update_round:
  assumes "proper_world w" and "check_and_update_from_url env w url fs = (r, fs')"
  shows "advances env fs fs' \<and>
    (case r of Inl _ \<Rightarrow> fs' = fs | Inr output \<Rightarrow> commits_cached env (muo_updated output) fs')"
proof (cases "result_bind (map_err FetchFailed (uw_fetch w url)) (\<lambda>content.
    result_bind (parse_catalog env content) (\<lambda>catalog. result_bind (base_url url) (\<lambda>base. Inr (catalog, base))))")
  case (Inl err)
  with assms(2) show ?thesis by (auto simp: check_and_update_from_url_def advances_def)
next
  case (Inr cb)
  then obtain catalog base content where cb: "cb = (catalog, base)" "parse_catalog env content = Inr catalog" by auto
  note inv = parse_catalog_inv [OF cb(2)]
  let ?status = "(load_status env fs)\<lparr>mus_last_check_unix := Some (uw_now w), mus_last_result := Some Checked\<rparr>"
  obtain s u f where loop: "update_entries env w base catalog (?status, [], fs) = (Inr (s, u, f), f)"
    "advances env fs f" "commits_cached env u f"
    using update_entries_effect [OF assms(1) _ inv(1), of env "[]" fs base ?status] inv(2)
    by (auto simp: commits_cached_def)
  obtain q f' where save: "save_status env (uw_status_io w) s f = (q, f')" by fastforce
  have same: "same_remotes env f f' UNIV"
    using save_status_effect [OF save] assms(1) by (simp add: proper_world_def)
  have "fs' = f' \<and> (\<exists>output. r = Inr output \<and> muo_updated output = u)"
    using assms(2) by (auto simp: check_and_update_from_url_def Inr cb loop save Let_def split: sum.splits)
  moreover have "commits_cached env u f'" using loop(3) same by (rule commits_cached_same) simp
  moreover have "advances env fs f'" using loop(2) same_advances [OF same] by (rule advances_trans)
  ultimately show ?thesis by auto
qed

definition sample_io :: io_answers where
  "sample_io = \<lparr>io_create_dir = None, io_create_file = None, io_write_sync = None, io_rename = None,
     io_partial = [], io_removed = True, io_temp_name = temp_name 1 2\<rparr>"

definition sample_world :: update_world where
  "sample_world = \<lparr>uw_fetch = (\<lambda>_. Inr ''1.10''), uw_commit_io = (\<lambda>_. sample_io), uw_status_io = sample_io, uw_now = 0\<rparr>"

theorem update_round_witness:
  "advances sample_env (sample_files ''1.2'')
    (snd (check_and_update_from_url sample_env sample_world ''https://host/index.toml'' (sample_files ''1.2'')))"
proof -
  have "proper_world sample_world" by (auto simp: proper_world_def proper_io_def sample_world_def sample_io_def)
  from update_round [OF this prod.collapse [symmetric]] show ?thesis by blast
qed

end
