(* ===== verification/PublicIds.thy ===== *)
theory PublicIds
  imports Results RustText RustChars
begin

text \<open>
  The public identifiers of workspaces, tabs and panes (\<open>src/workspace.rs\<close>, \<open>src/terminal/id.rs\<close>): the
  bijective base 32 numerals, the identifiers built from them, and the process-wide counters the identifiers
  are drawn from.  A \<open>usize\<close> has 64 bits; the counters are passed explicitly.
\<close>

section \<open>Numerals\<close>

definition PUBLIC_ID_ALPHABET :: string where
  "PUBLIC_ID_ALPHABET = ''123456789ABCDEFGHJKMNPQRSTVWXYZ0''"

lemma unat_minus_one_less: "v \<noteq> 0 \<Longrightarrow> Suc (unat (v - 1)) = unat v" for v :: "'a::len word"
  by (metis Suc_pred' unat_gt_0 unat_minus_one)

text \<open>The digits pushed by the loop, least significant first.\<close>

function encoded_digits :: "usize \<Rightarrow> string" where
  "encoded_digits value =
     (if value = 0 then []
      else PUBLIC_ID_ALPHABET ! unat ((value - 1) mod 32) # encoded_digits ((value - 1) div 32))"
  by pat_completeness auto

termination
  by (relation "measure unat")
     (auto simp: unat_div div_less_iff_less_mult dest: unat_minus_one_less)

declare encoded_digits.simps [simp del]

definition encode_public_number :: "usize \<Rightarrow> string" where
  "encode_public_number value = (if value = 0 then ''0'' else rev (encoded_digits value))"

definition push_digit :: "usize \<Rightarrow> char \<Rightarrow> usize option" where
  "push_digit decoded ch =
     Option.bind (position (\<lambda>candidate. candidate = ch) PUBLIC_ID_ALPHABET) (\<lambda>digit.
     Option.bind (checked_mul decoded 32) (\<lambda>shifted.
     checked_add shifted (of_nat (digit + 1))))"

fun decode_from :: "usize \<Rightarrow> string \<Rightarrow> usize option" where
  "decode_from decoded [] = Some decoded"
| "decode_from decoded (ch # cs) = Option.bind (push_digit decoded ch) (\<lambda>d. decode_from d cs)"

definition decode_public_number :: "string \<Rightarrow> usize option" where
  "decode_public_number s = decode_from 0 s"

lemma alphabet_distinct: "distinct PUBLIC_ID_ALPHABET" "length PUBLIC_ID_ALPHABET = 32"
  by code_simp+

lemma push_digit_Some:
  "push_digit d ch = Some v \<longleftrightarrow>
    (\<exists>k < 32. PUBLIC_ID_ALPHABET ! k = ch \<and> unat v = unat d * 32 + k + 1)"
proof -
  have sum: "Option.bind (checked_mul d 32) (\<lambda>shifted. checked_add shifted w) = Some v \<longleftrightarrow>
      unat v = unat d * 32 + unat w" for w
  proof -
    have "\<exists>s :: usize. unat s = unat d * 32" if "unat v = unat d * 32 + unat w"
    proof
      have "unat d * 32 < 2 ^ LENGTH(64)" using that unsigned_less [of v, where ?'a = nat] by simp
      then show "unat (of_nat (unat d * 32) :: usize) = unat d * 32" by (simp only: unat_of_nat) simp
    qed
    then show ?thesis
      by (auto simp: bind_eq_Some_conv checked_add_Some checked_mul_Some) (metis add_right_cancel)
  qed
  have add_one: "unat (of_nat (k + 1) :: usize) = k + 1" if "k < 32" for k
    using that by (simp only: unat_of_nat) simp
  show ?thesis
  proof (cases "position (\<lambda>candidate. candidate = ch) PUBLIC_ID_ALPHABET")
    case None
    then have "ch \<notin> set PUBLIC_ID_ALPHABET" by (simp add: position_None) blast
    then have "\<not> (\<exists>k < 32. PUBLIC_ID_ALPHABET ! k = ch)"
      using nth_mem [of _ PUBLIC_ID_ALPHABET] unfolding alphabet_distinct(2) by blast
    then show ?thesis using None by (auto simp: push_digit_def)
  next
    case (Some k)
    from position_holds [OF Some] have k: "k < 32" "PUBLIC_ID_ALPHABET ! k = ch"
      by (simp_all add: alphabet_distinct)
    then have "j = k" if "j < 32" "PUBLIC_ID_ALPHABET ! j = ch" for j
      using that alphabet_distinct by (auto simp: nth_eq_iff_index_eq)
    moreover have "push_digit d ch = Some v \<longleftrightarrow> unat v = unat d * 32 + k + 1"
      by (simp only: push_digit_def Some bind.bind_lunit sum add_one [OF k(1)] add.assoc)
    ultimately show ?thesis using k by blast
  qed
qed

lemma decode_from_append:
  "decode_from d (s @ t) = Option.bind (decode_from d s) (\<lambda>d'. decode_from d' t)"
  by (induction s arbitrary: d) (simp_all add: Option.bind_assoc)

lemma decode_from_pos: "decode_from d s = Some v \<Longrightarrow> v = 0 \<longleftrightarrow> d = 0 \<and> s = []"
proof (induction s arbitrary: d)
  case (Cons c cs)
  then obtain e where e: "push_digit d c = Some e" and v: "decode_from e cs = Some v"
    by (auto simp: bind_eq_Some_conv)
  from e have "e \<noteq> 0" by (auto simp: push_digit_Some)
  with Cons.IH [OF v] show ?case by simp
qed simp

text \<open>A numeral determines its digits: the last one is the remainder, the others are the quotient's.\<close>

lemma last_digit:
  assumes "v \<noteq> (0 :: usize)"
  shows "unat v = unat ((v - 1) div 32) * 32 + unat ((v - 1) mod 32) + 1"
  using unat_minus_one_less [OF assms] by (simp add: unat_div unat_mod)

lemma decode_encoded_digits: "decode_from 0 (rev (encoded_digits v)) = Some v"
proof (induction v rule: encoded_digits.induct)
  case (1 v)
  show ?case
  proof (cases "v = 0")
    case False
    let ?k = "unat ((v - 1) mod 32)"
    have "?k < 32" by (simp add: unat_mod)
    with last_digit [OF False] have "push_digit ((v - 1) div 32) (PUBLIC_ID_ALPHABET ! ?k) = Some v"
      by (auto simp: push_digit_Some)
    with 1 [OF False] False show ?thesis
      by (simp add: encoded_digits.simps [of v] decode_from_append)
  qed (simp add: encoded_digits.simps)
qed

lemma decode_encoded_unique: "decode_from 0 s = Some v \<Longrightarrow> s = rev (encoded_digits v)"
proof (induction s arbitrary: v rule: rev_induct)
  case (snoc c s)
  then obtain d where d: "decode_from 0 s = Some d" and "push_digit d c = Some v"
    by (auto simp: decode_from_append bind_eq_Some_conv)
  then obtain k where k: "k < 32" "PUBLIC_ID_ALPHABET ! k = c" "unat v = unat d * 32 + k + 1"
    by (auto simp: push_digit_Some)
  then have v: "v \<noteq> 0" by auto
  with unat_minus_one_less [OF v] k have less: "unat (v - 1) = unat d * 32 + k" by simp
  have "unat ((v - 1) mod 32) = k" "unat ((v - 1) div 32) = unat d"
    using k(1) by (simp_all add: unat_mod unat_div less)
  then have "(v - 1) div 32 = d" "unat ((v - 1) mod 32) = k" by (simp_all add: word_unat_eq_iff)
  with v k snoc.IH [OF d] show ?case by (simp add: encoded_digits.simps [of v])
qed (simp add: encoded_digits.simps)

lemma encoded_digits_Nil: "encoded_digits v = [] \<longleftrightarrow> v = 0"
  by (simp add: encoded_digits.simps [of v])

lemma decode_public_iff:
  "decode_public_number s = Some v \<longleftrightarrow> (if v = 0 then s = [] else encode_public_number v = s)"
  using decode_encoded_digits [of v] decode_encoded_unique [of s v]
  by (auto simp: decode_public_number_def encode_public_number_def encoded_digits_Nil)

lemma encode_public_inj:
  assumes "v \<noteq> 0" "w \<noteq> 0" "encode_public_number v = encode_public_number w"
  shows "v = w"
  using decode_public_iff [of "encode_public_number v" v] decode_public_iff [of "encode_public_number w" w] assms
  by simp

lemma set_encoded_digits: "set (encoded_digits v) \<subseteq> set PUBLIC_ID_ALPHABET"
proof (induction v rule: encoded_digits.induct)
  case (1 v)
  have "unat ((v - 1) mod 32) < 32" by (simp add: unat_mod)
  then have "PUBLIC_ID_ALPHABET ! unat ((v - 1) mod 32) \<in> set PUBLIC_ID_ALPHABET"
    by (simp add: alphabet_distinct)
  with 1 show ?case by (simp add: encoded_digits.simps [of v])
qed

lemma set_encode_public: "set (encode_public_number v) \<subseteq> set PUBLIC_ID_ALPHABET"
  using set_encoded_digits [of v] by (auto simp: encode_public_number_def PUBLIC_ID_ALPHABET_def)

section \<open>Identifiers\<close>

definition public_workspace_number :: "string \<Rightarrow> usize option" where
  "public_workspace_number s = Option.bind (strip_prefix s ''w'') decode_public_number"

definition public_pane_id_for_number :: "string \<Rightarrow> usize \<Rightarrow> string" where
  "public_pane_id_for_number workspace_id pane_number =
     workspace_id @ '':p'' @ encode_public_number pane_number"

definition public_tab_id_for_number :: "string \<Rightarrow> usize \<Rightarrow> string" where
  "public_tab_id_for_number workspace_id tab_number =
     workspace_id @ '':t'' @ encode_public_number tab_number"

section \<open>Counters\<close>

text \<open>\<open>NEXT_PANE_ID\<close>, \<open>NEXT_TERMINAL_ID\<close> and \<open>NEXT_WORKSPACE_ID\<close>; \<open>fetch_add\<close> wraps.\<close>

record counters =
  next_pane_id :: u32
  next_terminal_id :: u64
  next_workspace_id :: u64

definition alloc_pane_id :: "counters \<Rightarrow> u32 \<times> counters" where
  "alloc_pane_id c = (next_pane_id c, c\<lparr>next_pane_id := next_pane_id c + 1\<rparr>)"

definition hex_digit :: "nat \<Rightarrow> char" where
  "hex_digit d = (if d < 10 then char_of (48 + d) else char_of (87 + d))"

text \<open>\<open>{:x}\<close>\<close>

fun show_hex :: "nat \<Rightarrow> string" where
  "show_hex n = (if n < 16 then [hex_digit n] else show_hex (n div 16) @ [hex_digit (n mod 16)])"

declare show_hex.simps [simp del]

text \<open>The clock is an argument: the microseconds since the epoch, 0 when it stands before the epoch.\<close>

definition terminal_id_text :: "nat \<Rightarrow> u64 \<Rightarrow> string" where
  "terminal_id_text micros counter = ''term_'' @ show_hex micros @ show_hex (unat counter)"

definition alloc_terminal_id :: "nat \<Rightarrow> counters \<Rightarrow> string \<times> counters" where
  "alloc_terminal_id micros c =
     (terminal_id_text micros (next_terminal_id c), c\<lparr>next_terminal_id := next_terminal_id c + 1\<rparr>)"

definition generate_workspace_id :: "counters \<Rightarrow> string \<times> counters" where
  "generate_workspace_id c =
     (''w'' @ encode_public_number (next_workspace_id c),
      c\<lparr>next_workspace_id := next_workspace_id c + 1\<rparr>)"

text \<open>
  The compare-and-swap loop of \<open>reserve_workspace_ids\<close> raises the counter to \<open>next\<close> unless it is already there;
  nobody else writes it in between in this model.
\<close>

definition reserve_workspace_ids :: "string list \<Rightarrow> counters \<Rightarrow> counters" where
  "reserve_workspace_ids ws_ids c =
     (case Option.bind (max_by_key (\<lambda>n. n) (List.map_filter public_workspace_number ws_ids)) (\<lambda>m. checked_add m 1) of
        None \<Rightarrow> c
      | Some nxt \<Rightarrow> if next_workspace_id c < nxt then c\<lparr>next_workspace_id := nxt\<rparr> else c)"

lemma hex_digit_inj: "a < 16 \<Longrightarrow> b < 16 \<Longrightarrow> hex_digit a = hex_digit b \<Longrightarrow> a = b"
proof -
  have code: "of_char (hex_digit n) = (if n < 10 then 48 + n else 87 + n)" if "n < 16" for n :: nat
    using that of_char_of [of "48 + n"] of_char_of [of "87 + n"] by (simp only: hex_digit_def split: if_split) linarith
  show "a < 16 \<Longrightarrow> b < 16 \<Longrightarrow> hex_digit a = hex_digit b \<Longrightarrow> a = b"
  proof -
    assume "a < 16" "b < 16" "hex_digit a = hex_digit b"
    then have "(if a < 10 then 48 + a else 87 + a) = (if b < 10 then 48 + b else 87 + b)"
      using code [of a] code [of b] by metis
    with \<open>a < 16\<close> \<open>b < 16\<close> show "a = b" by (simp split: if_splits)
  qed
qed

lemma show_hex_nonempty [simp]: "show_hex n \<noteq> []"
  by (simp add: show_hex.simps [of n])

lemma show_hex_inj: "show_hex m = show_hex n \<Longrightarrow> m = n"
proof (induction m arbitrary: n rule: show_hex.induct)
  case (1 m)
  have single: "(\<exists>c. show_hex k = [c]) \<longleftrightarrow> k < 16" for k
    by (simp add: show_hex.simps [of k])
  show ?case
  proof (cases "m < 16")
    case True
    with "1.prems" single [of m] single [of n] have "n < 16" by simp
    with True "1.prems" show ?thesis
      by (simp add: show_hex.simps [of m] show_hex.simps [of n] hex_digit_inj)
  next
    case False
    with "1.prems" single [of m] single [of n] have n: "\<not> n < 16" by simp
    with "1.prems" False have eq: "show_hex (m div 16) = show_hex (n div 16)"
      and "hex_digit (m mod 16) = hex_digit (n mod 16)"
      by (simp_all add: show_hex.simps [of m] show_hex.simps [of n])
    then have "m mod 16 = n mod 16" by (auto intro: hex_digit_inj)
    with "1.IH" [OF False eq] show ?thesis by (metis mult_div_mod_eq)
  qed
qed

lemma length_show_hex: "16 ^ k \<le> n \<Longrightarrow> n < 16 ^ Suc k \<Longrightarrow> length (show_hex n) = Suc k"
proof (induction k arbitrary: n)
  case (Suc k)
  have "16 * 1 \<le> 16 * (16 :: nat) ^ k" by (rule mult_le_mono2) simp
  with Suc.prems(1) have "\<not> n < 16" unfolding power_Suc by linarith
  moreover have "16 ^ k \<le> n div 16" "n div 16 < 16 ^ Suc k"
    using Suc.prems by (simp_all add: less_eq_div_iff_mult_less_eq div_less_iff_less_mult mult.commute)
  ultimately show ?case using Suc.IH by (simp add: show_hex.simps [of n])
qed (simp add: show_hex.simps)

text \<open>Between 1978 and 2112 the clock has thirteen hexadecimal digits.\<close>

definition current_clock :: "nat \<Rightarrow> bool" where
  "current_clock micros \<longleftrightarrow> 16 ^ 12 \<le> micros \<and> micros < 16 ^ 13"

lemma terminal_id_inj:
  assumes "current_clock m" "current_clock m'" "terminal_id_text m k = terminal_id_text m' k'"
  shows "k = k'"
proof -
  have "length (show_hex m) = length (show_hex m')"
    using length_show_hex [of 12 m] length_show_hex [of 12 m'] assms(1,2) by (simp add: current_clock_def)
  with assms(3) have "show_hex (unat k) = show_hex (unat k')" by (simp add: terminal_id_text_def)
  then have "unat k = unat k'" by (rule show_hex_inj)
  then show ?thesis by (simp add: word_unat_eq_iff)
qed

end
