(* ===== verification/Tabs.thy ===== *)
theory Tabs
  imports PublicIds LayoutOps Terminal
begin

text \<open>
  A tab of a workspace (\<open>src/workspace/tab.rs\<close>, \<open>src/pane/state.rs\<close>, the launch environment of
  \<open>src/pane.rs\<close>): its layout, the state of its panes, and the operations that add a pane with a fresh process,
  detach one, or hand one over to another tab.  Starting a process is outside the model: a \<open>spawner\<close> answers
  every start with an error or a runtime.  The channel and the render handles of a tab are not modelled.
\<close>

section \<open>Data\<close>

record pane_state =
  ps_attached_terminal_id :: string
  ps_seen :: bool

definition new_pane_state :: "string \<Rightarrow> pane_state" where
  "new_pane_state terminal_id = \<lparr>ps_attached_terminal_id = terminal_id, ps_seen = True\<rparr>"

datatype pane_launch_identity =
    InheritIdentity
  | ManagedIdentity (pl_workspace_id: string) (pl_tab_id: string) (pl_pane_id: string)
  | OmitPane

record pane_launch_env =
  le_extra :: "(string \<times> string) list"
  le_identity :: pane_launch_identity

definition launch_env_from_extra :: "(string \<times> string) list \<Rightarrow> pane_launch_env" where
  "launch_env_from_extra extra = \<lparr>le_extra = extra, le_identity = InheritIdentity\<rparr>"

definition with_identity :: "pane_launch_env \<Rightarrow> string \<Rightarrow> string \<Rightarrow> string \<Rightarrow> pane_launch_env" where
  "with_identity e workspace_id tab_id pane_id = e\<lparr>le_identity := ManagedIdentity workspace_id tab_id pane_id\<rparr>"

definition without_pane_identity :: "pane_launch_env \<Rightarrow> pane_launch_env" where
  "without_pane_identity e = e\<lparr>le_identity := OmitPane\<rparr>"

record tab =
  tab_custom_name :: "string option"
  tab_number :: usize
  tab_root_pane :: pane_id
  tab_layout :: tile_layout
  tab_panes :: "(pane_id, pane_state) hash_map"
  tab_zoomed :: bool

record moved_pane =
  mp_pane_id :: pane_id
  mp_pane_state :: pane_state

record 'rt new_pane =
  np_pane_id :: pane_id
  np_terminal :: terminal_state
  np_runtime :: 'rt

text \<open>
  What a tab starts in a pane: the configured shell, a shell command or an argument vector
  (\<open>TerminalRuntime::spawn\<close>, \<open>spawn_shell_command\<close>, \<open>spawn_argv_command\<close>).
\<close>

datatype start_command = StartShell | StartShellCommand string | StartArgv "string list"

type_synonym ('e, 'rt) spawner = "pane_id \<Rightarrow> string \<Rightarrow> start_command \<Rightarrow> pane_launch_env \<Rightarrow> 'e + 'rt"

section \<open>Operations\<close>

definition launched_terminal :: "string \<Rightarrow> string \<Rightarrow> start_command \<Rightarrow> terminal_state" where
  "launched_terminal terminal_id cwd command =
     (case command of
        StartArgv argv \<Rightarrow> with_launch_argv (new_terminal_state terminal_id cwd) argv
      | _ \<Rightarrow> new_terminal_state terminal_id cwd)"

definition argv_start :: "string list option \<Rightarrow> start_command" where
  "argv_start argv = (case argv of Some a \<Rightarrow> StartArgv a | None \<Rightarrow> StartShell)"

definition new_tab ::
  "('e, 'rt) spawner \<Rightarrow> nat \<Rightarrow> usize \<Rightarrow> string \<Rightarrow> pane_launch_env \<Rightarrow> string list option \<Rightarrow> counters \<Rightarrow>
     ('e + (tab \<times> terminal_state \<times> 'rt)) \<times> counters" where
  "new_tab spawn micros number initial_cwd launch_env argv c =
     (let ((layout, root_id), n) = new_layout (next_pane_id c); c1 = c\<lparr>next_pane_id := n\<rparr>
      in case spawn root_id initial_cwd (argv_start argv) launch_env of
           Inl e \<Rightarrow> (Inl e, c1)
         | Inr runtime \<Rightarrow>
             let (terminal_id, c2) = alloc_terminal_id micros c1;
                 terminal = launched_terminal terminal_id initial_cwd (argv_start argv)
             in (Inr (\<lparr>tab_custom_name = None, tab_number = number, tab_root_pane = root_id,
                       tab_layout = layout, tab_panes = [(root_id, new_pane_state terminal_id)],
                       tab_zoomed = False\<rparr>, terminal, runtime), c2))"

definition is_auto_named :: "tab \<Rightarrow> bool" where
  "is_auto_named t = (tab_custom_name t = None)"

definition tab_set_custom_name :: "tab \<Rightarrow> string \<Rightarrow> tab" where
  "tab_set_custom_name t name = t\<lparr>tab_custom_name := Some name\<rparr>"

text \<open>
  \<open>split_focused\<close> and its variants.  The layout is split before the process is started; when the start fails,
  the new pane is closed again and the focus goes back.  The current directory of the server is an argument.
\<close>

definition split_layout :: "u32 \<Rightarrow> tile_layout \<Rightarrow> direction \<Rightarrow> f32 option \<Rightarrow> (tile_layout \<times> pane_id) \<times> u32" where
  "split_layout n l direction ratio =
     (case ratio of
        Some r \<Rightarrow> split_focused_with_ratio n l direction r
      | None \<Rightarrow> split_focused n l direction)"

definition split_focused_with_runtime ::
  "('e, 'rt) spawner \<Rightarrow> nat \<Rightarrow> string option \<Rightarrow> direction \<Rightarrow> f32 option \<Rightarrow> string option \<Rightarrow> pane_launch_env \<Rightarrow>
     start_command \<Rightarrow> tab \<Rightarrow> counters \<Rightarrow> (('e + 'rt new_pane) \<times> tab \<times> counters) outcome" where
  "split_focused_with_runtime spawn micros current_dir direction ratio cwd launch_env command t c =
     (let previous_focus = tl_focus (tab_layout t);
          ((layout, new_id), n) = split_layout (next_pane_id c) (tab_layout t) direction ratio;
          c1 = c\<lparr>next_pane_id := n\<rparr>;
          actual_cwd = unwrap_or cwd (unwrap_or current_dir ''/'')
      in case spawn new_id actual_cwd command launch_env of
           Inl e \<Rightarrow>
             outcome_bind (expect (close_focused layout)) (\<lambda>(layout', _).
             Return (Inl e, t\<lparr>tab_layout := focus_pane layout' previous_focus\<rparr>, c1))
         | Inr runtime \<Rightarrow>
             let (terminal_id, c2) = alloc_terminal_id micros c1;
                 terminal = launched_terminal terminal_id actual_cwd command
             in Return (Inr \<lparr>np_pane_id = new_id, np_terminal = terminal, np_runtime = runtime\<rparr>,
                  t\<lparr>tab_layout := layout,
                    tab_panes := AList.update new_id (new_pane_state terminal_id) (tab_panes t),
                    tab_zoomed := False\<rparr>, c2))"

definition promoted_root_if_needed :: "tab \<Rightarrow> pane_id \<Rightarrow> pane_id option" where
  "promoted_root_if_needed t closing =
     (if tab_root_pane t \<noteq> closing then None
      else find (\<lambda>i. i \<noteq> closing) (pane_ids (tab_layout t)))"

definition promote_root :: "pane_id option \<Rightarrow> tab \<Rightarrow> tab" where
  "promote_root next_root t = (case next_root of None \<Rightarrow> t | Some r \<Rightarrow> t\<lparr>tab_root_pane := r\<rparr>)"

text \<open>The layout part \<open>take_pane_for_move\<close> and \<open>detach_pane\<close> share: close a pane and keep the focus on the others.\<close>

definition close_layout_pane :: "tile_layout \<Rightarrow> pane_id \<Rightarrow> tile_layout outcome" where
  "close_layout_pane l pane_id =
     (if tl_focus l = pane_id then
        outcome_bind (expect (close_focused l)) (\<lambda>(l', _). Return l')
      else
        let prev_focus = tl_focus l
        in outcome_bind (expect (close_focused (focus_pane l pane_id))) (\<lambda>(l', _).
           Return (focus_pane l' prev_focus)))"

definition detach_pane :: "tab \<Rightarrow> pane_id \<Rightarrow> (tab \<times> (pane_id \<times> string) option) outcome" where
  "detach_pane t pane_id =
     (if pane_count (tab_layout t) \<le> 1 then Return (t, None)
      else let next_root = promoted_root_if_needed t pane_id
           in outcome_bind (close_layout_pane (tab_layout t) pane_id) (\<lambda>layout.
              let t1 = t\<lparr>tab_layout := layout\<rparr>
              in case map_of (tab_panes t1) pane_id of
                   None \<Rightarrow> Return (t1, None)
                 | Some pane \<Rightarrow>
                     Return (promote_root next_root
                         (t1\<lparr>tab_panes := AList.delete pane_id (tab_panes t1), tab_zoomed := False\<rparr>),
                       Some (pane_id, ps_attached_terminal_id pane))))"

definition tab_close_pane :: "tab \<Rightarrow> pane_id \<Rightarrow> (tab \<times> (pane_id \<times> string) option) outcome" where
  "tab_close_pane t pane_id = detach_pane t pane_id"

definition tab_remove_pane :: "tab \<Rightarrow> pane_id \<Rightarrow> (tab \<times> (pane_id \<times> string) option) outcome" where
  "tab_remove_pane t pane_id = detach_pane t pane_id"

definition tab_from_existing_pane :: "usize \<Rightarrow> string option \<Rightarrow> moved_pane \<Rightarrow> tab" where
  "tab_from_existing_pane number custom_name moved =
     \<lparr>tab_custom_name = custom_name, tab_number = number, tab_root_pane = mp_pane_id moved,
      tab_layout = from_saved (Pane (mp_pane_id moved)) (mp_pane_id moved),
      tab_panes = [(mp_pane_id moved, mp_pane_state moved)], tab_zoomed = False\<rparr>"

definition tab_take_pane_for_move :: "tab \<Rightarrow> pane_id \<Rightarrow> (tab \<times> moved_pane option) outcome" where
  "tab_take_pane_for_move t pane_id =
     (if \<not> hm_contains (tab_panes t) pane_id then Return (t, None)
      else outcome_bind
        (if 1 < pane_count (tab_layout t) then
           let next_root = promoted_root_if_needed t pane_id
           in outcome_bind (close_layout_pane (tab_layout t) pane_id) (\<lambda>layout.
              Return (promote_root next_root (t\<lparr>tab_layout := layout\<rparr>)))
         else Return t) (\<lambda>t1.
        case map_of (tab_panes t1) pane_id of
          None \<Rightarrow> Return (t1, None)
        | Some pane_state \<Rightarrow>
            Return (t1\<lparr>tab_panes := AList.delete pane_id (tab_panes t1), tab_zoomed := False\<rparr>,
              Some \<lparr>mp_pane_id = pane_id, mp_pane_state = pane_state\<rparr>)))"

definition insert_existing_pane ::
  "tab \<Rightarrow> pane_id \<Rightarrow> moved_pane \<Rightarrow> direction \<Rightarrow> f32 \<Rightarrow> tab \<times> (moved_pane + pane_id)" where
  "insert_existing_pane t target_pane_id moved direction ratio =
     (case insert_pane_near (tab_layout t) target_pane_id (mp_pane_id moved) direction ratio of
        (layout, False) \<Rightarrow> (t\<lparr>tab_layout := layout\<rparr>, Inl moved)
      | (layout, True) \<Rightarrow>
          (t\<lparr>tab_layout := layout,
             tab_panes := AList.update (mp_pane_id moved) (mp_pane_state moved) (tab_panes t),
             tab_zoomed := False\<rparr>, Inr (mp_pane_id moved)))"

section \<open>Queries\<close>

definition tab_terminal_id :: "tab \<Rightarrow> pane_id \<Rightarrow> string option" where
  "tab_terminal_id t pane_id = map_option ps_attached_terminal_id (map_of (tab_panes t) pane_id)"

text \<open>The working directories a runtime reports are arguments: two maps over the registered terminals.\<close>

definition cwd_for_pane ::
  "(string \<Rightarrow> string option) \<Rightarrow> (string, terminal_state) hash_map \<Rightarrow> tab \<Rightarrow> pane_id \<Rightarrow> string option" where
  "cwd_for_pane runtime_cwd terminals t pane_id =
     Option.bind (tab_terminal_id t pane_id) (\<lambda>terminal_id.
       or_else (runtime_cwd terminal_id) (map_option ts_cwd (map_of terminals terminal_id)))"

definition foreground_cwd_for_pane :: "(string \<Rightarrow> string option) \<Rightarrow> tab \<Rightarrow> pane_id \<Rightarrow> string option" where
  "foreground_cwd_for_pane runtime_foreground_cwd t pane_id =
     Option.bind (tab_terminal_id t pane_id) runtime_foreground_cwd"

definition follow_cwd_for_pane ::
  "(string \<Rightarrow> string option) \<Rightarrow> (string \<Rightarrow> string option) \<Rightarrow> (string, terminal_state) hash_map \<Rightarrow> tab \<Rightarrow> pane_id \<Rightarrow>
     string option" where
  "follow_cwd_for_pane runtime_foreground_cwd runtime_cwd terminals t pane_id =
     or_else (foreground_cwd_for_pane runtime_foreground_cwd t pane_id)
       (cwd_for_pane runtime_cwd terminals t pane_id)"

end
