(* ===== verification/Workspaces.thy ===== *)
theory Workspaces
  imports Tabs
begin

text \<open>
  A workspace (\<open>src/workspace.rs\<close>): a non-empty list of tabs with one of them active, and the public numbers of
  its tabs and panes, which are never reused.  Paths are strings.  What the git metadata functions read from the
  disk is an argument.
\<close>

section \<open>Data\<close>

record git_space_metadata =
  gs_key :: string
  gs_checkout_key :: string
  gs_label :: string
  gs_repo_root :: string
  gs_is_linked_worktree :: bool

record worktree_space_membership =
  wm_key :: string
  wm_label :: string
  wm_repo_root :: string
  wm_checkout_path :: string
  wm_is_linked_worktree :: bool

record workspace =
  ws_id :: string
  ws_custom_name :: "string option"
  ws_identity_cwd :: string
  ws_cached_git_branch :: "string option"
  ws_cached_git_ahead_behind :: "(usize \<times> usize) option"
  ws_cached_git_space :: "git_space_metadata option"
  ws_worktree_space :: "worktree_space_membership option"
  ws_metadata_tokens :: metadata_tokens
  ws_metadata_token_sequences :: "(string, u64) hash_map"
  ws_public_pane_numbers :: "(pane_id, usize) hash_map"
  ws_next_public_pane_number :: usize
  ws_next_public_tab_number :: usize
  ws_tabs :: "tab list"
  ws_active_tab :: nat

record taken_pane =
  tp_moved :: moved_pane
  tp_removed_tab_idx :: "nat option"
  tp_workspace_empty :: bool

section \<open>Queries\<close>

definition nth_tab :: "workspace \<Rightarrow> nat \<Rightarrow> tab option" where
  "nth_tab ws i = (if i < length (ws_tabs ws) then Some (ws_tabs ws ! i) else None)"

definition active_tab :: "workspace \<Rightarrow> tab option" where
  "active_tab ws = nth_tab ws (ws_active_tab ws)"

definition tab_display_name :: "workspace \<Rightarrow> nat \<Rightarrow> string option" where
  "tab_display_name ws tab_idx =
     map_option (\<lambda>t. unwrap_or (tab_custom_name t) (show_nat (tab_idx + 1))) (nth_tab ws tab_idx)"

definition active_tab_display_name :: "workspace \<Rightarrow> string option" where
  "active_tab_display_name ws = tab_display_name ws (ws_active_tab ws)"

definition public_pane_number :: "workspace \<Rightarrow> pane_id \<Rightarrow> usize option" where
  "public_pane_number ws pane_id = map_of (ws_public_pane_numbers ws) pane_id"

definition public_tab_number :: "workspace \<Rightarrow> nat \<Rightarrow> usize option" where
  "public_tab_number ws tab_idx = map_option tab_number (nth_tab ws tab_idx)"

definition find_tab_index_for_pane :: "workspace \<Rightarrow> pane_id \<Rightarrow> nat option" where
  "find_tab_index_for_pane ws pane_id = position (\<lambda>t. hm_contains (tab_panes t) pane_id) (ws_tabs ws)"

text \<open>\<open>self.tabs.iter().find_map(..)\<close>\<close>

definition find_map_tabs :: "(tab \<Rightarrow> 'a option) \<Rightarrow> workspace \<Rightarrow> 'a option" where
  "find_map_tabs f ws = foldr (\<lambda>t. or_else (f t)) (ws_tabs ws) None"

definition ws_pane_state :: "workspace \<Rightarrow> pane_id \<Rightarrow> pane_state option" where
  "ws_pane_state ws pane_id = find_map_tabs (\<lambda>t. map_of (tab_panes t) pane_id) ws"

definition ws_terminal_id :: "workspace \<Rightarrow> pane_id \<Rightarrow> string option" where
  "ws_terminal_id ws pane_id = find_map_tabs (\<lambda>t. tab_terminal_id t pane_id) ws"

definition focused_pane_id :: "workspace \<Rightarrow> pane_id option" where
  "focused_pane_id ws = map_option (\<lambda>t. tl_focus (tab_layout t)) (active_tab ws)"

definition resolved_identity_cwd_from ::
  "(string \<Rightarrow> string option) \<Rightarrow> (string, terminal_state) hash_map \<Rightarrow> workspace \<Rightarrow> string option" where
  "resolved_identity_cwd_from runtime_cwd terminals ws =
     or_else
       (case ws_tabs ws of [] \<Rightarrow> None | t # _ \<Rightarrow> cwd_for_pane runtime_cwd terminals t (tab_root_pane t))
       (Some (ws_identity_cwd ws))"

text \<open>The label of a directory (\<open>derive_label_from_cwd\<close>) looks for a repository: it is an argument.\<close>

definition display_name :: "(string \<Rightarrow> string) \<Rightarrow> workspace \<Rightarrow> string" where
  "display_name label_from_cwd ws =
     (case ws_custom_name ws of Some name \<Rightarrow> name | None \<Rightarrow> label_from_cwd (ws_identity_cwd ws))"

definition display_name_from ::
  "(string \<Rightarrow> string) \<Rightarrow> (string \<Rightarrow> string option) \<Rightarrow> (string, terminal_state) hash_map \<Rightarrow> workspace \<Rightarrow> string" where
  "display_name_from label_from_cwd runtime_cwd terminals ws =
     (case ws_custom_name ws of
        Some name \<Rightarrow> name
      | None \<Rightarrow> unwrap_or (map_option label_from_cwd (resolved_identity_cwd_from runtime_cwd terminals ws))
                 ''workspace'')"

definition ws_set_custom_name :: "workspace \<Rightarrow> string \<Rightarrow> workspace" where
  "ws_set_custom_name ws name = ws\<lparr>ws_custom_name := Some name\<rparr>"

definition launch_env_for_new_pane ::
  "workspace \<Rightarrow> usize \<Rightarrow> usize \<Rightarrow> (string \<times> string) list \<Rightarrow> pane_launch_env" where
  "launch_env_for_new_pane ws number pane_number extra_env =
     with_identity (launch_env_from_extra extra_env) (ws_id ws)
       (public_tab_id_for_number (ws_id ws) number) (public_pane_id_for_number (ws_id ws) pane_number)"

section \<open>Public pane numbers\<close>

definition register_new_pane_with_number :: "pane_id \<Rightarrow> usize \<Rightarrow> workspace \<Rightarrow> workspace" where
  "register_new_pane_with_number pane_id number ws =
     ws\<lparr>ws_public_pane_numbers := AList.update pane_id number (ws_public_pane_numbers ws),
        ws_next_public_pane_number := max (ws_next_public_pane_number ws) (number + 1)\<rparr>"

definition unregister_pane :: "pane_id \<Rightarrow> workspace \<Rightarrow> workspace" where
  "unregister_pane pane_id ws =
     ws\<lparr>ws_public_pane_numbers := AList.delete pane_id (ws_public_pane_numbers ws)\<rparr>"

definition unregister_moved_pane :: "pane_id \<Rightarrow> workspace \<Rightarrow> workspace" where
  "unregister_moved_pane pane_id ws = unregister_pane pane_id ws"

section \<open>New workspaces\<close>

text \<open>\<open>git_branch\<close> is read from the working directory; the space only for a workspace made of a moved pane.\<close>

definition new_with_tab ::
  "(string \<Rightarrow> string option) \<Rightarrow> ('e, 'rt) spawner \<Rightarrow> nat \<Rightarrow> string \<Rightarrow> string list option \<Rightarrow>
     (string \<times> string) list \<Rightarrow> counters \<Rightarrow> ('e + (workspace \<times> terminal_state \<times> 'rt)) \<times> counters" where
  "new_with_tab git_branch spawn micros initial_cwd argv extra_env c =
     (let (i, c1) = generate_workspace_id c;
          launch_env = with_identity (launch_env_from_extra extra_env) i
            (public_tab_id_for_number i 1) (public_pane_id_for_number i 1);
          (made, c2) = new_tab spawn micros 1 initial_cwd launch_env argv c1
      in (result_map (\<lambda>(t, terminal, runtime).
            (\<lparr>ws_id = i, ws_custom_name = None, ws_identity_cwd = initial_cwd,
              ws_cached_git_branch = git_branch initial_cwd, ws_cached_git_ahead_behind = None,
              ws_cached_git_space = None, ws_worktree_space = None, ws_metadata_tokens = [],
              ws_metadata_token_sequences = [], ws_public_pane_numbers = [(tab_root_pane t, 1)],
              ws_next_public_pane_number = 2, ws_next_public_tab_number = 2, ws_tabs = [t],
              ws_active_tab = 0\<rparr>, terminal, runtime)) made, c2))"

definition ws_from_existing_pane ::
  "(string \<Rightarrow> string option) \<Rightarrow> (string \<Rightarrow> git_space_metadata option) \<Rightarrow> string option \<Rightarrow> string option \<Rightarrow>
     string \<Rightarrow> moved_pane \<Rightarrow> counters \<Rightarrow> workspace \<times> counters" where
  "ws_from_existing_pane git_branch git_space label tab_label identity_cwd moved c =
     (let (i, c1) = generate_workspace_id c;
          t = tab_from_existing_pane 1 tab_label moved
      in (\<lparr>ws_id = i, ws_custom_name = label, ws_identity_cwd = identity_cwd,
           ws_cached_git_branch = git_branch identity_cwd, ws_cached_git_ahead_behind = None,
           ws_cached_git_space = git_space identity_cwd, ws_worktree_space = None, ws_metadata_tokens = [],
           ws_metadata_token_sequences = [], ws_public_pane_numbers = [(mp_pane_id moved, 1)],
           ws_next_public_pane_number = 2, ws_next_public_tab_number = 2, ws_tabs = [t],
           ws_active_tab = 0\<rparr>, c1))"

section \<open>Tabs\<close>

definition mark_panes_seen :: "tab \<Rightarrow> tab" where
  "mark_panes_seen t = t\<lparr>tab_panes := map (\<lambda>(i, p). (i, p\<lparr>ps_seen := True\<rparr>)) (tab_panes t)\<rparr>"

definition switch_tab :: "workspace \<Rightarrow> nat \<Rightarrow> workspace" where
  "switch_tab ws idx =
     (if idx < length (ws_tabs ws)
      then ws\<lparr>ws_active_tab := idx, ws_tabs := (ws_tabs ws)[idx := mark_panes_seen (ws_tabs ws ! idx)]\<rparr>
      else ws)"

text \<open>The tab number is drawn before the process is started, and stays drawn when the start fails.\<close>

definition create_tab_with_runtime ::
  "('e, 'rt) spawner \<Rightarrow> nat \<Rightarrow> string \<Rightarrow> string list option \<Rightarrow> (string \<times> string) list \<Rightarrow> workspace \<Rightarrow>
     counters \<Rightarrow> (('e + (nat \<times> terminal_state \<times> 'rt)) \<times> workspace \<times> counters) outcome" where
  "create_tab_with_runtime spawn micros cwd argv extra_env ws c =
     (let number = ws_next_public_tab_number ws;
          ws1 = ws\<lparr>ws_next_public_tab_number := ws_next_public_tab_number ws + 1\<rparr>;
          pane_number = ws_next_public_pane_number ws1;
          launch_env = launch_env_for_new_pane ws1 number pane_number extra_env
      in outcome_bind (expect (active_tab ws1)) (\<lambda>_.
         case new_tab spawn micros number cwd launch_env argv c of
           (Inl e, c1) \<Rightarrow> Return (Inl e, ws1, c1)
         | (Inr (t, terminal, runtime), c1) \<Rightarrow>
             let ws2 = register_new_pane_with_number (tab_root_pane t) pane_number ws1;
                 ws3 = ws2\<lparr>ws_tabs := ws_tabs ws2 @ [t]\<rparr>
             in Return (Inr (length (ws_tabs ws3) - 1, terminal, runtime), ws3, c1)))"

definition active_after_removal :: "nat \<Rightarrow> nat \<Rightarrow> nat \<Rightarrow> nat" where
  "active_after_removal active removed_idx len =
     (if len \<le> active then len - 1
      else if removed_idx \<le> active \<and> 0 < active then active - 1
      else active)"

definition close_tab :: "workspace \<Rightarrow> nat \<Rightarrow> workspace \<times> bool" where
  "close_tab ws idx =
     (if length (ws_tabs ws) \<le> 1 \<or> length (ws_tabs ws) \<le> idx then (ws, False)
      else let t = ws_tabs ws ! idx;
               ws1 = ws\<lparr>ws_tabs := remove_nth idx (ws_tabs ws)\<rparr>;
               ws2 = fold unregister_pane (map fst (tab_panes t)) ws1
           in (ws2\<lparr>ws_active_tab := active_after_removal (ws_active_tab ws2) idx (length (ws_tabs ws2))\<rparr>, True))"

definition move_tab :: "workspace \<Rightarrow> nat \<Rightarrow> nat \<Rightarrow> workspace \<times> bool" where
  "move_tab ws source_idx insert_idx =
     (if length (ws_tabs ws) \<le> source_idx \<or> length (ws_tabs ws) < insert_idx then (ws, False)
      else let target_idx = min (if source_idx < insert_idx then insert_idx - 1 else insert_idx)
                              (length (ws_tabs ws) - 1)
           in if source_idx = target_idx then (ws, False)
              else let active_root_pane = map_option tab_root_pane (nth_tab ws (ws_active_tab ws));
                       t = ws_tabs ws ! source_idx;
                       tabs' = insert_nth target_idx t (remove_nth source_idx (ws_tabs ws));
                       active' = Option.bind active_root_pane (\<lambda>root_pane.
                         position (\<lambda>u. tab_root_pane u = root_pane) tabs')
                   in (ws\<lparr>ws_tabs := tabs', ws_active_tab := unwrap_or active' target_idx\<rparr>, True))"

section \<open>Panes\<close>

definition ws_split_focused_command ::
  "('e, 'rt) spawner \<Rightarrow> nat \<Rightarrow> string option \<Rightarrow> direction \<Rightarrow> string option \<Rightarrow> string \<Rightarrow> (string \<times> string) list \<Rightarrow>
     workspace \<Rightarrow> counters \<Rightarrow> (('e + 'rt new_pane) \<times> workspace \<times> counters) outcome" where
  "ws_split_focused_command spawn micros current_dir direction cwd command extra_env ws c =
     (let pane_number = ws_next_public_pane_number ws
      in outcome_bind (expect (active_tab ws)) (\<lambda>t.
         let launch_env = launch_env_for_new_pane ws (tab_number t) pane_number extra_env
         in outcome_bind (split_focused_with_runtime spawn micros current_dir direction None cwd launch_env
              (StartShellCommand command) t c) (\<lambda>(result, t', c').
            let ws1 = ws\<lparr>ws_tabs := (ws_tabs ws)[ws_active_tab ws := t']\<rparr>
            in case result of
                 Inl e \<Rightarrow> Return (Inl e, ws1, c')
               | Inr pane \<Rightarrow> Return (Inr pane, register_new_pane_with_number (np_pane_id pane) pane_number ws1, c'))))"

text \<open>\<open>split_pane\<close> and its variants; \<open>None\<close> when the workspace does not have the pane.\<close>

definition focus_tab_pane :: "tab \<Rightarrow> pane_id \<Rightarrow> tab" where
  "focus_tab_pane t pane_id = t\<lparr>tab_layout := focus_pane (tab_layout t) pane_id\<rparr>"

definition split_pane_with_runtime ::
  "('e, 'rt) spawner \<Rightarrow> nat \<Rightarrow> string option \<Rightarrow> pane_id \<Rightarrow> direction \<Rightarrow> f32 option \<Rightarrow> string option \<Rightarrow>
     (string \<times> string) list \<Rightarrow> bool \<Rightarrow> string list option \<Rightarrow> workspace \<Rightarrow> counters \<Rightarrow>
     (('e + (nat \<times> 'rt new_pane)) option \<times> workspace \<times> counters) outcome" where
  "split_pane_with_runtime spawn micros current_dir pane_id direction ratio cwd extra_env focus_new_pane argv ws c =
     (case find_tab_index_for_pane ws pane_id of
        None \<Rightarrow> Return (None, ws, c)
      | Some tab_idx \<Rightarrow>
          let pane_number = ws_next_public_pane_number ws;
              t = ws_tabs ws ! tab_idx;
              launch_env = launch_env_for_new_pane ws (tab_number t) pane_number extra_env;
              previous_focus = tl_focus (tab_layout t);
              t1 = focus_tab_pane t pane_id
          in outcome_bind (split_focused_with_runtime spawn micros current_dir direction ratio cwd launch_env
               (argv_start argv) t1 c) (\<lambda>(result, t2, c').
             case result of
               Inl e \<Rightarrow>
                 Return (Some (Inl e),
                   ws\<lparr>ws_tabs := (ws_tabs ws)[tab_idx := focus_tab_pane t2 previous_focus]\<rparr>, c')
             | Inr pane \<Rightarrow>
                 let t3 = (if focus_new_pane then t2 else focus_tab_pane t2 previous_focus);
                     ws1 = ws\<lparr>ws_tabs := (ws_tabs ws)[tab_idx := t3]\<rparr>
                 in Return (Some (Inr (tab_idx, pane)),
                      register_new_pane_with_number (np_pane_id pane) pane_number ws1, c')))"

text \<open>\<open>remove_pane\<close> and \<open>close_pane\<close>; true when the workspace should close.\<close>

definition ws_remove_pane :: "workspace \<Rightarrow> pane_id \<Rightarrow> (workspace \<times> bool) outcome" where
  "ws_remove_pane ws pane_id =
     (case find_tab_index_for_pane ws pane_id of
        None \<Rightarrow> Return (ws, False)
      | Some tab_idx \<Rightarrow>
          let t = ws_tabs ws ! tab_idx
          in if pane_count (tab_layout t) \<le> 1 then
               if length (ws_tabs ws) \<le> 1 then Return (ws, True)
               else let ws1 = unregister_pane pane_id (ws\<lparr>ws_tabs := remove_nth tab_idx (ws_tabs ws)\<rparr>)
                    in Return (ws1\<lparr>ws_active_tab :=
                         active_after_removal (ws_active_tab ws1) tab_idx (length (ws_tabs ws1))\<rparr>, False)
             else outcome_bind (tab_remove_pane t pane_id) (\<lambda>(t', detached).
               let ws1 = ws\<lparr>ws_tabs := (ws_tabs ws)[tab_idx := t']\<rparr>
               in Return (case detached of None \<Rightarrow> ws1 | Some (removed, _) \<Rightarrow> unregister_pane removed ws1, False)))"

definition ws_close_pane :: "workspace \<Rightarrow> pane_id \<Rightarrow> (workspace \<times> bool) outcome" where
  "ws_close_pane ws pane_id =
     (case find_tab_index_for_pane ws pane_id of
        None \<Rightarrow> Return (ws, False)
      | Some tab_idx \<Rightarrow>
          let t = ws_tabs ws ! tab_idx
          in if pane_count (tab_layout t) \<le> 1 then
               if length (ws_tabs ws) \<le> 1 then Return (ws, True)
               else let ws1 = unregister_pane pane_id (ws\<lparr>ws_tabs := remove_nth tab_idx (ws_tabs ws)\<rparr>)
                    in Return (ws1\<lparr>ws_active_tab :=
                         active_after_removal (ws_active_tab ws1) tab_idx (length (ws_tabs ws1))\<rparr>, False)
             else outcome_bind (tab_close_pane t pane_id) (\<lambda>(t', detached).
               let ws1 = ws\<lparr>ws_tabs := (ws_tabs ws)[tab_idx := t']\<rparr>
               in Return (case detached of None \<Rightarrow> ws1 | Some (removed, _) \<Rightarrow> unregister_pane removed ws1, False)))"

definition adjust_active_tab_after_removal :: "nat \<Rightarrow> workspace \<Rightarrow> workspace" where
  "adjust_active_tab_after_removal removed_idx ws =
     ws\<lparr>ws_active_tab :=
       (if ws_tabs ws = [] then 0
        else active_after_removal (ws_active_tab ws) removed_idx (length (ws_tabs ws)))\<rparr>"

text \<open>A pane handed over keeps its public number until the caller unregisters it.\<close>

definition ws_take_pane_for_move :: "workspace \<Rightarrow> pane_id \<Rightarrow> (workspace \<times> taken_pane option) outcome" where
  "ws_take_pane_for_move ws pane_id =
     (case find_tab_index_for_pane ws pane_id of
        None \<Rightarrow> Return (ws, None)
      | Some tab_idx \<Rightarrow>
          let t = ws_tabs ws ! tab_idx
          in outcome_bind (tab_take_pane_for_move t pane_id) (\<lambda>(t', taken).
             if pane_count (tab_layout t) \<le> 1 then
               let ws1 = ws\<lparr>ws_tabs := remove_nth tab_idx (ws_tabs ws)\<rparr>
               in Return (case taken of
                    None \<Rightarrow> (ws1, None)
                  | Some moved \<Rightarrow>
                      let ws2 = adjust_active_tab_after_removal tab_idx ws1
                      in (ws2, Some \<lparr>tp_moved = moved, tp_removed_tab_idx = Some tab_idx,
                                 tp_workspace_empty = (ws_tabs ws2 = [])\<rparr>))
             else
               Return (ws\<lparr>ws_tabs := (ws_tabs ws)[tab_idx := t']\<rparr>,
                 map_option (\<lambda>moved. \<lparr>tp_moved = moved, tp_removed_tab_idx = None, tp_workspace_empty = False\<rparr>)
                   taken)))"

definition register_unless_known :: "pane_id \<Rightarrow> workspace \<Rightarrow> workspace" where
  "register_unless_known pane_id ws =
     (if hm_contains (ws_public_pane_numbers ws) pane_id then ws
      else register_new_pane_with_number pane_id (ws_next_public_pane_number ws) ws)"

definition insert_moved_pane_into_tab ::
  "workspace \<Rightarrow> nat \<Rightarrow> pane_id \<Rightarrow> moved_pane \<Rightarrow> direction \<Rightarrow> f32 \<Rightarrow> workspace \<times> (moved_pane + pane_id)" where
  "insert_moved_pane_into_tab ws tab_idx target_pane_id moved direction ratio =
     (case nth_tab ws tab_idx of
        None \<Rightarrow> (ws, Inl moved)
      | Some t \<Rightarrow>
          let (t', inserted) = insert_existing_pane t target_pane_id moved direction ratio;
              ws1 = ws\<lparr>ws_tabs := (ws_tabs ws)[tab_idx := t']\<rparr>
          in case inserted of
               Inl moved' \<Rightarrow> (ws1, Inl moved')
             | Inr _ \<Rightarrow> (register_unless_known (mp_pane_id moved) ws1, Inr (mp_pane_id moved)))"

definition create_tab_from_existing_pane :: "workspace \<Rightarrow> moved_pane \<Rightarrow> string option \<Rightarrow> workspace \<times> nat" where
  "create_tab_from_existing_pane ws moved label =
     (let number = ws_next_public_tab_number ws;
          ws1 = ws\<lparr>ws_next_public_tab_number := ws_next_public_tab_number ws + 1\<rparr>;
          t = tab_from_existing_pane number label moved;
          ws2 = register_unless_known (mp_pane_id moved) ws1;
          ws3 = ws2\<lparr>ws_tabs := ws_tabs ws2 @ [t]\<rparr>
      in (ws3, length (ws_tabs ws3) - 1))"

end
