(* ===== verification/AppState.thy ===== *)
theory AppState
  imports Workspaces Selection
begin

text \<open>
  The application state (\<open>src/app/state.rs\<close>, \<open>src/app/actions.rs\<close>): the workspaces with the active and the
  selected one, the terminals they show, and what refers to panes from outside the workspaces: the pane focused
  before, the aliases of pane identifiers, the records of plugin panes, pending notifications, copy mode and the
  text selection.  Copy mode is modelled by its pane.  The fields that only place things on the screen (scroll
  positions, areas, the tab bar) and the log are not modelled, nor are the calls that only touch them.
\<close>

section \<open>Data\<close>

datatype mode =
    ModeOnboarding | ModeReleaseNotes | ModeProductAnnouncement | ModeNavigate | ModePrefix | ModeCopy
  | ModeTerminal | ModeRenameWorkspace | ModeRenameTab | ModeRenamePane | ModeNewLinkedWorktree
  | ModeOpenExistingWorktree | ModeConfirmRemoveWorktree | ModeResize | ModeConfirmClose | ModeContextMenu
  | ModeSettings | ModeGlobalMenu | ModeKeybindHelp | ModeNavigator | ModeProjectHistory

datatype toast_kind = NeedsAttention | Finished | UpdateInstalled

record pane_focus_target =
  ft_workspace_id :: string
  ft_pane_id :: pane_id

record pending_agent_notification =
  pn_pane_id :: pane_id
  pn_workspace_id :: string
  pn_agent_label :: string
  pn_known_agent :: "agent option"
  pn_kind :: toast_kind
  pn_state :: agent_state
  pn_deadline :: instant

record 'p app_state =
  as_workspaces :: "workspace list"
  as_active :: "nat option"
  as_selected :: nat
  as_mode :: mode
  as_terminals :: "(string, terminal_state) hash_map"
  as_previous_pane_focus :: "pane_focus_target option"
  as_pane_id_aliases :: "(u32, pane_id) hash_map"
  as_public_pane_id_aliases :: "(string, pane_id) hash_map"
  as_plugin_panes :: "(pane_id, 'p) hash_map"
  as_pending_agent_notifications :: "(pane_id, pending_agent_notification) hash_map"
  as_copy_mode :: "pane_id option"
  as_selection :: "selection option"
  as_confirm_close :: bool
  as_session_dirty :: bool
  as_terminal_runtime_shutdowns :: "string list"

definition mark_session_dirty :: "'p app_state \<Rightarrow> 'p app_state" where
  "mark_session_dirty s = s\<lparr>as_session_dirty := True\<rparr>"

definition remove_alias_shadowed_by_new_pane :: "pane_id \<Rightarrow> 'p app_state \<Rightarrow> 'p app_state" where
  "remove_alias_shadowed_by_new_pane pane_id s =
     s\<lparr>as_pane_id_aliases := AList.delete pane_id (as_pane_id_aliases s)\<rparr>"

text \<open>\<open>workspaces.get(i)\<close>, and \<open>get_mut(i)\<close> followed by a change.\<close>

definition nth_ws :: "'p app_state \<Rightarrow> nat \<Rightarrow> workspace option" where
  "nth_ws s i = (if i < length (as_workspaces s) then Some (as_workspaces s ! i) else None)"

definition modify_ws :: "nat \<Rightarrow> (workspace \<Rightarrow> workspace) \<Rightarrow> 'p app_state \<Rightarrow> 'p app_state" where
  "modify_ws i f s = s\<lparr>as_workspaces := (as_workspaces s)[i := f (as_workspaces s ! i)]\<rparr>"

section \<open>The focused pane\<close>

definition current_pane_focus_target :: "'p app_state \<Rightarrow> pane_focus_target option" where
  "current_pane_focus_target s =
     Option.bind (as_active s) (\<lambda>ws_idx.
     Option.bind (nth_ws s ws_idx) (\<lambda>ws.
     Option.bind (focused_pane_id ws) (\<lambda>pane_id.
       Some \<lparr>ft_workspace_id = ws_id ws, ft_pane_id = pane_id\<rparr>)))"

definition pane_focus_target_indices :: "'p app_state \<Rightarrow> pane_focus_target \<Rightarrow> (nat \<times> nat) option" where
  "pane_focus_target_indices s target =
     Option.bind (position (\<lambda>ws. ws_id ws = ft_workspace_id target) (as_workspaces s)) (\<lambda>ws_idx.
       map_option (Pair ws_idx) (find_tab_index_for_pane (as_workspaces s ! ws_idx) (ft_pane_id target)))"

definition record_pane_focus_change ::
  "pane_focus_target option \<Rightarrow> nat \<Rightarrow> pane_id \<Rightarrow> 'p app_state \<Rightarrow> 'p app_state" where
  "record_pane_focus_change previous ws_idx pane_id s =
     (case nth_ws s ws_idx of
        None \<Rightarrow> s
      | Some ws \<Rightarrow>
          if previous \<noteq> Some \<lparr>ft_workspace_id = ws_id ws, ft_pane_id = pane_id\<rparr>
          then s\<lparr>as_previous_pane_focus := previous\<rparr> else s)"

definition record_pane_focus_after_navigation ::
  "pane_focus_target option \<Rightarrow> 'p app_state \<Rightarrow> 'p app_state" where
  "record_pane_focus_after_navigation previous s =
     (if previous \<noteq> current_pane_focus_target s then s\<lparr>as_previous_pane_focus := previous\<rparr> else s)"

definition pane_is_in_active_tab :: "'p app_state \<Rightarrow> nat \<Rightarrow> pane_id \<Rightarrow> bool outcome" where
  "pane_is_in_active_tab s ws_idx pane_id =
     (case as_active s of
        None \<Rightarrow> Return False
      | Some active_ws_idx \<Rightarrow>
          if active_ws_idx \<noteq> ws_idx then Return False
          else outcome_bind (expect (nth_ws s ws_idx)) (\<lambda>ws.
            Return (is_some_and (find_tab_index_for_pane ws pane_id) (\<lambda>tab_idx. tab_idx = ws_active_tab ws))))"

section \<open>Copy mode and selection\<close>

definition clear_selection :: "'p app_state \<Rightarrow> 'p app_state" where
  "clear_selection s = s\<lparr>as_selection := None\<rparr>"

text \<open>The selection inside copy mode is not modelled.\<close>

definition clear_copy_mode_selection :: "'p app_state \<Rightarrow> 'p app_state" where
  "clear_copy_mode_selection s = clear_selection s"

definition copy_mode_pane_is_focused :: "'p app_state \<Rightarrow> bool" where
  "copy_mode_pane_is_focused s =
     (case as_copy_mode s of
        None \<Rightarrow> False
      | Some pane_id \<Rightarrow> is_some_and (current_pane_focus_target s) (\<lambda>target. ft_pane_id target = pane_id))"

definition sync_copy_mode_with_focus :: "'p app_state \<Rightarrow> 'p app_state" where
  "sync_copy_mode_with_focus s =
     (if as_copy_mode s = None then s
      else if as_mode s \<notin> {ModeCopy, ModeTerminal, ModeNavigate, ModePrefix} then s
      else if copy_mode_pane_is_focused s then s\<lparr>as_mode := ModeCopy\<rparr>
      else if as_active s \<noteq> None then (clear_copy_mode_selection s)\<lparr>as_mode := ModeTerminal\<rparr>
      else (clear_copy_mode_selection s)\<lparr>as_mode := ModeNavigate\<rparr>)"

definition settle_terminal_mode_after_focus :: "'p app_state \<Rightarrow> 'p app_state" where
  "settle_terminal_mode_after_focus s = sync_copy_mode_with_focus (s\<lparr>as_mode := ModeTerminal\<rparr>)"

definition clear_copy_mode_for_removed_panes :: "pane_id list \<Rightarrow> 'p app_state \<Rightarrow> 'p app_state" where
  "clear_copy_mode_for_removed_panes removed s =
     (case as_copy_mode s of
        None \<Rightarrow> s
      | Some pane_id \<Rightarrow>
          if pane_id \<in> set removed then
            let s1 = (clear_selection s)\<lparr>as_copy_mode := None\<rparr>
            in if as_mode s1 = ModeCopy
               then s1\<lparr>as_mode := (if as_active s1 \<noteq> None then ModeTerminal else ModeNavigate)\<rparr>
               else s1
          else s)"

definition sync_selection_after_focus_navigation :: "'p app_state \<Rightarrow> 'p app_state" where
  "sync_selection_after_focus_navigation s =
     (if as_copy_mode s \<noteq> None then sync_copy_mode_with_focus s else clear_selection s)"

section \<open>Switching\<close>

definition switch_workspace :: "nat \<Rightarrow> 'p app_state \<Rightarrow> 'p app_state" where
  "switch_workspace idx s =
     (if idx < length (as_workspaces s) then
        let previous_focus = current_pane_focus_target s;
            s1 = mark_session_dirty (s\<lparr>as_active := Some idx, as_selected := idx\<rparr>);
            s2 = modify_ws idx (\<lambda>ws. switch_tab ws (ws_active_tab ws)) s1
        in sync_selection_after_focus_navigation (record_pane_focus_after_navigation previous_focus s2)
      else s)"

definition switch_workspace_tab :: "nat \<Rightarrow> nat \<Rightarrow> 'p app_state \<Rightarrow> 'p app_state \<times> bool" where
  "switch_workspace_tab ws_idx tab_idx s =
     (if length (as_workspaces s) \<le> ws_idx then (s, False)
      else if is_none_or (nth_ws s ws_idx) (\<lambda>ws. length (ws_tabs ws) \<le> tab_idx) then (s, False)
      else
        let previous_focus = current_pane_focus_target s;
            s1 = mark_session_dirty (s\<lparr>as_active := Some ws_idx, as_selected := ws_idx\<rparr>);
            s2 = modify_ws ws_idx (\<lambda>ws. switch_tab ws tab_idx) s1
        in (sync_selection_after_focus_navigation (record_pane_focus_after_navigation previous_focus s2), True))"

definition focus_in_tab :: "nat \<Rightarrow> pane_id \<Rightarrow> workspace \<Rightarrow> workspace" where
  "focus_in_tab tab_idx pane_id ws =
     ws\<lparr>ws_tabs := (ws_tabs ws)[tab_idx := focus_tab_pane (ws_tabs ws ! tab_idx) pane_id]\<rparr>"

definition focus_pane_in_workspace :: "nat \<Rightarrow> pane_id \<Rightarrow> 'p app_state \<Rightarrow> 'p app_state \<times> bool" where
  "focus_pane_in_workspace ws_idx pane_id s =
     (case nth_ws s ws_idx of
        None \<Rightarrow> (s, False)
      | Some ws \<Rightarrow>
          case find_tab_index_for_pane ws pane_id of
            None \<Rightarrow> (s, False)
          | Some tab_idx \<Rightarrow>
              let previous = current_pane_focus_target s;
                  target = \<lparr>ft_workspace_id = ws_id ws, ft_pane_id = pane_id\<rparr>
              in if previous = Some target then (s, False)
                 else let s1 = (if as_copy_mode s \<noteq> None then clear_copy_mode_selection s else s);
                          s2 = fst (switch_workspace_tab ws_idx tab_idx s1)
                      in case Option.bind (nth_ws s2 ws_idx) (\<lambda>ws2. nth_tab ws2 tab_idx) of
                           None \<Rightarrow> (s2, False)
                         | Some _ \<Rightarrow>
                             let s3 = modify_ws ws_idx (focus_in_tab tab_idx pane_id) s2
                             in (sync_copy_mode_with_focus (mark_session_dirty
                                  (s3\<lparr>as_previous_pane_focus := previous\<rparr>)), True))"

definition mark_active_tab_seen :: "'p app_state \<Rightarrow> 'p app_state \<times> bool" where
  "mark_active_tab_seen s =
     (case as_active s of
        None \<Rightarrow> (s, False)
      | Some ws_idx \<Rightarrow>
          case Option.bind (nth_ws s ws_idx) active_tab of
            None \<Rightarrow> (s, False)
          | Some t \<Rightarrow>
              (modify_ws ws_idx (\<lambda>ws. ws\<lparr>ws_tabs := (ws_tabs ws)[ws_active_tab ws := mark_panes_seen t]\<rparr>) s,
               list_ex (\<lambda>pane. \<not> ps_seen pane) (hm_values (tab_panes t))))"

text \<open>The active and the selected workspace are followed by their identifiers.\<close>

definition move_workspace :: "nat \<Rightarrow> nat \<Rightarrow> 'p app_state \<Rightarrow> ('p app_state \<times> bool) outcome" where
  "move_workspace source_idx insert_idx s =
     (if length (as_workspaces s) \<le> source_idx \<or> length (as_workspaces s) < insert_idx then Return (s, False)
      else let target_idx = (if source_idx < insert_idx then insert_idx - 1 else insert_idx)
           in if source_idx = target_idx then Return (s, False)
              else outcome_bind (case as_active s of
                     None \<Rightarrow> Return None
                   | Some idx \<Rightarrow> outcome_bind (expect (nth_ws s idx)) (\<lambda>ws. Return (Some (ws_id ws)))) (\<lambda>active_id.
                let selected_id = map_option ws_id (nth_ws s (as_selected s));
                    removed = remove_nth source_idx (as_workspaces s)
                in if length removed < target_idx then Panic
                   else let wss = insert_nth target_idx (as_workspaces s ! source_idx) removed;
                            find_id = (\<lambda>i. position (\<lambda>ws. ws_id ws = i) wss)
                        in Return ((mark_session_dirty s)\<lparr>as_workspaces := wss,
                             as_active := Option.bind active_id find_id,
                             as_selected := unwrap_or (Option.bind selected_id find_id) 0\<rparr>, True)))"

section \<open>Closing\<close>

definition terminal_ids_for_workspace :: "'p app_state \<Rightarrow> nat \<Rightarrow> string list" where
  "terminal_ids_for_workspace s ws_idx =
     (case nth_ws s ws_idx of
        None \<Rightarrow> []
      | Some ws \<Rightarrow> concat (map (\<lambda>t. map ps_attached_terminal_id (hm_values (tab_panes t))) (ws_tabs ws)))"

definition pane_ids_for_workspace :: "'p app_state \<Rightarrow> nat \<Rightarrow> pane_id list" where
  "pane_ids_for_workspace s ws_idx =
     (case nth_ws s ws_idx of
        None \<Rightarrow> []
      | Some ws \<Rightarrow> concat (map (\<lambda>t. pane_ids (tab_layout t)) (ws_tabs ws)))"

definition terminal_ids_for_tab :: "'p app_state \<Rightarrow> nat \<Rightarrow> nat \<Rightarrow> string list" where
  "terminal_ids_for_tab s ws_idx tab_idx =
     (case Option.bind (nth_ws s ws_idx) (\<lambda>ws. nth_tab ws tab_idx) of
        None \<Rightarrow> []
      | Some t \<Rightarrow> map ps_attached_terminal_id (hm_values (tab_panes t)))"

definition pane_ids_for_tab :: "'p app_state \<Rightarrow> nat \<Rightarrow> nat \<Rightarrow> pane_id list" where
  "pane_ids_for_tab s ws_idx tab_idx =
     (case Option.bind (nth_ws s ws_idx) (\<lambda>ws. nth_tab ws tab_idx) of
        None \<Rightarrow> []
      | Some t \<Rightarrow> pane_ids (tab_layout t))"

definition terminal_id_for_pane :: "'p app_state \<Rightarrow> nat \<Rightarrow> pane_id \<Rightarrow> string option" where
  "terminal_id_for_pane s ws_idx pane_id =
     Option.bind (nth_ws s ws_idx) (\<lambda>ws. map_option ps_attached_terminal_id (ws_pane_state ws pane_id))"

definition still_attached :: "string \<Rightarrow> 'p app_state \<Rightarrow> bool" where
  "still_attached terminal_id s =
     list_ex (\<lambda>ws. list_ex (\<lambda>t. list_ex (\<lambda>pane. ps_attached_terminal_id pane = terminal_id)
       (hm_values (tab_panes t))) (ws_tabs ws)) (as_workspaces s)"

definition remove_unattached_terminal_id :: "string \<Rightarrow> 'p app_state \<Rightarrow> 'p app_state" where
  "remove_unattached_terminal_id terminal_id s =
     (if still_attached terminal_id s then s
      else let s1 = s\<lparr>as_terminals := AList.delete terminal_id (as_terminals s)\<rparr>
           in if hm_contains (as_terminals s) terminal_id \<and> terminal_id \<notin> set (as_terminal_runtime_shutdowns s)
              then s1\<lparr>as_terminal_runtime_shutdowns := as_terminal_runtime_shutdowns s @ [terminal_id]\<rparr>
              else s1)"

definition remove_unattached_terminal_ids :: "string list \<Rightarrow> 'p app_state \<Rightarrow> 'p app_state" where
  "remove_unattached_terminal_ids terminal_ids s = fold remove_unattached_terminal_id terminal_ids s"

definition remove_plugin_pane_records :: "pane_id list \<Rightarrow> 'p app_state \<Rightarrow> 'p app_state" where
  "remove_plugin_pane_records removed s =
     (let s1 = clear_copy_mode_for_removed_panes removed s;
          s2 = (if is_some_and (as_previous_pane_focus s1) (\<lambda>foc. ft_pane_id foc \<in> set removed)
                then s1\<lparr>as_previous_pane_focus := None\<rparr> else s1)
      in s2\<lparr>as_plugin_panes := fold AList.delete removed (as_plugin_panes s2)\<rparr>)"

text \<open>Closing the parent checkout of a worktree group closes the whole group.\<close>

definition worktree_group :: "'p app_state \<Rightarrow> string \<Rightarrow> nat list" where
  "worktree_group s key =
     List.map_filter (\<lambda>(idx, ws). then_some
         (is_some_and (ws_worktree_space ws) (\<lambda>member. wm_key member = key)) idx)
       (enumerate 0 (as_workspaces s))"

definition close_indices :: "'p app_state \<Rightarrow> nat list" where
  "close_indices s =
     unwrap_or (option_filter (\<lambda>indices. 2 \<le> length indices)
       (map_option (\<lambda>space. worktree_group s (wm_key space))
         (option_filter (\<lambda>space. \<not> wm_is_linked_worktree space)
           (Option.bind (nth_ws s (as_selected s)) ws_worktree_space)))) [as_selected s]"

text \<open>\<open>Vec::remove\<close> panics when the index is out of range.\<close>

fun remove_workspaces :: "nat list \<Rightarrow> workspace list \<Rightarrow> workspace list outcome" where
  "remove_workspaces [] wss = Return wss"
| "remove_workspaces (idx # rest) wss =
     (if idx < length wss then remove_workspaces rest (remove_nth idx wss) else Panic)"

definition close_selected_workspace :: "'p app_state \<Rightarrow> 'p app_state outcome" where
  "close_selected_workspace s =
     (if as_workspaces s = [] then Return s
      else let s1 = mark_session_dirty (s\<lparr>as_selection := None\<rparr>);
               indices = close_indices s1;
               terminal_ids = concat (map (terminal_ids_for_workspace s1) indices);
               removed = concat (map (pane_ids_for_workspace s1) indices);
               s2 = remove_plugin_pane_records removed s1
           in outcome_bind (remove_workspaces (rev indices) (as_workspaces s2)) (\<lambda>wss.
              let s3 = remove_unattached_terminal_ids terminal_ids (s2\<lparr>as_workspaces := wss\<rparr>)
              in if as_workspaces s3 = [] then Return (s3\<lparr>as_active := None, as_selected := 0\<rparr>)
                 else let sel = (if length (as_workspaces s3) \<le> as_selected s3
                                 then length (as_workspaces s3) - 1 else as_selected s3)
                      in Return (s3\<lparr>as_selected := sel, as_active := Some sel\<rparr>)))"

definition workspace_close_would_close_worktree_group :: "'p app_state \<Rightarrow> nat \<Rightarrow> bool" where
  "workspace_close_would_close_worktree_group s ws_idx =
     is_some_and (option_filter (\<lambda>space. \<not> wm_is_linked_worktree space)
         (Option.bind (nth_ws s ws_idx) ws_worktree_space))
       (\<lambda>space. 2 \<le> length (filter (\<lambda>ws. is_some_and (ws_worktree_space ws)
         (\<lambda>member. wm_key member = wm_key space)) (as_workspaces s)))"

definition confirm_implicit_worktree_group_close :: "nat \<Rightarrow> 'p app_state \<Rightarrow> 'p app_state \<times> bool" where
  "confirm_implicit_worktree_group_close ws_idx s =
     (if as_confirm_close s \<and> workspace_close_would_close_worktree_group s ws_idx
      then (s\<lparr>as_selected := ws_idx, as_mode := ModeConfirmClose\<rparr>, True)
      else (s, False))"

definition close_pane_would_close_workspace :: "'p app_state \<Rightarrow> nat \<Rightarrow> pane_id \<Rightarrow> bool" where
  "close_pane_would_close_workspace s ws_idx pane_id =
     is_some_and (nth_ws s ws_idx) (\<lambda>ws.
       is_some_and (find_tab_index_for_pane ws pane_id) (\<lambda>tab_idx.
         pane_count (tab_layout (ws_tabs ws ! tab_idx)) \<le> 1 \<and> length (ws_tabs ws) \<le> 1))"

text \<open>The process of a pane has ended.\<close>

definition handle_pane_died :: "pane_id \<Rightarrow> 'p app_state \<Rightarrow> 'p app_state outcome" where
  "handle_pane_died pane_id s =
     (let s1 = remove_plugin_pane_records [pane_id]
            (s\<lparr>as_pending_agent_notifications := AList.delete pane_id (as_pending_agent_notifications s)\<rparr>)
      in case position (\<lambda>ws. find_tab_index_for_pane ws pane_id \<noteq> None) (as_workspaces s1) of
           None \<Rightarrow> Return s1
         | Some ws_idx \<Rightarrow>
             let s2 = (if is_some_and (as_selection s1) (\<lambda>sel. sel_pane_id sel = pane_id)
                       then s1\<lparr>as_selection := None\<rparr> else s1);
                 pane_terminal_id = terminal_id_for_pane s2 ws_idx pane_id;
                 workspace_terminal_ids = terminal_ids_for_workspace s2 ws_idx;
                 s3 = s2\<lparr>as_pane_id_aliases := filter (\<lambda>(_, alias). alias \<noteq> pane_id) (as_pane_id_aliases s2),
                         as_public_pane_id_aliases :=
                           filter (\<lambda>(_, alias). alias \<noteq> pane_id) (as_public_pane_id_aliases s2)\<rparr>
             in outcome_bind (ws_remove_pane (as_workspaces s3 ! ws_idx) pane_id) (\<lambda>(ws, should_close_workspace).
                let s4 = mark_session_dirty (s3\<lparr>as_workspaces := (as_workspaces s3)[ws_idx := ws]\<rparr>)
                in if should_close_workspace then
                     let s5 = remove_unattached_terminal_ids workspace_terminal_ids
                                (s4\<lparr>as_workspaces := remove_nth ws_idx (as_workspaces s4)\<rparr>);
                         n = length (as_workspaces s5)
                     in if as_workspaces s5 = [] then
                          Return (s5\<lparr>as_active := None, as_selected := 0,
                                     as_mode := (if as_mode s5 = ModeTerminal then ModeNavigate else as_mode s5)\<rparr>)
                        else
                          Return (s5\<lparr>as_active := map_option (\<lambda>active. if n \<le> active then n - 1 else active) (as_active s5),
                                     as_selected := (if n \<le> as_selected s5 then n - 1 else as_selected s5)\<rparr>)
                   else Return (remove_unattached_terminal_ids
                          (case pane_terminal_id of None \<Rightarrow> [] | Some t \<Rightarrow> [t]) s4)))"

section \<open>Zooming\<close>

datatype pane_zoom_command = ZoomToggle | ZoomOn | ZoomOff

datatype pane_zoom_noop_reason = SinglePane | AlreadyZoomed | AlreadyUnzoomed

record pane_zoom_outcome =
  zo_changed :: bool
  zo_focus_changed :: bool
  zo_reason :: "pane_zoom_noop_reason option"
  zo_zoomed :: bool

definition apply_pane_zoom ::
  "nat \<Rightarrow> pane_id \<Rightarrow> pane_zoom_command \<Rightarrow> 'p app_state \<Rightarrow> 'p app_state \<times> pane_zoom_outcome option" where
  "apply_pane_zoom ws_idx pane_id command s =
     (case Option.bind (nth_ws s ws_idx) (\<lambda>ws. find_tab_index_for_pane ws pane_id) of
        None \<Rightarrow> (s, None)
      | Some tab_idx \<Rightarrow>
          let (s1, focus_changed) = focus_pane_in_workspace ws_idx pane_id s
          in case Option.bind (nth_ws s1 ws_idx) (\<lambda>ws. nth_tab ws tab_idx) of
               None \<Rightarrow> (s1, None)
             | Some t \<Rightarrow>
                 let noop = (\<lambda>reason. (s1, Some \<lparr>zo_changed = False, zo_focus_changed = focus_changed,
                       zo_reason = reason, zo_zoomed = tab_zoomed t\<rparr>));
                     desired = (case command of ZoomToggle \<Rightarrow> \<not> tab_zoomed t | ZoomOn \<Rightarrow> True | ZoomOff \<Rightarrow> False);
                     reason = (if command = ZoomOn \<and> tab_zoomed t then Some AlreadyZoomed
                               else if command = ZoomOff \<and> \<not> tab_zoomed t then Some AlreadyUnzoomed else None)
                 in if pane_count (tab_layout t) \<le> 1 then noop (Some SinglePane)
                    else if reason \<noteq> None then noop reason
                    else (mark_session_dirty (modify_ws ws_idx (\<lambda>ws.
                            ws\<lparr>ws_tabs := (ws_tabs ws)[tab_idx := t\<lparr>tab_zoomed := desired\<rparr>]\<rparr>) s1),
                          Some \<lparr>zo_changed = True, zo_focus_changed = focus_changed, zo_reason = None,
                            zo_zoomed = desired\<rparr>))"

end
