(* ===== verification/TabInv.thy ===== *)
theory TabInv
  imports Tabs
begin

text \<open>
  The invariant of a tab and what each of its operations does to the panes: the keys of the pane map are exactly
  the panes of the layout, the root pane is one of them, and every pane is below the counter.
\<close>

definition tab_ids :: "tab \<Rightarrow> pane_id list" where
  "tab_ids t = map fst (tab_panes t)"

text \<open>The panes of a tab with the terminals they show.\<close>

definition tab_entries :: "tab \<Rightarrow> (pane_id \<times> string) list" where
  "tab_entries t = map (\<lambda>(p, s). (p, ps_attached_terminal_id s)) (tab_panes t)"

definition tab_inv :: "u32 \<Rightarrow> tab \<Rightarrow> bool" where
  "tab_inv n t \<longleftrightarrow> layout_inv (tab_layout t) n \<and> distinct (tab_ids t) \<and>
     set (tab_ids t) = set (pane_ids (tab_layout t)) \<and> tab_root_pane t \<in> set (tab_ids t)"

lemma map_fst_entries [simp]: "map fst (tab_entries t) = tab_ids t"
  by (simp add: tab_entries_def tab_ids_def comp_def split_beta)

lemma tab_ids_nonempty: "tab_inv n t \<Longrightarrow> tab_ids t \<noteq> []"
  by (auto simp: tab_inv_def)

lemma tab_inv_mono: "tab_inv n t \<Longrightarrow> n \<le> n' \<Longrightarrow> tab_inv n' t"
  by (auto simp: tab_inv_def layout_inv_def intro: ids_below_mono)

lemma tab_inv_below: "tab_inv n t \<Longrightarrow> i \<in> set (tab_ids t) \<Longrightarrow> i < n"
  by (auto simp: tab_inv_def layout_inv_def ids_below_def)

lemma tab_inv_count:
  assumes "tab_inv n t"
  shows "pane_count (tab_layout t) = length (tab_ids t)"
proof -
  have "distinct (pane_ids (tab_layout t))" using assms by (simp add: tab_inv_def layout_inv_def layout_wf_def)
  then have "length (pane_ids (tab_layout t)) = length (tab_ids t)"
    using assms distinct_card [of "tab_ids t"] distinct_card [of "pane_ids (tab_layout t)"]
    by (simp add: tab_inv_def)
  then show ?thesis by (simp add: pane_count_def count_panes_length pane_ids_def)
qed

lemma contains_tab_ids: "hm_contains (tab_panes t) i \<longleftrightarrow> i \<in> set (tab_ids t)"
  by (simp add: hm_contains_iff tab_ids_def)

lemma lookup_tab_ids: "i \<in> set (tab_ids t) \<longleftrightarrow> (\<exists>s. map_of (tab_panes t) i = Some s)"
  using contains_tab_ids [of t i] by (auto simp: hm_contains_def)

section \<open>A new tab\<close>

lemma launched_terminal_id [simp]: "ts_id (launched_terminal i cwd command) = i"
  by (simp add: launched_terminal_def new_terminal_state_def with_launch_argv_def split: start_command.split)

lemma new_pane_state_terminal [simp]: "ps_attached_terminal_id (new_pane_state i) = i"
  by (simp add: new_pane_state_def)

lemma new_tab_contract:
  assumes "new_tab spawn m number cwd env argv c = (r, c')"
  shows "case r of
      Inl e \<Rightarrow> spawn (next_pane_id c) cwd (argv_start argv) env = Inl e \<and>
        c' = c\<lparr>next_pane_id := next_pane_id c + 1\<rparr>
    | Inr (t, terminal, rt) \<Rightarrow> spawn (next_pane_id c) cwd (argv_start argv) env = Inr rt \<and>
        c' = c\<lparr>next_pane_id := next_pane_id c + 1, next_terminal_id := next_terminal_id c + 1\<rparr> \<and>
        tab_entries t = [(next_pane_id c, terminal_id_text m (next_terminal_id c))] \<and>
        ts_id terminal = terminal_id_text m (next_terminal_id c) \<and> tab_number t = number \<and>
        tab_root_pane t = next_pane_id c \<and>
        (next_pane_id c \<noteq> - 1 \<longrightarrow> tab_inv (next_pane_id c') t)"
proof (cases "spawn (next_pane_id c) cwd (argv_start argv) env")
  case (Inl e)
  with assms show ?thesis by (auto simp: new_tab_def new_layout_def alloc_def)
next
  case (Inr rt)
  have "next_pane_id c < next_pane_id c + 1" if "next_pane_id c \<noteq> - 1"
    by (rule word_less_Suc [OF that])
  with assms Inr show ?thesis
    by (auto simp: new_tab_def new_layout_def alloc_def alloc_terminal_id_def tab_entries_def tab_ids_def
        tab_inv_def layout_inv_def layout_wf_def ids_below_def pane_ids_def Let_def)
qed

section \<open>Splitting\<close>

lemma split_layout_ratio: "\<exists>r'. split_layout n l d r = split_focused_with_ratio n l d r'"
  by (auto simp: split_layout_def split_focused_def split: option.splits)

lemma update_fresh: "k \<notin> fst ` set m \<Longrightarrow> AList.update k v m = m @ [(k, v)]"
  by (induction m) auto

lemma tab_inv_add:
  assumes "tab_inv n t" and "layout_inv l' n'" and "k \<notin> set (tab_ids t)" and "tgt \<in> set (tab_ids t)"
    and "pane_ids l' = insert_after tgt k (pane_ids (tab_layout t))"
    and "t' = t\<lparr>tab_layout := l', tab_panes := AList.update k s (tab_panes t), tab_zoomed := z\<rparr>"
  shows "tab_inv n' t' \<and> tab_entries t' = tab_entries t @ [(k, ps_attached_terminal_id s)]"
proof -
  have panes: "tab_panes t' = tab_panes t @ [(k, s)]"
    using assms(3) unfolding assms(6) by (simp add: tab_ids_def update_fresh)
  then have ids: "tab_ids t' = tab_ids t @ [k]" by (simp add: tab_ids_def)
  have rest: "tab_layout t' = l'" "tab_root_pane t' = tab_root_pane t" by (simp_all add: assms(6))
  have "set (pane_ids (tab_layout t)) = set (tab_ids t)" using assms(1) by (simp add: tab_inv_def)
  then have "set (pane_ids l') = insert k (set (tab_ids t))"
    using assms(4) unfolding assms(5) by (simp add: set_insert_after)
  then show ?thesis using assms(1-3) unfolding tab_inv_def ids rest
    by (auto simp: tab_entries_def panes)
qed

lemma focus_focused: "layout_wf l \<Longrightarrow> focus_pane (l\<lparr>tl_focus := f\<rparr>) (tl_focus l) = l"
  by (simp add: focus_pane_def layout_wf_def pane_ids_def)

lemma split_contract:
  assumes "tab_inv (next_pane_id c) t" and "next_pane_id c \<noteq> - 1"
  shows "\<exists>r t' c'. split_focused_with_runtime spawn m cd d ratio cwd env cmd t c = Return (r, t', c') \<and>
    (case r of
       Inl e \<Rightarrow> t' = t \<and> c' = c\<lparr>next_pane_id := next_pane_id c + 1\<rparr>
     | Inr p \<Rightarrow> np_pane_id p = next_pane_id c \<and> ts_id (np_terminal p) = terminal_id_text m (next_terminal_id c) \<and>
         c' = c\<lparr>next_pane_id := next_pane_id c + 1, next_terminal_id := next_terminal_id c + 1\<rparr> \<and>
         tab_entries t' = tab_entries t @ [(next_pane_id c, terminal_id_text m (next_terminal_id c))] \<and>
         tab_inv (next_pane_id c') t' \<and> tab_number t' = tab_number t \<and> tab_root_pane t' = tab_root_pane t \<and>
         tl_focus (tab_layout t') = next_pane_id c \<and>
         pane_ids (tab_layout t') =
           insert_after (tl_focus (tab_layout t)) (next_pane_id c) (pane_ids (tab_layout t)))"
proof -
  let ?l = "tab_layout t" and ?n = "next_pane_id c"
  obtain r' where sl: "split_layout ?n ?l d ratio = split_focused_with_ratio ?n ?l d r'"
    using split_layout_ratio by blast
  obtain l' i n' where sp: "split_focused_with_ratio ?n ?l d r' = ((l', i), n')" by (metis surj_pair)
  then have i: "i = ?n" and n': "n' = ?n + 1" by (auto simp: split_focused_with_ratio_def alloc_def)
  have inv: "layout_inv ?l ?n" and wf: "layout_wf ?l" and below: "ids_below ?n ?l"
    using assms(1) by (simp_all add: tab_inv_def layout_inv_def)
  note ref = split_focused_refines [OF wf below assms(2) sp]
  note inv' = split_focused_inv [OF inv assms(2) sp]
  show ?thesis
  proof (cases "spawn i (unwrap_or cwd (unwrap_or cd ''/'')) cmd env")
    case (Inl e)
    obtain f where "close_focused l' = Some (?l\<lparr>tl_focus := f\<rparr>, True)"
      using close_after_split [OF wf below sp] by blast
    with Inl show ?thesis
      by (auto simp: split_focused_with_runtime_def sl sp focus_focused [OF wf] n')
  next
    case (Inr rt)
    let ?s = "new_pane_state (terminal_id_text m (next_terminal_id c))"
    have ids: "set (tab_ids t) = set (pane_ids ?l)" using assms(1) by (simp add: tab_inv_def)
    have add: "tab_inv n' t0 \<and> tab_entries t0 = tab_entries t @ [(?n, ps_attached_terminal_id ?s)]"
      if "t0 = t\<lparr>tab_layout := l', tab_panes := AList.update ?n ?s (tab_panes t), tab_zoomed := False\<rparr>" for t0
      by (rule tab_inv_add [OF assms(1) inv' _ _ _ that])
         (use ref wf ids in \<open>simp_all add: i layout_wf_def\<close>)
    show ?thesis using Inr ref add [OF refl] n' i
      by (simp add: split_focused_with_runtime_def sl sp alloc_terminal_id_def Let_def)
  qed
qed

section \<open>Detaching\<close>

lemma focus_pane_layout:
  assumes "layout_inv l n"
  shows "layout_inv (focus_pane l i) n" "pane_ids (focus_pane l i) = pane_ids l"
  using assms by (auto simp: focus_pane_def layout_inv_def layout_wf_def ids_below_def pane_ids_def)

lemma close_layout_pane_contract:
  assumes "layout_inv l n" and "2 \<le> pane_count l" and "i \<in> set (pane_ids l)"
  shows "\<exists>l'. close_layout_pane l i = Return l' \<and> layout_inv l' n \<and>
    pane_ids l' = filter (\<lambda>j. j \<noteq> i) (pane_ids l) \<and>
    (if tl_focus l = i then Some (tl_focus l') = neighbour i (pane_ids l) else tl_focus l' = tl_focus l)"
proof (cases "tl_focus l = i")
  case True
  with close_focused_refines [OF _ assms(2)] assms(1) obtain l' where
    "close_focused l = Some (l', True)" "pane_ids l' = filter (\<lambda>j. j \<noteq> i) (pane_ids l)"
    "Some (tl_focus l') = neighbour i (pane_ids l)" by (auto simp: layout_inv_def)
  with True close_focused_inv [OF assms(1)] show ?thesis by (auto simp: close_layout_pane_def)
next
  case False
  let ?f = "focus_pane l i"
  have f: "layout_inv ?f n" "pane_ids ?f = pane_ids l" "tl_focus ?f = i"
    using focus_pane_layout [OF assms(1), of i] assms(3) by (simp_all add: focus_pane_def)
  then have "2 \<le> pane_count ?f" using assms(2) by (simp add: pane_count_def count_panes_length pane_ids_def)
  with close_focused_refines [of ?f] f obtain l' where
    l': "close_focused ?f = Some (l', True)" "pane_ids l' = filter (\<lambda>j. j \<noteq> i) (pane_ids l)"
    by (auto simp: layout_inv_def)
  have "layout_inv l' n" by (rule close_focused_inv [OF f(1) l'(1)])
  moreover have "tl_focus l \<in> set (pane_ids l')"
    using assms(1) False l'(2) by (simp add: layout_inv_def layout_wf_def)
  ultimately show ?thesis using False l' focus_pane_layout [of l' n "tl_focus l"]
    by (auto simp: close_layout_pane_def focus_pane_def)
qed

text \<open>The next root: another pane of the tab, when the root itself goes.\<close>

lemma promoted_root:
  assumes "tab_inv n t" and "2 \<le> pane_count (tab_layout t)"
  shows "case promoted_root_if_needed t i of
      None \<Rightarrow> tab_root_pane t \<noteq> i
    | Some r \<Rightarrow> r \<noteq> i \<and> r \<in> set (tab_ids t)"
proof (cases "tab_root_pane t = i")
  case True
  have "\<exists>j \<in> set (pane_ids (tab_layout t)). j \<noteq> i"
  proof (rule ccontr)
    assume "\<not> ?thesis"
    then have "set (tab_ids t) \<subseteq> {i}" using assms(1) by (auto simp: tab_inv_def)
    then have "card (set (tab_ids t)) \<le> 1" using card_mono [of "{i}" "set (tab_ids t)"] by simp
    then show False using assms distinct_card [of "tab_ids t"] tab_inv_count [OF assms(1)]
      by (simp add: tab_inv_def)
  qed
  then have "find (\<lambda>j. j \<noteq> i) (pane_ids (tab_layout t)) \<noteq> None" by (auto simp: find_None_iff)
  then obtain r where r: "find (\<lambda>j. j \<noteq> i) (pane_ids (tab_layout t)) = Some r" by auto
  then have "r \<noteq> i \<and> r \<in> set (pane_ids (tab_layout t))" by (auto simp: find_Some_iff)
  with True r assms(1) show ?thesis
    by (simp add: promoted_root_if_needed_def tab_inv_def)
qed (simp add: promoted_root_if_needed_def)

lemma map_fst_delete: "map fst (AList.delete k m) = filter (\<lambda>j. j \<noteq> k) (map fst m)"
  by (induction m) auto

lemma entries_delete:
  "map (\<lambda>(p, s). (p, f s)) (AList.delete k m) = filter (\<lambda>e. fst e \<noteq> k) (map (\<lambda>(p, s). (p, f s)) m)"
  by (induction m) auto

text \<open>What is left of a tab of at least two panes when one of them goes.\<close>

definition without_pane :: "u32 \<Rightarrow> pane_id \<Rightarrow> tab \<Rightarrow> tab \<Rightarrow> bool" where
  "without_pane n i t t' \<longleftrightarrow> tab_inv n t' \<and>
     tab_entries t' = filter (\<lambda>e. fst e \<noteq> i) (tab_entries t) \<and> tab_number t' = tab_number t \<and>
     (tab_root_pane t \<noteq> i \<longrightarrow> tab_root_pane t' = tab_root_pane t) \<and>
     pane_ids (tab_layout t') = filter (\<lambda>j. j \<noteq> i) (pane_ids (tab_layout t)) \<and>
     (tl_focus (tab_layout t) \<noteq> i \<longrightarrow> tl_focus (tab_layout t') = tl_focus (tab_layout t))"

lemma without_paneI:
  assumes "tab_inv n t" and "2 \<le> pane_count (tab_layout t)" and "i \<in> set (tab_ids t)"
    and "close_layout_pane (tab_layout t) i = Return l'"
    and "t' = promote_root (promoted_root_if_needed t i)
      (t\<lparr>tab_layout := l', tab_panes := AList.delete i (tab_panes t), tab_zoomed := False\<rparr>)"
  shows "without_pane n i t t'"
proof -
  have l': "layout_inv l' n" "pane_ids l' = filter (\<lambda>j. j \<noteq> i) (pane_ids (tab_layout t))"
    "tl_focus (tab_layout t) \<noteq> i \<longrightarrow> tl_focus l' = tl_focus (tab_layout t)"
    using close_layout_pane_contract [of "tab_layout t" n i] assms by (auto simp: tab_inv_def)
  have keep: "tab_layout t' = l'" "tab_panes t' = AList.delete i (tab_panes t)" "tab_number t' = tab_number t"
    by (simp_all add: assms(5) promote_root_def split: option.split)
  have ids: "tab_ids t' = filter (\<lambda>j. j \<noteq> i) (tab_ids t)"
    by (simp add: tab_ids_def keep map_fst_delete)
  have root: "tab_root_pane t' \<in> set (filter (\<lambda>j. j \<noteq> i) (tab_ids t))"
    "tab_root_pane t \<noteq> i \<Longrightarrow> tab_root_pane t' = tab_root_pane t"
  proof -
    have "tab_root_pane t' = (case promoted_root_if_needed t i of None \<Rightarrow> tab_root_pane t | Some r \<Rightarrow> r)"
      by (simp add: assms(5) promote_root_def split: option.split)
    with promoted_root [OF assms(1,2), of i] assms(1)
    show "tab_root_pane t' \<in> set (filter (\<lambda>j. j \<noteq> i) (tab_ids t))"
      by (auto simp: tab_inv_def split: option.splits)
    show "tab_root_pane t \<noteq> i \<Longrightarrow> tab_root_pane t' = tab_root_pane t"
      by (simp add: assms(5) promote_root_def promoted_root_if_needed_def)
  qed
  show ?thesis
    using assms(1) l' root
    by (auto simp: without_pane_def tab_inv_def ids keep tab_entries_def entries_delete)
qed

lemma promote_root_fields:
  "tab_panes (promote_root r t) = tab_panes t" "tab_layout (promote_root r t) = tab_layout t"
  "promote_root r (t\<lparr>tab_panes := p, tab_zoomed := z\<rparr>) = promote_root r t\<lparr>tab_panes := p, tab_zoomed := z\<rparr>"
  by (simp_all add: promote_root_def split: option.split)

lemma detach_contract:
  assumes "tab_inv n t" and "2 \<le> pane_count (tab_layout t)"
    and "map_of (tab_panes t) i = Some s"
  shows "\<exists>t'. detach_pane t i = Return (t', Some (i, ps_attached_terminal_id s)) \<and> without_pane n i t t'"
proof -
  have i: "i \<in> set (tab_ids t)" using assms(3) by (auto simp: lookup_tab_ids)
  with close_layout_pane_contract [of "tab_layout t" n i] assms obtain l' where
    l': "close_layout_pane (tab_layout t) i = Return l'" by (auto simp: tab_inv_def)
  from without_paneI [OF assms(1,2) i l' refl] l' assms(2,3) show ?thesis
    by (simp add: detach_pane_def)
qed

lemma take_contract:
  assumes "tab_inv n t" and "2 \<le> pane_count (tab_layout t)"
    and "map_of (tab_panes t) i = Some s"
  shows "\<exists>t'. tab_take_pane_for_move t i = Return (t', Some \<lparr>mp_pane_id = i, mp_pane_state = s\<rparr>) \<and>
    without_pane n i t t'"
proof -
  have i: "i \<in> set (tab_ids t)" using assms(3) by (auto simp: lookup_tab_ids)
  with close_layout_pane_contract [of "tab_layout t" n i] assms obtain l' where
    l': "close_layout_pane (tab_layout t) i = Return l'" by (auto simp: tab_inv_def)
  from without_paneI [OF assms(1,2) i l' refl] l' assms(2,3) i show ?thesis
    by (simp add: tab_take_pane_for_move_def contains_tab_ids promote_root_fields)
qed

lemma take_last_contract:
  assumes "pane_count (tab_layout t) \<le> 1" and "map_of (tab_panes t) i = Some s"
  shows "\<exists>t'. tab_take_pane_for_move t i = Return (t', Some \<lparr>mp_pane_id = i, mp_pane_state = s\<rparr>)"
  using assms by (simp add: tab_take_pane_for_move_def hm_contains_def)

section \<open>Moving in\<close>

definition moved_entry :: "moved_pane \<Rightarrow> pane_id \<times> string" where
  "moved_entry m = (mp_pane_id m, ps_attached_terminal_id (mp_pane_state m))"

lemma from_existing_contract:
  assumes "mp_pane_id m < n"
  shows "tab_inv n (tab_from_existing_pane number label m) \<and>
    tab_entries (tab_from_existing_pane number label m) = [moved_entry m]"
  using assms
  by (simp add: tab_from_existing_pane_def from_saved_def tab_entries_def moved_entry_def tab_inv_def tab_ids_def
      layout_inv_def layout_wf_def ids_below_def pane_ids_def)

lemma insert_contract:
  assumes "tab_inv n t" and "mp_pane_id m < n" and "insert_existing_pane t target m d r = (t', res)"
  shows "if target \<in> set (tab_ids t) \<and> mp_pane_id m \<notin> set (tab_ids t)
    then res = Inr (mp_pane_id m) \<and> tab_inv n t' \<and> tab_entries t' = tab_entries t @ [moved_entry m] \<and>
      tab_number t' = tab_number t \<and> tab_root_pane t' = tab_root_pane t \<and>
      tl_focus (tab_layout t') = mp_pane_id m
    else res = Inl m \<and> t' = t"
proof -
  let ?l = "tab_layout t"
  have wf: "layout_wf ?l" and inv: "layout_inv ?l n" using assms(1) by (auto simp: tab_inv_def layout_inv_def)
  obtain l' b where ins: "insert_pane_near ?l target (mp_pane_id m) d r = (l', b)" by fastforce
  have b: "b \<longleftrightarrow> target \<in> set (tab_ids t) \<and> mp_pane_id m \<notin> set (tab_ids t)"
    using ins assms(1) by (auto simp: insert_pane_near_refines [OF wf] tab_inv_def split: if_splits)
  show ?thesis
  proof (cases b)
    case True
    from insert_pane_near_ids [OF wf] ins True
    have l': "pane_ids l' = insert_after target (mp_pane_id m) (pane_ids ?l)" "tl_focus l' = mp_pane_id m"
      by auto
    have "layout_inv l' n" by (rule insert_pane_near_inv [OF inv assms(2) ins])
    then have add: "tab_inv n t0 \<and> tab_entries t0 = tab_entries t @ [moved_entry m]"
      if "t0 = t\<lparr>tab_layout := l', tab_panes := AList.update (mp_pane_id m) (mp_pane_state m) (tab_panes t),
        tab_zoomed := False\<rparr>" for t0
      unfolding moved_entry_def using b True l'(1)
      by (intro tab_inv_add [OF assms(1) _ _ _ _ that]) auto
    show ?thesis using assms(3) ins True b l'(2) add [OF refl] by (auto simp: insert_existing_pane_def)
  next
    case False
    then have "l' = ?l" using ins by (auto simp: insert_pane_near_refines [OF wf] split: if_splits)
    with assms(3) ins False b show ?thesis by (auto simp: insert_existing_pane_def)
  qed
qed

end
