(* ===== verification/WorkspaceInv.thy ===== *)
theory WorkspaceInv
  imports Workspaces TabInv "HOL-Library.Multiset"
begin

text \<open>
  The invariant of a workspace and the contract of each operation.  \<open>assert_invariants\<close> is the check the
  repository's own tests run after every operation; \<open>ws_inv\<close> is the inductive invariant that implies it.  While a
  pane is on the move, its number may still be registered and the workspace may have no tab: \<open>ws_between\<close>.
\<close>

section \<open>The repository's own check\<close>

definition ws_entries :: "workspace \<Rightarrow> (pane_id \<times> string) list" where
  "ws_entries ws = concat (map tab_entries (ws_tabs ws))"

definition ws_ids :: "workspace \<Rightarrow> pane_id list" where
  "ws_ids ws = map fst (ws_entries ws)"

definition tab_asserts :: "tab \<Rightarrow> bool" where
  "tab_asserts t \<longleftrightarrow>
     0 < tab_number t \<and> hm_contains (tab_panes t) (tab_root_pane t) \<and>
     distinct (pane_ids (tab_layout t)) \<and> tl_focus (tab_layout t) \<in> set (pane_ids (tab_layout t)) \<and>
     set (pane_ids (tab_layout t)) = set (map fst (tab_panes t))"

definition assert_invariants :: "workspace \<Rightarrow> bool" where
  "assert_invariants ws \<longleftrightarrow>
     ws_tabs ws \<noteq> [] \<and> ws_active_tab ws < length (ws_tabs ws) \<and>
     list_all tab_asserts (ws_tabs ws) \<and>
     distinct (map tab_number (ws_tabs ws)) \<and>
     distinct (ws_ids ws) \<and>
     list_all (hm_contains (ws_public_pane_numbers ws)) (ws_ids ws) \<and>
     distinct (map snd (ws_entries ws)) \<and>
     0 < ws_next_public_tab_number ws \<and>
     list_all (\<lambda>t. tab_number t < ws_next_public_tab_number ws) (ws_tabs ws) \<and>
     set (map fst (ws_public_pane_numbers ws)) = set (ws_ids ws) \<and>
     list_all (\<lambda>n. 0 < n \<and> n < ws_next_public_pane_number ws) (hm_values (ws_public_pane_numbers ws)) \<and>
     distinct (hm_values (ws_public_pane_numbers ws)) \<and>
     0 < ws_next_public_pane_number ws"

section \<open>The parts of the invariant\<close>

definition entries_of :: "tab list \<Rightarrow> (pane_id \<times> string) list" where
  "entries_of tabs = concat (map tab_entries tabs)"

definition entries_distinct :: "(pane_id \<times> string) list \<Rightarrow> bool" where
  "entries_distinct es \<longleftrightarrow> distinct (map fst es) \<and> distinct (map snd es)"

definition tabs_inv :: "u32 \<Rightarrow> usize \<Rightarrow> tab list \<Rightarrow> bool" where
  "tabs_inv n next_number tabs \<longleftrightarrow>
     (\<forall>t \<in> set tabs. tab_inv n t \<and> 0 < tab_number t \<and> tab_number t < next_number) \<and>
     distinct (map tab_number tabs) \<and> entries_distinct (entries_of tabs)"

definition numbered :: "(pane_id, usize) hash_map \<Rightarrow> usize \<Rightarrow> pane_id set \<Rightarrow> bool" where
  "numbered pub next_number S \<longleftrightarrow>
     hm_wf pub \<and> set (map fst pub) = S \<and> distinct (map snd pub) \<and>
     (\<forall>n \<in> set (map snd pub). 0 < n \<and> n < next_number)"

text \<open>\<open>X\<close> holds the panes that have left the tabs but not yet their public numbers.\<close>

definition ws_between :: "u32 \<Rightarrow> pane_id set \<Rightarrow> workspace \<Rightarrow> bool" where
  "ws_between n X ws \<longleftrightarrow>
     tabs_inv n (ws_next_public_tab_number ws) (ws_tabs ws) \<and>
     numbered (ws_public_pane_numbers ws) (ws_next_public_pane_number ws) (set (ws_ids ws) \<union> X) \<and>
     X \<inter> set (ws_ids ws) = {} \<and>
     (if ws_tabs ws = [] then ws_active_tab ws = 0 else ws_active_tab ws < length (ws_tabs ws)) \<and>
     0 < ws_next_public_tab_number ws \<and> 0 < ws_next_public_pane_number ws"

definition ws_inv :: "u32 \<Rightarrow> workspace \<Rightarrow> bool" where
  "ws_inv n ws \<longleftrightarrow> ws_between n {} ws \<and> ws_tabs ws \<noteq> []"

lemma ws_entries_of: "ws_entries ws = entries_of (ws_tabs ws)"
  by (simp add: ws_entries_def entries_of_def)

lemma ws_inv_asserts:
  assumes "ws_inv n ws"
  shows "assert_invariants ws"
proof -
  have t: "tab_asserts t" if "tab_inv n t" "0 < tab_number t" for t
    using that
    by (auto simp: tab_inv_def contains_tab_ids layout_inv_def layout_wf_def tab_ids_def tab_asserts_def)
  have "list_all (hm_contains (ws_public_pane_numbers ws)) (ws_ids ws)"
    using assms by (auto simp: ws_inv_def ws_between_def numbered_def hm_contains_iff list_all_iff)
  moreover have "list_all tab_asserts (ws_tabs ws)"
    using assms by (simp only: ws_inv_def ws_between_def tabs_inv_def list_all_iff) (blast intro: t)
  ultimately show ?thesis
    using assms
    by (simp add: ws_inv_def ws_between_def tabs_inv_def numbered_def assert_invariants_def list_all_iff
        ws_entries_of ws_ids_def entries_distinct_def hm_values_def)
qed

section \<open>Entries and numbers\<close>

lemma entries_of_simps [simp]:
  "entries_of [] = []" "entries_of (t # ts) = tab_entries t @ entries_of ts"
  "entries_of (ts @ us) = entries_of ts @ entries_of us"
  by (simp_all add: entries_of_def)

lemma tabs_inv_Nil [simp]: "tabs_inv n k []"
  by (simp add: tabs_inv_def entries_distinct_def)

lemma set_entries: "e \<in> set (entries_of tabs) \<longleftrightarrow> (\<exists>t \<in> set tabs. e \<in> set (tab_entries t))"
  by (auto simp: entries_of_def)

lemma ws_ids_of: "ws_ids ws = concat (map tab_ids (ws_tabs ws))"
  by (simp add: ws_ids_def ws_entries_def map_concat comp_def)

lemma set_ws_ids: "i \<in> set (ws_ids ws) \<longleftrightarrow> (\<exists>t \<in> set (ws_tabs ws). i \<in> set (tab_ids t))"
  by (simp add: ws_ids_of)

lemma entries_update:
  assumes "i < length tabs"
  shows "mset (entries_of (tabs[i := t])) + mset (tab_entries (tabs ! i)) =
    mset (entries_of tabs) + mset (tab_entries t)"
proof -
  have "entries_of tabs = entries_of (take i tabs @ tabs ! i # drop (Suc i) tabs)"
    using assms by (simp add: id_take_nth_drop [symmetric])
  then show ?thesis using assms by (simp add: upd_conv_take_nth_drop)
qed

lemma entries_remove:
  assumes "i < length tabs"
  shows "mset (entries_of tabs) = mset (tab_entries (tabs ! i)) + mset (entries_of (remove_nth i tabs))"
proof -
  have "entries_of tabs = entries_of (take i tabs @ tabs ! i # drop (Suc i) tabs)"
    using assms by (simp add: id_take_nth_drop [symmetric])
  then show ?thesis by (simp add: remove_nth_def)
qed

lemma mset_map_eq: "mset xs = mset ys \<Longrightarrow> mset (map f xs) = mset (map f ys)"
  by simp

lemma entries_distinct_mset: "mset xs = mset ys \<Longrightarrow> entries_distinct xs = entries_distinct ys"
  unfolding entries_distinct_def
  using mset_map_eq [of xs ys fst] mset_map_eq [of xs ys snd] by (metis mset_eq_imp_distinct_iff)

lemma entries_distinct_Cons:
  "entries_distinct ((p, u) # es) \<longleftrightarrow> p \<notin> fst ` set es \<and> u \<notin> snd ` set es \<and> entries_distinct es"
  by (auto simp: entries_distinct_def)

lemma entries_distinct_add:
  assumes "mset ys = add_mset (p, u) (mset xs)"
  shows "entries_distinct ys \<longleftrightarrow> p \<notin> fst ` set xs \<and> u \<notin> snd ` set xs \<and> entries_distinct xs"
  using entries_distinct_mset [of ys "(p, u) # xs"] assms by (simp add: entries_distinct_Cons)

lemma entries_distinct_append:
  "entries_distinct (xs @ ys) \<Longrightarrow> entries_distinct xs \<and> entries_distinct ys"
  by (simp add: entries_distinct_def)

lemma numbered_register:
  assumes "numbered pub k S" and "i \<notin> S" and "k \<noteq> - 1" and "0 < k"
  shows "numbered (AList.update i k pub) (max k (k + 1)) (insert i S)"
proof -
  have "k < k + 1" by (rule word_less_Suc [OF assms(3)])
  moreover have "AList.update i k pub = pub @ [(i, k)]"
    using assms(1,2) by (auto simp: numbered_def intro: update_fresh)
  ultimately show ?thesis using assms
    by (auto simp: numbered_def hm_wf_def max_def dest: less_trans)
qed

lemma numbered_unregister: "numbered pub k S \<Longrightarrow> numbered (AList.delete i pub) k (S - {i})"
  by (induction pub arbitrary: S) (auto simp: numbered_def hm_wf_def AList.delete_eq)

lemma ws_between_mono:
  assumes "ws_between n X ws" and "n \<le> n'"
  shows "ws_between n' X ws"
  using assms by (auto simp: ws_between_def tabs_inv_def intro: tab_inv_mono)

lemma ws_inv_mono: "ws_inv n ws \<Longrightarrow> n \<le> n' \<Longrightarrow> ws_inv n' ws"
  by (auto simp: ws_inv_def intro: ws_between_mono)

text \<open>Replacing a tab by one with the same number.\<close>

lemma tabs_inv_replace:
  assumes "tabs_inv n k tabs" and "i < length tabs" and "n \<le> n'" and "tab_inv n' t"
    and "tab_number t = tab_number (tabs ! i)" and "entries_distinct (entries_of (tabs[i := t]))"
  shows "tabs_inv n' k (tabs[i := t])"
proof -
  have old: "0 < tab_number (tabs ! i) \<and> tab_number (tabs ! i) < k"
    using assms(1,2) by (simp add: tabs_inv_def)
  have "u \<in> set (tabs[i := t]) \<Longrightarrow> u = t \<or> u \<in> set tabs" for u
    using set_update_subset_insert [of tabs i t] by auto
  moreover have "map tab_number (tabs[i := t]) = map tab_number tabs"
    using assms(2,5) by (simp add: map_update list_update_same_conv)
  ultimately show ?thesis using assms old
    unfolding tabs_inv_def by (metis tab_inv_mono)
qed

lemma tabs_inv_remove:
  assumes "tabs_inv n k tabs" and "i < length tabs"
  shows "tabs_inv n k (remove_nth i tabs)"
proof -
  have "entries_distinct (tab_entries (tabs ! i) @ entries_of (remove_nth i tabs))"
    using assms entries_distinct_mset [of "entries_of tabs"] entries_remove [OF assms(2)]
    by (simp add: tabs_inv_def)
  then have "entries_distinct (entries_of (remove_nth i tabs))" by (simp add: entries_distinct_def)
  then show ?thesis using assms(1) set_remove_nth [of i tabs]
    by (auto simp: tabs_inv_def map_remove_nth distinct_remove_nth)
qed

lemma tabs_inv_append:
  assumes "tabs_inv n k tabs" and "k \<noteq> - 1" and "0 < k" and "n \<le> n'" and "tab_inv n' t" and "tab_number t = k"
    and "entries_distinct (entries_of (tabs @ [t]))"
  shows "tabs_inv n' (k + 1) (tabs @ [t])"
proof -
  have "k < k + 1" by (rule word_less_Suc [OF assms(2)])
  with assms show ?thesis
    by (auto simp: tabs_inv_def intro: tab_inv_mono dest: less_trans)
qed

section \<open>Finding the tab of a pane\<close>

lemma find_tab_Some:
  assumes "find_tab_index_for_pane ws i = Some k"
  shows "k < length (ws_tabs ws)" "i \<in> set (tab_ids (ws_tabs ws ! k))"
  using position_holds [OF assms [unfolded find_tab_index_for_pane_def]] by (simp_all add: contains_tab_ids)

lemma find_tab_None: "find_tab_index_for_pane ws i = None \<longleftrightarrow> i \<notin> set (ws_ids ws)"
  by (auto simp: find_tab_index_for_pane_def position_None contains_tab_ids set_ws_ids)

lemma find_tab_exists: "i \<in> set (ws_ids ws) \<Longrightarrow> \<exists>k. find_tab_index_for_pane ws i = Some k"
  using find_tab_None [of ws i] by (cases "find_tab_index_for_pane ws i") auto

lemma between_tab:
  assumes "ws_between n X ws" and "k < length (ws_tabs ws)"
  shows "tab_inv n (ws_tabs ws ! k)"
  using assms by (simp add: ws_between_def tabs_inv_def)

text \<open>The only pane of a tab.\<close>

lemma single_pane:
  assumes "tab_inv n t" and "pane_count (tab_layout t) \<le> 1" and "i \<in> set (tab_ids t)"
  shows "\<exists>s. tab_panes t = [(i, s)]"
proof -
  have "length (tab_ids t) \<le> 1" using tab_inv_count [OF assms(1)] assms(2) by simp
  with assms(3) have "tab_ids t = [i]" by (cases "tab_ids t") auto
  then show ?thesis by (auto simp: tab_ids_def)
qed

end
