(* ===== verification/WorkspaceContract.thy ===== *)
theory WorkspaceContract
  imports WorkspaceInv
begin

text \<open>
  What each operation of a workspace does to the invariant, to its panes and to their public numbers.  The
  operations that start a process draw a pane id and, when the start succeeds, a terminal id: they need counters
  that are not exhausted and a terminal id that is not in use.
\<close>

definition draws :: "bool \<Rightarrow> counters \<Rightarrow> counters \<Rightarrow> bool" where
  "draws started c c' \<longleftrightarrow>
     next_pane_id c' = next_pane_id c + 1 \<and>
     next_terminal_id c' = next_terminal_id c + (if started then 1 else 0) \<and>
     next_workspace_id c' = next_workspace_id c"

definition fresh_terminal :: "nat \<Rightarrow> counters \<Rightarrow> workspace \<Rightarrow> bool" where
  "fresh_terminal m c ws \<longleftrightarrow> terminal_id_text m (next_terminal_id c) \<notin> snd ` set (ws_entries ws)"

definition numbers_left :: "workspace \<Rightarrow> bool" where
  "numbers_left ws \<longleftrightarrow> ws_next_public_pane_number ws \<noteq> - 1 \<and> ws_next_public_tab_number ws \<noteq> - 1"

text \<open>A pane joins a workspace under the next free number; the rest of the numbering stays.\<close>

definition pane_added :: "pane_id \<Rightarrow> string \<Rightarrow> workspace \<Rightarrow> workspace \<Rightarrow> bool" where
  "pane_added p tid ws ws' \<longleftrightarrow>
     mset (ws_entries ws') = add_mset (p, tid) (mset (ws_entries ws)) \<and>
     ws_public_pane_numbers ws' = AList.update p (ws_next_public_pane_number ws) (ws_public_pane_numbers ws) \<and>
     ws_next_public_pane_number ws' = ws_next_public_pane_number ws + 1"

definition pane_gone :: "pane_id \<Rightarrow> workspace \<Rightarrow> workspace \<Rightarrow> bool" where
  "pane_gone p ws ws' \<longleftrightarrow>
     ws_entries ws' = filter (\<lambda>e. fst e \<noteq> p) (ws_entries ws) \<and>
     ws_public_pane_numbers ws' = AList.delete p (ws_public_pane_numbers ws) \<and>
     ws_next_public_pane_number ws' = ws_next_public_pane_number ws \<and>
     ws_next_public_tab_number ws' = ws_next_public_tab_number ws"

lemma mset_add_ids:
  "mset (ws_entries ws') = add_mset (p, tid) (mset (ws_entries ws)) \<Longrightarrow>
    set (ws_ids ws') = insert p (set (ws_ids ws))"
  unfolding ws_ids_def list.set_map by (metis fst_conv image_insert set_mset_add_mset_insert set_mset_mset)

lemma mset_eq_ids: "mset (ws_entries ws') = mset (ws_entries ws) \<Longrightarrow> set (ws_ids ws') = set (ws_ids ws)"
  unfolding ws_ids_def list.set_map by (metis set_mset_mset)

lemma less_plus_one_max: "k \<noteq> - 1 \<Longrightarrow> max k (k + 1) = k + 1" for k :: "'a::len word"
  using word_less_Suc [of k] by (simp add: max_def less_imp_le)

lemma inv_distinct: "ws_between n X ws \<Longrightarrow> entries_distinct (ws_entries ws)"
  by (simp add: ws_between_def tabs_inv_def ws_entries_of)

lemma inv_below: "ws_between n X ws \<Longrightarrow> i \<in> set (ws_ids ws) \<Longrightarrow> i < n"
  by (auto simp: ws_between_def tabs_inv_def set_ws_ids dest: tab_inv_below)

lemma register_fields [simp]:
  "ws_tabs (register_new_pane_with_number p k ws) = ws_tabs ws"
  "ws_id (register_new_pane_with_number p k ws) = ws_id ws"
  "ws_active_tab (register_new_pane_with_number p k ws) = ws_active_tab ws"
  "ws_next_public_tab_number (register_new_pane_with_number p k ws) = ws_next_public_tab_number ws"
  "ws_entries (register_new_pane_with_number p k ws) = ws_entries ws"
  "ws_ids (register_new_pane_with_number p k ws) = ws_ids ws"
  "ws_public_pane_numbers (register_new_pane_with_number p k ws) = AList.update p k (ws_public_pane_numbers ws)"
  "ws_next_public_pane_number (register_new_pane_with_number p k ws) =
     max (ws_next_public_pane_number ws) (k + 1)"
  by (simp_all add: register_new_pane_with_number_def ws_entries_def ws_ids_def)

lemma unregister_fields [simp]:
  "ws_tabs (unregister_pane p ws) = ws_tabs ws"
  "ws_id (unregister_pane p ws) = ws_id ws"
  "ws_active_tab (unregister_pane p ws) = ws_active_tab ws"
  "ws_next_public_tab_number (unregister_pane p ws) = ws_next_public_tab_number ws"
  "ws_next_public_pane_number (unregister_pane p ws) = ws_next_public_pane_number ws"
  "ws_entries (unregister_pane p ws) = ws_entries ws"
  "ws_ids (unregister_pane p ws) = ws_ids ws"
  "ws_public_pane_numbers (unregister_pane p ws) = AList.delete p (ws_public_pane_numbers ws)"
  by (simp_all add: unregister_pane_def ws_entries_def ws_ids_def)

text \<open>The workspace after its tabs have gained a pane and the pane has been registered.\<close>

lemma added_inv:
  assumes "ws_inv n ws" and "p \<notin> set (ws_ids ws)" and "numbers_left ws"
    and "tabs_inv n' k tabs'" and "0 < k" and "active < length tabs'"
    and "mset (entries_of tabs') = add_mset (p, tid) (mset (ws_entries ws))"
    and "ws' = register_new_pane_with_number p (ws_next_public_pane_number ws) ws1"
    and "ws_tabs ws1 = tabs'" and "ws_active_tab ws1 = active" and "ws_next_public_tab_number ws1 = k"
    and "ws_public_pane_numbers ws1 = ws_public_pane_numbers ws"
    and "ws_next_public_pane_number ws1 = ws_next_public_pane_number ws"
  shows "ws_inv n' ws' \<and> pane_added p tid ws ws'"
proof -
  have tabs: "ws_tabs ws' = tabs'" "ws_active_tab ws' = active" "ws_next_public_tab_number ws' = k"
    by (simp_all add: assms)
  have "mset (ws_entries ws') = add_mset (p, tid) (mset (ws_entries ws))"
    using assms(7) by (simp add: ws_entries_of tabs)
  moreover have "numbered (ws_public_pane_numbers ws') (ws_next_public_pane_number ws') (insert p (set (ws_ids ws)))"
    using assms(1,2,3) numbered_register [of "ws_public_pane_numbers ws" "ws_next_public_pane_number ws"]
    by (simp add: assms(8,12,13) ws_inv_def ws_between_def numbers_left_def)
  moreover have "0 < ws_next_public_pane_number ws'"
    using assms(1,3) by (simp add: assms(8,13) ws_inv_def ws_between_def less_max_iff_disj)
  moreover have "tabs' \<noteq> []" using assms(6) by auto
  ultimately show ?thesis
    using assms(4,5,6) mset_add_ids [of ws' p tid ws] assms(3)
    by (simp add: ws_inv_def ws_between_def tabs pane_added_def assms(8-13) numbers_left_def less_plus_one_max)
qed

section \<open>New panes\<close>

lemma active_tab_inv:
  assumes "ws_inv n ws"
  shows "active_tab ws = Some (ws_tabs ws ! ws_active_tab ws)" "ws_active_tab ws < length (ws_tabs ws)"
  using assms by (auto simp: ws_inv_def ws_between_def active_tab_def nth_tab_def)

lemma create_tab_contract:
  assumes inv: "ws_inv (next_pane_id c) ws" and "next_pane_id c \<noteq> - 1" and left: "numbers_left ws"
    and "fresh_terminal m c ws"
  shows "\<exists>r ws' c'. create_tab_with_runtime spawn m cwd argv env ws c = Return (r, ws', c') \<and>
    ws_inv (next_pane_id c') ws' \<and> ws_id ws' = ws_id ws \<and> ws_active_tab ws' = ws_active_tab ws \<and>
    ws_next_public_tab_number ws' = ws_next_public_tab_number ws + 1 \<and> draws (\<not> isl r) c c' \<and>
    (case r of
       Inl e \<Rightarrow> ws' = ws\<lparr>ws_next_public_tab_number := ws_next_public_tab_number ws + 1\<rparr>
     | Inr (idx, terminal, rt) \<Rightarrow> idx = length (ws_tabs ws) \<and> (\<exists>t. ws_tabs ws' = ws_tabs ws @ [t]) \<and>
         ts_id terminal = terminal_id_text m (next_terminal_id c) \<and>
         pane_added (next_pane_id c) (terminal_id_text m (next_terminal_id c)) ws ws')"
proof -
  let ?k = "ws_next_public_tab_number ws" and ?n = "next_pane_id c"
  let ?tid = "terminal_id_text m (next_terminal_id c)"
  let ?ws1 = "ws\<lparr>ws_next_public_tab_number := ?k + 1\<rparr>"
  let ?env = "launch_env_for_new_pane ?ws1 ?k (ws_next_public_pane_number ws) env"
  have act: "active_tab ?ws1 = Some (ws_tabs ws ! ws_active_tab ws)"
    using active_tab_inv [OF inv] by (simp add: active_tab_def nth_tab_def)
  have k: "?k \<noteq> - 1" "0 < ?k" and less: "?k < ?k + 1" and tabs: "tabs_inv ?n ?k (ws_tabs ws)"
    using left inv word_less_Suc [of ?k] by (auto simp: numbers_left_def ws_inv_def ws_between_def)
  have pos: "0 < ?k + 1" using k(2) less by (rule less_trans)
  obtain r c' where new: "new_tab spawn m ?k cwd ?env argv c = (r, c')" by fastforce
  show ?thesis
  proof (cases r)
    case (Inl e)
    have c': "c' = c\<lparr>next_pane_id := ?n + 1\<rparr>" using new_tab_contract [OF new] Inl by simp
    have n: "?n \<le> next_pane_id c'" using word_less_Suc [OF assms(2)] by (simp add: c' less_imp_le)
    have "tabs_inv ?n (?k + 1) (ws_tabs ws)" using tabs less by (auto simp: tabs_inv_def dest: less_trans)
    then have "ws_inv (next_pane_id c') ?ws1"
      using inv pos n
      by (auto simp: ws_inv_def ws_between_def ws_ids_def ws_entries_def tabs_inv_def intro: tab_inv_mono)
    then show ?thesis using new Inl c' act
      by (auto simp: create_tab_with_runtime_def Let_def draws_def)
  next
    case (Inr x)
    obtain t terminal rt where x: "x = (t, terminal, rt)" by (cases x)
    from new_tab_contract [OF new] Inr x assms(2)
    have c': "c' = c\<lparr>next_pane_id := ?n + 1, next_terminal_id := next_terminal_id c + 1\<rparr>"
      and t: "tab_entries t = [(?n, ?tid)]" "tab_number t = ?k" "tab_root_pane t = ?n" "tab_inv (next_pane_id c') t"
      and named: "ts_id terminal = ?tid" by auto
    have n: "?n \<le> next_pane_id c'" using word_less_Suc [OF assms(2)] by (simp add: c' less_imp_le)
    have new_id: "?n \<notin> set (ws_ids ws)" using inv_below inv by (auto simp: ws_inv_def)
    have "entries_distinct (entries_of (ws_tabs ws @ [t]))"
      using entries_distinct_add [of "entries_of (ws_tabs ws @ [t])" ?n ?tid "ws_entries ws"] inv new_id assms(4)
      by (auto simp: t ws_entries_of fresh_terminal_def ws_ids_def ws_inv_def dest: inv_distinct)
    from tabs_inv_append [OF tabs k n t(4) t(2) this]
    have app: "tabs_inv (next_pane_id c') (?k + 1) (ws_tabs ws @ [t])" .
    let ?ws2 = "register_new_pane_with_number ?n (ws_next_public_pane_number ws) (?ws1\<lparr>ws_tabs := ws_tabs ws @ [t]\<rparr>)"
    have added: "ws_inv (next_pane_id c') ?ws2 \<and> pane_added ?n ?tid ws ?ws2"
      by (rule added_inv [OF inv new_id left app pos _ _ refl])
         (use active_tab_inv(2) [OF inv] in \<open>simp_all add: ws_entries_of t\<close>)
    have "create_tab_with_runtime spawn m cwd argv env ws c =
        Return (Inr (length (ws_tabs ws), terminal, rt), ?ws2, c')"
      using new Inr x act
      by (simp add: create_tab_with_runtime_def Let_def register_new_pane_with_number_def t(3))
    with added named show ?thesis by (auto simp: Inr c' draws_def)
  qed
qed

lemma focus_tab_pane_inv:
  assumes "tab_inv n t"
  shows "tab_inv n (focus_tab_pane t i)"
  using assms focus_pane_layout [of "tab_layout t" n i] by (auto simp: tab_inv_def focus_tab_pane_def tab_ids_def)

lemma focus_tab_pane_fields [simp]:
  "tab_entries (focus_tab_pane t i) = tab_entries t" "tab_number (focus_tab_pane t i) = tab_number t"
  "tab_ids (focus_tab_pane t i) = tab_ids t" "tab_panes (focus_tab_pane t i) = tab_panes t"
  "tab_root_pane (focus_tab_pane t i) = tab_root_pane t" "tab_zoomed (focus_tab_pane t i) = tab_zoomed t"
  by (simp_all add: focus_tab_pane_def tab_entries_def tab_ids_def)

lemma focus_back:
  assumes "tab_inv n t"
  shows "focus_tab_pane (focus_tab_pane t i) (tl_focus (tab_layout t)) = t"
  using assms by (simp add: focus_tab_pane_def focus_pane_def tab_inv_def layout_inv_def layout_wf_def pane_ids_def)

text \<open>A pane joins the tab at an index.\<close>

lemma replaced_added:
  assumes inv: "ws_inv n ws" and i: "i < length (ws_tabs ws)" and "n \<le> n'" and "tab_inv n' t"
    and num: "tab_number t = tab_number (ws_tabs ws ! i)"
    and ent: "mset (tab_entries t) = add_mset (p, tid) (mset (tab_entries (ws_tabs ws ! i)))"
    and new: "p \<notin> set (ws_ids ws)" "tid \<notin> snd ` set (ws_entries ws)" and left: "numbers_left ws"
  shows "ws_inv n' (register_new_pane_with_number p (ws_next_public_pane_number ws)
      (ws\<lparr>ws_tabs := (ws_tabs ws)[i := t]\<rparr>)) \<and>
    pane_added p tid ws (register_new_pane_with_number p (ws_next_public_pane_number ws)
      (ws\<lparr>ws_tabs := (ws_tabs ws)[i := t]\<rparr>))"
proof -
  let ?tabs = "(ws_tabs ws)[i := t]"
  have es: "mset (entries_of ?tabs) = add_mset (p, tid) (mset (ws_entries ws))"
    using entries_update [OF i, of t] by (simp add: ent ws_entries_of)
  then have "entries_distinct (entries_of ?tabs)"
    using entries_distinct_add [OF es] inv new by (auto simp: ws_inv_def ws_ids_def dest: inv_distinct)
  then have "tabs_inv n' (ws_next_public_tab_number ws) ?tabs"
    using tabs_inv_replace [OF _ i assms(3,4) num] inv by (simp add: ws_inv_def ws_between_def)
  then show ?thesis
    by (rule added_inv [OF inv new(1) left _ _ _ es refl])
       (use inv active_tab_inv(2) [OF inv] in \<open>simp_all add: ws_inv_def ws_between_def\<close>)
qed

lemma split_pane_contract:
  assumes inv: "ws_inv (next_pane_id c) ws" and n: "next_pane_id c \<noteq> - 1" and left: "numbers_left ws"
    and fresh: "fresh_terminal m c ws"
  shows "\<exists>r ws' c'.
    split_pane_with_runtime spawn m cd p d ratio cwd env focus argv ws c = Return (r, ws', c') \<and>
    ws_inv (next_pane_id c') ws' \<and> ws_id ws' = ws_id ws \<and> ws_active_tab ws' = ws_active_tab ws \<and>
    length (ws_tabs ws') = length (ws_tabs ws) \<and>
    ws_next_public_tab_number ws' = ws_next_public_tab_number ws \<and>
    (case r of
       None \<Rightarrow> p \<notin> set (ws_ids ws) \<and> ws' = ws \<and> c' = c
     | Some (Inl e) \<Rightarrow> p \<in> set (ws_ids ws) \<and> ws' = ws \<and> draws False c c'
     | Some (Inr (idx, pane)) \<Rightarrow> find_tab_index_for_pane ws p = Some idx \<and> np_pane_id pane = next_pane_id c \<and>
         ts_id (np_terminal pane) = terminal_id_text m (next_terminal_id c) \<and> draws True c c' \<and>
         pane_added (next_pane_id c) (terminal_id_text m (next_terminal_id c)) ws ws' \<and>
         tl_focus (tab_layout (ws_tabs ws' ! idx)) =
           (if focus then next_pane_id c else tl_focus (tab_layout (ws_tabs ws ! idx))) \<and>
         pane_ids (tab_layout (ws_tabs ws' ! idx)) =
           insert_after p (next_pane_id c) (pane_ids (tab_layout (ws_tabs ws ! idx))))"
proof (cases "find_tab_index_for_pane ws p")
  case None
  then have "p \<notin> set (ws_ids ws)" by (rule iffD1 [OF find_tab_None])
  with inv None show ?thesis by (simp add: split_pane_with_runtime_def)
next
  case (Some idx)
  let ?n = "next_pane_id c" and ?tid = "terminal_id_text m (next_terminal_id c)" and ?t = "ws_tabs ws ! idx"
  let ?t1 = "focus_tab_pane ?t p" and ?k = "ws_next_public_pane_number ws"
  have i: "idx < length (ws_tabs ws)" and p: "p \<in> set (tab_ids ?t)" using find_tab_Some [OF Some] by auto
  have t: "tab_inv ?n ?t" using between_tab [OF _ i] inv by (auto simp: ws_inv_def)
  have foc: "tl_focus (tab_layout ?t1) = p" "pane_ids (tab_layout ?t1) = pane_ids (tab_layout ?t)"
    using t p by (auto simp: focus_tab_pane_def focus_pane_def tab_inv_def pane_ids_def)
  have mem: "p \<in> set (ws_ids ws)" using p i by (auto simp: set_ws_ids)
  have new: "?n \<notin> set (ws_ids ws)" "?tid \<notin> snd ` set (ws_entries ws)"
    using inv_below inv fresh by (auto simp: ws_inv_def fresh_terminal_def)
  obtain r t2 c' where
    run: "split_focused_with_runtime spawn m cd d ratio cwd (launch_env_for_new_pane ws (tab_number ?t) ?k env)
        (argv_start argv) ?t1 c = Return (r, t2, c')"
    and res: "case r of
       Inl e \<Rightarrow> t2 = ?t1 \<and> c' = c\<lparr>next_pane_id := ?n + 1\<rparr>
     | Inr q \<Rightarrow> np_pane_id q = ?n \<and> ts_id (np_terminal q) = ?tid \<and>
         c' = c\<lparr>next_pane_id := ?n + 1, next_terminal_id := next_terminal_id c + 1\<rparr> \<and>
         tab_entries t2 = tab_entries ?t1 @ [(?n, ?tid)] \<and> tab_inv (next_pane_id c') t2 \<and>
         tab_number t2 = tab_number ?t1 \<and> tab_root_pane t2 = tab_root_pane ?t1 \<and>
         tl_focus (tab_layout t2) = ?n \<and>
         pane_ids (tab_layout t2) = insert_after (tl_focus (tab_layout ?t1)) ?n (pane_ids (tab_layout ?t1))"
    using split_contract [OF focus_tab_pane_inv [OF t, of p] n] by blast
  have le: "?n \<le> ?n + 1" using word_less_Suc [OF n] by (simp add: less_imp_le)
  show ?thesis
  proof (cases r)
    case (Inl e)
    then have "t2 = ?t1" and c': "c' = c\<lparr>next_pane_id := ?n + 1\<rparr>" using res by auto
    then have "split_pane_with_runtime spawn m cd p d ratio cwd env focus argv ws c = Return (Some (Inl e), ws, c')"
      using run Inl by (simp add: split_pane_with_runtime_def Some focus_back [OF t] Let_def)
    with c' ws_inv_mono [OF inv le] mem show ?thesis by (auto simp: draws_def)
  next
    case (Inr pane)
    with res have q: "np_pane_id pane = ?n" "ts_id (np_terminal pane) = ?tid"
      and c': "c' = c\<lparr>next_pane_id := ?n + 1, next_terminal_id := next_terminal_id c + 1\<rparr>"
      and t2: "tab_entries t2 = tab_entries ?t @ [(?n, ?tid)]" "tab_inv (next_pane_id c') t2"
        "tab_number t2 = tab_number ?t" "tl_focus (tab_layout t2) = ?n"
        "pane_ids (tab_layout t2) = insert_after p ?n (pane_ids (tab_layout ?t))"
      by (auto simp: foc)
    let ?t3 = "if focus then t2 else focus_tab_pane t2 (tl_focus (tab_layout ?t))"
    let ?ws' = "register_new_pane_with_number ?n ?k (ws\<lparr>ws_tabs := (ws_tabs ws)[idx := ?t3]\<rparr>)"
    have "tl_focus (tab_layout ?t) \<in> set (pane_ids (tab_layout t2))"
      using t by (simp add: t2(5) set_insert_after tab_inv_def layout_inv_def layout_wf_def)
    then have t3: "tl_focus (tab_layout ?t3) = (if focus then ?n else tl_focus (tab_layout ?t))"
      "pane_ids (tab_layout ?t3) = insert_after p ?n (pane_ids (tab_layout ?t))"
      using t2(4,5) by (auto simp: focus_tab_pane_def focus_pane_def pane_ids_def)
    have "tab_inv (next_pane_id c') ?t3" using t2(2) by (simp add: focus_tab_pane_inv)
    then have inv': "ws_inv (next_pane_id c') ?ws' \<and> pane_added ?n ?tid ws ?ws'"
      by (intro replaced_added [OF inv i _ _ _ _ new left]) (simp_all add: c' le t2(1,3))
    have "split_pane_with_runtime spawn m cd p d ratio cwd env focus argv ws c =
        Return (Some (Inr (idx, pane)), ?ws', c')"
      using run Inr by (simp add: split_pane_with_runtime_def Some Let_def q)
    with inv' c' q Some i t3 show ?thesis by (simp add: draws_def)
  qed
qed

lemma split_command_contract:
  assumes inv: "ws_inv (next_pane_id c) ws" and n: "next_pane_id c \<noteq> - 1" and left: "numbers_left ws"
    and fresh: "fresh_terminal m c ws"
  shows "\<exists>r ws' c'.
    ws_split_focused_command spawn m cd d cwd command env ws c = Return (r, ws', c') \<and>
    ws_inv (next_pane_id c') ws' \<and> ws_id ws' = ws_id ws \<and> ws_active_tab ws' = ws_active_tab ws \<and>
    ws_next_public_tab_number ws' = ws_next_public_tab_number ws \<and> draws (\<not> isl r) c c' \<and>
    (case r of
       Inl e \<Rightarrow> ws' = ws
     | Inr pane \<Rightarrow> np_pane_id pane = next_pane_id c \<and>
         ts_id (np_terminal pane) = terminal_id_text m (next_terminal_id c) \<and>
         pane_added (next_pane_id c) (terminal_id_text m (next_terminal_id c)) ws ws')"
proof -
  let ?n = "next_pane_id c" and ?tid = "terminal_id_text m (next_terminal_id c)"
  let ?i = "ws_active_tab ws" and ?k = "ws_next_public_pane_number ws"
  let ?t = "ws_tabs ws ! ?i"
  note act = active_tab_inv [OF inv]
  have t: "tab_inv ?n ?t" using between_tab [OF _ act(2)] inv by (auto simp: ws_inv_def)
  have new: "?n \<notin> set (ws_ids ws)" "?tid \<notin> snd ` set (ws_entries ws)"
    using inv_below inv fresh by (auto simp: ws_inv_def fresh_terminal_def)
  have le: "?n \<le> ?n + 1" using word_less_Suc [OF n] by (simp add: less_imp_le)
  obtain r t' c' where
    run: "split_focused_with_runtime spawn m cd d None cwd (launch_env_for_new_pane ws (tab_number ?t) ?k env)
        (StartShellCommand command) ?t c = Return (r, t', c')"
    and res: "case r of
       Inl e \<Rightarrow> t' = ?t \<and> c' = c\<lparr>next_pane_id := ?n + 1\<rparr>
     | Inr q \<Rightarrow> np_pane_id q = ?n \<and> ts_id (np_terminal q) = ?tid \<and>
         c' = c\<lparr>next_pane_id := ?n + 1, next_terminal_id := next_terminal_id c + 1\<rparr> \<and>
         tab_entries t' = tab_entries ?t @ [(?n, ?tid)] \<and> tab_inv (next_pane_id c') t' \<and>
         tab_number t' = tab_number ?t \<and> tab_root_pane t' = tab_root_pane ?t \<and>
         tl_focus (tab_layout t') = ?n \<and>
         pane_ids (tab_layout t') = insert_after (tl_focus (tab_layout ?t)) ?n (pane_ids (tab_layout ?t))"
    using split_contract [OF t n] by blast
  show ?thesis
  proof (cases r)
    case (Inl e)
    with run res ws_inv_mono [OF inv le] show ?thesis
      by (simp add: ws_split_focused_command_def act(1) Let_def draws_def)
  next
    case (Inr pane)
    with res have q: "np_pane_id pane = ?n" "ts_id (np_terminal pane) = ?tid"
      and c': "c' = c\<lparr>next_pane_id := ?n + 1, next_terminal_id := next_terminal_id c + 1\<rparr>"
      and t': "tab_entries t' = tab_entries ?t @ [(?n, ?tid)]" "tab_inv (next_pane_id c') t'"
        "tab_number t' = tab_number ?t" by auto
    let ?ws' = "register_new_pane_with_number ?n ?k (ws\<lparr>ws_tabs := (ws_tabs ws)[?i := t']\<rparr>)"
    have "ws_inv (next_pane_id c') ?ws' \<and> pane_added ?n ?tid ws ?ws'"
      by (rule replaced_added [OF inv act(2) _ t'(2,3) _ new left]) (simp_all add: c' le t'(1))
    with run Inr q c' show ?thesis
      by (simp add: ws_split_focused_command_def act(1) Let_def draws_def)
  qed
qed

end
