(* ===== verification/WorkspaceMoves.thy ===== *)
theory WorkspaceMoves
  imports WorkspaceContract
begin

text \<open>
  The contracts of the operations that take tabs and panes away, reorder them, or move a pane between tabs and
  workspaces; and the fact all operations share, that a public number is given out once.
\<close>

section \<open>Tabs\<close>

lemma mark_panes_seen_fields [simp]:
  "tab_entries (mark_panes_seen t) = tab_entries t" "tab_number (mark_panes_seen t) = tab_number t"
  "tab_ids (mark_panes_seen t) = tab_ids t" "tab_layout (mark_panes_seen t) = tab_layout t"
  "tab_root_pane (mark_panes_seen t) = tab_root_pane t"
  by (auto simp: mark_panes_seen_def tab_entries_def tab_ids_def)

lemma mark_panes_seen_inv: "tab_inv n (mark_panes_seen t) = tab_inv n t"
  by (simp add: tab_inv_def)

lemma entries_of_update_same:
  "i < length tabs \<Longrightarrow> tab_entries t = tab_entries (tabs ! i) \<Longrightarrow> entries_of (tabs[i := t]) = entries_of tabs"
  by (simp add: entries_of_def map_update) (metis list_update_id nth_map)

text \<open>A tab replaced by one with the same panes and number.\<close>

lemma same_panes_inv:
  assumes inv: "ws_inv n ws" and i: "i < length (ws_tabs ws)" and "tab_inv n t"
    and "tab_entries t = tab_entries (ws_tabs ws ! i)" and "tab_number t = tab_number (ws_tabs ws ! i)"
    and "a < length (ws_tabs ws)"
  shows "ws_inv n (ws\<lparr>ws_active_tab := a, ws_tabs := (ws_tabs ws)[i := t]\<rparr>)"
proof -
  have es: "entries_of ((ws_tabs ws)[i := t]) = ws_entries ws"
    using entries_of_update_same [OF i assms(4)] by (simp add: ws_entries_of)
  have "tabs_inv n (ws_next_public_tab_number ws) ((ws_tabs ws)[i := t])"
  proof (rule tabs_inv_replace [OF _ i order_refl assms(3,5)])
    from inv have b: "ws_between n {} ws" by (simp add: ws_inv_def)
    then show "tabs_inv n (ws_next_public_tab_number ws) (ws_tabs ws)" by (simp add: ws_between_def)
    show "entries_distinct (entries_of ((ws_tabs ws)[i := t]))" unfolding es by (rule inv_distinct [OF b])
  qed
  then show ?thesis using inv assms(6)
    by (auto simp: ws_inv_def ws_between_def ws_ids_def ws_entries_of es [unfolded ws_entries_of])
qed

lemma switch_tab_inv:
  assumes "ws_inv n ws"
  shows "ws_inv n (switch_tab ws i) \<and> ws_entries (switch_tab ws i) = ws_entries ws"
proof (cases "i < length (ws_tabs ws)")
  case True
  have "tab_inv n (ws_tabs ws ! i)" using between_tab [OF _ True] assms by (auto simp: ws_inv_def)
  then have "ws_inv n (ws\<lparr>ws_active_tab := i, ws_tabs := (ws_tabs ws)[i := mark_panes_seen (ws_tabs ws ! i)]\<rparr>)"
    by (intro same_panes_inv [OF assms True]) (simp_all add: mark_panes_seen_inv True)
  with True show ?thesis
    by (simp add: switch_tab_def ws_entries_of entries_of_update_same)
qed (use assms in \<open>simp add: switch_tab_def\<close>)

lemma numbered_fold:
  "numbered pub k S \<Longrightarrow> numbered (fold AList.delete is pub) k (S - set is)"
proof (induction "is" arbitrary: pub S)
  case (Cons i "is")
  from Cons.IH [OF numbered_unregister [OF Cons.prems]] show ?case by (simp add: Diff_insert2 [symmetric])
qed simp

lemma fold_unregister:
  "fold unregister_pane is ws = ws\<lparr>ws_public_pane_numbers := fold AList.delete is (ws_public_pane_numbers ws)\<rparr>"
  by (induction "is" arbitrary: ws) (simp_all add: unregister_pane_def)

lemma set_fold_delete: "set (fold AList.delete is m) = {e \<in> set m. fst e \<notin> set is}"
  by (induction "is" arbitrary: m) (auto simp: AList.delete_eq)

lemma active_after_removal:
  assumes "a < Suc len" and "i < Suc len" and "0 < len"
  shows "active_after_removal a i len < len"
    "a \<noteq> i \<Longrightarrow> length xs = Suc len \<Longrightarrow> remove_nth i xs ! active_after_removal a i len = xs ! a"
proof -
  show "active_after_removal a i len < len" using assms by (auto simp: active_after_removal_def)
  show "remove_nth i xs ! active_after_removal a i len = xs ! a" if "a \<noteq> i" "length xs = Suc len"
  proof (cases "len \<le> a")
    case True
    with assms(1) have "a = len" by simp
    with that assms show ?thesis by (auto simp: active_after_removal_def nth_remove_nth)
  next
    case False
    with that assms show ?thesis by (auto simp: active_after_removal_def nth_remove_nth)
  qed
qed

text \<open>The ids of the tab that goes are those of no other tab.\<close>

lemma removed_ids:
  assumes "tabs_inv n k tabs" and "i < length tabs"
  shows "set (map fst (entries_of (remove_nth i tabs))) = set (map fst (entries_of tabs)) - set (tab_ids (tabs ! i))"
proof -
  have m: "mset (map fst (entries_of tabs)) =
      mset (tab_ids (tabs ! i) @ map fst (entries_of (remove_nth i tabs)))"
    using entries_remove [OF assms(2)] by (metis map_append map_fst_entries mset_append mset_map)
  then have "distinct (tab_ids (tabs ! i) @ map fst (entries_of (remove_nth i tabs)))"
    using assms(1) mset_eq_imp_distinct_iff [OF m] by (simp only: tabs_inv_def entries_distinct_def)
  moreover have "set (map fst (entries_of tabs)) =
      set (tab_ids (tabs ! i)) \<union> set (map fst (entries_of (remove_nth i tabs)))"
    using m by (metis set_append set_mset_mset)
  ultimately show ?thesis by auto
qed

lemma remove_tab_inv:
  assumes inv: "ws_inv n ws" and i: "i < length (ws_tabs ws)" and two: "1 < length (ws_tabs ws)"
    and tabs: "ws_tabs ws' = remove_nth i (ws_tabs ws)"
    and pub: "ws_public_pane_numbers ws' = fold AList.delete (tab_ids (ws_tabs ws ! i)) (ws_public_pane_numbers ws)"
    and act: "ws_active_tab ws' = active_after_removal (ws_active_tab ws) i (length (ws_tabs ws) - 1)"
    and nxt: "ws_next_public_pane_number ws' = ws_next_public_pane_number ws"
      "ws_next_public_tab_number ws' = ws_next_public_tab_number ws"
  shows "ws_inv n ws'"
proof -
  have len: "length (ws_tabs ws') = length (ws_tabs ws) - 1" by (simp add: tabs length_remove_nth [OF i])
  have ti: "tabs_inv n (ws_next_public_tab_number ws) (ws_tabs ws)"
    using inv by (simp add: ws_inv_def ws_between_def)
  have "numbered (ws_public_pane_numbers ws') (ws_next_public_pane_number ws) (set (ws_ids ws'))"
    using removed_ids [OF ti i] numbered_fold inv
    by (auto simp: ws_inv_def ws_between_def ws_ids_def ws_entries_of tabs pub)
  moreover have "active_after_removal (ws_active_tab ws) i (length (ws_tabs ws) - 1) < length (ws_tabs ws) - 1"
    using i two active_tab_inv(2) [OF inv] by (intro active_after_removal) auto
  moreover have "ws_tabs ws' \<noteq> []" using len two by auto
  ultimately show ?thesis
    using inv tabs_inv_remove [OF ti i] by (simp add: ws_inv_def ws_between_def nxt act tabs length_remove_nth [OF i])
qed

lemma close_tab_contract:
  assumes inv: "ws_inv n ws"
  shows "ws_inv n (fst (close_tab ws i)) \<and>
    (if snd (close_tab ws i)
     then i < length (ws_tabs ws) \<and> 1 < length (ws_tabs ws) \<and>
       ws_tabs (fst (close_tab ws i)) = remove_nth i (ws_tabs ws) \<and>
       ws_active_tab (fst (close_tab ws i)) =
         active_after_removal (ws_active_tab ws) i (length (ws_tabs ws) - 1) \<and>
       ws_public_pane_numbers (fst (close_tab ws i)) =
         fold AList.delete (tab_ids (ws_tabs ws ! i)) (ws_public_pane_numbers ws)
     else fst (close_tab ws i) = ws)"
proof (cases "length (ws_tabs ws) \<le> 1 \<or> length (ws_tabs ws) \<le> i")
  case True
  with inv show ?thesis by (auto simp: close_tab_def)
next
  case False
  then have i: "i < length (ws_tabs ws)" and two: "1 < length (ws_tabs ws)" by auto
  have eq: "close_tab ws i = (ws\<lparr>ws_tabs := remove_nth i (ws_tabs ws),
      ws_public_pane_numbers := fold AList.delete (tab_ids (ws_tabs ws ! i)) (ws_public_pane_numbers ws),
      ws_active_tab := active_after_removal (ws_active_tab ws) i (length (ws_tabs ws) - 1)\<rparr>, True)"
    using False by (simp add: close_tab_def fold_unregister tab_ids_def length_remove_nth [OF i] Let_def)
  show ?thesis unfolding eq using remove_tab_inv [OF inv i two] i two by simp
qed

section \<open>Reordering\<close>

lemma mset_move:
  assumes "i < length xs"
  shows "mset (insert_nth j (xs ! i) (remove_nth i xs)) = mset xs"
proof -
  have "mset (insert_nth j x ys) = add_mset x (mset (take j ys @ drop j ys))" for x :: 'a and ys
    unfolding insert_nth_def by (simp only: mset_append mset.simps union_mset_add_mset_right)
  moreover have "mset xs = mset (take i xs @ xs ! i # drop (Suc i) xs)"
    using id_take_nth_drop [OF assms] by simp
  then have "add_mset (xs ! i) (mset (remove_nth i xs)) = mset xs" by (simp add: remove_nth_def)
  ultimately show ?thesis by simp
qed

lemma nth_insert_nth: "j \<le> length xs \<Longrightarrow> insert_nth j x xs ! j = x"
  by (simp add: insert_nth_def nth_append)

lemma mset_entries_of: "mset tabs = mset tabs' \<Longrightarrow> mset (entries_of tabs) = mset (entries_of tabs')"
proof -
  have "mset (entries_of ts) = sum_mset (image_mset (\<lambda>t. mset (tab_entries t)) (mset ts))" for ts
    by (induction ts) simp_all
  then show "mset tabs = mset tabs' \<Longrightarrow> ?thesis" by simp
qed

lemma tabs_inv_mset:
  assumes "tabs_inv n k tabs" and "mset tabs' = mset tabs"
  shows "tabs_inv n k tabs'"
proof -
  have "mset (map tab_number tabs') = mset (map tab_number tabs)" by (simp add: assms(2))
  then have "distinct (map tab_number tabs') = distinct (map tab_number tabs)" by (rule mset_eq_imp_distinct_iff)
  moreover have "set tabs' = set tabs" using assms(2) by (rule mset_eq_setD)
  moreover have "entries_distinct (entries_of tabs') = entries_distinct (entries_of tabs)"
    by (rule entries_distinct_mset [OF mset_entries_of [OF assms(2)]])
  ultimately show ?thesis using assms(1) by (simp add: tabs_inv_def)
qed

text \<open>No pane is in two tabs, so two tabs have different roots.\<close>

lemma pane_tab_unique:
  assumes "tabs_inv n k tabs" and "i < length tabs" and "j < length tabs"
    and "p \<in> set (tab_ids (tabs ! i))" and "p \<in> set (tab_ids (tabs ! j))"
  shows "i = j"
proof (rule ccontr)
  assume "i \<noteq> j"
  have disj: "set (tab_ids (tabs ! i)) \<inter> set (map fst (entries_of (remove_nth i tabs))) = {}"
    using removed_ids [OF assms(1,2)] by auto
  have "tabs ! j \<in> set (remove_nth i tabs)"
  proof (cases "j < i")
    case True
    with assms(2) show ?thesis by (auto simp: remove_nth_def in_set_conv_nth)
  next
    case False
    with \<open>i \<noteq> j\<close> assms(3) have "tabs ! j = drop (Suc i) tabs ! (j - Suc i)" "j - Suc i < length (drop (Suc i) tabs)"
      by auto
    then have "tabs ! j \<in> set (drop (Suc i) tabs)" by (metis nth_mem)
    then show ?thesis by (simp add: remove_nth_def)
  qed
  then have "set (tab_ids (tabs ! j)) \<subseteq> set (map fst (entries_of (remove_nth i tabs)))"
    by (auto simp: entries_of_def map_concat comp_def)
  with disj assms(4,5) show False by blast
qed

lemma root_unique:
  assumes "tabs_inv n k tabs" and "i < length tabs" and "j < length tabs"
    and "tab_root_pane (tabs ! i) = tab_root_pane (tabs ! j)"
  shows "i = j"
proof -
  have root: "tab_root_pane (tabs ! l) \<in> set (tab_ids (tabs ! l))" if "l < length tabs" for l
    using assms(1) that by (auto simp: tabs_inv_def tab_inv_def)
  show ?thesis
    using pane_tab_unique [OF assms(1-3) root [OF assms(2)]] root [OF assms(3)] assms(4) by simp
qed

lemma move_tab_contract:
  assumes inv: "ws_inv n ws"
  shows "ws_inv n (fst (move_tab ws i j)) \<and>
    mset (ws_tabs (fst (move_tab ws i j))) = mset (ws_tabs ws) \<and>
    active_tab (fst (move_tab ws i j)) = active_tab ws \<and>
    ws_public_pane_numbers (fst (move_tab ws i j)) = ws_public_pane_numbers ws \<and>
    (if snd (move_tab ws i j)
     then i < length (ws_tabs ws) \<and> j \<le> length (ws_tabs ws) \<and>
       ws_tabs (fst (move_tab ws i j)) ! min (if i < j then j - 1 else j) (length (ws_tabs ws) - 1) = ws_tabs ws ! i
     else fst (move_tab ws i j) = ws)"
proof -
  let ?t = "min (if i < j then j - 1 else j) (length (ws_tabs ws) - 1)"
  let ?tabs = "insert_nth ?t (ws_tabs ws ! i) (remove_nth i (ws_tabs ws))"
  show ?thesis
  proof (cases "length (ws_tabs ws) \<le> i \<or> length (ws_tabs ws) < j \<or> i = ?t")
    case True
    then have "move_tab ws i j = (ws, False)" by (auto simp: move_tab_def Let_def)
    with inv show ?thesis by simp
  next
    case False
    then have i: "i < length (ws_tabs ws)" and j: "j \<le> length (ws_tabs ws)" by auto
    have ms: "mset ?tabs = mset (ws_tabs ws)" by (rule mset_move [OF i])
    have ti: "tabs_inv n (ws_next_public_tab_number ws) (ws_tabs ws)"
      using inv by (simp add: ws_inv_def ws_between_def)
    note ti' = tabs_inv_mset [OF ti ms]
    let ?a = "ws_tabs ws ! ws_active_tab ws"
    have "?a \<in> set ?tabs" using active_tab_inv(2) [OF inv] mset_eq_setD [OF ms] by simp
    then obtain k where k: "k < length ?tabs" "?tabs ! k = ?a" by (metis in_set_conv_nth)
    have "position (\<lambda>u. tab_root_pane u = tab_root_pane ?a) ?tabs = Some k"
      by (rule position_unique) (use k root_unique [OF ti'] in auto)
    then have mv: "move_tab ws i j = (ws\<lparr>ws_tabs := ?tabs, ws_active_tab := k\<rparr>, True)"
      using False active_tab_inv(1) [OF inv]
      by (simp add: move_tab_def Let_def active_tab_def [symmetric])
    have es: "mset (entries_of ?tabs) = mset (ws_entries ws)"
      using mset_entries_of [OF ms] by (simp add: ws_entries_of)
    then have ids: "set (map fst (entries_of ?tabs)) = set (ws_ids ws)"
      unfolding ws_ids_def by (metis mset_eq_setD mset_map)
    have ne: "?tabs \<noteq> []" using k(1) by auto
    have "ws_inv n (ws\<lparr>ws_tabs := ?tabs, ws_active_tab := k\<rparr>)"
      using inv ti' ids k(1) ne
      by (simp add: ws_inv_def ws_between_def ws_ids_def ws_entries_of)
    moreover have "active_tab (ws\<lparr>ws_tabs := ?tabs, ws_active_tab := k\<rparr>) = active_tab ws"
      using k active_tab_inv(1) [OF inv] by (simp add: active_tab_def nth_tab_def)
    moreover have "?tabs ! ?t = ws_tabs ws ! i"
      by (rule nth_insert_nth) (simp add: length_remove_nth [OF i])
    ultimately show ?thesis using ms i j by (simp add: mv)
  qed
qed

end
