(* ===== verification/WorkspacePanes.thy ===== *)
theory WorkspacePanes
  imports WorkspaceMoves
begin

text \<open>
  The contracts of the operations on single panes of a workspace: removing one, handing one over, taking one in;
  and of the two ways a workspace begins.
\<close>

section \<open>Removing a pane\<close>

lemma entries_of_pane:
  assumes ti: "tabs_inv n k tabs" and i: "i < length tabs" and p: "p \<in> set (tab_ids (tabs ! i))"
  shows "filter (\<lambda>e. fst e \<noteq> p) (entries_of tabs) =
    entries_of (take i tabs) @ filter (\<lambda>e. fst e \<noteq> p) (tab_entries (tabs ! i)) @ entries_of (drop (Suc i) tabs)"
proof -
  have other: "filter (\<lambda>e. fst e \<noteq> p) (entries_of us) = entries_of us"
    if "\<And>u. u \<in> set us \<Longrightarrow> p \<notin> set (tab_ids u)" for us
  proof (rule filter_True, rule ballI)
    fix e assume "e \<in> set (entries_of us)"
    then obtain u where "u \<in> set us" "e \<in> set (tab_entries u)" by (auto simp: set_entries)
    then have "fst e \<in> set (tab_ids u)" by (metis image_eqI list.set_map map_fst_entries)
    with that [OF \<open>u \<in> set us\<close>] show "fst e \<noteq> p" by auto
  qed
  have outside: "p \<notin> set (tab_ids (tabs ! j))" if "j < length tabs" "j \<noteq> i" for j
    using pane_tab_unique [OF ti that(1) i _ p] that(2) by auto
  have before: "p \<notin> set (tab_ids u)" if "u \<in> set (take i tabs)" for u
  proof -
    from that obtain j where "j < i" "u = tabs ! j" by (auto simp: in_set_conv_nth [of u])
    with outside [of j] i show ?thesis by simp
  qed
  have after: "p \<notin> set (tab_ids u)" if "u \<in> set (drop (Suc i) tabs)" for u
  proof -
    from that obtain j where "j < length tabs - Suc i" "u = tabs ! (Suc i + j)"
      by (auto simp: in_set_conv_nth [of u])
    with outside [of "Suc i + j"] show ?thesis by simp
  qed
  have "entries_of tabs = entries_of (take i tabs @ tabs ! i # drop (Suc i) tabs)"
    using i by (simp add: id_take_nth_drop [symmetric])
  then show ?thesis using other [OF before] other [OF after] by simp
qed

text \<open>A tab that loses one of several panes.\<close>

lemma without_pane_ws:
  assumes inv: "ws_inv n ws" and i: "i < length (ws_tabs ws)" and p: "p \<in> set (tab_ids (ws_tabs ws ! i))"
    and t: "without_pane n p (ws_tabs ws ! i) t"
  shows "entries_of ((ws_tabs ws)[i := t]) = filter (\<lambda>e. fst e \<noteq> p) (ws_entries ws)"
    "tabs_inv n (ws_next_public_tab_number ws) ((ws_tabs ws)[i := t])"
proof -
  have b: "ws_between n {} ws" using inv by (simp add: ws_inv_def)
  then have ti: "tabs_inv n (ws_next_public_tab_number ws) (ws_tabs ws)" by (simp add: ws_between_def)
  show es: "entries_of ((ws_tabs ws)[i := t]) = filter (\<lambda>e. fst e \<noteq> p) (ws_entries ws)"
    using entries_of_pane [OF ti i p] t i
    by (simp add: without_pane_def upd_conv_take_nth_drop ws_entries_of)
  have "entries_distinct (filter (\<lambda>e. fst e \<noteq> p) (ws_entries ws))"
    using inv_distinct [OF b] by (auto simp: entries_distinct_def distinct_map_filter)
  then show "tabs_inv n (ws_next_public_tab_number ws) ((ws_tabs ws)[i := t])"
    using t by (intro tabs_inv_replace [OF ti i order_refl]) (simp_all add: without_pane_def es)
qed

lemma ids_without: "set (map fst (filter (\<lambda>e. fst e \<noteq> p) es)) = set (map fst es) - {p}"
  by auto

lemma unregister_between:
  assumes "ws_between n X ws" and "p \<notin> set (ws_ids ws)"
  shows "ws_between n (X - {p}) (unregister_pane p ws)"
proof -
  have "set (ws_ids ws) \<union> (X - {p}) = set (ws_ids ws) \<union> X - {p}" using assms(2) by auto
  with assms show ?thesis by (auto simp: ws_between_def intro: numbered_unregister)
qed

lemma remove_eq_close: "ws_close_pane = ws_remove_pane"
proof -
  have "tab_close_pane = tab_remove_pane" by (intro ext) (simp add: tab_close_pane_def tab_remove_pane_def)
  then show ?thesis by (intro ext) (unfold ws_close_pane_def ws_remove_pane_def, simp only:)
qed

lemma remove_pane_contract:
  assumes inv: "ws_inv n ws"
  shows "\<exists>ws' b. ws_remove_pane ws p = Return (ws', b) \<and> ws_inv n ws' \<and> ws_id ws' = ws_id ws \<and>
    (if p \<notin> set (ws_ids ws) then ws' = ws \<and> \<not> b
     else if b then ws' = ws \<and> ws_ids ws = [p]
     else pane_gone p ws ws')"
proof (cases "find_tab_index_for_pane ws p")
  case None
  then have "p \<notin> set (ws_ids ws)" by (rule iffD1 [OF find_tab_None])
  with inv None show ?thesis by (intro exI [of _ ws] exI [of _ False]) (simp add: ws_remove_pane_def)
next
  case (Some k)
  let ?t = "ws_tabs ws ! k"
  have k: "k < length (ws_tabs ws)" and p: "p \<in> set (tab_ids ?t)" using find_tab_Some [OF Some] by auto
  have b: "ws_between n {} ws" using inv by (simp add: ws_inv_def)
  then have ti: "tabs_inv n (ws_next_public_tab_number ws) (ws_tabs ws)" by (simp add: ws_between_def)
  have t: "tab_inv n ?t" by (rule between_tab [OF b k])
  have mem: "p \<in> set (ws_ids ws)" using k p by (auto simp: set_ws_ids)
  show ?thesis
  proof (cases "pane_count (tab_layout ?t) \<le> 1")
    case True
    then obtain s where s: "tab_panes ?t = [(p, s)]" using single_pane [OF t _ p] by auto
    show ?thesis
    proof (cases "length (ws_tabs ws) \<le> 1")
      case True
      then have "ws_tabs ws = [?t]" using k by (cases "ws_tabs ws") auto
      then have "ws_ids ws = [p]" using s
        by (metis append_Nil2 concat.simps list.simps(8,9) prod.sel(1) tab_ids_def ws_ids_of)
      with inv True \<open>pane_count (tab_layout ?t) \<le> 1\<close> show ?thesis
        by (intro exI [of _ ws] exI [of _ True]) (simp add: ws_remove_pane_def Some)
    next
      case False
      let ?ws1 = "unregister_pane p (ws\<lparr>ws_tabs := remove_nth k (ws_tabs ws)\<rparr>)"
      let ?ws' = "?ws1\<lparr>ws_active_tab := active_after_removal (ws_active_tab ws) k (length (ws_tabs ws) - 1)\<rparr>"
      have run: "ws_remove_pane ws p = Return (?ws', False)"
        using False \<open>pane_count (tab_layout ?t) \<le> 1\<close>
        by (simp add: ws_remove_pane_def Some Let_def length_remove_nth [OF k])
      have "ws_inv n ?ws'"
        by (rule remove_tab_inv [OF inv k]) (use False s in \<open>simp_all add: tab_ids_def unregister_pane_def\<close>)
      moreover have "pane_gone p ws ?ws'"
        using entries_of_pane [OF ti k p] s
        by (simp add: pane_gone_def ws_entries_of remove_nth_def tab_entries_def unregister_pane_def)
      ultimately show ?thesis using run mem
        by (intro exI [of _ ?ws'] exI [of _ False]) simp
    qed
  next
    case False
    then have two: "2 \<le> pane_count (tab_layout ?t)" by simp
    obtain s where s: "map_of (tab_panes ?t) p = Some s" using p by (auto simp: lookup_tab_ids)
    obtain t' where d: "detach_pane ?t p = Return (t', Some (p, ps_attached_terminal_id s))"
      and w: "without_pane n p ?t t'" using detach_contract [OF t two s] by blast
    let ?ws' = "unregister_pane p (ws\<lparr>ws_tabs := (ws_tabs ws)[k := t']\<rparr>)"
    note es = without_pane_ws [OF inv k p w]
    have run: "ws_remove_pane ws p = Return (?ws', False)"
      using False d by (simp add: ws_remove_pane_def Some tab_remove_pane_def Let_def)
    have ids: "set (ws_ids (ws\<lparr>ws_tabs := (ws_tabs ws)[k := t']\<rparr>)) = set (ws_ids ws) - {p}"
      using ids_without by (simp add: ws_ids_def ws_entries_of es(1) [unfolded ws_entries_of])
    have "numbered (AList.delete p (ws_public_pane_numbers ws)) (ws_next_public_pane_number ws)
        (set (ws_ids ws) - {p})"
      using b by (auto simp: ws_between_def intro: numbered_unregister)
    then have "ws_inv n ?ws'"
      using inv es(2) by (auto simp: ws_inv_def ws_between_def ids)
    moreover have "pane_gone p ws ?ws'"
      using es(1) by (simp add: pane_gone_def ws_entries_of unregister_pane_def)
    ultimately show ?thesis using run mem
      by (intro exI [of _ ?ws'] exI [of _ False]) simp
  qed
qed

section \<open>Handing a pane over\<close>

lemma take_pane_contract:
  assumes inv: "ws_inv n ws" and mem: "p \<in> set (ws_ids ws)"
  shows "\<exists>ws' tk. ws_take_pane_for_move ws p = Return (ws', Some tk) \<and> ws_between n {p} ws' \<and>
    ws_id ws' = ws_id ws \<and> mp_pane_id (tp_moved tk) = p \<and>
    moved_entry (tp_moved tk) \<in> set (ws_entries ws) \<and>
    ws_entries ws' = filter (\<lambda>e. fst e \<noteq> p) (ws_entries ws) \<and>
    ws_public_pane_numbers ws' = ws_public_pane_numbers ws \<and>
    ws_next_public_pane_number ws' = ws_next_public_pane_number ws \<and>
    ws_next_public_tab_number ws' = ws_next_public_tab_number ws \<and>
    (tp_workspace_empty tk \<longleftrightarrow> ws_tabs ws' = []) \<and>
    (tp_removed_tab_idx tk = None \<longrightarrow> \<not> tp_workspace_empty tk)"
proof -
  obtain k where Some: "find_tab_index_for_pane ws p = Some k" using find_tab_exists [OF mem] by blast
  let ?t = "ws_tabs ws ! k"
  have k: "k < length (ws_tabs ws)" and p: "p \<in> set (tab_ids ?t)" using find_tab_Some [OF Some] by auto
  have b: "ws_between n {} ws" using inv by (simp add: ws_inv_def)
  then have ti: "tabs_inv n (ws_next_public_tab_number ws) (ws_tabs ws)" by (simp add: ws_between_def)
  have t: "tab_inv n ?t" by (rule between_tab [OF b k])
  obtain s where s: "map_of (tab_panes ?t) p = Some s" using p by (auto simp: lookup_tab_ids)
  then have "(p, ps_attached_terminal_id s) \<in> set (tab_entries ?t)"
    by (force simp: tab_entries_def dest: map_of_SomeD)
  then have ent: "(p, ps_attached_terminal_id s) \<in> set (ws_entries ws)"
    using k by (auto simp: ws_entries_of set_entries)
  have keep: "set (ws_ids ws) - {p} \<union> {p} = set (ws_ids ws)" using mem by auto
  show ?thesis
  proof (cases "pane_count (tab_layout ?t) \<le> 1")
    case True
    obtain t' where take: "tab_take_pane_for_move ?t p = Return (t', Some \<lparr>mp_pane_id = p, mp_pane_state = s\<rparr>)"
      using take_last_contract [OF True s] by blast
    let ?ws' = "adjust_active_tab_after_removal k (ws\<lparr>ws_tabs := remove_nth k (ws_tabs ws)\<rparr>)"
    have run: "ws_take_pane_for_move ws p = Return (?ws', Some \<lparr>tp_moved = \<lparr>mp_pane_id = p, mp_pane_state = s\<rparr>,
        tp_removed_tab_idx = Some k, tp_workspace_empty = (ws_tabs ?ws' = [])\<rparr>)"
      using True by (simp add: ws_take_pane_for_move_def Some take Let_def)
    have one: "tab_entries ?t = [(p, ps_attached_terminal_id s)]"
      using single_pane [OF t True p] s by (auto simp: tab_entries_def)
    have tabs: "ws_tabs ?ws' = remove_nth k (ws_tabs ws)" by (simp add: adjust_active_tab_after_removal_def)
    have es: "ws_entries ?ws' = filter (\<lambda>e. fst e \<noteq> p) (ws_entries ws)"
      using entries_of_pane [OF ti k p] one unfolding ws_entries_of tabs by (simp add: remove_nth_def)
    then have ids: "set (ws_ids ?ws') = set (ws_ids ws) - {p}" using ids_without by (simp add: ws_ids_def)
    have "if remove_nth k (ws_tabs ws) = [] then ws_active_tab ?ws' = 0
        else ws_active_tab ?ws' < length (remove_nth k (ws_tabs ws))"
    proof (cases "remove_nth k (ws_tabs ws) = []")
      case False
      then have "0 < length (remove_nth k (ws_tabs ws))" by simp
      then have "1 < length (ws_tabs ws)" using k by (simp add: length_remove_nth)
      then show ?thesis using False k active_tab_inv(2) [OF inv]
        by (auto simp: adjust_active_tab_after_removal_def length_remove_nth intro!: active_after_removal(1))
    qed (simp add: adjust_active_tab_after_removal_def)
    then have "ws_between n {p} ?ws'"
      using b tabs_inv_remove [OF ti k]
      by (simp add: ws_between_def tabs ids keep) (simp add: adjust_active_tab_after_removal_def mem insert_absorb)
    with run es ent show ?thesis by (simp add: moved_entry_def) (simp add: adjust_active_tab_after_removal_def)
  next
    case False
    then have two: "2 \<le> pane_count (tab_layout ?t)" by simp
    obtain t' where take: "tab_take_pane_for_move ?t p = Return (t', Some \<lparr>mp_pane_id = p, mp_pane_state = s\<rparr>)"
      and w: "without_pane n p ?t t'" using take_contract [OF t two s] by blast
    let ?ws' = "ws\<lparr>ws_tabs := (ws_tabs ws)[k := t']\<rparr>"
    note es = without_pane_ws [OF inv k p w]
    have run: "ws_take_pane_for_move ws p = Return (?ws', Some \<lparr>tp_moved = \<lparr>mp_pane_id = p, mp_pane_state = s\<rparr>,
        tp_removed_tab_idx = None, tp_workspace_empty = False\<rparr>)"
      using False by (simp add: ws_take_pane_for_move_def Some take Let_def)
    have ids: "set (ws_ids ?ws') = set (ws_ids ws) - {p}"
      using ids_without by (simp add: ws_ids_def ws_entries_of es(1) [unfolded ws_entries_of])
    have "ws_between n {p} ?ws'"
      using inv es(2) by (simp add: ws_inv_def ws_between_def ids keep mem insert_absorb)
    with run es(1) ent k show ?thesis by (auto simp: moved_entry_def ws_entries_of)
  qed
qed

section \<open>Taking a pane in\<close>

text \<open>The pane keeps the number it has here, or gets the next one.\<close>

definition pane_joined :: "pane_id \<times> string \<Rightarrow> workspace \<Rightarrow> workspace \<Rightarrow> bool" where
  "pane_joined e ws ws' \<longleftrightarrow>
     mset (ws_entries ws') = add_mset e (mset (ws_entries ws)) \<and>
     (if fst e \<in> set (map fst (ws_public_pane_numbers ws))
      then ws_public_pane_numbers ws' = ws_public_pane_numbers ws \<and>
        ws_next_public_pane_number ws' = ws_next_public_pane_number ws
      else ws_public_pane_numbers ws' =
          AList.update (fst e) (ws_next_public_pane_number ws) (ws_public_pane_numbers ws) \<and>
        ws_next_public_pane_number ws' = ws_next_public_pane_number ws + 1)"

lemma joined_inv:
  assumes b: "ws_between n X ws" and X: "X \<subseteq> {p}" and new: "p \<notin> set (ws_ids ws)" and left: "numbers_left ws"
    and "tabs_inv n k tabs'" and "0 < k" and "active < length tabs'"
    and es: "mset (entries_of tabs') = add_mset (p, tid) (mset (ws_entries ws))"
    and ws': "ws' = register_unless_known p ws1" "ws_tabs ws1 = tabs'" "ws_active_tab ws1 = active"
      "ws_next_public_tab_number ws1 = k" "ws_public_pane_numbers ws1 = ws_public_pane_numbers ws"
      "ws_next_public_pane_number ws1 = ws_next_public_pane_number ws"
  shows "ws_inv n ws' \<and> pane_joined (p, tid) ws ws'"
proof -
  have keys: "p \<in> set (map fst (ws_public_pane_numbers ws)) \<longleftrightarrow> p \<in> X"
    using b new by (auto simp: ws_between_def numbered_def)
  have tabs: "ws_tabs ws' = tabs'" "ws_active_tab ws' = active" "ws_next_public_tab_number ws' = k"
    by (simp_all add: ws' register_unless_known_def)
  have es': "mset (ws_entries ws') = add_mset (p, tid) (mset (ws_entries ws))"
    using es by (simp add: ws_entries_of tabs)
  note ids = mset_add_ids [OF es']
  have ne: "tabs' \<noteq> []" using assms(7) by auto
  have num: "numbered (ws_public_pane_numbers ws) (ws_next_public_pane_number ws) (set (ws_ids ws) \<union> X)"
    and pos: "0 < ws_next_public_pane_number ws" and k: "ws_next_public_pane_number ws \<noteq> - 1"
    using b left by (auto simp: ws_between_def numbers_left_def)
  show ?thesis
  proof (cases "p \<in> X")
    case True
    then have kn: "hm_contains (ws_public_pane_numbers ws) p" using keys by (simp add: hm_contains_iff)
    then have "ws_public_pane_numbers ws' = ws_public_pane_numbers ws"
      "ws_next_public_pane_number ws' = ws_next_public_pane_number ws"
      by (simp_all add: ws' register_unless_known_def)
    moreover have "set (ws_ids ws) \<union> X = insert p (set (ws_ids ws))" using True X by auto
    ultimately show ?thesis using assms(5-7) num pos keys es' ids ne True
      by (simp add: ws_inv_def ws_between_def tabs pane_joined_def)
  next
    case False
    then have "X = {}" using X by auto
    have kn: "\<not> hm_contains (ws_public_pane_numbers ws) p" using keys False by (simp add: hm_contains_iff)
    then have w: "ws_public_pane_numbers ws' = AList.update p (ws_next_public_pane_number ws) (ws_public_pane_numbers ws)"
      "ws_next_public_pane_number ws' = ws_next_public_pane_number ws + 1"
      by (simp_all add: ws' register_unless_known_def less_plus_one_max k)
    have "0 < ws_next_public_pane_number ws + 1" using pos word_less_Suc [OF k] by (rule less_trans)
    with numbered_register [OF num _ k pos, of p] new assms(5-7) keys es' ids ne False \<open>X = {}\<close>
    show ?thesis
      by (simp add: ws_inv_def ws_between_def tabs pane_joined_def w less_plus_one_max [OF k])
  qed
qed

lemma insert_moved_contract:
  assumes b: "ws_between n X ws" and X: "X \<subseteq> {mp_pane_id m}" and new: "mp_pane_id m \<notin> set (ws_ids ws)"
    and tid: "snd (moved_entry m) \<notin> snd ` set (ws_entries ws)" and "mp_pane_id m < n" and left: "numbers_left ws"
    and run: "insert_moved_pane_into_tab ws i target m d r = (ws', res)"
  shows "if i < length (ws_tabs ws) \<and> target \<in> set (tab_ids (ws_tabs ws ! i))
    then res = Inr (mp_pane_id m) \<and> ws_inv n ws' \<and> ws_id ws' = ws_id ws \<and> pane_joined (moved_entry m) ws ws' \<and>
      ws_next_public_tab_number ws' = ws_next_public_tab_number ws \<and> ws_active_tab ws' = ws_active_tab ws \<and>
      length (ws_tabs ws') = length (ws_tabs ws)
    else res = Inl m \<and> ws' = ws"
proof (cases "i < length (ws_tabs ws)")
  case False
  with run show ?thesis by (simp add: insert_moved_pane_into_tab_def nth_tab_def)
next
  case i: True
  let ?t = "ws_tabs ws ! i"
  have t: "tab_inv n ?t" by (rule between_tab [OF b i])
  have nin: "mp_pane_id m \<notin> set (tab_ids ?t)" using new i by (auto simp: set_ws_ids)
  obtain t' res' where ins: "insert_existing_pane ?t target m d r = (t', res')" by fastforce
  note c = insert_contract [OF t \<open>mp_pane_id m < n\<close> ins]
  show ?thesis
  proof (cases "target \<in> set (tab_ids ?t)")
    case False
    with c have "res' = Inl m" "t' = ?t" by auto
    with run ins i False show ?thesis
      by (auto simp: insert_moved_pane_into_tab_def nth_tab_def)
  next
    case True
    with c nin have res': "res' = Inr (mp_pane_id m)" and t': "tab_inv n t'" "tab_entries t' = tab_entries ?t @ [moved_entry m]"
      "tab_number t' = tab_number ?t" by auto
    have ws': "ws' = register_unless_known (mp_pane_id m) (ws\<lparr>ws_tabs := (ws_tabs ws)[i := t']\<rparr>)"
      and res: "res = Inr (mp_pane_id m)"
      using run ins i res' by (auto simp: insert_moved_pane_into_tab_def nth_tab_def)
    have me: "moved_entry m = (mp_pane_id m, snd (moved_entry m))" by (simp add: moved_entry_def)
    have es: "mset (entries_of ((ws_tabs ws)[i := t'])) = add_mset (mp_pane_id m, snd (moved_entry m)) (mset (ws_entries ws))"
      using entries_update [OF i, of t'] me by (simp add: t'(2) ws_entries_of)
    have "entries_distinct (entries_of ((ws_tabs ws)[i := t']))"
      using entries_distinct_add [OF es] new tid inv_distinct [OF b] by (auto simp: ws_ids_def)
    then have "tabs_inv n (ws_next_public_tab_number ws) ((ws_tabs ws)[i := t'])"
      using b by (intro tabs_inv_replace [OF _ i order_refl t'(1,3)]) (simp_all add: ws_between_def)
    then have "ws_inv n ws' \<and> pane_joined (mp_pane_id m, snd (moved_entry m)) ws ws'"
      by (rule joined_inv [OF b X new left _ _ _ es ws'])
         (use b i in \<open>auto simp: ws_between_def split: if_splits\<close>)
    then show ?thesis using i True res me by (simp add: ws' register_unless_known_def)
  qed
qed

lemma create_from_existing_contract:
  assumes b: "ws_between n X ws" and X: "X \<subseteq> {mp_pane_id m}" and new: "mp_pane_id m \<notin> set (ws_ids ws)"
    and tid: "snd (moved_entry m) \<notin> snd ` set (ws_entries ws)" and "mp_pane_id m < n" and left: "numbers_left ws"
    and run: "create_tab_from_existing_pane ws m label = (ws', idx)"
  shows "ws_inv n ws' \<and> ws_id ws' = ws_id ws \<and> pane_joined (moved_entry m) ws ws' \<and> idx = length (ws_tabs ws) \<and>
    ws_next_public_tab_number ws' = ws_next_public_tab_number ws + 1 \<and> ws_active_tab ws' = ws_active_tab ws \<and>
    length (ws_tabs ws') = Suc (length (ws_tabs ws)) \<and> mp_pane_id m \<in> set (tab_ids (ws_tabs ws' ! idx))"
proof -
  let ?k = "ws_next_public_tab_number ws"
  let ?t = "tab_from_existing_pane ?k label m" and ?tabs = "ws_tabs ws @ [tab_from_existing_pane ?k label m]"
  have t: "tab_inv n ?t" "tab_entries ?t = [moved_entry m]" "tab_number ?t = ?k"
    using from_existing_contract [OF \<open>mp_pane_id m < n\<close>] by (simp_all add: tab_from_existing_pane_def)
  have ti: "tabs_inv n ?k (ws_tabs ws)" and k: "0 < ?k" "?k \<noteq> - 1" using b left
    by (auto simp: ws_between_def numbers_left_def)
  have ws': "ws' = register_unless_known (mp_pane_id m)
      (ws\<lparr>ws_next_public_tab_number := ?k + 1, ws_tabs := ?tabs\<rparr>)" and idx: "idx = length (ws_tabs ws)"
    using run by (auto simp: create_tab_from_existing_pane_def register_unless_known_def Let_def
        register_new_pane_with_number_def)
  have me: "moved_entry m = (mp_pane_id m, snd (moved_entry m))" by (simp add: moved_entry_def)
  have es: "mset (entries_of ?tabs) = add_mset (mp_pane_id m, snd (moved_entry m)) (mset (ws_entries ws))"
    using me by (simp add: t(2) ws_entries_of)
  have "entries_distinct (entries_of ?tabs)"
    using entries_distinct_add [OF es] new tid inv_distinct [OF b] by (auto simp: ws_ids_def)
  from tabs_inv_append [OF ti k(2,1) order_refl t(1,3) this]
  have "ws_inv n ws' \<and> pane_joined (mp_pane_id m, snd (moved_entry m)) ws ws'"
    by (rule joined_inv [OF b X new left _ _ _ es ws'])
       (use b word_less_Suc [OF k(2)] in \<open>auto simp: ws_between_def split: if_splits intro: less_trans\<close>)
  then show ?thesis using me idx
    by (simp add: ws' register_unless_known_def tab_ids_def tab_from_existing_pane_def)
qed

section \<open>New workspaces\<close>

lemma two_word: "(0 :: usize) < 2" "(1 :: usize) < 2" "(0 :: usize) < 1"
  by simp_all

lemma new_with_tab_contract:
  assumes "new_with_tab git spawn m cwd argv env c = (r, c')" and "next_pane_id c \<noteq> - 1"
  shows "next_pane_id c' = next_pane_id c + 1 \<and> next_workspace_id c' = next_workspace_id c + 1 \<and>
    next_terminal_id c' = next_terminal_id c + (if isl r then 0 else 1) \<and>
    (case r of Inl e \<Rightarrow> True
     | Inr (ws, terminal, rt) \<Rightarrow> ws_inv (next_pane_id c') ws \<and>
         ws_id ws = ''w'' @ encode_public_number (next_workspace_id c) \<and>
         ws_entries ws = [(next_pane_id c, terminal_id_text m (next_terminal_id c))] \<and>
         ts_id terminal = terminal_id_text m (next_terminal_id c))"
proof -
  let ?c1 = "c\<lparr>next_workspace_id := next_workspace_id c + 1\<rparr>"
  let ?i = "''w'' @ encode_public_number (next_workspace_id c)"
  obtain r' c2 where new: "new_tab spawn m 1 cwd (with_identity (launch_env_from_extra env) ?i
      (public_tab_id_for_number ?i 1) (public_pane_id_for_number ?i 1)) argv ?c1 = (r', c2)" by fastforce
  note t = new_tab_contract [OF new]
  show ?thesis
  proof (cases r')
    case (Inl e)
    with assms t new show ?thesis
      by (auto simp: new_with_tab_def generate_workspace_id_def Let_def)
  next
    case (Inr x)
    obtain t terminal rt where x: "x = (t, terminal, rt)" by (cases x)
    from \<open>case r' of Inl e \<Rightarrow> _ e | Inr x \<Rightarrow> _ x\<close> Inr x assms(2)
    have tt: "c2 = ?c1\<lparr>next_pane_id := next_pane_id c + 1, next_terminal_id := next_terminal_id c + 1\<rparr>"
      "tab_entries t = [(next_pane_id c, terminal_id_text m (next_terminal_id c))]"
      "ts_id terminal = terminal_id_text m (next_terminal_id c)" "tab_number t = 1"
      "tab_root_pane t = next_pane_id c" "tab_inv (next_pane_id c2) t" by auto
    have "entries_distinct (tab_entries t)" by (simp add: tt(2) entries_distinct_def)
    moreover have "set (map fst (tab_entries t)) = {next_pane_id c}" by (simp add: tt(2))
    ultimately show ?thesis
      using assms(1) new Inr x tt
      by (auto simp: new_with_tab_def generate_workspace_id_def Let_def ws_inv_def ws_between_def tabs_inv_def
          numbered_def hm_wf_def ws_ids_def ws_entries_of)
  qed
qed

lemma ws_from_existing_contract:
  assumes "ws_from_existing_pane git space label tab_label cwd m c = (ws, c')" and "mp_pane_id m < n"
  shows "ws_inv n ws \<and> c' = c\<lparr>next_workspace_id := next_workspace_id c + 1\<rparr> \<and>
    ws_id ws = ''w'' @ encode_public_number (next_workspace_id c) \<and> ws_entries ws = [moved_entry m]"
proof -
  let ?t = "tab_from_existing_pane 1 tab_label m"
  have "tab_inv n ?t" "tab_entries ?t = [moved_entry m]" "tab_number ?t = 1"
    using from_existing_contract [OF assms(2)] by (simp_all add: tab_from_existing_pane_def)
  with assms(1) show ?thesis
    by (auto simp: ws_from_existing_pane_def generate_workspace_id_def Let_def ws_inv_def ws_between_def tabs_inv_def
        numbered_def hm_wf_def ws_ids_def ws_entries_of entries_distinct_def moved_entry_def)
qed

end
