(* ===== verification/SessionInv.thy ===== *)
theory SessionInv
  imports AppState WorkspacePanes
begin

text \<open>
  The invariant of a session: the workspaces with the counters their identifiers come from, the terminals, and the
  active and the selected workspace.  A terminal is kept exactly as long as a pane shows it.
\<close>

section \<open>The workspaces together\<close>

definition all_entries :: "workspace list \<Rightarrow> (pane_id \<times> string) list" where
  "all_entries wss = concat (map ws_entries wss)"

text \<open>Identifiers that the counters have given out; the clock may have moved in between.\<close>

definition drawn_terminal :: "counters \<Rightarrow> string \<Rightarrow> bool" where
  "drawn_terminal c tid \<longleftrightarrow> (\<exists>m k. current_clock m \<and> k < next_terminal_id c \<and> tid = terminal_id_text m k)"

definition drawn_workspace :: "counters \<Rightarrow> string \<Rightarrow> bool" where
  "drawn_workspace c i \<longleftrightarrow> (\<exists>k. 0 < k \<and> k < next_workspace_id c \<and> i = ''w'' @ encode_public_number k)"

definition wss_ids :: "counters \<Rightarrow> workspace list \<Rightarrow> bool" where
  "wss_ids c wss \<longleftrightarrow>
     (\<forall>ws \<in> set wss. drawn_workspace c (ws_id ws)) \<and> distinct (map ws_id wss) \<and>
     entries_distinct (all_entries wss) \<and> (\<forall>tid \<in> snd ` set (all_entries wss). drawn_terminal c tid)"

definition wss_inv :: "counters \<Rightarrow> workspace list \<Rightarrow> bool" where
  "wss_inv c wss \<longleftrightarrow> wss_ids c wss \<and> (\<forall>ws \<in> set wss. ws_inv (next_pane_id c) ws)"

definition counters_le :: "counters \<Rightarrow> counters \<Rightarrow> bool" where
  "counters_le c c' \<longleftrightarrow> next_pane_id c \<le> next_pane_id c' \<and> next_terminal_id c \<le> next_terminal_id c' \<and>
     next_workspace_id c \<le> next_workspace_id c'"

lemma all_entries_simps [simp]:
  "all_entries [] = []" "all_entries (ws # wss) = ws_entries ws @ all_entries wss"
  "all_entries (wss @ wss') = all_entries wss @ all_entries wss'"
  by (simp_all add: all_entries_def)

lemma all_entries_mset: "mset wss = mset wss' \<Longrightarrow> mset (all_entries wss) = mset (all_entries wss')"
proof -
  have "mset (all_entries wss) = \<Sum>\<^sub># (image_mset (\<lambda>ws. mset (ws_entries ws)) (mset wss))" for wss
    by (induction wss) simp_all
  then show "mset wss = mset wss' \<Longrightarrow> ?thesis" by simp
qed

lemma split_at: "i < length xs \<Longrightarrow> xs = take i xs @ xs ! i # drop (Suc i) xs"
  by (simp add: id_take_nth_drop [symmetric])

lemma all_entries_update:
  assumes "i < length wss"
  shows "mset (all_entries (wss[i := ws])) + mset (ws_entries (wss ! i)) =
    mset (all_entries wss) + mset (ws_entries ws)"
proof -
  have "all_entries wss = all_entries (take i wss @ wss ! i # drop (Suc i) wss)"
    using split_at [OF assms] by simp
  then show ?thesis using assms by (simp add: upd_conv_take_nth_drop)
qed

lemma all_entries_add:
  assumes "i < length wss" and "mset (ws_entries ws) = add_mset e (mset (ws_entries (wss ! i)))"
  shows "mset (all_entries (wss[i := ws])) = add_mset e (mset (all_entries wss))"
  using all_entries_update [OF assms(1), of ws] by (simp add: assms(2))

lemma all_entries_same:
  assumes "i < length wss" and "mset (ws_entries ws) = mset (ws_entries (wss ! i))"
  shows "mset (all_entries (wss[i := ws])) = mset (all_entries wss)"
  using all_entries_update [OF assms(1), of ws] by (simp add: assms(2))

lemma all_entries_filter:
  assumes "wss_ids c wss" and "i < length wss" and "ws_entries ws = filter (\<lambda>e. fst e \<noteq> p) (ws_entries (wss ! i))"
    and "p \<in> set (ws_ids (wss ! i))"
  shows "all_entries (wss[i := ws]) = filter (\<lambda>e. fst e \<noteq> p) (all_entries wss)"
proof -
  have es: "all_entries wss = all_entries (take i wss) @ ws_entries (wss ! i) @ all_entries (drop (Suc i) wss)"
    using split_at [OF assms(2)] by (metis all_entries_simps(2,3))
  have "distinct (map fst (all_entries wss))" using assms(1) by (simp add: wss_ids_def entries_distinct_def)
  with es assms(4) have "p \<notin> fst ` set (all_entries (take i wss))" "p \<notin> fst ` set (all_entries (drop (Suc i) wss))"
    by (auto simp: ws_ids_def)
  then have "filter (\<lambda>e. fst e \<noteq> p) (all_entries (take i wss)) = all_entries (take i wss)"
    "filter (\<lambda>e. fst e \<noteq> p) (all_entries (drop (Suc i) wss)) = all_entries (drop (Suc i) wss)"
    by (auto simp: filter_id_conv image_iff)
  then show ?thesis using assms(2,3) es by (simp add: upd_conv_take_nth_drop)
qed

lemma set_all_entries: "e \<in> set (all_entries wss) \<longleftrightarrow> (\<exists>ws \<in> set wss. e \<in> set (ws_entries ws))"
  by (auto simp: all_entries_def)

lemma drawn_mono:
  assumes "counters_le c c'"
  shows "drawn_terminal c tid \<Longrightarrow> drawn_terminal c' tid"
    "drawn_workspace c i \<Longrightarrow> drawn_workspace c' i"
proof -
  have le: "k < next_terminal_id c \<Longrightarrow> k < next_terminal_id c'" "k < next_workspace_id c \<Longrightarrow> k < next_workspace_id c'" for k
    using assms by (auto simp: counters_le_def elim: less_le_trans)
  show "drawn_terminal c tid \<Longrightarrow> drawn_terminal c' tid"
    unfolding drawn_terminal_def by (elim exE conjE) (intro exI conjI, assumption, rule le(1))
  show "drawn_workspace c i \<Longrightarrow> drawn_workspace c' i"
    unfolding drawn_workspace_def by (elim exE conjE) (intro exI conjI, assumption, rule le(2))
qed

lemma wss_ids_mono: "wss_ids c wss \<Longrightarrow> counters_le c c' \<Longrightarrow> wss_ids c' wss"
  by (simp add: wss_ids_def drawn_mono)

lemma wss_inv_mono: "wss_inv c wss \<Longrightarrow> counters_le c c' \<Longrightarrow> wss_inv c' wss"
  by (auto simp: wss_inv_def counters_le_def intro: wss_ids_mono ws_inv_mono)

lemma counters_le_refl [simp]: "counters_le c c"
  by (simp add: counters_le_def)

text \<open>Fewer workspaces, or the same in another order.\<close>

lemma wss_ids_subset:
  assumes "wss_ids c wss" and "mset wss' \<subseteq># mset wss"
  shows "wss_ids c wss'"
proof -
  obtain rest where "mset wss = mset (wss' @ rest)"
    using assms(2) by (metis ex_mset mset_append subset_mset.add_diff_inverse)
  note eq = all_entries_mset [OF this] mset_map_eq [OF this, of ws_id] mset_eq_setD [OF this]
  have "entries_distinct (all_entries (wss' @ rest))" "distinct (map ws_id (wss' @ rest))"
    using assms(1) entries_distinct_mset [OF eq(1)] mset_eq_imp_distinct_iff [OF eq(2)] by (simp_all add: wss_ids_def)
  moreover have "set (all_entries wss) = set (all_entries (wss' @ rest))"
    using eq(1) by (rule mset_eq_setD)
  ultimately show ?thesis using assms(1) eq(3) by (auto simp: wss_ids_def entries_distinct_def)
qed

lemma wss_inv_subset:
  assumes "wss_inv c wss" and "mset wss' \<subseteq># mset wss"
  shows "wss_inv c wss'"
  using assms wss_ids_subset set_mset_mono [OF assms(2)] by (auto simp: wss_inv_def)

text \<open>One workspace is replaced by another under the same identifier.\<close>

lemma wss_ids_replace:
  assumes "wss_ids c wss" and "i < length wss" and "counters_le c c'" and "ws_id ws = ws_id (wss ! i)"
    and "entries_distinct (all_entries (wss[i := ws]))"
    and "\<And>tid. tid \<in> snd ` set (all_entries (wss[i := ws])) \<Longrightarrow> drawn_terminal c' tid"
  shows "wss_ids c' (wss[i := ws])"
proof -
  have "map ws_id (wss[i := ws]) = map ws_id wss"
    using assms(2,4) by (simp add: map_update list_update_same_conv)
  moreover have "drawn_workspace c' (ws_id w)" if "w \<in> set (wss[i := ws])" for w
  proof -
    have "ws_id w \<in> set (map ws_id (wss[i := ws]))" using that by simp
    with calculation obtain v where "v \<in> set wss" "ws_id v = ws_id w" by auto
    with assms(1,3) drawn_mono show ?thesis unfolding wss_ids_def by metis
  qed
  ultimately show ?thesis using assms(1,5,6) by (simp add: wss_ids_def)
qed

lemma set_update_cases: "w \<in> set (xs[i := x]) \<Longrightarrow> w = x \<or> w \<in> set xs"
  using set_update_subset_insert [of xs i x] by auto

lemma wss_inv_replace:
  assumes "wss_inv c wss" and "i < length wss" and "counters_le c c'" and "ws_id ws = ws_id (wss ! i)"
    and "ws_inv (next_pane_id c') ws" and "entries_distinct (all_entries (wss[i := ws]))"
    and "\<And>tid. tid \<in> snd ` set (all_entries (wss[i := ws])) \<Longrightarrow> drawn_terminal c' tid"
  shows "wss_inv c' (wss[i := ws])"
  using assms wss_ids_replace [of c wss i c' ws] wss_inv_mono [OF assms(1,3)]
  unfolding wss_inv_def by (metis set_update_cases)

lemma wss_inv_same:
  assumes "wss_inv c wss" and i: "i < length wss" and "counters_le c c'" and "ws_id ws = ws_id (wss ! i)"
    and "ws_inv (next_pane_id c') ws" and es: "mset (ws_entries ws) = mset (ws_entries (wss ! i))"
  shows "wss_inv c' (wss[i := ws])"
    "fst ` set (all_entries (wss[i := ws])) = fst ` set (all_entries wss)"
    "snd ` set (all_entries (wss[i := ws])) = snd ` set (all_entries wss)"
proof -
  note eq = all_entries_same [OF i es]
  then have s: "set (all_entries (wss[i := ws])) = set (all_entries wss)" by (rule mset_eq_setD)
  then show "fst ` set (all_entries (wss[i := ws])) = fst ` set (all_entries wss)"
    "snd ` set (all_entries (wss[i := ws])) = snd ` set (all_entries wss)" by simp_all
  show "wss_inv c' (wss[i := ws])"
  proof (rule wss_inv_replace [OF assms(1-5)])
    show "entries_distinct (all_entries (wss[i := ws]))"
      using entries_distinct_mset [OF eq] assms(1) by (simp add: wss_inv_def wss_ids_def)
  next
    fix tid assume "tid \<in> snd ` set (all_entries (wss[i := ws]))"
    then show "drawn_terminal c' tid"
      using assms(1,3) drawn_mono(1) unfolding s wss_inv_def wss_ids_def by blast
  qed
qed

lemma wss_inv_grow:
  assumes "wss_inv c wss" and i: "i < length wss" and "counters_le c c'" and "ws_id ws = ws_id (wss ! i)"
    and "ws_inv (next_pane_id c') ws" and es: "mset (ws_entries ws) = add_mset (p, tid) (mset (ws_entries (wss ! i)))"
    and "p \<notin> fst ` set (all_entries wss)" and "tid \<notin> snd ` set (all_entries wss)" and "drawn_terminal c' tid"
  shows "wss_inv c' (wss[i := ws])"
    "snd ` set (all_entries (wss[i := ws])) = insert tid (snd ` set (all_entries wss))"
proof -
  note eq = all_entries_add [OF i es]
  then have s: "set (all_entries (wss[i := ws])) = insert (p, tid) (set (all_entries wss))"
    by (metis set_mset_add_mset_insert set_mset_mset)
  then show "snd ` set (all_entries (wss[i := ws])) = insert tid (snd ` set (all_entries wss))" by simp
  show "wss_inv c' (wss[i := ws])"
  proof (rule wss_inv_replace [OF assms(1-5)])
    show "entries_distinct (all_entries (wss[i := ws]))"
      using entries_distinct_add [OF eq] assms(1,7,8) by (simp add: wss_inv_def wss_ids_def)
  next
    fix t assume "t \<in> snd ` set (all_entries (wss[i := ws]))"
    then have "t = tid \<or> t \<in> snd ` set (all_entries wss)" by (auto simp: s)
    then show "drawn_terminal c' t"
      using assms(1,3,9) drawn_mono(1) unfolding wss_inv_def wss_ids_def by blast
  qed
qed

section \<open>Public names over time\<close>

text \<open>
  A workspace may drop public pane numbers and give out new ones, never one it has given out before; a workspace
  is an old one that went on, or has an identifier the counter had not reached.
\<close>

definition ws_evolves :: "workspace \<Rightarrow> workspace \<Rightarrow> bool" where
  "ws_evolves ws ws' \<longleftrightarrow> ws_id ws' = ws_id ws \<and> ws_next_public_pane_number ws \<le> ws_next_public_pane_number ws' \<and>
     (\<forall>e \<in> set (ws_public_pane_numbers ws'). e \<in> set (ws_public_pane_numbers ws) \<or> ws_next_public_pane_number ws \<le> snd e)"

definition fresh_workspace :: "counters \<Rightarrow> string \<Rightarrow> bool" where
  "fresh_workspace c i \<longleftrightarrow> (\<exists>k. 0 < k \<and> next_workspace_id c \<le> k \<and> i = ''w'' @ encode_public_number k)"

definition evolves :: "counters \<Rightarrow> workspace list \<Rightarrow> workspace list \<Rightarrow> bool" where
  "evolves c wss wss' \<longleftrightarrow>
     (\<forall>ws' \<in> set wss'. (\<exists>ws \<in> set wss. ws_evolves ws ws') \<or> fresh_workspace c (ws_id ws'))"

lemma ws_evolves_same:
  "ws_id ws' = ws_id ws \<Longrightarrow> ws_public_pane_numbers ws' = ws_public_pane_numbers ws \<Longrightarrow>
    ws_next_public_pane_number ws' = ws_next_public_pane_number ws \<Longrightarrow> ws_evolves ws ws'"
  by (simp add: ws_evolves_def)

lemma ws_evolves_refl [simp]: "ws_evolves ws ws"
  by (simp add: ws_evolves_same)

lemma ws_evolves_trans:
  assumes "ws_evolves ws ws'" and "ws_evolves ws' ws''"
  shows "ws_evolves ws ws''"
proof -
  have le: "ws_next_public_pane_number ws \<le> ws_next_public_pane_number ws'" using assms(1) by (simp add: ws_evolves_def)
  show ?thesis unfolding ws_evolves_def
  proof (intro conjI ballI)
    fix e assume "e \<in> set (ws_public_pane_numbers ws'')"
    then have "e \<in> set (ws_public_pane_numbers ws') \<or> ws_next_public_pane_number ws' \<le> snd e"
      using assms(2) by (simp add: ws_evolves_def)
    then show "e \<in> set (ws_public_pane_numbers ws) \<or> ws_next_public_pane_number ws \<le> snd e"
      using assms(1) order_trans [OF le] by (auto simp: ws_evolves_def)
  qed (use assms order_trans [OF le] in \<open>simp_all add: ws_evolves_def\<close>)
qed

lemma set_delete: "set (AList.delete k m) \<subseteq> set m"
  by (auto simp: AList.delete_eq)

lemma set_update_subset: "set (AList.update k v m) \<subseteq> insert (k, v) (set m)"
  by (induction m) auto

lemma ws_evolves_drop:
  "ws_id ws' = ws_id ws \<Longrightarrow> set (ws_public_pane_numbers ws') \<subseteq> set (ws_public_pane_numbers ws) \<Longrightarrow>
    ws_next_public_pane_number ws' = ws_next_public_pane_number ws \<Longrightarrow> ws_evolves ws ws'"
  by (auto simp: ws_evolves_def)

lemma pane_gone_evolves: "pane_gone p ws ws' \<Longrightarrow> ws_id ws' = ws_id ws \<Longrightarrow> ws_evolves ws ws'"
  using set_delete by (intro ws_evolves_drop) (simp_all add: pane_gone_def)

lemma pane_added_evolves:
  assumes "pane_added p tid ws ws'" and "ws_id ws' = ws_id ws" and "numbers_left ws"
  shows "ws_evolves ws ws'"
proof -
  have "ws_next_public_pane_number ws \<le> ws_next_public_pane_number ws + 1"
    using assms(3) word_less_Suc [of "ws_next_public_pane_number ws"] by (simp add: numbers_left_def less_imp_le)
  moreover have "set (ws_public_pane_numbers ws') \<subseteq>
      insert (p, ws_next_public_pane_number ws) (set (ws_public_pane_numbers ws))"
    using assms(1) set_update_subset by (simp add: pane_added_def)
  ultimately show ?thesis using assms by (auto simp: ws_evolves_def pane_added_def)
qed

lemma pane_joined_evolves:
  assumes "pane_joined e ws ws'" and "ws_id ws' = ws_id ws" and "numbers_left ws"
  shows "ws_evolves ws ws'"
proof (cases "fst e \<in> set (map fst (ws_public_pane_numbers ws))")
  case True
  then show ?thesis using assms by (intro ws_evolves_same) (simp_all add: pane_joined_def)
next
  case False
  then have "ws_public_pane_numbers ws' = AList.update (fst e) (ws_next_public_pane_number ws) (ws_public_pane_numbers ws)"
    "ws_next_public_pane_number ws' = ws_next_public_pane_number ws + 1"
    using assms(1) by (simp_all add: pane_joined_def)
  moreover have "ws_next_public_pane_number ws \<le> ws_next_public_pane_number ws + 1"
    using assms(3) word_less_Suc [of "ws_next_public_pane_number ws"] by (simp add: numbers_left_def less_imp_le)
  ultimately show ?thesis
    using assms(2) set_update_subset [of "fst e" "ws_next_public_pane_number ws" "ws_public_pane_numbers ws"]
    by (auto simp: ws_evolves_def)
qed

lemma evolves_subset: "set wss' \<subseteq> set wss \<Longrightarrow> evolves c wss wss'"
  unfolding evolves_def using ws_evolves_refl by blast

lemma evolves_refl [simp]: "evolves c wss wss"
  by (simp add: evolves_subset)

lemma evolves_update: "i < length wss \<Longrightarrow> ws_evolves (wss ! i) ws \<Longrightarrow> evolves c wss (wss[i := ws])"
  unfolding evolves_def using ws_evolves_refl by (metis nth_mem set_update_cases)

lemma fresh_workspace_mono: "fresh_workspace c' i \<Longrightarrow> counters_le c c' \<Longrightarrow> fresh_workspace c i"
  unfolding fresh_workspace_def counters_le_def by (metis order_trans)

lemma evolves_trans:
  assumes "evolves c wss wss'" and "evolves c' wss' wss''" and "counters_le c c'"
  shows "evolves c wss wss''"
  unfolding evolves_def
proof
  fix w'' assume "w'' \<in> set wss''"
  then consider w' where "w' \<in> set wss'" "ws_evolves w' w''" | "fresh_workspace c' (ws_id w'')"
    using assms(2) unfolding evolves_def by blast
  then show "(\<exists>w \<in> set wss. ws_evolves w w'') \<or> fresh_workspace c (ws_id w'')"
  proof cases
    case 1
    then have "(\<exists>w \<in> set wss. ws_evolves w w') \<or> fresh_workspace c (ws_id w')" "ws_id w'' = ws_id w'"
      using assms(1) unfolding evolves_def ws_evolves_def by blast+
    with 1(2) show ?thesis using ws_evolves_trans by metis
  next
    case 2
    then show ?thesis using fresh_workspace_mono [OF _ assms(3)] by blast
  qed
qed

text \<open>The relation only reads the numbering.\<close>

definition numbering :: "workspace list \<Rightarrow> (string \<times> (pane_id, usize) hash_map \<times> usize) list" where
  "numbering wss = map (\<lambda>ws. (ws_id ws, ws_public_pane_numbers ws, ws_next_public_pane_number ws)) wss"

lemma evolves_numbering:
  assumes "numbering wss' = numbering wss"
  shows "evolves c wss wss'"
  unfolding evolves_def
proof
  fix w' assume "w' \<in> set wss'"
  then have "(ws_id w', ws_public_pane_numbers w', ws_next_public_pane_number w') \<in> set (numbering wss)"
    using assms by (metis (no_types, lifting) image_eqI list.set_map numbering_def)
  then obtain w where "w \<in> set wss" "ws_id w = ws_id w'" "ws_public_pane_numbers w = ws_public_pane_numbers w'"
    "ws_next_public_pane_number w = ws_next_public_pane_number w'" by (auto simp: numbering_def)
  then show "(\<exists>w \<in> set wss. ws_evolves w w') \<or> fresh_workspace c (ws_id w')"
    by (metis ws_evolves_same)
qed

lemma numbering_update:
  "ws_id ws = ws_id (wss ! i) \<Longrightarrow> ws_public_pane_numbers ws = ws_public_pane_numbers (wss ! i) \<Longrightarrow>
    ws_next_public_pane_number ws = ws_next_public_pane_number (wss ! i) \<Longrightarrow> numbering (wss[i := ws]) = numbering wss"
  by (cases "i < length wss") (simp_all add: numbering_def map_update list_update_same_conv list_update_beyond)

end
