(* ===== verification/SessionOps.thy ===== *)
theory SessionOps
  imports SessionInv WorkspaceMoves
begin

text \<open>
  The invariant of the whole session and its preservation by the operations of the application state: switching,
  focusing and zooming, moving a workspace, closing workspaces, and the end of a pane's process.
\<close>

definition focus_valid :: "workspace list \<Rightarrow> nat option \<Rightarrow> nat \<Rightarrow> bool" where
  "focus_valid wss active sel \<longleftrightarrow>
     (if wss = [] then active = None \<and> sel = 0
      else is_some_and active (\<lambda>a. a < length wss) \<and> sel < length wss)"

definition session_inv :: "'p app_state \<Rightarrow> counters \<Rightarrow> bool" where
  "session_inv s c \<longleftrightarrow>
     0 < next_workspace_id c \<and> wss_inv c (as_workspaces s) \<and>
     focus_valid (as_workspaces s) (as_active s) (as_selected s) \<and>
     fst ` set (as_terminals s) = snd ` set (all_entries (as_workspaces s))"

section \<open>What does not touch workspaces, terminals and focus\<close>

definition same_core :: "'p app_state \<Rightarrow> 'p app_state \<Rightarrow> bool" where
  "same_core s s' \<longleftrightarrow> as_workspaces s' = as_workspaces s \<and> as_active s' = as_active s \<and>
     as_selected s' = as_selected s \<and> as_terminals s' = as_terminals s"

lemma same_coreD:
  assumes "same_core s s'"
  shows "as_workspaces s' = as_workspaces s" "as_active s' = as_active s" "as_selected s' = as_selected s"
    "as_terminals s' = as_terminals s" "nth_ws s' = nth_ws s"
  using assms by (auto simp: same_core_def nth_ws_def)

lemma session_inv_core: "same_core s s' \<Longrightarrow> session_inv s' c = session_inv s c"
  by (simp add: session_inv_def same_core_def)

lemma core_side:
  "same_core s (mark_session_dirty s)" "same_core s (remove_alias_shadowed_by_new_pane p s)"
  "same_core s (record_pane_focus_change f i p s)" "same_core s (record_pane_focus_after_navigation f s)"
  "same_core s (clear_selection s)" "same_core s (clear_copy_mode_selection s)"
  "same_core s (sync_copy_mode_with_focus s)" "same_core s (settle_terminal_mode_after_focus s)"
  "same_core s (clear_copy_mode_for_removed_panes ps s)" "same_core s (sync_selection_after_focus_navigation s)"
  "same_core s (remove_plugin_pane_records ps s)"
  by (auto simp: same_core_def mark_session_dirty_def remove_alias_shadowed_by_new_pane_def
      record_pane_focus_change_def record_pane_focus_after_navigation_def clear_selection_def
      clear_copy_mode_selection_def sync_copy_mode_with_focus_def settle_terminal_mode_after_focus_def
      clear_copy_mode_for_removed_panes_def sync_selection_after_focus_navigation_def
      remove_plugin_pane_records_def Let_def split: option.splits)

lemmas core_simps [simp] = core_side [THEN same_coreD(1)] core_side [THEN same_coreD(2)]
  core_side [THEN same_coreD(3)] core_side [THEN same_coreD(4)] core_side [THEN same_coreD(5)]

lemma modify_ws_fields [simp]:
  "as_workspaces (modify_ws i f s) = (as_workspaces s)[i := f (as_workspaces s ! i)]"
  "as_active (modify_ws i f s) = as_active s" "as_selected (modify_ws i f s) = as_selected s"
  "as_terminals (modify_ws i f s) = as_terminals s"
  by (simp_all add: modify_ws_def)

lemma session_ws:
  assumes "session_inv s c" and "i < length (as_workspaces s)"
  shows "ws_inv (next_pane_id c) (as_workspaces s ! i)"
  using assms by (simp add: session_inv_def wss_inv_def)

lemma nth_ws_Some: "nth_ws s i = Some ws \<longleftrightarrow> i < length (as_workspaces s) \<and> ws = as_workspaces s ! i"
  by (auto simp: nth_ws_def)

text \<open>One workspace is replaced by one with the same panes; the focus may go elsewhere.\<close>

lemma session_same:
  assumes inv: "session_inv s c" and i: "i < length (as_workspaces s)" and "counters_le c c'"
    and wss: "as_workspaces s' = (as_workspaces s)[i := ws]" and ts: "as_terminals s' = as_terminals s"
    and "ws_inv (next_pane_id c') ws" and "ws_id ws = ws_id (as_workspaces s ! i)"
    and "mset (ws_entries ws) = mset (ws_entries (as_workspaces s ! i))"
    and foc: "focus_valid (as_workspaces s) (as_active s') (as_selected s')"
  shows "session_inv s' c'"
proof -
  have "wss_inv c (as_workspaces s)" using inv by (simp add: session_inv_def)
  from wss_inv_same [OF this i assms(3,7,6,8)]
  have "wss_inv c' (as_workspaces s')"
    "snd ` set (all_entries (as_workspaces s')) = snd ` set (all_entries (as_workspaces s))"
    unfolding wss by simp_all
  moreover have "focus_valid (as_workspaces s') (as_active s') (as_selected s')"
    using foc by (simp add: wss focus_valid_def)
  moreover have "0 < next_workspace_id c'"
    using inv assms(3) by (auto simp: session_inv_def counters_le_def elim: less_le_trans)
  ultimately show ?thesis using inv by (simp add: session_inv_def ts)
qed

lemma session_focus: "session_inv s c \<Longrightarrow> focus_valid (as_workspaces s) (as_active s) (as_selected s)"
  by (simp add: session_inv_def)

lemma focus_valid_at [intro]: "i < length wss \<Longrightarrow> focus_valid wss (Some i) i"
  by (auto simp: focus_valid_def)

section \<open>Switching and focusing\<close>

lemma switch_tab_id [simp]: "ws_id (switch_tab ws i) = ws_id ws"
  by (simp add: switch_tab_def)

lemma switch_workspace_inv:
  assumes "session_inv s c"
  shows "session_inv (switch_workspace i s) c"
proof (cases "i < length (as_workspaces s)")
  case True
  show ?thesis
    by (rule session_same [OF assms True counters_le_refl, where ws = "switch_tab (as_workspaces s ! i)
          (ws_active_tab (as_workspaces s ! i))"])
      (use True session_ws [OF assms True] switch_tab_inv in
        \<open>auto simp: switch_workspace_def Let_def focus_valid_def\<close>)
qed (use assms in \<open>simp add: switch_workspace_def\<close>)

lemma switch_tab_at_inv:
  assumes "session_inv s c"
  shows "session_inv (fst (switch_workspace_tab i k s)) c"
proof (cases "snd (switch_workspace_tab i k s)")
  case True
  then have i: "i < length (as_workspaces s)"
    by (auto simp: switch_workspace_tab_def split: if_splits)
  show ?thesis
    by (rule session_same [OF assms i counters_le_refl, where ws = "switch_tab (as_workspaces s ! i) k"])
      (use i True session_ws [OF assms i] switch_tab_inv in
        \<open>auto simp: switch_workspace_tab_def Let_def focus_valid_def split: if_splits\<close>)
next
  case False
  with assms show ?thesis by (auto simp: switch_workspace_tab_def Let_def split: if_splits)
qed

lemma switch_tab_at_fields:
  "as_terminals (fst (switch_workspace_tab i k s)) = as_terminals s"
  "length (as_workspaces (fst (switch_workspace_tab i k s))) = length (as_workspaces s)"
  by (simp_all add: switch_workspace_tab_def Let_def)

lemma focus_in_tab_inv:
  assumes "ws_inv n ws"
  shows "ws_inv n (focus_in_tab k p ws) \<and> ws_entries (focus_in_tab k p ws) = ws_entries ws \<and>
    ws_id (focus_in_tab k p ws) = ws_id ws"
proof (cases "k < length (ws_tabs ws)")
  case True
  have t: "tab_inv n (ws_tabs ws ! k)" using between_tab [OF _ True] assms by (auto simp: ws_inv_def)
  have "ws_inv n (ws\<lparr>ws_active_tab := ws_active_tab ws, ws_tabs := (ws_tabs ws)[k := focus_tab_pane (ws_tabs ws ! k) p]\<rparr>)"
    using active_tab_inv(2) [OF assms] by (intro same_panes_inv [OF assms True focus_tab_pane_inv [OF t]]) simp_all
  then show ?thesis
    using True by (simp add: focus_in_tab_def ws_entries_of entries_of_update_same)
qed (use assms in \<open>simp add: focus_in_tab_def list_update_beyond\<close>)

lemma focus_in_workspace_inv:
  assumes inv: "session_inv s c"
  shows "session_inv (fst (focus_pane_in_workspace i p s)) c"
proof -
  have focused: "session_inv (modify_ws i (focus_in_tab k p) s') c" if "session_inv s' c" for s' :: "'a app_state" and k
  proof (cases "i < length (as_workspaces s')")
    case True
    show ?thesis
      by (rule session_same [OF that True counters_le_refl, where ws = "focus_in_tab k p (as_workspaces s' ! i)"])
        (use session_ws [OF that True] focus_in_tab_inv session_focus [OF that] in auto)
  qed (use that in \<open>simp add: modify_ws_def list_update_beyond\<close>)
  define s1 where "s1 = (if as_copy_mode s \<noteq> None then clear_copy_mode_selection s else s)"
  have s1: "session_inv s1 c" using inv core_side(6) [of s] by (simp add: s1_def session_inv_core)
  have side: "session_inv (s'\<lparr>as_previous_pane_focus := f\<rparr>) c" if "session_inv s' c" for s' :: "'a app_state" and f
    using that by (simp add: session_inv_def)
  have side2: "session_inv (sync_copy_mode_with_focus (mark_session_dirty s')) c"
    if "session_inv s' c" for s' :: "'a app_state"
    using that session_inv_core [OF core_side(7)] session_inv_core [OF core_side(1)] by blast
  show ?thesis
    unfolding focus_pane_in_workspace_def s1_def [symmetric]
    using inv switch_tab_at_inv [OF s1] focused side side2
    by (simp add: Let_def split: option.split)
qed

text \<open>A tab is replaced by one with the same panes.\<close>

lemma session_tab:
  assumes inv: "session_inv s c" and i: "i < length (as_workspaces s)"
    and k: "k < length (ws_tabs (as_workspaces s ! i))" and "t0 = ws_tabs (as_workspaces s ! i) ! k"
    and "\<And>n. tab_inv n t0 \<Longrightarrow> tab_inv n t" and "tab_entries t = tab_entries t0" and "tab_number t = tab_number t0"
  shows "session_inv (modify_ws i (\<lambda>ws. ws\<lparr>ws_tabs := (ws_tabs ws)[k := t]\<rparr>) s) c"
proof -
  let ?ws = "as_workspaces s ! i"
  let ?ws' = "?ws\<lparr>ws_tabs := (ws_tabs ?ws)[k := t]\<rparr>"
  note w = session_ws [OF inv i]
  have "tab_inv (next_pane_id c) t0" using between_tab [OF _ k] w by (auto simp: ws_inv_def assms(4))
  then have "ws_inv (next_pane_id c) (?ws\<lparr>ws_active_tab := ws_active_tab ?ws, ws_tabs := (ws_tabs ?ws)[k := t]\<rparr>)"
    using active_tab_inv(2) [OF w] assms(4-) by (intro same_panes_inv [OF w k]) simp_all
  then have "ws_inv (next_pane_id c) ?ws'" by simp
  moreover have "ws_entries ?ws' = ws_entries ?ws"
    using k assms(4,6) by (simp add: ws_entries_of entries_of_update_same)
  ultimately show ?thesis
    using session_focus [OF inv] by (intro session_same [OF inv i counters_le_refl, where ws = ?ws']) simp_all
qed

lemma pane_zoom_inv:
  assumes inv: "session_inv s c"
  shows "session_inv (fst (apply_pane_zoom i p z s)) c"
proof -
  obtain s1 b where s1: "focus_pane_in_workspace i p s = (s1, b)" by fastforce
  have inv1: "session_inv s1 c" using focus_in_workspace_inv [OF inv, of i p] by (simp add: s1)
  have zoom: "session_inv (mark_session_dirty (modify_ws i (\<lambda>ws.
      ws\<lparr>ws_tabs := (ws_tabs ws)[k := t\<lparr>tab_zoomed := d\<rparr>]\<rparr>) s1)) c"
    if tk: "Option.bind (nth_ws s1 i) (\<lambda>ws. nth_tab ws k) = Some t" for k t d
  proof -
    from tk have "i < length (as_workspaces s1)" "k < length (ws_tabs (as_workspaces s1 ! i))"
      and "t = ws_tabs (as_workspaces s1 ! i) ! k"
      by (auto simp: nth_ws_def nth_tab_def split: if_splits)
    then have "session_inv (modify_ws i (\<lambda>ws. ws\<lparr>ws_tabs := (ws_tabs ws)[k := t\<lparr>tab_zoomed := d\<rparr>]\<rparr>) s1) c"
      by (intro session_tab [OF inv1]) (auto simp: tab_inv_def tab_ids_def tab_entries_def)
    then show ?thesis using session_inv_core [OF core_side(1)] by blast
  qed
  show ?thesis
    unfolding apply_pane_zoom_def s1 using inv inv1 zoom
    by (simp add: Let_def split: option.split)
qed

lemma mark_seen_inv:
  assumes inv: "session_inv s c"
  shows "session_inv (fst (mark_active_tab_seen s)) c"
proof (cases "Option.bind (as_active s) (\<lambda>i. Option.bind (nth_ws s i) active_tab)")
  case None
  with inv show ?thesis by (auto simp: mark_active_tab_seen_def split: option.split)
next
  case (Some t)
  then obtain i where i: "as_active s = Some i" "i < length (as_workspaces s)"
    and t: "active_tab (as_workspaces s ! i) = Some t" by (auto simp: bind_eq_Some_conv nth_ws_Some)
  let ?k = "ws_active_tab (as_workspaces s ! i)"
  note act = active_tab_inv [OF session_ws [OF inv i(2)]]
  have "session_inv (modify_ws i (\<lambda>ws. ws\<lparr>ws_tabs := (ws_tabs ws)[?k := mark_panes_seen t]\<rparr>) s) c"
    using t act by (intro session_tab [OF inv i(2) act(2)]) (simp_all add: mark_panes_seen_inv)
  then show ?thesis using i t by (simp add: mark_active_tab_seen_def nth_ws_def modify_ws_def)
qed

section \<open>Moving a workspace\<close>

lemma position_id:
  assumes "wss_ids c wss" and "i < length wss"
  shows "position (\<lambda>ws. ws_id ws = ws_id (wss ! i)) wss = Some i"
  using assms by (intro position_unique) (auto simp: wss_ids_def distinct_conv_nth)

lemma move_workspace_contract:
  assumes inv: "session_inv s c"
  shows "\<exists>s' b. move_workspace i j s = Return (s', b) \<and> session_inv s' c \<and>
    mset (as_workspaces s') = mset (as_workspaces s) \<and>
    Option.bind (as_active s') (nth_ws s') = Option.bind (as_active s) (nth_ws s) \<and>
    nth_ws s' (as_selected s') = nth_ws s (as_selected s) \<and>
    (if b then i < length (as_workspaces s) \<and> j \<le> length (as_workspaces s) \<and>
       as_workspaces s' ! (if i < j then j - 1 else j) = as_workspaces s ! i
     else s' = s)"
proof -
  let ?wss = "as_workspaces s" and ?j = "if i < j then j - 1 else j"
  let ?new = "insert_nth ?j (?wss ! i) (remove_nth i ?wss)"
  show ?thesis
  proof (cases "length ?wss \<le> i \<or> length ?wss < j \<or> i = ?j")
    case True
    then have "move_workspace i j s = Return (s, False)" by (elim disjE) (simp_all add: move_workspace_def Let_def)
    with inv show ?thesis by (intro exI [of _ s] exI [of _ False]) simp
  next
    case False
    then have i: "i < length ?wss" and j: "j \<le> length ?wss" and ne: "?wss \<noteq> []" by auto
    have len: "?j \<le> length (remove_nth i ?wss)" using i j by (auto simp: length_remove_nth)
    note ms = mset_move [OF i, of ?j]
    have ids: "wss_ids c ?wss" and all: "wss_inv c ?wss" using inv by (simp_all add: session_inv_def wss_inv_def)
    have new: "wss_inv c ?new" using wss_inv_subset [OF all] ms by simp
    obtain a where a: "as_active s = Some a" "a < length ?wss" and sel: "as_selected s < length ?wss"
      using session_focus [OF inv] ne by (auto simp: focus_valid_def is_some_and_def split: option.splits)
    have lid: "wss_ids c ?new" and llen: "length ?new = length ?wss"
      using new mset_eq_length [OF ms] by (simp_all add: wss_inv_def)
    have at: "\<exists>k. position (\<lambda>ws. ws_id ws = ws_id (?wss ! n)) ?new = Some k \<and> k < length ?wss \<and> ?new ! k = ?wss ! n"
      if n: "n < length ?wss" for n
    proof -
      have "?wss ! n \<in> set ?new" using n mset_eq_setD [OF ms] by simp
      then obtain k where k: "k < length ?new" "?new ! k = ?wss ! n" unfolding in_set_conv_nth by blast
      from position_id [OF lid k(1)] k llen show ?thesis by (intro exI [of _ k]) simp
    qed
    obtain ka where ka: "position (\<lambda>ws. ws_id ws = ws_id (?wss ! a)) ?new = Some ka" "ka < length ?wss"
      "?new ! ka = ?wss ! a" using at [OF a(2)] by blast
    obtain ks where ks: "position (\<lambda>ws. ws_id ws = ws_id (?wss ! as_selected s)) ?new = Some ks" "ks < length ?wss"
      "?new ! ks = ?wss ! as_selected s" using at [OF sel] by blast
    define s' where "s' = (mark_session_dirty s)\<lparr>as_workspaces := ?new, as_active := Some ka, as_selected := ks\<rparr>"
    have run: "move_workspace i j s = Return (s', True)"
      using False len a sel ka(1) ks(1)
      by (simp add: move_workspace_def Let_def nth_ws_def expect_def s'_def unwrap_or_def)
    have nl: "length ?new = length ?wss" "set (all_entries ?new) = set (all_entries ?wss)"
      using mset_eq_length [OF ms] mset_eq_setD [OF all_entries_mset [OF ms]] by simp_all
    have set: "set ?new = set ?wss" using mset_eq_setD [OF ms] .
    have ne': "?new \<noteq> []" using ne set by auto
    have foc: "focus_valid ?new (Some ka) ks" using ka(2) ks(2) llen ne' by (simp add: focus_valid_def)
    have "session_inv s' c"
      unfolding session_inv_def s'_def
      using inv new foc mset_eq_setD [OF all_entries_mset [OF ms]] by (simp add: session_inv_def)
    moreover have "as_workspaces s' = ?new" "as_active s' = Some ka" "as_selected s' = ks" by (simp_all add: s'_def)
    moreover have "Option.bind (as_active s) (nth_ws s) = Some (?wss ! a)" "nth_ws s (as_selected s) = Some (?wss ! as_selected s)"
      using a sel by (simp_all add: nth_ws_def)
    moreover have "nth_ws s' ka = Some (?wss ! a)" "nth_ws s' ks = Some (?wss ! as_selected s)"
      unfolding nth_ws_def calculation(2) using ka ks llen by simp_all
    ultimately show ?thesis
      using run i j ms nth_insert_nth [OF len] by (intro exI [of _ s'] exI [of _ True]) simp
  qed
qed

end
