(* ===== verification/SessionClose.thy ===== *)
theory SessionClose
  imports SessionOps
begin

text \<open>
  Closing: what becomes of the terminals nobody shows any more, of the workspaces that go together, and of the
  focus; and the end of a pane's process.
\<close>

section \<open>Terminals nobody shows\<close>

lemma ws_entries_terminals: "snd ` set (ws_entries ws) = (\<Union>t \<in> set (ws_tabs ws). ps_attached_terminal_id ` set (hm_values (tab_panes t)))"
  by (force simp: ws_entries_def tab_entries_def hm_values_def)

lemma still_attached_iff: "still_attached tid s \<longleftrightarrow> tid \<in> snd ` set (all_entries (as_workspaces s))"
proof -
  have "snd ` set (all_entries (as_workspaces s)) = (\<Union>ws \<in> set (as_workspaces s). snd ` set (ws_entries ws))"
    by (force simp: all_entries_def)
  then show ?thesis by (auto simp: still_attached_def list_ex_iff ws_entries_terminals)
qed

lemma unattached_fields [simp]:
  "as_workspaces (remove_unattached_terminal_id tid s) = as_workspaces s"
  "as_active (remove_unattached_terminal_id tid s) = as_active s"
  "as_selected (remove_unattached_terminal_id tid s) = as_selected s"
  by (simp_all add: remove_unattached_terminal_id_def Let_def)

lemma unattached_ids_fields [simp]:
  "as_workspaces (remove_unattached_terminal_ids tids s) = as_workspaces s"
  "as_active (remove_unattached_terminal_ids tids s) = as_active s"
  "as_selected (remove_unattached_terminal_ids tids s) = as_selected s"
  by (induction tids arbitrary: s) (simp_all add: remove_unattached_terminal_ids_def)

lemma unattached_ids_keys:
  "fst ` set (as_terminals (remove_unattached_terminal_ids tids s)) =
    fst ` set (as_terminals s) - (set tids - snd ` set (all_entries (as_workspaces s)))"
proof (induction tids arbitrary: s)
  case (Cons tid tids)
  have "fst ` set (as_terminals (remove_unattached_terminal_id tid s)) =
      fst ` set (as_terminals s) - ({tid} - snd ` set (all_entries (as_workspaces s)))"
    by (auto simp: remove_unattached_terminal_id_def still_attached_iff Let_def delete_conv' simp flip: dom_map_of_conv_image_fst)
  with Cons [of "remove_unattached_terminal_id tid s"] show ?case
    by (auto simp: remove_unattached_terminal_ids_def)
qed (simp add: remove_unattached_terminal_ids_def)

text \<open>Once the terminals that may have lost their pane are gone, the kept ones are again the shown ones.\<close>

lemma swept_terminals:
  assumes "fst ` set (as_terminals s) = T" and "snd ` set (all_entries (as_workspaces s)) \<subseteq> T"
    and "T - snd ` set (all_entries (as_workspaces s)) \<subseteq> set tids"
  shows "fst ` set (as_terminals (remove_unattached_terminal_ids tids s)) = snd ` set (all_entries (as_workspaces s))"
  unfolding unattached_ids_keys assms(1) using assms(2,3) by blast

lemma terminal_ids_ws:
  "i < length (as_workspaces s) \<Longrightarrow>
    set (terminal_ids_for_workspace s i) = snd ` set (ws_entries (as_workspaces s ! i))"
  by (simp add: terminal_ids_for_workspace_def nth_ws_def ws_entries_terminals)

section \<open>Workspaces that go together\<close>

lemma remove_workspaces_spec:
  assumes "sorted_wrt (>) js" and "\<forall>j \<in> set js. j < length wss"
  shows "\<exists>wss'. remove_workspaces js wss = Return wss' \<and> mset wss = mset (map ((!) wss) js) + mset wss'"
  using assms
proof (induction js arbitrary: wss)
  case (Cons j js)
  have j: "j < length wss" using Cons.prems(2) by simp
  have less: "k < j" if "k \<in> set js" for k using Cons.prems(1) that by simp
  have eq: "map ((!) (remove_nth j wss)) js = map ((!) wss) js"
    using less by (auto simp: nth_remove_nth [OF j])
  have "\<forall>k \<in> set js. k < length (remove_nth j wss)"
    using less j by (fastforce simp: length_remove_nth)
  then obtain wss' where "remove_workspaces js (remove_nth j wss) = Return wss'"
    "mset (remove_nth j wss) = mset (map ((!) (remove_nth j wss)) js) + mset wss'"
    using Cons.IH [of "remove_nth j wss"] Cons.prems(1) by auto
  moreover have "mset wss = add_mset (wss ! j) (mset (remove_nth j wss))"
  proof -
    have "mset wss = mset (take j wss @ wss ! j # drop (Suc j) wss)" using split_at [OF j] by simp
    then show ?thesis by (simp add: remove_nth_def)
  qed
  ultimately show ?case using j by (simp add: eq)
qed simp

lemma worktree_group_filter:
  "worktree_group s key =
    filter (\<lambda>i. is_some_and (ws_worktree_space (as_workspaces s ! i)) (\<lambda>m. wm_key m = key)) [0..<length (as_workspaces s)]"
proof -
  have "List.map_filter (\<lambda>(i, x). then_some (P x) i) (enumerate n xs) =
      filter (\<lambda>i. P (xs ! (i - n))) [n..<n + length xs]" for P :: "workspace \<Rightarrow> bool" and xs n
  proof (induction xs arbitrary: n)
    case (Cons x xs)
    have "[n..<n + length (x # xs)] = n # [Suc n..<Suc n + length xs]" by (subst upt_conv_Cons) simp_all
    moreover have "filter (\<lambda>i. P ((x # xs) ! (i - n))) [Suc n..<Suc n + length xs] =
        filter (\<lambda>i. P (xs ! (i - Suc n))) [Suc n..<Suc n + length xs]"
      by (rule filter_cong) (auto simp: nth_Cons')
    ultimately show ?case using Cons [of "Suc n"] by (simp add: map_filter_simps then_some_def)
  qed (simp add: map_filter_simps)
  from this [of _ 0] show ?thesis by (simp add: worktree_group_def)
qed

lemma close_indices_sorted:
  assumes "as_selected s < length (as_workspaces s)"
  shows "sorted_wrt (<) (close_indices s)" "\<forall>i \<in> set (close_indices s). i < length (as_workspaces s)"
    "close_indices s \<noteq> []"
  using assms
  by (auto simp: close_indices_def unwrap_or_def option_filter_def worktree_group_filter sorted_wrt_filter
      split: option.split)

lemma close_indices_core: "same_core s s' \<Longrightarrow> close_indices s' = close_indices s"
  by (simp add: close_indices_def worktree_group_def same_core_def nth_ws_def)

lemma close_selected_contract:
  assumes inv: "session_inv s c" and sel: "i < length (as_workspaces s)"
  shows "\<exists>s'. close_selected_workspace (s\<lparr>as_selected := i\<rparr>) = Return s' \<and> session_inv s' c \<and>
    mset (as_workspaces s) =
      mset (map ((!) (as_workspaces s)) (close_indices (s\<lparr>as_selected := i\<rparr>))) + mset (as_workspaces s')"
proof -
  let ?wss = "as_workspaces s" and ?is = "close_indices (s\<lparr>as_selected := i\<rparr>)"
  define s1 where "s1 = mark_session_dirty (s\<lparr>as_selected := i, as_selection := None\<rparr>)"
  have s1: "as_workspaces s1 = ?wss" "as_terminals s1 = as_terminals s" "as_selected s1 = i"
    by (simp_all add: s1_def)
  have "same_core (s\<lparr>as_selected := i\<rparr>) s1" by (simp add: same_core_def s1_def)
  then have ci: "close_indices s1 = ?is" by (rule close_indices_core)
  have range: "sorted_wrt (<) ?is" "\<forall>k \<in> set ?is. k < length ?wss"
    using close_indices_sorted [of s1] sel s1 ci by auto
  define s2 where "s2 = remove_plugin_pane_records (concat (map (pane_ids_for_workspace s1) ?is)) s1"
  have s2: "as_workspaces s2 = ?wss" "as_terminals s2 = as_terminals s" "as_selected s2 = i"
    by (simp_all add: s2_def s1)
  have "sorted_wrt (>) (rev ?is)" using range(1) by (simp add: sorted_wrt_rev)
  then obtain wss' where wss': "remove_workspaces (rev ?is) ?wss = Return wss'"
    and "mset ?wss = mset (map ((!) ?wss) (rev ?is)) + mset wss'"
    using remove_workspaces_spec [of "rev ?is" ?wss] range(2) by auto
  then have ms: "mset ?wss = mset (map ((!) ?wss) ?is @ wss')" by (simp flip: rev_map)
  define tids where "tids = concat (map (terminal_ids_for_workspace s1) ?is)"
  define s3 where "s3 = remove_unattached_terminal_ids tids (s2\<lparr>as_workspaces := wss'\<rparr>)"
  have s3: "as_workspaces s3 = wss'" "as_selected s3 = i" by (simp_all add: s3_def s2)
  have wi: "wss_inv c wss'"
    using wss_inv_subset [of c ?wss wss'] inv ms by (simp add: session_inv_def)
  have es: "set (all_entries ?wss) = set (all_entries (map ((!) ?wss) ?is)) \<union> set (all_entries wss')"
    using mset_eq_setD [OF all_entries_mset [OF ms]] by simp
  have "set tids = (\<Union>k \<in> set ?is. set (terminal_ids_for_workspace s1 k))" by (simp add: tids_def)
  also have "\<dots> = (\<Union>k \<in> set ?is. snd ` set (ws_entries (?wss ! k)))"
    using range(2) terminal_ids_ws [of _ s1] by (intro SUP_cong) (simp_all add: s1)
  also have "\<dots> = snd ` set (all_entries (map ((!) ?wss) ?is))" by (simp add: all_entries_def image_UN)
  finally have "set tids = snd ` set (all_entries (map ((!) ?wss) ?is))" .
  moreover have "fst ` set (as_terminals s) = snd ` set (all_entries ?wss)" using inv by (simp add: session_inv_def)
  ultimately have ts: "fst ` set (as_terminals s3) = snd ` set (all_entries wss')"
    unfolding s3_def using es swept_terminals [of "s2\<lparr>as_workspaces := wss'\<rparr>" "snd ` set (all_entries ?wss)" tids]
    by (auto simp: s2 image_Un)
  define s' where "s' = (if wss' = [] then s3\<lparr>as_active := None, as_selected := 0\<rparr>
     else let sel = (if length wss' \<le> i then length wss' - 1 else i) in s3\<lparr>as_selected := sel, as_active := Some sel\<rparr>)"
  have core: "as_workspaces s' = wss'" "as_terminals s' = as_terminals s3" by (simp_all add: s'_def s3 Let_def)
  have "focus_valid wss' (as_active s') (as_selected s')"
    by (auto simp: s'_def focus_valid_def Let_def)
  then have "session_inv s' c" using wi ts inv by (simp add: session_inv_def core)
  moreover have "close_selected_workspace (s\<lparr>as_selected := i\<rparr>) = Return s'"
  proof -
    have "?wss \<noteq> []" using sel by auto
    then show ?thesis
      using wss' by (simp add: close_selected_workspace_def Let_def s'_def s3_def s2_def tids_def s1_def ci [unfolded s1_def])
  qed
  ultimately show ?thesis using ms by (intro exI [of _ s']) (simp add: core)
qed

section \<open>A pane that goes\<close>

lemma find_map_foldr: "foldr (\<lambda>t. or_else (f t)) ts None = Some x \<Longrightarrow> \<exists>t \<in> set ts. f t = Some x"
  by (induction ts) (auto simp: or_else_def split: option.splits)

lemma find_map_foldr_None: "foldr (\<lambda>t. or_else (f t)) ts None = None \<longleftrightarrow> (\<forall>t \<in> set ts. f t = None)"
  by (induction ts) (auto simp: or_else_def split: option.splits)

lemma ws_pane_state_Some:
  assumes "ws_pane_state ws p = Some st"
  shows "(p, ps_attached_terminal_id st) \<in> set (ws_entries ws)" "p \<in> set (ws_ids ws)"
proof -
  obtain t where "t \<in> set (ws_tabs ws)" "(p, st) \<in> set (tab_panes t)"
    using assms find_map_foldr [of "\<lambda>t. map_of (tab_panes t) p" "ws_tabs ws" st]
    by (auto simp: ws_pane_state_def find_map_tabs_def dest: map_of_SomeD)
  then show e: "(p, ps_attached_terminal_id st) \<in> set (ws_entries ws)"
    by (force simp: ws_entries_def tab_entries_def)
  then show "p \<in> set (ws_ids ws)" by (force simp: ws_ids_def)
qed

lemma ws_pane_state_None: "ws_pane_state ws p = None \<longleftrightarrow> p \<notin> set (ws_ids ws)"
  by (auto simp: ws_pane_state_def find_map_tabs_def find_map_foldr_None set_ws_ids tab_ids_def map_of_eq_None_iff)

lemma entry_unique:
  "distinct (map fst es) \<Longrightarrow> (p, a) \<in> set es \<Longrightarrow> (p, b) \<in> set es \<Longrightarrow> a = b"
  by (metis eq_key_imp_eq_value)

text \<open>The pane leaves its workspace, and its terminal leaves the session.\<close>

lemma session_gone:
  assumes inv: "session_inv s c" and i: "i < length (as_workspaces s)" and p: "p \<in> set (ws_ids (as_workspaces s ! i))"
    and gone: "pane_gone p (as_workspaces s ! i) ws" and ws: "ws_inv (next_pane_id c) ws"
    and ident: "ws_id ws = ws_id (as_workspaces s ! i)"
    and core: "same_core (s\<lparr>as_workspaces := (as_workspaces s)[i := ws]\<rparr>) s'"
    and tid: "terminal_id_for_pane s i p = Some tid"
  shows "session_inv (remove_unattached_terminal_ids [tid] s') c"
proof -
  let ?wss = "as_workspaces s" and ?new = "(as_workspaces s)[i := ws]"
  note s' = same_coreD [OF core, simplified]
  have all: "wss_inv c ?wss" using inv by (simp add: session_inv_def)
  then have dist: "entries_distinct (all_entries ?wss)" by (simp add: wss_inv_def wss_ids_def)
  have es: "all_entries ?new = filter (\<lambda>e. fst e \<noteq> p) (all_entries ?wss)"
    using all i gone p by (intro all_entries_filter [of c]) (simp_all add: wss_inv_def pane_gone_def)
  have "(p, tid) \<in> set (ws_entries (?wss ! i))"
    using tid i ws_pane_state_Some(1) by (auto simp: terminal_id_for_pane_def nth_ws_def)
  then have mem: "(p, tid) \<in> set (all_entries ?wss)" using i by (auto simp: set_all_entries)
  have "wss_inv c ?new"
  proof (rule wss_inv_replace [OF all i counters_le_refl ident ws])
    show "entries_distinct (all_entries ?new)"
      using dist by (simp add: es entries_distinct_def distinct_map_filter)
  next
    fix t assume "t \<in> snd ` set (all_entries ?new)"
    then show "drawn_terminal c t" using all by (auto simp: es wss_inv_def wss_ids_def)
  qed
  moreover have "snd ` set (all_entries ?new) \<subseteq> snd ` set (all_entries ?wss)"
    and "snd ` set (all_entries ?wss) - snd ` set (all_entries ?new) \<subseteq> {tid}"
    using dist mem entry_unique [of "all_entries ?wss" p] by (auto simp: es entries_distinct_def image_iff)
  then have "fst ` set (as_terminals (remove_unattached_terminal_ids [tid] s')) = snd ` set (all_entries ?new)"
    using swept_terminals [of s' "snd ` set (all_entries ?wss)" "[tid]"] inv by (simp add: s' session_inv_def)
  moreover have "focus_valid ?new (as_active s) (as_selected s)"
    using session_focus [OF inv] by (simp add: focus_valid_def)
  ultimately show ?thesis using inv by (simp add: session_inv_def s')
qed

text \<open>A workspace leaves the session, and the focus is clamped.\<close>

definition clamp_focus :: "nat \<Rightarrow> nat \<Rightarrow> nat" where
  "clamp_focus n k = (if n \<le> k then n - 1 else k)"

lemma remove_nth_mset: "i < length xs \<Longrightarrow> mset xs = add_mset (xs ! i) (mset (remove_nth i xs))"
  using split_at [of i xs] by (simp add: remove_nth_def) (metis mset.simps(2) mset_append union_mset_add_mset_right)

lemma session_without_ws:
  assumes inv: "session_inv s c" and i: "i < length (as_workspaces s)"
    and new: "as_workspaces s' = remove_nth i (as_workspaces s)" and ts: "as_terminals s' = as_terminals s"
    and tids: "set tids = snd ` set (ws_entries (as_workspaces s ! i))"
  shows "wss_inv c (as_workspaces s')"
    "fst ` set (as_terminals (remove_unattached_terminal_ids tids s')) = snd ` set (all_entries (as_workspaces s'))"
proof -
  let ?wss = "as_workspaces s"
  have ms: "mset ?wss = mset (?wss ! i # as_workspaces s')" using remove_nth_mset [OF i] by (simp add: new)
  then show "wss_inv c (as_workspaces s')"
    using wss_inv_subset [of c ?wss] inv by (simp add: session_inv_def)
  have "set (all_entries ?wss) = set (ws_entries (?wss ! i)) \<union> set (all_entries (as_workspaces s'))"
    using mset_eq_setD [OF all_entries_mset [OF ms]] by simp
  moreover have "fst ` set (as_terminals s') = snd ` set (all_entries ?wss)" using inv by (simp add: session_inv_def ts)
  ultimately show "fst ` set (as_terminals (remove_unattached_terminal_ids tids s')) =
      snd ` set (all_entries (as_workspaces s'))"
    using tids by (intro swept_terminals [of s' "snd ` set (all_entries ?wss)"]) (auto simp: image_Un)
qed

lemma find_pane_position:
  assumes "position (\<lambda>ws. find_tab_index_for_pane ws p \<noteq> None) wss = Some i"
  shows "i < length wss" "p \<in> set (ws_ids (wss ! i))"
proof -
  note h = position_holds [OF assms]
  then show "i < length wss" by simp
  from h have "find_tab_index_for_pane (wss ! i) p \<noteq> None" by simp
  then show "p \<in> set (ws_ids (wss ! i))" unfolding find_tab_None by simp
qed

lemma nth_ws_selection [simp]: "nth_ws (s\<lparr>as_selection := x\<rparr>) = nth_ws s"
  by (auto simp: nth_ws_def)

text \<open>Where the focus is after a workspace whose only pane has died.\<close>

definition closed_with_pane :: "pane_id \<Rightarrow> 'p app_state \<Rightarrow> 'p app_state \<Rightarrow> bool" where
  "closed_with_pane p s s' \<longleftrightarrow>
     (\<forall>i. position (\<lambda>ws. find_tab_index_for_pane ws p \<noteq> None) (as_workspaces s) = Some i \<longrightarrow>
       ws_ids (as_workspaces s ! i) = [p] \<longrightarrow>
       as_workspaces s' = remove_nth i (as_workspaces s) \<and>
       as_active s' = (if remove_nth i (as_workspaces s) = [] then None
         else map_option (clamp_focus (length (remove_nth i (as_workspaces s)))) (as_active s)))"

lemma pane_died_contract:
  assumes inv: "session_inv s c"
  shows "\<exists>s'. handle_pane_died p s = Return s' \<and> session_inv s' c \<and>
    evolves c (as_workspaces s) (as_workspaces s') \<and> closed_with_pane p s s'"
proof -
  define s1 where "s1 = remove_plugin_pane_records [p]
    (s\<lparr>as_pending_agent_notifications := AList.delete p (as_pending_agent_notifications s)\<rparr>)"
  have c1: "same_core s s1" by (simp add: same_core_def s1_def)
  show ?thesis
  proof (cases "position (\<lambda>ws. find_tab_index_for_pane ws p \<noteq> None) (as_workspaces s1)")
    case None
    then have "handle_pane_died p s = Return s1" by (simp add: handle_pane_died_def Let_def s1_def)
    then show ?thesis using session_inv_core [OF c1] same_coreD(1) [OF c1] inv None
      by (simp add: closed_with_pane_def)
  next
    case (Some i)
    then have i: "i < length (as_workspaces s)" and p: "p \<in> set (ws_ids (as_workspaces s ! i))"
      using find_pane_position [OF Some] c1 by (auto simp: same_core_def)
    define s2 where "s2 = (if is_some_and (as_selection s1) (\<lambda>sel. sel_pane_id sel = p)
        then s1\<lparr>as_selection := None\<rparr> else s1)"
    define s3 where "s3 = s2\<lparr>as_pane_id_aliases := filter (\<lambda>(_, alias). alias \<noteq> p) (as_pane_id_aliases s2),
       as_public_pane_id_aliases := filter (\<lambda>(_, alias). alias \<noteq> p) (as_public_pane_id_aliases s2)\<rparr>"
    have c2: "same_core s s2" using c1 by (simp add: same_core_def s2_def)
    then have c3: "same_core s s3" by (simp add: same_core_def s3_def)
    have inv3: "session_inv s3 c" using session_inv_core [OF c3] inv by simp
    note s3 = same_coreD [OF c3]
    obtain ws b where rm: "ws_remove_pane (as_workspaces s ! i) p = Return (ws, b)" and "ws_inv (next_pane_id c) ws"
      and "ws_id ws = ws_id (as_workspaces s ! i)"
      and cases: "if b then ws = as_workspaces s ! i \<and> ws_ids (as_workspaces s ! i) = [p]
        else pane_gone p (as_workspaces s ! i) ws"
      using remove_pane_contract [OF session_ws [OF inv i], of p] p by auto
    obtain st where "ws_pane_state (as_workspaces s ! i) p = Some st"
      using p ws_pane_state_None [of "as_workspaces s ! i" p] by auto
    then have tid: "terminal_id_for_pane s3 i p = Some (ps_attached_terminal_id st)"
      using i by (simp add: terminal_id_for_pane_def s3 nth_ws_def)
    have ids: "terminal_id_for_pane s2 i p = terminal_id_for_pane s3 i p"
      "terminal_ids_for_workspace s2 i = terminal_ids_for_workspace s3 i"
      using same_coreD(5) [OF c2] by (simp_all add: terminal_id_for_pane_def terminal_ids_for_workspace_def s3(5))
    define s4 where "s4 = mark_session_dirty (s3\<lparr>as_workspaces := (as_workspaces s3)[i := ws]\<rparr>)"
    show ?thesis
    proof (cases b)
      case False
      let ?s' = "remove_unattached_terminal_ids [ps_attached_terminal_id st] s4"
      have "handle_pane_died p s = Return ?s'"
        unfolding handle_pane_died_def s1_def [symmetric] Let_def s2_def [symmetric] s3_def [symmetric]
        using Some rm False by (simp add: s3 ids tid s4_def)
      moreover have "session_inv ?s' c"
        by (rule session_gone [OF inv3, of i p ws])
          (use i p cases False \<open>ws_inv _ _\<close> \<open>ws_id ws = _\<close> tid in \<open>simp_all add: s3 s4_def same_core_def\<close>)
      moreover have "evolves c (as_workspaces s) (as_workspaces ?s')"
        using evolves_update [OF i pane_gone_evolves [of p _ ws]] cases False \<open>ws_id ws = _\<close> by (simp add: s4_def s3)
      moreover have "closed_with_pane p s ?s'"
      proof -
        have "ws_ids ws = filter (\<lambda>j. j \<noteq> p) (ws_ids (as_workspaces s ! i))"
          using cases False by (simp add: pane_gone_def ws_ids_def filter_map comp_def)
        moreover have "ws_ids ws \<noteq> []"
        proof -
          have act: "ws_active_tab ws < length (ws_tabs ws)" using active_tab_inv(2) [OF \<open>ws_inv _ ws\<close>] .
          have "ws_between (next_pane_id c) {} ws" using \<open>ws_inv _ ws\<close> by (simp add: ws_inv_def)
          from tab_ids_nonempty [OF between_tab [OF this act]] act show ?thesis
            by (auto simp: ws_ids_of intro!: bexI [OF _ nth_mem [OF act]])
        qed
        ultimately have "ws_ids (as_workspaces s ! i) \<noteq> [p]" by auto
        then show ?thesis using Some same_coreD(1) [OF c1] by (simp add: closed_with_pane_def)
      qed
      ultimately show ?thesis by blast
    next
      case True
      define s5 where "s5 = remove_unattached_terminal_ids (terminal_ids_for_workspace s3 i)
        (s4\<lparr>as_workspaces := remove_nth i (as_workspaces s4)\<rparr>)"
      have wsid: "(as_workspaces s)[i := ws] = as_workspaces s" using True cases by simp
      then have w: "as_workspaces s4 = as_workspaces s" by (simp add: s4_def s3)
      have s5: "as_workspaces s5 = remove_nth i (as_workspaces s)" "as_active s5 = as_active s"
        "as_selected s5 = as_selected s" by (simp_all add: s5_def w) (simp_all add: s4_def s3)
      let ?s5 = "s4\<lparr>as_workspaces := remove_nth i (as_workspaces s4)\<rparr>"
      have f: "as_workspaces ?s5 = remove_nth i (as_workspaces s)" "as_terminals ?s5 = as_terminals s"
        by (simp_all add: w) (simp_all add: s4_def s3)
      have "set (terminal_ids_for_workspace s3 i) = snd ` set (ws_entries (as_workspaces s ! i))"
        using terminal_ids_ws [of i s3] i by (simp add: s3)
      from session_without_ws [OF inv i f this] have "wss_inv c (as_workspaces s5)"
        "fst ` set (as_terminals s5) = snd ` set (all_entries (as_workspaces s5))"
        unfolding s5_def by simp_all
      then have fin: "session_inv (s5\<lparr>as_active := a, as_selected := k, as_mode := m\<rparr>) c"
        "session_inv (s5\<lparr>as_active := a, as_selected := k\<rparr>) c"
        if "focus_valid (as_workspaces s5) a k" for a k m
        using inv that by (simp_all add: session_inv_def)
      let ?n = "length (remove_nth i (as_workspaces s))"
      let ?s' = "if remove_nth i (as_workspaces s) = []
        then s5\<lparr>as_active := None, as_selected := 0,
               as_mode := (if as_mode s5 = ModeTerminal then ModeNavigate else as_mode s5)\<rparr>
        else s5\<lparr>as_active := map_option (clamp_focus ?n) (as_active s), as_selected := clamp_focus ?n (as_selected s)\<rparr>"
      have "handle_pane_died p s = Return ?s'"
        unfolding handle_pane_died_def s1_def [symmetric] Let_def s2_def [symmetric] s3_def [symmetric]
        using Some rm True
        by (simp add: s3 ids clamp_focus_def [abs_def] s5_def s4_def wsid cong: if_cong)
      moreover have "session_inv ?s' c"
        using session_focus [OF inv] i
        by (auto intro!: fin simp: s5 focus_valid_def clamp_focus_def is_some_and_def split: if_splits option.splits)
      moreover have "evolves c (as_workspaces s) (as_workspaces ?s')"
        using set_remove_nth [of i "as_workspaces s"] by (simp add: s5 evolves_subset)
      moreover have "closed_with_pane p s ?s'"
        using Some same_coreD(1) [OF c1] by (simp add: closed_with_pane_def s5)
      ultimately show ?thesis by blast
    qed
  qed
qed

end
