(* ===== verification/AppIds.thy ===== *)
theory AppIds
  imports AppState
begin

text \<open>
  The identifiers of the socket API (\<open>src/app/ids.rs\<close>): how the server names its workspaces, tabs and panes, and
  how it reads such a name.  A name is looked up among the aliases first; besides the current forms
  (\<open>w1\<close>, \<open>w1:t2\<close>, \<open>w1:p3\<close>) the forms of earlier versions are read.  An index out of range panics where the code
  indexes a vector.
\<close>

section \<open>Naming\<close>

definition find_pane :: "'p app_state \<Rightarrow> pane_id \<Rightarrow> (nat \<times> pane_state) option" where
  "find_pane s pane_id =
     foldr (\<lambda>(ws_idx, ws). or_else (map_option (Pair ws_idx) (ws_pane_state ws pane_id)))
       (enumerate 0 (as_workspaces s)) None"

definition public_workspace_id :: "'p app_state \<Rightarrow> nat \<Rightarrow> string outcome" where
  "public_workspace_id s ws_idx = outcome_bind (expect (nth_ws s ws_idx)) (\<lambda>ws. Return (ws_id ws))"

definition public_tab_id :: "'p app_state \<Rightarrow> nat \<Rightarrow> nat \<Rightarrow> string option" where
  "public_tab_id s ws_idx tab_idx =
     Option.bind (nth_ws s ws_idx) (\<lambda>ws.
     map_option (public_tab_id_for_number (ws_id ws)) (public_tab_number ws tab_idx))"

definition public_pane_id :: "'p app_state \<Rightarrow> nat \<Rightarrow> pane_id \<Rightarrow> string option" where
  "public_pane_id s ws_idx pane_id =
     Option.bind (nth_ws s ws_idx) (\<lambda>ws.
     map_option (public_pane_id_for_number (ws_id ws)) (public_pane_number ws pane_id))"

definition pane_launch_env ::
  "'p app_state \<Rightarrow> nat \<Rightarrow> pane_id \<Rightarrow> (string \<times> string) list \<Rightarrow> pane_launch_env option outcome" where
  "pane_launch_env s ws_idx pane_id extra_env =
     outcome_bind (public_workspace_id s ws_idx) (\<lambda>workspace_id.
       Return (Option.bind (nth_ws s ws_idx) (\<lambda>ws.
         Option.bind (find_tab_index_for_pane ws pane_id) (\<lambda>tab_idx.
         Option.bind (public_tab_id s ws_idx tab_idx) (\<lambda>tab_id.
         map_option (with_identity (launch_env_from_extra extra_env) workspace_id tab_id)
           (public_pane_id s ws_idx pane_id))))))"

section \<open>Reading\<close>

text \<open>\<open>parse::<usize>().ok()?.checked_sub(1)\<close>\<close>

definition parse_position :: "string \<Rightarrow> nat option" where
  "parse_position s = Option.bind (parse_usize s) (\<lambda>n. if n = 0 then None else Some (n - 1))"

definition parse_workspace_id :: "'p app_state \<Rightarrow> string \<Rightarrow> nat option" where
  "parse_workspace_id s i =
     or_else (position (\<lambda>ws. ws_id ws = i) (as_workspaces s))
       (or_else (Option.bind (strip_prefix i ''w_'') parse_position) (parse_position i))"

definition tab_in_range :: "'p app_state \<Rightarrow> nat \<times> nat \<Rightarrow> (nat \<times> nat) option" where
  "tab_in_range s p =
     (case p of (ws_idx, tab_idx) \<Rightarrow>
        Option.bind (nth_ws s ws_idx) (\<lambda>ws. map_option (\<lambda>_. (ws_idx, tab_idx)) (nth_tab ws tab_idx)))"

definition parse_tab_id :: "'p app_state \<Rightarrow> string \<Rightarrow> (nat \<times> nat) option" where
  "parse_tab_id s i =
     (case strip_prefix i ''t_'' of
        Some rest \<Rightarrow>
          Option.bind (rsplit_once CHR ''_'' rest) (\<lambda>(ws_raw, tab_raw).
          Option.bind (parse_workspace_id s ws_raw) (\<lambda>ws_idx.
          Option.bind (parse_position tab_raw) (\<lambda>tab_idx. tab_in_range s (ws_idx, tab_idx))))
      | None \<Rightarrow>
          Option.bind (rsplit_once CHR '':'' i) (\<lambda>(ws_raw, tab_raw).
          Option.bind (parse_workspace_id s ws_raw) (\<lambda>ws_idx.
          Option.bind
            (case strip_prefix tab_raw ''t'' of
               Some encoded \<Rightarrow>
                 Option.bind (decode_public_number encoded) (\<lambda>number.
                 Option.bind (nth_ws s ws_idx) (\<lambda>ws. position (\<lambda>t. tab_number t = number) (ws_tabs ws)))
             | None \<Rightarrow> parse_position tab_raw) (\<lambda>tab_idx. tab_in_range s (ws_idx, tab_idx)))))"

definition resolve_raw_pane_id :: "'p app_state \<Rightarrow> u32 \<Rightarrow> pane_id option" where
  "resolve_raw_pane_id s raw =
     (case map_of (as_pane_id_aliases s) raw of
        Some alias \<Rightarrow> map_option (\<lambda>_. alias) (find_pane s alias)
      | None \<Rightarrow> if find_pane s raw \<noteq> None then Some raw else None)"

definition parse_raw_pane :: "string \<Rightarrow> u32 option" where
  "parse_raw_pane s = map_option of_nat (parse_u32 s)"

definition pane_with_number :: "workspace \<Rightarrow> usize \<Rightarrow> pane_id option" where
  "pane_with_number ws number = map_option fst (find (\<lambda>(_, k). k = number) (ws_public_pane_numbers ws))"

definition parse_pane_id :: "'p app_state \<Rightarrow> string \<Rightarrow> (nat \<times> pane_id) option" where
  "parse_pane_id s i =
     (case map_of (as_public_pane_id_aliases s) i of
        Some alias \<Rightarrow> map_option (\<lambda>(ws_idx, _). (ws_idx, alias)) (find_pane s alias)
      | None \<Rightarrow>
      (case strip_prefix i ''p_'' of
        Some rest \<Rightarrow>
          (case rsplit_once CHR ''_'' rest of
             Some (ws_raw, pane_raw) \<Rightarrow>
               Option.bind (parse_workspace_id s ws_raw) (\<lambda>ws_idx.
               Option.bind (Option.bind (parse_raw_pane pane_raw) (resolve_raw_pane_id s)) (\<lambda>pane_id.
               Option.bind (nth_ws s ws_idx) (\<lambda>ws.
               map_option (\<lambda>_. (ws_idx, pane_id)) (ws_pane_state ws pane_id))))
           | None \<Rightarrow>
               Option.bind (Option.bind (parse_raw_pane rest) (resolve_raw_pane_id s)) (\<lambda>pane_id.
               map_option (\<lambda>(ws_idx, _). (ws_idx, pane_id)) (find_pane s pane_id)))
      | None \<Rightarrow>
      (case rsplit_once_str '':p'' i of
        Some (ws_raw, pane_number_raw) \<Rightarrow>
          Option.bind (parse_workspace_id s ws_raw) (\<lambda>ws_idx.
          Option.bind (decode_public_number pane_number_raw) (\<lambda>pane_number.
          Option.bind (nth_ws s ws_idx) (\<lambda>ws.
          map_option (Pair ws_idx) (pane_with_number ws pane_number))))
      | None \<Rightarrow>
          Option.bind (rsplit_once CHR ''-'' i) (\<lambda>(ws_raw, pane_number_raw).
          Option.bind (parse_workspace_id s ws_raw) (\<lambda>ws_idx.
          Option.bind (parse_usize pane_number_raw) (\<lambda>pane_number.
          Option.bind (nth_ws s ws_idx) (\<lambda>ws.
          map_option (Pair ws_idx) (pane_with_number ws (of_nat pane_number)))))))))"

end
