(* ===== verification/AppNames.thy ===== *)
theory AppNames
  imports SessionClose AppIds
begin

text \<open>
  Reading the names of the socket API: whatever is read is there, and the names the server hands out are read back.
\<close>

section \<open>What is read is there\<close>

lemma find_pane_Some:
  assumes "find_pane s p = Some (i, st)"
  shows "i < length (as_workspaces s) \<and> ws_pane_state (as_workspaces s ! i) p = Some st"
proof -
  have "foldr (\<lambda>(k, ws). or_else (map_option (Pair k) (ws_pane_state ws p))) (enumerate n wss) None = Some (i, st) \<Longrightarrow>
      n \<le> i \<and> i - n < length wss \<and> ws_pane_state (wss ! (i - n)) p = Some st" for n wss
  proof (induction wss arbitrary: n)
    case (Cons ws wss)
    show ?case
    proof (cases "ws_pane_state ws p")
      case None
      then have "Suc n \<le> i \<and> i - Suc n < length wss \<and> ws_pane_state (wss ! (i - Suc n)) p = Some st"
        using Cons by (simp add: or_else_def)
      then show ?thesis by (auto simp: nth_Cons')
    next
      case (Some a)
      then show ?thesis using Cons.prems by (simp add: or_else_def)
    qed
  qed simp
  from this [of 0] assms show ?thesis by (simp add: find_pane_def)
qed

lemma pane_with_number_Some: "pane_with_number ws k = Some p \<Longrightarrow> (p, k) \<in> set (ws_public_pane_numbers ws)"
  by (auto simp: pane_with_number_def find_Some_iff in_set_conv_nth)

lemma public_panes: "ws_inv n ws \<Longrightarrow> set (map fst (ws_public_pane_numbers ws)) = set (ws_ids ws)"
  by (simp add: ws_inv_def ws_between_def numbered_def)

lemma parse_pane_id_live:
  assumes inv: "session_inv s c" and "parse_pane_id s x = Some (i, p)"
  shows "i < length (as_workspaces s)" "p \<in> set (ws_ids (as_workspaces s ! i))"
proof -
  have numbered: "p \<in> set (ws_ids (as_workspaces s ! i))"
    if "i < length (as_workspaces s)" "pane_with_number (as_workspaces s ! i) k = Some p" for k
    using pane_with_number_Some [OF that(2)] public_panes [OF session_ws [OF inv that(1)]] by force
  have "i < length (as_workspaces s) \<and> p \<in> set (ws_ids (as_workspaces s ! i))"
    using assms(2) numbered find_pane_Some [of s p i] ws_pane_state_None [of "as_workspaces s ! i" p]
    unfolding parse_pane_id_def
    by (auto simp: bind_eq_Some_conv nth_ws_Some split: option.splits prod.splits)
  then show "i < length (as_workspaces s)" "p \<in> set (ws_ids (as_workspaces s ! i))" by auto
qed

lemma parse_tab_id_range:
  assumes "parse_tab_id s x = Some (i, k)"
  shows "i < length (as_workspaces s)" "k < length (ws_tabs (as_workspaces s ! i))"
  using assms
  by (auto simp: parse_tab_id_def tab_in_range_def bind_eq_Some_conv nth_ws_Some nth_tab_def
      split: option.splits prod.splits if_splits)

section \<open>What is handed out is read back\<close>

lemma rsplit_once_last: "c \<notin> set b \<Longrightarrow> rsplit_once c (a @ c # b) = Some (a, b)"
  using split_once_append [of c "rev b" "rev a"] by (simp add: rsplit_once_def)

lemma rsplit_once_str_absent:
  "p \<notin> set b \<Longrightarrow> rsplit_once_str (p # ps) b = None"
  by (induction b) (auto simp: strip_prefix_def starts_with_def)

lemma rsplit_once_str_last:
  assumes "p \<notin> set b" and "p \<notin> set ps"
  shows "rsplit_once_str (p # ps) (a @ (p # ps) @ b) = Some (a, b)"
proof -
  have "p \<notin> set (ps @ b)" using assms by simp
  then have "rsplit_once_str (p # ps) (ps @ b) = None" by (rule rsplit_once_str_absent)
  then have "rsplit_once_str (p # ps) ((p # ps) @ b) = Some ([], b)"
    by (simp add: strip_prefix_def starts_with_def)
  then show ?thesis by (induction a) simp_all
qed

lemma encoded_plain: "set (encode_public_number k) \<inter> {CHR '':'', CHR ''p'', CHR ''t'', CHR ''_'', CHR ''w''} = {}"
proof -
  have "set PUBLIC_ID_ALPHABET \<inter> {CHR '':'', CHR ''p'', CHR ''t'', CHR ''_'', CHR ''w''} = {}" by code_simp
  then show ?thesis using set_encode_public [of k] by blast
qed

text \<open>The identifier of a workspace starts with \<open>w\<close> and has no separator.\<close>

lemma workspace_id_text:
  assumes "drawn_workspace c i"
  shows "\<exists>k. i = CHR ''w'' # encode_public_number k"
  using assms by (auto simp: drawn_workspace_def)

lemma read_workspace_id:
  assumes "wss_ids c (as_workspaces s)" and "i < length (as_workspaces s)"
  shows "parse_workspace_id s (ws_id (as_workspaces s ! i)) = Some i"
  using position_id [OF assms] by (simp add: parse_workspace_id_def or_else_def)

lemma session_id_text:
  assumes "wss_ids c (as_workspaces s)" and "i < length (as_workspaces s)"
  obtains k where "ws_id (as_workspaces s ! i) = CHR ''w'' # encode_public_number k"
proof -
  have "drawn_workspace c (ws_id (as_workspaces s ! i))" using assms by (simp add: wss_ids_def)
  then show ?thesis using workspace_id_text that by blast
qed

lemma read_tab_id:
  assumes ids: "wss_ids c (as_workspaces s)" and i: "i < length (as_workspaces s)"
    and tabs: "tabs_inv n m (ws_tabs (as_workspaces s ! i))" and k: "k < length (ws_tabs (as_workspaces s ! i))"
  shows "parse_tab_id s (public_tab_id_for_number (ws_id (as_workspaces s ! i)) (tab_number (ws_tabs (as_workspaces s ! i) ! k)))
    = Some (i, k)"
proof -
  let ?ws = "as_workspaces s ! i"
  let ?n = "tab_number (ws_tabs ?ws ! k)"
  obtain e where e: "ws_id ?ws = CHR ''w'' # encode_public_number e" by (rule session_id_text [OF ids i])
  have pos: "0 < ?n" and "distinct (map tab_number (ws_tabs ?ws))" using tabs k by (simp_all add: tabs_inv_def)
  then have at: "position (\<lambda>t. tab_number t = ?n) (ws_tabs ?ws) = Some k"
    using k by (intro position_unique) (auto simp: distinct_conv_nth)
  have "CHR '':'' \<notin> set (CHR ''t'' # encode_public_number ?n)" using encoded_plain [of ?n] by auto
  from rsplit_once_last [OF this, of "ws_id ?ws"]
  have split: "rsplit_once CHR '':'' (public_tab_id_for_number (ws_id ?ws) ?n) =
      Some (ws_id ?ws, CHR ''t'' # encode_public_number ?n)" by (simp add: public_tab_id_for_number_def)
  have "strip_prefix (public_tab_id_for_number (ws_id ?ws) ?n) ''t_'' = None"
    by (simp add: strip_prefix_def starts_with_def public_tab_id_for_number_def e)
  moreover have "decode_public_number (encode_public_number ?n) = Some ?n" using pos by (simp add: decode_public_iff less_le)
  moreover have "strip_prefix (CHR ''t'' # encode_public_number ?n) ''t'' = Some (encode_public_number ?n)"
    by (simp add: strip_prefix_def starts_with_def)
  ultimately show ?thesis
    using split read_workspace_id [OF ids i] at i k
    by (simp add: parse_tab_id_def nth_ws_def tab_in_range_def nth_tab_def)
qed

lemma find_unique:
  assumes "x \<in> set xs" and "P x" and "\<forall>y \<in> set xs. P y \<longrightarrow> y = x"
  shows "find P xs = Some x"
proof (cases "find P xs")
  case None
  with assms(1,2) show ?thesis by (simp add: find_None_iff)
next
  case (Some y)
  then have "y \<in> set xs \<and> P y" by (metis find_Some_iff nth_mem)
  with assms(3) Some show ?thesis by simp
qed

lemma read_pane_name:
  assumes inv: "session_inv s c" and i: "i < length (as_workspaces s)"
    and p: "(p, n) \<in> set (ws_public_pane_numbers (as_workspaces s ! i))"
    and free: "map_of (as_public_pane_id_aliases s) (public_pane_id_for_number (ws_id (as_workspaces s ! i)) n) = None"
  shows "parse_pane_id s (public_pane_id_for_number (ws_id (as_workspaces s ! i)) n) = Some (i, p)"
proof -
  let ?ws = "as_workspaces s ! i"
  have ids: "wss_ids c (as_workspaces s)" using inv by (simp add: session_inv_def wss_inv_def)
  obtain e where e: "ws_id ?ws = CHR ''w'' # encode_public_number e" by (rule session_id_text [OF ids i])
  have num: "numbered (ws_public_pane_numbers ?ws) (ws_next_public_pane_number ?ws) (set (ws_ids ?ws))"
    using session_ws [OF inv i] by (simp add: ws_inv_def ws_between_def)
  then have pos: "0 < n" and inj: "inj_on snd (set (ws_public_pane_numbers ?ws))"
    using p by (auto simp: numbered_def distinct_map)
  have "\<forall>y \<in> set (ws_public_pane_numbers ?ws). (case y of (_, k) \<Rightarrow> k = n) \<longrightarrow> y = (p, n)"
    using inj_onD [OF inj _ _ p] by auto
  then have at: "pane_with_number ?ws n = Some p"
    using find_unique [OF p, of "\<lambda>(_, k). k = n"] by (simp add: pane_with_number_def)
  have "rsplit_once_str (CHR '':'' # ''p'') (ws_id ?ws @ (CHR '':'' # ''p'') @ encode_public_number n) =
      Some (ws_id ?ws, encode_public_number n)"
    using encoded_plain [of n] by (intro rsplit_once_str_last) auto
  then have split: "rsplit_once_str '':p'' (public_pane_id_for_number (ws_id ?ws) n) =
      Some (ws_id ?ws, encode_public_number n)" by (simp add: public_pane_id_for_number_def)
  have "strip_prefix (public_pane_id_for_number (ws_id ?ws) n) ''p_'' = None"
    by (simp add: strip_prefix_def starts_with_def public_pane_id_for_number_def e)
  moreover have "decode_public_number (encode_public_number n) = Some n" using pos by (simp add: decode_public_iff less_le)
  ultimately show ?thesis
    using split read_workspace_id [OF ids i] at i free
    by (simp add: parse_pane_id_def nth_ws_def)
qed

end
