(* ===== verification/PaneMoves.thy ===== *)
theory PaneMoves
  imports AppIds
begin

text \<open>
  Handlers of the socket API that change the session (\<open>src/app/api/panes.rs\<close>, \<open>tabs.rs\<close>, \<open>workspaces.rs\<close>,
  \<open>src/app/creation.rs\<close>): creating workspaces, tabs and panes, closing them, and moving a pane to another tab,
  workspace or a workspace of its own.  A handler answers with an error code or with what it did; the snapshots
  inside the answers, the events it announces, the registry of runtimes and the scheduling of a save are not
  modelled.  The environment of the process is an argument.
\<close>

datatype split_direction = SplitRight | SplitDown

fun split_direction_to_layout :: "split_direction \<Rightarrow> direction" where
  "split_direction_to_layout SplitRight = Horizontal"
| "split_direction_to_layout SplitDown = Vertical"

section \<open>Answers\<close>

text \<open>Whether \<open>pane_layout_snapshot\<close> and \<open>pane_info\<close> have an answer.\<close>

definition pane_layout_available :: "'p app_state \<Rightarrow> nat \<Rightarrow> nat \<Rightarrow> bool" where
  "pane_layout_available s ws_idx tab_idx =
     is_some_and (Option.bind (nth_ws s ws_idx) (\<lambda>ws. nth_tab ws tab_idx))
       (\<lambda>t. public_pane_id s ws_idx (tl_focus (tab_layout t)) \<noteq> None)"

definition pane_info_available :: "'p app_state \<Rightarrow> nat \<Rightarrow> pane_id \<Rightarrow> bool" where
  "pane_info_available s ws_idx pane_id =
     is_some_and (nth_ws s ws_idx) (\<lambda>ws.
       is_some_and (ws_pane_state ws pane_id) (\<lambda>pane.
         hm_contains (as_terminals s) (ps_attached_terminal_id pane) \<and>
         is_some_and (find_tab_index_for_pane ws pane_id) (\<lambda>tab_idx. public_tab_id s ws_idx tab_idx \<noteq> None) \<and>
         public_pane_id s ws_idx pane_id \<noteq> None))"

text \<open>\<open>tab_info\<close>, and the answer about a new tab and its root pane.\<close>

definition tab_info_available :: "'p app_state \<Rightarrow> nat \<Rightarrow> nat \<Rightarrow> bool" where
  "tab_info_available s ws_idx tab_idx = (public_tab_id s ws_idx tab_idx \<noteq> None)"

definition tab_created_available :: "'p app_state \<Rightarrow> nat \<Rightarrow> nat \<Rightarrow> bool" where
  "tab_created_available s ws_idx tab_idx =
     (tab_info_available s ws_idx tab_idx \<and>
      is_some_and (Option.bind (nth_ws s ws_idx) (\<lambda>ws. nth_tab ws tab_idx))
        (\<lambda>t. pane_info_available s ws_idx (tab_root_pane t)))"

section \<open>Creating\<close>

definition add_terminal :: "terminal_state \<Rightarrow> 'p app_state \<Rightarrow> 'p app_state" where
  "add_terminal t s = s\<lparr>as_terminals := AList.update (ts_id t) t (as_terminals s)\<rparr>"

definition create_workspace_with_launch_env ::
  "(string \<Rightarrow> string option) \<Rightarrow> ('e, 'rt) spawner \<Rightarrow> nat \<Rightarrow> string \<Rightarrow> bool \<Rightarrow> (string \<times> string) list \<Rightarrow>
     'p app_state \<Rightarrow> counters \<Rightarrow> ('e + nat) \<times> 'p app_state \<times> counters" where
  "create_workspace_with_launch_env git_branch spawn micros initial_cwd foc extra_env s c =
     (case new_with_tab git_branch spawn micros initial_cwd None extra_env c of
        (Inl e, c1) \<Rightarrow> (Inl e, s, c1)
      | (Inr (ws, terminal, _), c1) \<Rightarrow>
          let s1 = add_terminal terminal s;
              s2 = s1\<lparr>as_workspaces := as_workspaces s1 @ [ws]\<rparr>;
              idx = length (as_workspaces s2) - 1;
              s3 = remove_alias_shadowed_by_new_pane (tab_root_pane (ws_tabs ws ! 0)) s2;
              s4 = (if foc \<or> as_active s3 = None
                    then (switch_workspace idx s3)\<lparr>as_mode := ModeTerminal\<rparr> else s3)
          in (Inr idx, s4, c1))"

text \<open>The workspace of a new tab: the named one, or the active one.\<close>

definition tab_create_workspace :: "'p app_state \<Rightarrow> string option \<Rightarrow> string + nat" where
  "tab_create_workspace s workspace_id =
     (case workspace_id of
        Some i \<Rightarrow> ok_or (parse_workspace_id s i) ''workspace_not_found''
      | None \<Rightarrow> ok_or (as_active s) ''workspace_not_found'')"

definition rename_tab :: "nat \<Rightarrow> string \<Rightarrow> workspace \<Rightarrow> workspace" where
  "rename_tab tab_idx name ws =
     (if tab_idx < length (ws_tabs ws)
      then ws\<lparr>ws_tabs := (ws_tabs ws)[tab_idx := tab_set_custom_name (ws_tabs ws ! tab_idx) name]\<rparr>
      else ws)"

definition handle_tab_create ::
  "('e, 'rt) spawner \<Rightarrow> nat \<Rightarrow> string option \<Rightarrow> string \<Rightarrow> bool \<Rightarrow> string option \<Rightarrow> (string \<times> string) list \<Rightarrow>
     'p app_state \<Rightarrow> counters \<Rightarrow> ((string + (nat \<times> nat)) \<times> 'p app_state \<times> counters) outcome" where
  "handle_tab_create spawn micros workspace_id cwd foc label extra_env s c =
     (case tab_create_workspace s workspace_id of
        Inl e \<Rightarrow> Return (Inl e, s, c)
      | Inr ws_idx \<Rightarrow>
      (case nth_ws s ws_idx of
        None \<Rightarrow> Return (Inl ''tab_create_failed'', s, c)
      | Some ws \<Rightarrow>
          outcome_bind (create_tab_with_runtime spawn micros cwd None extra_env ws c) (\<lambda>(result, ws', c').
            let s1 = s\<lparr>as_workspaces := (as_workspaces s)[ws_idx := ws']\<rparr>
            in case result of
                 Inl _ \<Rightarrow> Return (Inl ''tab_create_failed'', s1, c')
               | Inr (tab_idx, terminal, _) \<Rightarrow>
                   let s2 = remove_alias_shadowed_by_new_pane (tab_root_pane (ws_tabs ws' ! tab_idx))
                              (add_terminal terminal s1);
                       s3 = (case label of None \<Rightarrow> s2 | Some name \<Rightarrow> modify_ws ws_idx (rename_tab tab_idx name) s2);
                       s4 = (if foc then (fst (switch_workspace_tab ws_idx tab_idx s3))\<lparr>as_mode := ModeTerminal\<rparr>
                             else s3)
                   in if tab_created_available s4 ws_idx tab_idx then Return (Inr (ws_idx, tab_idx), s4, c')
                      else Panic)))"

text \<open>\<open>workspace.create\<close> for a resolved directory: the label is set after the workspace is there.\<close>

definition handle_workspace_create ::
  "(string \<Rightarrow> string option) \<Rightarrow> ('e, 'rt) spawner \<Rightarrow> nat \<Rightarrow> string \<Rightarrow> bool \<Rightarrow> string option \<Rightarrow>
     (string \<times> string) list \<Rightarrow> 'p app_state \<Rightarrow> counters \<Rightarrow> ((string + nat) \<times> 'p app_state \<times> counters) outcome" where
  "handle_workspace_create git_branch spawn micros cwd foc label extra_env s c =
     (case create_workspace_with_launch_env git_branch spawn micros cwd foc extra_env s c of
        (Inl _, s1, c1) \<Rightarrow> Return (Inl ''workspace_create_failed'', s1, c1)
      | (Inr index, s1, c1) \<Rightarrow>
          let s2 = (case label of
                None \<Rightarrow> s1
              | Some name \<Rightarrow>
                  if nth_ws s1 index = None then s1 else modify_ws index (\<lambda>ws. ws_set_custom_name ws name) s1)
          in if tab_created_available s2 index 0 then Return (Inr index, s2, c1) else Panic)"

text \<open>The pane to split: a named one, the focused one of a named workspace, or of the active workspace.\<close>

definition pane_split_target :: "'p app_state \<Rightarrow> string option \<Rightarrow> string option \<Rightarrow> (nat \<times> pane_id) option" where
  "pane_split_target s target_pane_id workspace_id =
     (case target_pane_id of
        Some i \<Rightarrow> parse_pane_id s i
      | None \<Rightarrow>
          Option.bind (case workspace_id of Some i \<Rightarrow> parse_workspace_id s i | None \<Rightarrow> as_active s) (\<lambda>ws_idx.
            Option.bind (nth_ws s ws_idx) (\<lambda>ws. map_option (Pair ws_idx) (focused_pane_id ws))))"

definition handle_pane_split ::
  "('e, 'rt) spawner \<Rightarrow> nat \<Rightarrow> string option \<Rightarrow> string option \<Rightarrow> string option \<Rightarrow> split_direction \<Rightarrow> f32 option \<Rightarrow>
     string \<Rightarrow> (string \<times> string) list \<Rightarrow> bool \<Rightarrow> 'p app_state \<Rightarrow> counters \<Rightarrow>
     ((string + pane_id) \<times> 'p app_state \<times> counters) outcome" where
  "handle_pane_split spawn micros current_dir target_pane_id workspace_id split ratio cwd extra_env foc s c =
     (case pane_split_target s target_pane_id workspace_id of
        None \<Rightarrow> Return (Inl ''pane_not_found'', s, c)
      | Some (ws_idx, pane_id) \<Rightarrow>
          let previous_focus = current_pane_focus_target s
          in (case nth_ws s ws_idx of
            None \<Rightarrow> Return (Inl ''pane_not_found'', s, c)
          | Some ws \<Rightarrow>
              outcome_bind (split_pane_with_runtime spawn micros current_dir pane_id
                  (split_direction_to_layout split) ratio (Some cwd) extra_env foc None ws c) (\<lambda>(result, ws', c').
                let s1 = s\<lparr>as_workspaces := (as_workspaces s)[ws_idx := ws']\<rparr>
                in case result of
                     None \<Rightarrow> Return (Inl ''pane_not_found'', s1, c')
                   | Some (Inl _) \<Rightarrow> Return (Inl ''pane_split_failed'', s1, c')
                   | Some (Inr (tab_idx, pane)) \<Rightarrow>
                       let s2 = (if foc then settle_terminal_mode_after_focus
                                   (record_pane_focus_change previous_focus ws_idx (np_pane_id pane)
                                     (fst (switch_workspace_tab ws_idx tab_idx s1)))
                                 else s1);
                           s3 = add_terminal (np_terminal pane) (remove_alias_shadowed_by_new_pane (np_pane_id pane) s2)
                       in if pane_info_available s3 ws_idx (np_pane_id pane)
                          then Return (Inr (np_pane_id pane), s3, c') else Panic)))"

section \<open>Closing\<close>

definition api_close_pane :: "string \<Rightarrow> 'p app_state \<Rightarrow> ((string + unit) \<times> 'p app_state) outcome" where
  "api_close_pane target s =
     (case parse_pane_id s target of
        None \<Rightarrow> Return (Inl ''pane_not_found'', s)
      | Some (ws_idx, pane_id) \<Rightarrow>
      (case public_pane_id s ws_idx pane_id of
        None \<Rightarrow> Return (Inl ''pane_not_found'', s)
      | Some _ \<Rightarrow>
          let (s1, deferred) =
            (if close_pane_would_close_workspace s ws_idx pane_id
             then confirm_implicit_worktree_group_close ws_idx s else (s, False))
          in if deferred then Return (Inl ''confirmation_required'', s1)
             else
               let terminal_id = terminal_id_for_pane s1 ws_idx pane_id
               in (case nth_ws s1 ws_idx of
                 None \<Rightarrow> Return (Inl ''pane_not_found'', s1)
               | Some ws \<Rightarrow>
                   outcome_bind (ws_close_pane ws pane_id) (\<lambda>(ws', should_close_workspace).
                     let s2 = remove_plugin_pane_records [pane_id]
                                (s1\<lparr>as_workspaces := (as_workspaces s1)[ws_idx := ws']\<rparr>)
                     in if should_close_workspace then
                          outcome_bind (close_selected_workspace (s2\<lparr>as_selected := ws_idx\<rparr>)) (\<lambda>s3.
                            Return (Inr (), s3\<lparr>as_terminal_runtime_shutdowns := []\<rparr>))
                        else
                          Return (Inr (), (remove_unattached_terminal_ids
                            (case terminal_id of None \<Rightarrow> [] | Some t \<Rightarrow> [t]) s2)
                              \<lparr>as_terminal_runtime_shutdowns := []\<rparr>)))))"

definition handle_tab_close :: "string \<Rightarrow> 'p app_state \<Rightarrow> ((string + unit) \<times> 'p app_state) outcome" where
  "handle_tab_close target s =
     (case parse_tab_id s target of
        None \<Rightarrow> Return (Inl ''tab_not_found'', s)
      | Some (ws_idx, tab_idx) \<Rightarrow>
      (case public_tab_id s ws_idx tab_idx of
        None \<Rightarrow> Return (Inl ''tab_not_found'', s)
      | Some _ \<Rightarrow>
          let terminal_ids = terminal_ids_for_tab s ws_idx tab_idx;
              removed = pane_ids_for_tab s ws_idx tab_idx
          in (case nth_ws s ws_idx of
            None \<Rightarrow> Return (Inl ''tab_not_found'', s)
          | Some ws \<Rightarrow>
              if length (ws_tabs ws) \<le> 1 then Return (Inl ''tab_close_failed'', s)
              else let (ws', closed) = close_tab ws tab_idx;
                       s1 = s\<lparr>as_workspaces := (as_workspaces s)[ws_idx := ws']\<rparr>
                   in if \<not> closed then Return (Inl ''tab_close_failed'', s1)
                      else Return (Inr (), (remove_unattached_terminal_ids terminal_ids
                             (remove_plugin_pane_records removed s1))\<lparr>as_terminal_runtime_shutdowns := []\<rparr>))))"

definition handle_workspace_close :: "string \<Rightarrow> 'p app_state \<Rightarrow> ((string + unit) \<times> 'p app_state) outcome" where
  "handle_workspace_close target s =
     (case parse_workspace_id s target of
        None \<Rightarrow> Return (Inl ''workspace_not_found'', s)
      | Some index \<Rightarrow>
          if nth_ws s index = None then Return (Inl ''workspace_not_found'', s)
          else let removed = pane_ids_for_workspace s index
               in outcome_bind (close_selected_workspace (s\<lparr>as_selected := index\<rparr>)) (\<lambda>s1.
                  Return (Inr (), (remove_plugin_pane_records removed s1)\<lparr>as_terminal_runtime_shutdowns := []\<rparr>)))"

section \<open>Rearranging\<close>

definition handle_tab_move :: "string \<Rightarrow> nat \<Rightarrow> 'p app_state \<Rightarrow> ((string + bool) \<times> 'p app_state) outcome" where
  "handle_tab_move tab_id insert_index s =
     (case parse_tab_id s tab_id of
        None \<Rightarrow> Return (Inl ''tab_not_found'', s)
      | Some (ws_idx, tab_idx) \<Rightarrow>
      (case nth_ws s ws_idx of
        None \<Rightarrow> Return (Inl ''tab_not_found'', s)
      | Some ws \<Rightarrow>
          if length (ws_tabs ws) < insert_index then Return (Inl ''tab_move_failed'', s)
          else let (ws', moved) = move_tab ws tab_idx insert_index
               in Return (Inr moved, s\<lparr>as_workspaces := (as_workspaces s)[ws_idx := ws']\<rparr>)))"

definition handle_workspace_move ::
  "string \<Rightarrow> nat \<Rightarrow> 'p app_state \<Rightarrow> ((string + bool) \<times> 'p app_state) outcome" where
  "handle_workspace_move workspace_id insert_index s =
     (case parse_workspace_id s workspace_id of
        None \<Rightarrow> Return (Inl ''workspace_not_found'', s)
      | Some index \<Rightarrow>
          if nth_ws s index = None then Return (Inl ''workspace_not_found'', s)
          else if length (as_workspaces s) < insert_index then Return (Inl ''workspace_move_failed'', s)
          else outcome_bind (move_workspace index insert_index s) (\<lambda>(s', moved). Return (Inr moved, s')))"

section \<open>Moving a pane\<close>

datatype pane_move_destination =
    MoveToTab string "string option" split_direction "f32 option"
  | MoveToNewTab "string option" "string option"
  | MoveToNewWorkspace "string option" "string option"

datatype resolved_pane_move_destination =
    ExistingTab (rd_tab_id: string) (rd_target_pane_id: pane_id) split_direction f32 bool
  | NewTab (rd_workspace_id: string) "string option"
  | NewWorkspace "string option" "string option"

datatype pane_move_reason = SameTab | ZoomedTab

datatype pane_move_answer =
    MoveUnchanged pane_move_reason
  | MoveDone (md_ws_idx: nat) (md_tab_idx: nat) (md_pane_id: pane_id) (md_closed_workspace: "string option")
      (md_closed_tab: "string option") (md_created_workspace: bool) (md_created_tab: bool)

record pane_move_recovery_context =
  rc_source_ws_idx :: nat
  rc_previous_workspace_id :: string
  rc_previous_workspace_label :: "string option"
  rc_previous_tab_label :: "string option"
  rc_previous_worktree_space :: "worktree_space_membership option"
  rc_identity_cwd :: string

definition unchanged_answer ::
  "pane_move_reason \<Rightarrow> 'p app_state \<Rightarrow> nat \<Rightarrow> nat \<Rightarrow> pane_id \<Rightarrow> string + pane_move_answer" where
  "unchanged_answer reason s ws_idx tab_idx pane_id =
     (if \<not> pane_layout_available s ws_idx tab_idx then Inl ''pane_layout_unavailable''
      else if \<not> pane_info_available s ws_idx pane_id then Inl ''pane_not_found''
      else Inr (MoveUnchanged reason))"

text \<open>
  Where the pane is to go: an answer at once (\<open>Inl\<close>) or a destination that no longer depends on positions,
  because taking the pane away may shift them.
\<close>

definition move_target_pane ::
  "'p app_state \<Rightarrow> nat \<Rightarrow> nat \<Rightarrow> tab \<Rightarrow> string option \<Rightarrow> string + pane_id" where
  "move_target_pane s target_ws_idx target_tab_idx t target_pane_id =
     (case target_pane_id of
        None \<Rightarrow> Inr (tl_focus (tab_layout t))
      | Some raw \<Rightarrow>
          (case parse_pane_id s raw of
             None \<Rightarrow> Inl ''target_pane_not_found''
           | Some (pane_ws_idx, pane_id) \<Rightarrow>
               if pane_ws_idx \<noteq> target_ws_idx \<or>
                  Option.bind (nth_ws s pane_ws_idx) (\<lambda>ws. find_tab_index_for_pane ws pane_id) \<noteq> Some target_tab_idx
               then Inl ''target_pane_not_found''
               else Inr pane_id))"

definition resolve_tab_destination ::
  "'p app_state \<Rightarrow> nat \<Rightarrow> nat \<Rightarrow> pane_id \<Rightarrow> string \<Rightarrow> string option \<Rightarrow> split_direction \<Rightarrow> f32 option \<Rightarrow>
     (string + pane_move_answer) + resolved_pane_move_destination" where
  "resolve_tab_destination s source_ws_idx source_tab_idx source_pane_id tab_id target_pane_id split ratio =
     (case parse_tab_id s tab_id of
        None \<Rightarrow> Inl (Inl ''tab_not_found'')
      | Some (target_ws_idx, target_tab_idx) \<Rightarrow>
          if source_ws_idx = target_ws_idx \<and> source_tab_idx = target_tab_idx
          then Inl (unchanged_answer SameTab s source_ws_idx source_tab_idx source_pane_id)
          else (case Option.bind (nth_ws s target_ws_idx) (\<lambda>ws. nth_tab ws target_tab_idx) of
             None \<Rightarrow> Inl (Inl ''tab_not_found'')
           | Some t \<Rightarrow>
               if tab_zoomed t then
                 Inl (if \<not> pane_layout_available s source_ws_idx source_tab_idx then Inl ''pane_layout_unavailable''
                      else unchanged_answer ZoomedTab s target_ws_idx target_tab_idx source_pane_id)
               else
                 result_bind (map_err Inl (move_target_pane s target_ws_idx target_tab_idx t target_pane_id))
                   (\<lambda>target.
                 result_bind (ok_or (public_tab_id s target_ws_idx target_tab_idx) (Inl ''tab_not_found''))
                   (\<lambda>target_tab_id.
                 Inr (ExistingTab target_tab_id target split (unwrap_or ratio f32_0_5)
                       (source_ws_idx \<noteq> target_ws_idx))))))"

text \<open>The workspace a new tab is made in is looked up by position: a position out of range panics.\<close>

definition resolve_pane_move ::
  "'p app_state \<Rightarrow> nat \<Rightarrow> nat \<Rightarrow> pane_id \<Rightarrow> string \<Rightarrow> pane_move_destination \<Rightarrow>
     ((string + pane_move_answer) + resolved_pane_move_destination) outcome" where
  "resolve_pane_move s source_ws_idx source_tab_idx source_pane_id previous_workspace_id destination =
     (case destination of
        MoveToTab tab_id target_pane_id split ratio \<Rightarrow>
          Return (resolve_tab_destination s source_ws_idx source_tab_idx source_pane_id tab_id target_pane_id
                    split ratio)
      | MoveToNewTab workspace_id label \<Rightarrow>
          (case workspace_id of
             None \<Rightarrow> Return (Inr (NewTab previous_workspace_id label))
           | Some i \<Rightarrow>
               (case parse_workspace_id s i of
                  None \<Rightarrow> Return (Inl (Inl ''workspace_not_found''))
                | Some ws_idx \<Rightarrow>
                    outcome_bind (public_workspace_id s ws_idx) (\<lambda>target_workspace_id.
                      Return (Inr (NewTab target_workspace_id label)))))
      | MoveToNewWorkspace label tab_label \<Rightarrow> Return (Inr (NewWorkspace label tab_label)))"

definition is_cross_workspace :: "resolved_pane_move_destination \<Rightarrow> string \<Rightarrow> bool" where
  "is_cross_workspace resolved previous_workspace_id =
     (case resolved of
        ExistingTab _ _ _ _ cross \<Rightarrow> cross
      | NewTab workspace_id _ \<Rightarrow> workspace_id \<noteq> previous_workspace_id
      | NewWorkspace _ _ \<Rightarrow> True)"

definition index_after_close :: "nat \<Rightarrow> nat \<Rightarrow> nat \<Rightarrow> nat" where
  "index_after_close idx removed len =
     (if idx = removed then min removed (len - 1) else if removed < idx then idx - 1 else idx)"

definition remove_emptied_workspace :: "nat \<Rightarrow> 'p app_state \<Rightarrow> 'p app_state" where
  "remove_emptied_workspace ws_idx s =
     (let s1 = s\<lparr>as_workspaces := remove_nth ws_idx (as_workspaces s)\<rparr>;
          n = length (as_workspaces s1)
      in if as_workspaces s1 = [] then s1\<lparr>as_active := None, as_selected := 0\<rparr>
         else s1\<lparr>as_active := map_option (\<lambda>active. index_after_close active ws_idx n) (as_active s1),
                 as_selected := index_after_close (as_selected s1) ws_idx n\<rparr>)"

definition recover_failed_pane_move ::
  "(string \<Rightarrow> string option) \<Rightarrow> (string \<Rightarrow> git_space_metadata option) \<Rightarrow> pane_move_recovery_context \<Rightarrow>
     moved_pane \<Rightarrow> 'p app_state \<Rightarrow> counters \<Rightarrow> ('p app_state \<times> counters) outcome" where
  "recover_failed_pane_move git_branch git_space context moved s c =
     (case parse_workspace_id s (rc_previous_workspace_id context) of
        Some ws_idx \<Rightarrow>
          outcome_bind (expect (nth_ws s ws_idx)) (\<lambda>ws.
            let (ws', _) = create_tab_from_existing_pane ws moved (rc_previous_tab_label context)
            in Return (mark_session_dirty (s\<lparr>as_workspaces := (as_workspaces s)[ws_idx := ws']\<rparr>), c))
      | None \<Rightarrow>
          let (ws, c1) = ws_from_existing_pane git_branch git_space (rc_previous_workspace_label context)
                           (rc_previous_tab_label context) (rc_identity_cwd context) moved c;
              ws' = ws\<lparr>ws_id := rc_previous_workspace_id context,
                       ws_worktree_space := rc_previous_worktree_space context\<rparr>;
              insert_idx = min (rc_source_ws_idx context) (length (as_workspaces s));
              s1 = s\<lparr>as_active := map_option (\<lambda>active. if insert_idx \<le> active then active + 1 else active) (as_active s),
                     as_selected := (if insert_idx \<le> as_selected s \<and> as_workspaces s \<noteq> [] then as_selected s + 1
                                     else as_selected s)\<rparr>
          in Return (mark_session_dirty (s1\<lparr>as_workspaces := insert_nth insert_idx ws' (as_workspaces s1)\<rparr>), c1))"

text \<open>Putting the pane down.  \<open>Inl\<close> is a failure, already recovered from.\<close>

definition place_moved_pane ::
  "(string \<Rightarrow> string option) \<Rightarrow> (string \<Rightarrow> git_space_metadata option) \<Rightarrow> string option \<Rightarrow>
     pane_move_recovery_context \<Rightarrow> resolved_pane_move_destination \<Rightarrow> bool \<Rightarrow> string \<Rightarrow> moved_pane \<Rightarrow>
     'p app_state \<Rightarrow> counters \<Rightarrow> ((string + (nat \<times> nat)) \<times> 'p app_state \<times> counters) outcome" where
  "place_moved_pane git_branch git_space current_dir context resolved foc source_terminal_id moved s c =
     (let recover = outcome_bind (recover_failed_pane_move git_branch git_space context moved s c)
            (\<lambda>(s', c'). Return (Inl ''pane_move_failed'', s', c'))
      in case resolved of
        ExistingTab tab_id target_pane_id split ratio _ \<Rightarrow>
          (case parse_tab_id s tab_id of
             None \<Rightarrow> recover
           | Some (ws_idx, tab_idx) \<Rightarrow>
               let ws = as_workspaces s ! ws_idx;
                   previous_target_focus = tl_focus (tab_layout (ws_tabs ws ! tab_idx));
                   (ws', inserted) = insert_moved_pane_into_tab ws tab_idx target_pane_id moved
                     (split_direction_to_layout split) ratio
               in case inserted of
                    Inl _ \<Rightarrow> recover
                  | Inr _ \<Rightarrow>
                      let ws'' = (if foc then ws' else focus_in_tab tab_idx previous_target_focus ws')
                      in Return (Inr (ws_idx, tab_idx), s\<lparr>as_workspaces := (as_workspaces s)[ws_idx := ws'']\<rparr>, c))
      | NewTab workspace_id label \<Rightarrow>
          (case parse_workspace_id s workspace_id of
             None \<Rightarrow> recover
           | Some ws_idx \<Rightarrow>
               outcome_bind (expect (nth_ws s ws_idx)) (\<lambda>ws.
                 let (ws', tab_idx) = create_tab_from_existing_pane ws moved label
                 in Return (Inr (ws_idx, tab_idx), s\<lparr>as_workspaces := (as_workspaces s)[ws_idx := ws']\<rparr>, c)))
      | NewWorkspace label tab_label \<Rightarrow>
          let identity_cwd = unwrap_or (map_option ts_cwd (map_of (as_terminals s) source_terminal_id))
                (unwrap_or current_dir ''/'');
              (ws, c1) = ws_from_existing_pane git_branch git_space label tab_label identity_cwd moved c;
              s1 = s\<lparr>as_workspaces := as_workspaces s @ [ws]\<rparr>
          in Return (Inr (length (as_workspaces s1) - 1, 0), s1, c1))"

text \<open>From the taken pane on: the source is tidied up, the pane put down, and the focus follows it.\<close>

definition finish_pane_move ::
  "(string \<Rightarrow> string option) \<Rightarrow> (string \<Rightarrow> git_space_metadata option) \<Rightarrow> string option \<Rightarrow>
     pane_move_recovery_context \<Rightarrow> resolved_pane_move_destination \<Rightarrow> bool \<Rightarrow> string \<Rightarrow> string \<Rightarrow> string \<Rightarrow>
     pane_focus_target option \<Rightarrow> taken_pane \<Rightarrow> 'p app_state \<Rightarrow> counters \<Rightarrow>
     ((string + pane_move_answer) \<times> 'p app_state \<times> counters) outcome" where
  "finish_pane_move git_branch git_space current_dir context resolved foc source_terminal_id previous_pane_id
     previous_tab_id previous_focus taken s c =
     (let source_ws_idx = rc_source_ws_idx context;
          previous_workspace_id = rc_previous_workspace_id context;
          moved = tp_moved taken; pane_id = mp_pane_id moved;
          cross_workspace = is_cross_workspace resolved previous_workspace_id;
          s1 = (if cross_workspace
                then (modify_ws source_ws_idx (unregister_moved_pane pane_id) s)
                  \<lparr>as_public_pane_id_aliases :=
                     AList.update previous_pane_id pane_id (as_public_pane_id_aliases s)\<rparr>
                else s);
          closes = (tp_workspace_empty taken \<and> cross_workspace);
          s2 = (if closes then remove_emptied_workspace source_ws_idx s1 else s1)
      in outcome_bind (place_moved_pane git_branch git_space current_dir context resolved foc source_terminal_id
           moved s2 c) (\<lambda>(placed, s3, c').
         case placed of
           Inl e \<Rightarrow> Return (Inl e, s3, c')
         | Inr (ws_idx, tab_idx) \<Rightarrow>
             let s4 = (if foc \<or> as_active s3 = None
                       then settle_terminal_mode_after_focus
                              (record_pane_focus_change previous_focus ws_idx pane_id
                                (fst (switch_workspace_tab ws_idx tab_idx s3)))
                       else s3);
                 s5 = mark_session_dirty (remove_alias_shadowed_by_new_pane pane_id s4)
             in Return (if \<not> pane_info_available s5 ws_idx pane_id then Inl ''pane_move_failed''
                        else if \<not> pane_layout_available s5 ws_idx tab_idx then Inl ''pane_layout_unavailable''
                        else Inr (MoveDone ws_idx tab_idx pane_id
                          (then_some closes previous_workspace_id)
                          (map_option (\<lambda>_. previous_tab_id) (tp_removed_tab_idx taken))
                          (case resolved of NewWorkspace _ _ \<Rightarrow> True | _ \<Rightarrow> False)
                          (case resolved of ExistingTab _ _ _ _ _ \<Rightarrow> False | _ \<Rightarrow> True)), s5, c')))"

definition handle_pane_move ::
  "(string \<Rightarrow> string option) \<Rightarrow> (string \<Rightarrow> git_space_metadata option) \<Rightarrow> string option \<Rightarrow> string \<Rightarrow>
     pane_move_destination \<Rightarrow> bool \<Rightarrow> 'p app_state \<Rightarrow> counters \<Rightarrow>
     ((string + pane_move_answer) \<times> 'p app_state \<times> counters) outcome" where
  "handle_pane_move git_branch git_space current_dir pane destination foc s c =
     (case parse_pane_id s pane of
        None \<Rightarrow> Return (Inl ''pane_not_found'', s, c)
      | Some (source_ws_idx, source_pane_id) \<Rightarrow>
      outcome_bind (expect (nth_ws s source_ws_idx)) (\<lambda>ws.
      case find_tab_index_for_pane ws source_pane_id of
        None \<Rightarrow> Return (Inl ''pane_not_found'', s, c)
      | Some source_tab_idx \<Rightarrow>
          let previous_pane_id = unwrap_or (public_pane_id s source_ws_idx source_pane_id) pane;
              previous_workspace_id = ws_id ws
          in (case public_tab_id s source_ws_idx source_tab_idx of
            None \<Rightarrow> Return (Inl ''tab_not_found'', s, c)
          | Some previous_tab_id \<Rightarrow>
          (case Option.bind (nth_tab ws source_tab_idx) (\<lambda>t. tab_terminal_id t source_pane_id) of
            None \<Rightarrow> Return (Inl ''pane_not_found'', s, c)
          | Some source_terminal_id \<Rightarrow>
              let t = ws_tabs ws ! source_tab_idx;
                  context = \<lparr>rc_source_ws_idx = source_ws_idx, rc_previous_workspace_id = previous_workspace_id,
                    rc_previous_workspace_label = ws_custom_name ws, rc_previous_tab_label = tab_custom_name t,
                    rc_previous_worktree_space = ws_worktree_space ws, rc_identity_cwd = ws_identity_cwd ws\<rparr>
              in if tab_zoomed t then
                   Return (unchanged_answer ZoomedTab s source_ws_idx source_tab_idx source_pane_id, s, c)
                 else
                   outcome_bind (resolve_pane_move s source_ws_idx source_tab_idx source_pane_id
                       previous_workspace_id destination) (\<lambda>r.
                   case r of
                     Inl answer \<Rightarrow> Return (answer, s, c)
                   | Inr resolved \<Rightarrow>
                       let previous_focus = current_pane_focus_target s
                       in outcome_bind (ws_take_pane_for_move ws source_pane_id) (\<lambda>(ws', taken).
                          let s1 = s\<lparr>as_workspaces := (as_workspaces s)[source_ws_idx := ws']\<rparr>
                          in case taken of
                               None \<Rightarrow> Return (Inl ''pane_move_failed'', s1, c)
                             | Some tk \<Rightarrow>
                                 finish_pane_move git_branch git_space current_dir context resolved foc
                                   source_terminal_id previous_pane_id previous_tab_id previous_focus tk s1 c))))))"

end
