(* ===== verification/SessionSteps.thy ===== *)
theory SessionSteps
  imports AppNames PaneMoves
begin

text \<open>
  One step of a session: the invariant holds again, the counters have not gone back, and no public pane number has
  been given out twice.  Every operation of the application state and every handler that creates, closes or
  rearranges is such a step; the handlers that draw identifiers need counters that are not exhausted.
\<close>

definition session_step :: "'p app_state \<Rightarrow> counters \<Rightarrow> 'p app_state \<Rightarrow> counters \<Rightarrow> bool" where
  "session_step s c s' c' \<longleftrightarrow>
     session_inv s' c' \<and> counters_le c c' \<and> evolves c (as_workspaces s) (as_workspaces s')"

lemma counters_le_trans: "counters_le a b \<Longrightarrow> counters_le b c \<Longrightarrow> counters_le a c"
  unfolding counters_le_def by (metis order_trans)

lemma session_step_refl: "session_inv s c \<Longrightarrow> session_step s c s c"
  by (simp add: session_step_def)

lemma session_step_trans:
  assumes "session_step s c s' c'" and "session_step s' c' s'' c''"
  shows "session_step s c s'' c''"
  using assms evolves_trans [of c _ _ c'] counters_le_trans [of c c' c''] unfolding session_step_def by blast

lemma session_step_inv: "session_step s c s' c' \<Longrightarrow> session_inv s' c'"
  by (simp add: session_step_def)

lemma step_numbering:
  "session_inv s' c \<Longrightarrow> numbering (as_workspaces s') = numbering (as_workspaces s) \<Longrightarrow> session_step s c s' c"
  by (simp add: session_step_def evolves_numbering)

lemma step_core: "session_inv s c \<Longrightarrow> same_core s s' \<Longrightarrow> session_step s c s' c"
  by (rule step_numbering) (simp_all add: session_inv_core same_coreD(1))

text \<open>A step that only tidies up behind another one.\<close>

lemma step_then_core: "session_step s c s' c' \<Longrightarrow> same_core s' s'' \<Longrightarrow> session_step s c s'' c'"
  using session_step_trans step_core session_step_inv by blast

section \<open>Answers about panes and tabs that are there\<close>

lemma pane_named:
  assumes "session_inv s c" and "i < length (as_workspaces s)" and "p \<in> set (ws_ids (as_workspaces s ! i))"
  shows "\<exists>name. public_pane_id s i p = Some name"
proof -
  have "hm_contains (ws_public_pane_numbers (as_workspaces s ! i)) p"
    using public_panes [OF session_ws [OF assms(1,2)]] assms(3) by (auto simp: hm_contains_iff)
  then show ?thesis using assms(2)
    by (auto simp: public_pane_id_def nth_ws_def public_pane_number_def hm_contains_def)
qed

lemma tab_named:
  assumes "i < length (as_workspaces s)" and "k < length (ws_tabs (as_workspaces s ! i))"
  shows "public_tab_id s i k =
    Some (public_tab_id_for_number (ws_id (as_workspaces s ! i)) (tab_number (ws_tabs (as_workspaces s ! i) ! k)))"
  using assms by (simp add: public_tab_id_def public_tab_number_def nth_ws_def nth_tab_def)

lemma pane_info_there:
  assumes inv: "session_inv s c" and i: "i < length (as_workspaces s)" and p: "p \<in> set (ws_ids (as_workspaces s ! i))"
  shows "pane_info_available s i p"
proof -
  let ?ws = "as_workspaces s ! i"
  obtain st where st: "ws_pane_state ?ws p = Some st" using p ws_pane_state_None [of ?ws p] by auto
  then have "(p, ps_attached_terminal_id st) \<in> set (all_entries (as_workspaces s))"
    using ws_pane_state_Some(1) nth_mem [OF i] by (auto simp: set_all_entries)
  then have "hm_contains (as_terminals s) (ps_attached_terminal_id st)"
    using inv unfolding session_inv_def hm_contains_iff by force
  moreover obtain k where k: "find_tab_index_for_pane ?ws p = Some k" using find_tab_exists [OF p] by blast
  ultimately show ?thesis
    using st pane_named [OF inv i p] i find_tab_Some(1) [OF k]
    by (auto simp: pane_info_available_def nth_ws_def tab_named)
qed

lemma pane_layout_there:
  assumes inv: "session_inv s c" and i: "i < length (as_workspaces s)" and k: "k < length (ws_tabs (as_workspaces s ! i))"
  shows "pane_layout_available s i k"
proof -
  let ?t = "ws_tabs (as_workspaces s ! i) ! k"
  have "tab_inv (next_pane_id c) ?t"
    using between_tab [OF _ k] session_ws [OF inv i] by (auto simp: ws_inv_def)
  then have "tl_focus (tab_layout ?t) \<in> set (tab_ids ?t)" by (auto simp: tab_inv_def layout_inv_def layout_wf_def)
  then have "tl_focus (tab_layout ?t) \<in> set (ws_ids (as_workspaces s ! i))" using k by (auto simp: set_ws_ids)
  from pane_named [OF inv i this] show ?thesis
    using i k by (auto simp: pane_layout_available_def nth_ws_def nth_tab_def)
qed

lemma tab_created_there:
  assumes inv: "session_inv s c" and i: "i < length (as_workspaces s)" and k: "k < length (ws_tabs (as_workspaces s ! i))"
  shows "tab_created_available s i k"
proof -
  let ?t = "ws_tabs (as_workspaces s ! i) ! k"
  have "tab_inv (next_pane_id c) ?t" using between_tab [OF _ k] session_ws [OF inv i] by (auto simp: ws_inv_def)
  then have "tab_root_pane ?t \<in> set (ws_ids (as_workspaces s ! i))" using k by (auto simp: tab_inv_def set_ws_ids)
  then show ?thesis using i k pane_info_there [OF inv i]
    by (simp add: tab_created_available_def tab_info_available_def tab_named nth_ws_def nth_tab_def)
qed

section \<open>Operations of the application state\<close>

lemma numbering_modify:
  "(\<And>ws. ws_id (f ws) = ws_id ws \<and> ws_public_pane_numbers (f ws) = ws_public_pane_numbers ws \<and>
      ws_next_public_pane_number (f ws) = ws_next_public_pane_number ws) \<Longrightarrow>
    numbering (as_workspaces (modify_ws i f s)) = numbering (as_workspaces s)"
  by (simp add: numbering_update)

lemma switch_tab_numbers [simp]:
  "ws_public_pane_numbers (switch_tab ws i) = ws_public_pane_numbers ws"
  "ws_next_public_pane_number (switch_tab ws i) = ws_next_public_pane_number ws"
  by (simp_all add: switch_tab_def)

lemma switch_tab_entries [simp]: "ws_entries (switch_tab ws k) = ws_entries ws"
  by (cases "k < length (ws_tabs ws)") (simp_all add: switch_tab_def ws_entries_of entries_of_update_same)

lemma switch_tab_length [simp]: "length (ws_tabs (switch_tab ws k)) = length (ws_tabs ws)"
  by (simp add: switch_tab_def)

text \<open>Making a tab active keeps the tabs and the panes of every workspace.\<close>

lemma switch_tab_at_tabs:
  assumes "i < length (as_workspaces s)"
  shows "length (ws_tabs (as_workspaces (fst (switch_workspace_tab i k s)) ! i)) = length (ws_tabs (as_workspaces s ! i))"
    "ws_entries (as_workspaces (fst (switch_workspace_tab i k s)) ! i) = ws_entries (as_workspaces s ! i)"
  using assms by (simp_all add: switch_workspace_tab_def Let_def)

lemma switch_workspace_tabs:
  assumes "i < length (as_workspaces s)"
  shows "length (ws_tabs (as_workspaces (switch_workspace i s) ! i)) = length (ws_tabs (as_workspaces s ! i))"
    "length (as_workspaces (switch_workspace i s)) = length (as_workspaces s)"
  using assms by (simp_all add: switch_workspace_def Let_def)

lemma switch_workspace_numbering: "numbering (as_workspaces (switch_workspace i s)) = numbering (as_workspaces s)"
  by (simp add: switch_workspace_def Let_def numbering_update)

lemma switch_tab_at_numbering:
  "numbering (as_workspaces (fst (switch_workspace_tab i k s))) = numbering (as_workspaces s)"
  by (simp add: switch_workspace_tab_def Let_def numbering_update)

lemma focus_numbering: "numbering (as_workspaces (fst (focus_pane_in_workspace i p s))) = numbering (as_workspaces s)"
  by (auto simp: focus_pane_in_workspace_def Let_def focus_in_tab_def numbering_update switch_tab_at_numbering
      split: option.split)

lemma zoom_numbering: "numbering (as_workspaces (fst (apply_pane_zoom i p z s))) = numbering (as_workspaces s)"
proof -
  obtain s1 b where "focus_pane_in_workspace i p s = (s1, b)" by fastforce
  with focus_numbering [of i p s] show ?thesis
    by (auto simp: apply_pane_zoom_def Let_def numbering_update split: option.split)
qed

lemma seen_numbering: "numbering (as_workspaces (fst (mark_active_tab_seen s))) = numbering (as_workspaces s)"
  by (auto simp: mark_active_tab_seen_def numbering_update split: option.split)

lemma in_place_steps:
  assumes "session_inv s c"
  shows "session_step s c (switch_workspace i s) c"
    "session_step s c (fst (switch_workspace_tab i k s)) c"
    "session_step s c (fst (focus_pane_in_workspace i p s)) c"
    "session_step s c (fst (apply_pane_zoom i p z s)) c"
    "session_step s c (fst (mark_active_tab_seen s)) c"
  using assms
  by (auto intro!: step_numbering switch_workspace_inv switch_tab_at_inv focus_in_workspace_inv pane_zoom_inv
      mark_seen_inv switch_workspace_numbering switch_tab_at_numbering focus_numbering zoom_numbering seen_numbering)

lemma move_workspace_step:
  assumes "session_inv s c" and "move_workspace i j s = Return (s', b)"
  shows "session_step s c s' c"
  using move_workspace_contract [OF assms(1), of i j] assms(2) mset_eq_setD [of "as_workspaces s'"]
  by (auto simp: session_step_def intro: evolves_subset)

lemma close_selected_step:
  assumes "session_inv s c" and "i < length (as_workspaces s)"
  shows "\<exists>s'. close_selected_workspace (s\<lparr>as_selected := i\<rparr>) = Return s' \<and> session_step s c s' c"
proof -
  obtain s' where s': "close_selected_workspace (s\<lparr>as_selected := i\<rparr>) = Return s'" "session_inv s' c"
    "mset (as_workspaces s) =
       mset (map ((!) (as_workspaces s)) (close_indices (s\<lparr>as_selected := i\<rparr>))) + mset (as_workspaces s')"
    using close_selected_contract [OF assms] by blast
  have "mset (as_workspaces s') \<subseteq># mset (as_workspaces s)" by (subst s'(3)) simp
  then have "set (as_workspaces s') \<subseteq> set (as_workspaces s)" by (metis set_mset_mono set_mset_mset)
  with s'(1,2) show ?thesis by (auto simp: session_step_def intro: evolves_subset)
qed

section \<open>Room for new identifiers\<close>

definition room :: "nat \<Rightarrow> counters \<Rightarrow> 'p app_state \<Rightarrow> bool" where
  "room m c s \<longleftrightarrow> current_clock m \<and> next_pane_id c \<noteq> - 1 \<and> next_terminal_id c \<noteq> - 1 \<and>
     next_workspace_id c \<noteq> - 1 \<and> list_all numbers_left (as_workspaces s)"

lemma fresh_ids:
  assumes "session_inv s c" and "current_clock m"
  shows "terminal_id_text m (next_terminal_id c) \<notin> snd ` set (all_entries (as_workspaces s))"
    "next_pane_id c \<notin> fst ` set (all_entries (as_workspaces s))"
proof -
  have all: "wss_inv c (as_workspaces s)" using assms(1) by (simp add: session_inv_def)
  show "terminal_id_text m (next_terminal_id c) \<notin> snd ` set (all_entries (as_workspaces s))"
  proof
    assume "terminal_id_text m (next_terminal_id c) \<in> snd ` set (all_entries (as_workspaces s))"
    then have "drawn_terminal c (terminal_id_text m (next_terminal_id c))"
      using all unfolding wss_inv_def wss_ids_def by blast
    then obtain m' k where k: "current_clock m'" "k < next_terminal_id c"
      "terminal_id_text m (next_terminal_id c) = terminal_id_text m' k" unfolding drawn_terminal_def by blast
    from terminal_id_inj [OF assms(2) k(1,3)] k(2) show False by simp
  qed
  show "next_pane_id c \<notin> fst ` set (all_entries (as_workspaces s))"
  proof
    assume "next_pane_id c \<in> fst ` set (all_entries (as_workspaces s))"
    then obtain ws tid where e: "ws \<in> set (as_workspaces s)" "(next_pane_id c, tid) \<in> set (ws_entries ws)"
      by (auto simp: set_all_entries)
    then have ws: "ws \<in> set (as_workspaces s)" "next_pane_id c \<in> set (ws_ids ws)" by (force simp: ws_ids_def)+
    have "ws_between (next_pane_id c) {} ws" using all ws(1) by (simp add: wss_inv_def ws_inv_def)
    from inv_below [OF this ws(2)] show False by simp
  qed
qed

lemma fresh_terminal_ws:
  assumes "session_inv s c" and "current_clock m" and "i < length (as_workspaces s)"
  shows "fresh_terminal m c (as_workspaces s ! i)"
  using fresh_ids(1) [OF assms(1,2)] assms(3) nth_mem [OF assms(3)]
  by (force simp: fresh_terminal_def set_all_entries)

lemma draws_le:
  assumes "draws b c c'" and "next_pane_id c \<noteq> - 1" and "next_terminal_id c \<noteq> - 1"
  shows "counters_le c c'" "b \<Longrightarrow> next_terminal_id c < next_terminal_id c'"
  using assms word_less_Suc [of "next_pane_id c"] word_less_Suc [of "next_terminal_id c"]
  by (auto simp: draws_def counters_le_def less_imp_le)

lemma terminals_update: "fst ` set (AList.update k v m) = insert k (fst ` set m)"
  by (simp add: dom_update flip: dom_map_of_conv_image_fst) (simp add: update_conv')

text \<open>A pane with a new terminal joins the workspace at an index.\<close>

lemma session_grow:
  assumes inv: "session_inv s c" and r: "room m c s" and i: "i < length (as_workspaces s)"
    and dr: "draws True c c'"
    and ws: "ws_inv (next_pane_id c') ws" "ws_id ws = ws_id (as_workspaces s ! i)"
    and added: "pane_added (next_pane_id c) (terminal_id_text m (next_terminal_id c)) (as_workspaces s ! i) ws"
    and t: "ts_id t = terminal_id_text m (next_terminal_id c)"
  shows "session_step s c (add_terminal t (s\<lparr>as_workspaces := (as_workspaces s)[i := ws]\<rparr>)) c'"
proof -
  let ?tid = "terminal_id_text m (next_terminal_id c)"
  have m: "current_clock m" using r by (simp add: room_def)
  have le: "counters_le c c'" "next_terminal_id c < next_terminal_id c'" using draws_le [OF dr] r by (simp_all add: room_def)
  have all: "wss_inv c (as_workspaces s)" using inv by (simp add: session_inv_def)
  have drawn: "drawn_terminal c' ?tid" using m le(2) unfolding drawn_terminal_def by blast
  have "mset (ws_entries ws) = add_mset (next_pane_id c, ?tid) (mset (ws_entries (as_workspaces s ! i)))"
    using added by (simp add: pane_added_def)
  from wss_inv_grow [OF all i le(1) ws(2,1) this fresh_ids(2,1) [OF inv m] drawn]
  have "wss_inv c' ((as_workspaces s)[i := ws])"
    "snd ` set (all_entries ((as_workspaces s)[i := ws])) = insert ?tid (snd ` set (all_entries (as_workspaces s)))" .
  moreover have "0 < next_workspace_id c'" using inv dr by (simp add: session_inv_def draws_def)
  moreover have "focus_valid ((as_workspaces s)[i := ws]) (as_active s) (as_selected s)"
    using session_focus [OF inv] by (simp add: focus_valid_def)
  ultimately have "session_inv (add_terminal t (s\<lparr>as_workspaces := (as_workspaces s)[i := ws]\<rparr>)) c'"
    using inv by (simp add: session_inv_def add_terminal_def terminals_update t)
  moreover have "ws_evolves (as_workspaces s ! i) ws"
    using pane_added_evolves [OF added ws(2)] r i by (simp add: room_def list_all_length)
  then have "evolves c (as_workspaces s) ((as_workspaces s)[i := ws])" by (rule evolves_update [OF i])
  ultimately show ?thesis using le(1) by (simp add: session_step_def add_terminal_def)
qed

text \<open>A workspace goes on with the same panes, and the counters may have moved.\<close>

lemma session_keep:
  assumes inv: "session_inv s c" and i: "i < length (as_workspaces s)" and le: "counters_le c c'"
    and ws: "ws_inv (next_pane_id c') ws" "ws_id ws = ws_id (as_workspaces s ! i)"
    and "mset (ws_entries ws) = mset (ws_entries (as_workspaces s ! i))"
    and "ws_evolves (as_workspaces s ! i) ws"
  shows "session_step s c (s\<lparr>as_workspaces := (as_workspaces s)[i := ws]\<rparr>) c'"
proof -
  have "session_inv (s\<lparr>as_workspaces := (as_workspaces s)[i := ws]\<rparr>) c'"
    using session_focus [OF inv] by (intro session_same [OF inv i le _ _ ws assms(6)]) simp_all
  then show ?thesis using le evolves_update [OF i assms(7)] by (simp add: session_step_def)
qed

end
