(* ===== verification/SessionApi.thy ===== *)
theory SessionApi
  imports SessionSteps
begin

text \<open>
  The handlers that create, split, close and rearrange return an answer whenever the counters have room, and each is
  a step of the session.
\<close>

section \<open>Creating a workspace\<close>

lemma session_counters: "session_inv s c \<Longrightarrow> counters_le c c' \<Longrightarrow> session_step s c s c'"
  unfolding session_step_def session_inv_def counters_le_def
  using wss_inv_mono [of c "as_workspaces s" c'] by (auto simp: counters_le_def elim: less_le_trans)

lemma wss_inv_append:
  assumes all: "wss_inv c wss" and le: "counters_le c c'" and ws: "ws_inv (next_pane_id c') ws"
    and ident: "ws_id ws = ''w'' @ encode_public_number (next_workspace_id c)"
    and k: "0 < next_workspace_id c" "next_workspace_id c < next_workspace_id c'"
    and dist: "entries_distinct (all_entries (wss @ [ws]))"
    and drawn: "\<And>tid. tid \<in> snd ` set (ws_entries ws) \<Longrightarrow> drawn_terminal c' tid"
  shows "wss_inv c' (wss @ [ws])" "fresh_workspace c (ws_id ws)"
proof -
  have "drawn_workspace c' (ws_id ws)" using k ident unfolding drawn_workspace_def by blast
  moreover have "ws_id ws \<notin> ws_id ` set wss"
  proof
    assume "ws_id ws \<in> ws_id ` set wss"
    then have "drawn_workspace c (ws_id ws)" using all by (auto simp: wss_inv_def wss_ids_def)
    then obtain n where n: "0 < n" "n < next_workspace_id c" "encode_public_number n = encode_public_number (next_workspace_id c)"
      unfolding drawn_workspace_def ident by auto
    then have "n = next_workspace_id c" using k(1) by (intro encode_public_inj) auto
    with n(2) show False by simp
  qed
  moreover have "wss_inv c' wss" using wss_inv_mono [OF all le] .
  ultimately show "wss_inv c' (wss @ [ws])"
    using ws dist drawn by (auto simp: wss_inv_def wss_ids_def)
  show "fresh_workspace c (ws_id ws)" using k(1) ident unfolding fresh_workspace_def by blast
qed

lemma evolves_append: "fresh_workspace c (ws_id ws) \<Longrightarrow> evolves c wss wss' \<Longrightarrow> evolves c wss (wss' @ [ws])"
  by (auto simp: evolves_def)

text \<open>Only the workspaces and the terminals matter when the focus is about to be set.\<close>

lemma refocus_workspace: "same_core (switch_workspace i (s\<lparr>as_active := a, as_selected := k\<rparr>)) (switch_workspace i s)"
  if "i < length (as_workspaces s)"
  using that by (simp add: same_core_def switch_workspace_def Let_def)

lemma refocus_tab:
  "same_core (fst (switch_workspace_tab i k (s\<lparr>as_active := a, as_selected := n\<rparr>))) (fst (switch_workspace_tab i k s))"
  if "i < length (as_workspaces s)" and "k < length (ws_tabs (as_workspaces s ! i))"
  using that by (simp add: same_core_def switch_workspace_tab_def Let_def nth_ws_def)

lemma create_workspace_step:
  assumes inv: "session_inv s c" and r: "room m c s"
  shows "case create_workspace_with_launch_env gb spawn m cwd foc env s c of (_, s', c') \<Rightarrow> session_step s c s' c'"
proof -
  obtain res c1 where new: "new_with_tab gb spawn m cwd None env c = (res, c1)" by fastforce
  have n: "next_pane_id c \<noteq> - 1" "next_terminal_id c \<noteq> - 1" "next_workspace_id c \<noteq> - 1" and m: "current_clock m"
    using r by (simp_all add: room_def)
  note con = new_with_tab_contract [OF new n(1)]
  have less: "next_workspace_id c < next_workspace_id c1" using con word_less_Suc [OF n(3)] by simp
  have le: "counters_le c c1"
    using con word_less_Suc [OF n(1)] word_less_Suc [OF n(2)] word_less_Suc [OF n(3)]
    by (auto simp: counters_le_def less_imp_le)
  show ?thesis
  proof (cases res)
    case (Inl e)
    then show ?thesis using new session_counters [OF inv le] by (simp add: create_workspace_with_launch_env_def)
  next
    case (Inr x)
    obtain ws t rt where x: "x = (ws, t, rt)" by (cases x)
    let ?tid = "terminal_id_text m (next_terminal_id c)" and ?n = "length (as_workspaces s)"
    have ws: "ws_inv (next_pane_id c1) ws" "ws_id ws = ''w'' @ encode_public_number (next_workspace_id c)"
      "ws_entries ws = [(next_pane_id c, ?tid)]" "ts_id t = ?tid" "next_terminal_id c < next_terminal_id c1"
      using con Inr x word_less_Suc [OF n(2)] by auto
    have all: "wss_inv c (as_workspaces s)" and pos: "0 < next_workspace_id c" using inv by (simp_all add: session_inv_def)
    have "entries_distinct (all_entries (as_workspaces s @ [ws]))"
      using all fresh_ids [OF inv m] entries_distinct_add [of "all_entries (as_workspaces s @ [ws])" _ _ "all_entries (as_workspaces s)"]
      by (simp add: ws(3) wss_inv_def wss_ids_def)
    moreover have "drawn_terminal c1 ?tid" using m ws(5) unfolding drawn_terminal_def by blast
    ultimately have app: "wss_inv c1 (as_workspaces s @ [ws])" "fresh_workspace c (ws_id ws)"
      using wss_inv_append [OF all le ws(1,2) pos less] by (simp_all add: ws(3))
    define s3 where "s3 = remove_alias_shadowed_by_new_pane (tab_root_pane (ws_tabs ws ! 0))
      (add_terminal t s\<lparr>as_workspaces := as_workspaces s @ [ws]\<rparr>)"
    have s3: "as_workspaces s3 = as_workspaces s @ [ws]" "as_active s3 = as_active s" "as_selected s3 = as_selected s"
      "fst ` set (as_terminals s3) = insert ?tid (fst ` set (as_terminals s))"
      by (simp_all add: s3_def add_terminal_def terminals_update ws(4))
    have ok: "session_step s c (s3\<lparr>as_active := a, as_selected := k\<rparr>) c1"
      if "focus_valid (as_workspaces s @ [ws]) a k" for a k
      using that app le inv pos less s3 evolves_append [OF app(2), of "as_workspaces s" "as_workspaces s"]
      by (auto simp: session_step_def session_inv_def ws(3))
    have at: "focus_valid (as_workspaces s @ [ws]) (Some ?n) ?n" by (simp add: focus_valid_def)
    have sw: "session_step s c (switch_workspace ?n s3) c1"
      using session_step_trans [OF ok [OF at] in_place_steps(1) [OF session_step_inv [OF ok [OF at]], of ?n]]
        refocus_workspace [of ?n s3 ?n "Some ?n"] step_then_core
      by (simp add: s3(1))
    have mode: "session_step s c (s'\<lparr>as_mode := md\<rparr>) c1" if "session_step s c s' c1" for s' :: "'a app_state" and md
      using step_then_core [OF that] by (simp add: same_core_def)
    have keep: "session_step s c s3 c1" if "as_active s \<noteq> None"
    proof -
      have "focus_valid (as_workspaces s @ [ws]) (as_active s) (as_selected s)"
        using session_focus [OF inv] that by (auto simp: focus_valid_def is_some_and_def split: if_splits option.splits)
      from ok [OF this] show ?thesis
        by (rule step_then_core) (simp add: same_core_def s3(2,3))
    qed
    show ?thesis
      using new Inr x sw mode keep
      by (simp add: create_workspace_with_launch_env_def Let_def s3 flip: s3_def) (auto simp: add_terminal_def s3(1) s3_def)
  qed
qed

section \<open>Creating tabs and panes\<close>

lemma step_mode: "session_step s c s' c' \<Longrightarrow> session_step s c (s'\<lparr>as_mode := md\<rparr>) c'"
  by (erule step_then_core) (simp add: same_core_def)

lemma step_shutdowns: "session_step s c s' c' \<Longrightarrow> session_step s c (s'\<lparr>as_terminal_runtime_shutdowns := x\<rparr>) c'"
  by (erule step_then_core) (simp add: same_core_def)

lemma step_side:
  assumes "session_step s c s' c'"
  shows "session_step s c (mark_session_dirty s') c'" "session_step s c (remove_alias_shadowed_by_new_pane p s') c'"
    "session_step s c (record_pane_focus_change f i p s') c'" "session_step s c (settle_terminal_mode_after_focus s') c'"
    "session_step s c (remove_plugin_pane_records ps s') c'"
  using step_then_core [OF assms] core_side by blast+

lemma step_switch_tab: "session_step s c s' c' \<Longrightarrow> session_step s c (fst (switch_workspace_tab i k s')) c'"
  using session_step_trans in_place_steps(2) session_step_inv by blast

lemma rename_tab_step:
  assumes "session_inv s c" and i: "i < length (as_workspaces s)"
  shows "session_step s c (modify_ws i (rename_tab k name) s) c"
proof (cases "k < length (ws_tabs (as_workspaces s ! i))")
  case True
  let ?t = "ws_tabs (as_workspaces s ! i) ! k"
  have "session_inv (modify_ws i (\<lambda>ws. ws\<lparr>ws_tabs := (ws_tabs ws)[k := tab_set_custom_name ?t name]\<rparr>) s) c"
    by (rule session_tab [OF assms True refl]) (auto simp: tab_set_custom_name_def tab_inv_def tab_ids_def tab_entries_def)
  then have "session_inv (modify_ws i (rename_tab k name) s) c"
    using True by (simp add: modify_ws_def rename_tab_def)
  then show ?thesis by (rule step_numbering) (simp add: rename_tab_def numbering_update)
next
  case False
  then have "modify_ws i (rename_tab k name) s = s" by (simp add: modify_ws_def rename_tab_def)
  then show ?thesis using assms session_step_refl by simp
qed

lemma add_then_side:
  "add_terminal t (remove_alias_shadowed_by_new_pane p s) = remove_alias_shadowed_by_new_pane p (add_terminal t s)"
  by (simp add: add_terminal_def remove_alias_shadowed_by_new_pane_def)

lemma tab_create_step:
  assumes inv: "session_inv s c" and r: "room m c s"
  shows "\<exists>a s' c'. handle_tab_create spawn m wid cwd foc label env s c = Return (a, s', c') \<and> session_step s c s' c'"
proof (cases "tab_create_workspace s wid")
  case (Inl e)
  then show ?thesis using inv session_step_refl by (simp add: handle_tab_create_def)
next
  case (Inr i)
  show ?thesis
  proof (cases "i < length (as_workspaces s)")
    case False
    then show ?thesis using Inr inv session_step_refl by (simp add: handle_tab_create_def nth_ws_def)
  next
    case i: True
    let ?ws = "as_workspaces s ! i"
    have m: "current_clock m" and n: "next_pane_id c \<noteq> - 1" "next_terminal_id c \<noteq> - 1" and left: "numbers_left ?ws"
      using r i by (simp_all add: room_def list_all_length)
    from create_tab_contract [OF session_ws [OF inv i] n(1) left fresh_terminal_ws [OF inv m i], of spawn cwd None env]
    obtain res ws' c' where run: "create_tab_with_runtime spawn m cwd None env ?ws c = Return (res, ws', c')"
      and ws': "ws_inv (next_pane_id c') ws'" "ws_id ws' = ws_id ?ws" and dr: "draws (\<not> isl res) c c'"
      and con: "case res of
         Inl e \<Rightarrow> ws' = ?ws\<lparr>ws_next_public_tab_number := ws_next_public_tab_number ?ws + 1\<rparr>
       | Inr (idx, terminal, rt) \<Rightarrow> idx = length (ws_tabs ?ws) \<and> (\<exists>t. ws_tabs ws' = ws_tabs ?ws @ [t]) \<and>
           ts_id terminal = terminal_id_text m (next_terminal_id c) \<and>
           pane_added (next_pane_id c) (terminal_id_text m (next_terminal_id c)) ?ws ws'"
      by blast
    note le = draws_le(1) [OF dr n]
    show ?thesis
    proof (cases res)
      case Inl': (Inl e)
      then have "session_step s c (s\<lparr>as_workspaces := (as_workspaces s)[i := ws']\<rparr>) c'"
        using con ws' by (intro session_keep [OF inv i le]) (simp_all add: ws_entries_def ws_evolves_same)
      then show ?thesis using Inr i run Inl' by (simp add: handle_tab_create_def nth_ws_def Let_def)
    next
      case Inr': (Inr x)
      obtain k t rt where x: "x = (k, t, rt)" by (cases x)
      define s2 where "s2 = remove_alias_shadowed_by_new_pane (tab_root_pane (ws_tabs ws' ! k))
        (add_terminal t (s\<lparr>as_workspaces := (as_workspaces s)[i := ws']\<rparr>))"
      have s2: "session_step s c s2 c'"
        unfolding s2_def using con ws' Inr' x dr by (intro step_side(2) session_grow [OF inv r i]) simp_all
      have len: "i < length (as_workspaces s2)" using i by (simp add: s2_def add_terminal_def)
      define s3 where "s3 = (case label of None \<Rightarrow> s2 | Some name \<Rightarrow> modify_ws i (rename_tab k name) s2)"
      have s3: "session_step s c s3 c'"
        using s2 session_step_trans [OF s2 rename_tab_step [OF session_step_inv [OF s2] len]]
        by (simp add: s3_def split: option.split)
      define s4 where "s4 = (if foc then (fst (switch_workspace_tab i k s3))\<lparr>as_mode := ModeTerminal\<rparr> else s3)"
      have s4: "session_step s c s4 c'" using s3 step_mode [OF step_switch_tab [OF s3]] by (simp add: s4_def)
      have "k < length (ws_tabs ws')" using con Inr' x by auto
      then have "i < length (as_workspaces s4)" "k < length (ws_tabs (as_workspaces s4 ! i))"
        using i switch_tab_at_tabs(1) [of i s3 k]
        by (auto simp: s4_def s3_def s2_def add_terminal_def rename_tab_def switch_tab_at_fields split: option.split)
      from tab_created_there [OF session_step_inv [OF s4] this] have there: "tab_created_available s4 i k" .
      have "handle_tab_create spawn m wid cwd foc label env s c =
          (if tab_created_available s4 i k then Return (Inr (i, k), s4, c') else Panic)"
        using Inr i run Inr' x unfolding s4_def s3_def s2_def
        by (simp add: handle_tab_create_def nth_ws_def Let_def)
      with there s4 show ?thesis by simp
    qed
  qed
qed

lemma pane_split_step:
  assumes inv: "session_inv s c" and r: "room m c s"
  shows "\<exists>a s' c'. handle_pane_split spawn m cd target wid d ratio cwd env foc s c = Return (a, s', c') \<and>
    session_step s c s' c'"
proof (cases "pane_split_target s target wid")
  case None
  then show ?thesis using inv session_step_refl by (simp add: handle_pane_split_def)
next
  case (Some q)
  obtain i p where q: "q = (i, p)" by (cases q)
  show ?thesis
  proof (cases "i < length (as_workspaces s)")
    case False
    then show ?thesis using Some q inv session_step_refl by (simp add: handle_pane_split_def nth_ws_def)
  next
    case i: True
    let ?ws = "as_workspaces s ! i" and ?d = "split_direction_to_layout d"
    have m: "current_clock m" and n: "next_pane_id c \<noteq> - 1" "next_terminal_id c \<noteq> - 1" and left: "numbers_left ?ws"
      using r i by (simp_all add: room_def list_all_length)
    from split_pane_contract [OF session_ws [OF inv i] n(1) left fresh_terminal_ws [OF inv m i],
        of spawn cd p ?d ratio "Some cwd" env foc None]
    obtain res ws' c' where
      run: "split_pane_with_runtime spawn m cd p ?d ratio (Some cwd) env foc None ?ws c = Return (res, ws', c')"
      and ws': "ws_inv (next_pane_id c') ws'" "ws_id ws' = ws_id ?ws"
      and cases: "case res of
         None \<Rightarrow> ws' = ?ws \<and> c' = c
       | Some (Inl e) \<Rightarrow> ws' = ?ws \<and> draws False c c'
       | Some (Inr (k, pane)) \<Rightarrow> np_pane_id pane = next_pane_id c \<and> ts_id (np_terminal pane) = terminal_id_text m (next_terminal_id c) \<and> draws True c c' \<and>
           pane_added (next_pane_id c) (terminal_id_text m (next_terminal_id c)) ?ws ws'"
    proof (elim exE conjE, goal_cases)
      case (1 res ws' c')
      show ?case by (rule 1(1) [OF 1(2-4)]) (use 1(8) in \<open>auto split: option.splits sum.splits\<close>)
    qed
    let ?s1 = "s\<lparr>as_workspaces := (as_workspaces s)[i := ws']\<rparr>"
    consider "res = None" | e where "res = Some (Inl e)" | k pane where "res = Some (Inr (k, pane))"
      by (metis option.exhaust sum.exhaust surj_pair)
    then show ?thesis
    proof cases
      case 1
      then have "?s1 = s" using cases by simp
      with 1 cases show ?thesis
        using Some q i run inv session_step_refl by (simp add: handle_pane_split_def nth_ws_def Let_def)
    next
      case 2
      then have "?s1 = s" and le: "counters_le c c'" using cases draws_le(1) [OF _ n] by auto
      with 2 show ?thesis
        using Some q i run session_counters [OF inv le] by (simp add: handle_pane_split_def nth_ws_def Let_def)
    next
      case 3
      let ?p = "np_pane_id pane" and ?prev = "current_pane_focus_target s"
      define s2 where "s2 = (if foc then settle_terminal_mode_after_focus (record_pane_focus_change ?prev i ?p
        (fst (switch_workspace_tab i k ?s1))) else ?s1)"
      define s3 where "s3 = add_terminal (np_terminal pane) ?s1"
      have s3: "session_step s c s3 c'"
        unfolding s3_def using cases ws' 3 by (intro session_grow [OF inv r i]) simp_all
      have "session_step s c (fst (switch_workspace_tab i k s3)) c'" using s3 by (rule step_switch_tab)
      moreover have "same_core (if foc then fst (switch_workspace_tab i k s3) else s3)
          (add_terminal (np_terminal pane) (remove_alias_shadowed_by_new_pane ?p s2))"
        by (auto simp: same_core_def s2_def s3_def add_terminal_def switch_workspace_tab_def Let_def nth_ws_def is_none_or_def)
      ultimately have s4: "session_step s c (add_terminal (np_terminal pane) (remove_alias_shadowed_by_new_pane ?p s2)) c'"
        using s3 step_then_core by (metis (full_types))
      have "(next_pane_id c, terminal_id_text m (next_terminal_id c)) \<in># mset (ws_entries ws')"
        using cases 3 by (simp add: pane_added_def)
      moreover have "ws_entries (as_workspaces s2 ! i) = ws_entries ws'" "length (as_workspaces s2) = length (as_workspaces s)"
        using i switch_tab_at_tabs(2) [of i ?s1 k] by (simp_all add: s2_def switch_tab_at_fields)
      ultimately have "next_pane_id c \<in> set (ws_ids (as_workspaces s2 ! i))" by (force simp: ws_ids_def)
      moreover have "?p = next_pane_id c" using cases 3 by simp
      ultimately have "pane_info_available (add_terminal (np_terminal pane) (remove_alias_shadowed_by_new_pane ?p s2)) i ?p"
        using i by (intro pane_info_there [OF session_step_inv [OF s4]]) (simp_all add: add_terminal_def s2_def switch_tab_at_fields)
      then show ?thesis
        using Some q i run 3 s4 by (simp add: handle_pane_split_def nth_ws_def Let_def flip: s2_def)
    qed
  qed
qed

end
