(* ===== verification/SessionClosing.thy ===== *)
theory SessionClosing
  imports SessionApi
begin

text \<open>The handlers that close panes, tabs and workspaces or put them in another order are steps of the session.\<close>

section \<open>Tabs and panes that go\<close>

lemma pane_died_step:
  assumes "session_inv s c"
  shows "\<exists>s'. handle_pane_died p s = Return s' \<and> session_step s c s' c"
  using pane_died_contract [OF assms, of p] by (auto simp: session_step_def)

text \<open>A workspace loses some panes, and the session their terminals.\<close>

lemma session_drop:
  assumes inv: "session_inv s c" and i: "i < length (as_workspaces s)" and ws: "ws_inv (next_pane_id c) ws"
    and ident: "ws_id ws = ws_id (as_workspaces s ! i)"
    and es: "mset (ws_entries (as_workspaces s ! i)) = mset gone + mset (ws_entries ws)"
    and tids: "set tids = snd ` set gone" and ev: "ws_evolves (as_workspaces s ! i) ws"
    and core: "same_core (s\<lparr>as_workspaces := (as_workspaces s)[i := ws]\<rparr>) s'"
  shows "session_step s c (remove_unattached_terminal_ids tids s') c"
proof -
  let ?wss = "as_workspaces s" and ?new = "(as_workspaces s)[i := ws]"
  note s' = same_coreD [OF core, simplified]
  have all: "wss_inv c ?wss" using inv by (simp add: session_inv_def)
  have ms: "mset (all_entries ?wss) = mset (gone @ all_entries ?new)"
  proof -
    have "mset (all_entries ?new) + mset gone = mset (all_entries ?wss)"
      using all_entries_update [OF i, of ws] unfolding es by simp
    then show ?thesis by (metis mset_append union_commute)
  qed
  have set: "set (all_entries ?wss) = set gone \<union> set (all_entries ?new)" using mset_eq_setD [OF ms] by simp
  have "wss_inv c ?new"
  proof (rule wss_inv_replace [OF all i counters_le_refl ident ws])
    show "entries_distinct (all_entries ?new)"
    proof -
      have "entries_distinct (gone @ all_entries ?new)"
        using all entries_distinct_mset [OF ms] by (simp add: wss_inv_def wss_ids_def)
      then show ?thesis using entries_distinct_append by blast
    qed
  next
    fix t assume "t \<in> snd ` set (all_entries ?new)"
    then show "drawn_terminal c t" using all set by (auto simp: wss_inv_def wss_ids_def)
  qed
  moreover have "fst ` set (as_terminals (remove_unattached_terminal_ids tids s')) = snd ` set (all_entries ?new)"
    using swept_terminals [of s' "snd ` set (all_entries ?wss)" tids] inv set tids
    by (auto simp: s' session_inv_def image_Un)
  moreover have "focus_valid ?new (as_active s) (as_selected s)"
    using session_focus [OF inv] by (simp add: focus_valid_def)
  ultimately have "session_inv (remove_unattached_terminal_ids tids s') c"
    using inv by (simp add: session_inv_def s')
  then show ?thesis using evolves_update [OF i ev] by (simp add: session_step_def s')
qed

lemma terminal_ids_of_tab:
  "i < length (as_workspaces s) \<Longrightarrow> k < length (ws_tabs (as_workspaces s ! i)) \<Longrightarrow>
    set (terminal_ids_for_tab s i k) = snd ` set (tab_entries (ws_tabs (as_workspaces s ! i) ! k))"
  by (force simp: terminal_ids_for_tab_def nth_ws_def nth_tab_def tab_entries_def hm_values_def)

lemma tab_close_step:
  assumes inv: "session_inv s c"
  shows "\<exists>a s'. handle_tab_close target s = Return (a, s') \<and> session_step s c s' c"
proof (cases "parse_tab_id s target")
  case None
  then show ?thesis using session_step_refl [OF inv] by (simp add: handle_tab_close_def)
next
  case (Some q)
  obtain i k where q: "q = (i, k)" by (cases q)
  have i: "i < length (as_workspaces s)" and k: "k < length (ws_tabs (as_workspaces s ! i))"
    using parse_tab_id_range [of s target i k] Some q by auto
  let ?ws = "as_workspaces s ! i"
  have named: "public_tab_id s i k \<noteq> None"
    using i k by (simp add: public_tab_id_def public_tab_number_def nth_ws_def nth_tab_def)
  obtain ws b where close: "close_tab ?ws k = (ws, b)" by fastforce
  note con = close_tab_contract [OF session_ws [OF inv i], of k, unfolded close fst_conv snd_conv]
  define s1 where "s1 = remove_plugin_pane_records (pane_ids_for_tab s i k)
    (s\<lparr>as_workspaces := (as_workspaces s)[i := ws]\<rparr>)"
  show ?thesis
  proof (cases b)
    case False
    then have "ws = ?ws" using con by simp
    then have "\<exists>a. handle_tab_close target s = Return (a, s)"
      using Some q i named close False by (auto simp: handle_tab_close_def nth_ws_def Let_def)
    then show ?thesis using session_step_refl [OF inv] by blast
  next
    case True
    then have ws: "ws_tabs ws = remove_nth k (ws_tabs ?ws)" "ws_inv (next_pane_id c) ws" "1 < length (ws_tabs ?ws)"
      and pub: "ws_public_pane_numbers ws = fold AList.delete (tab_ids (ws_tabs ?ws ! k)) (ws_public_pane_numbers ?ws)"
      using con by simp_all
    have rest: "ws_id ws = ws_id ?ws" "ws_next_public_pane_number ws = ws_next_public_pane_number ?ws"
      using close True by (auto simp: close_tab_def Let_def fold_unregister split: if_splits)
    have ev: "ws_evolves ?ws ws" using rest set_fold_delete by (intro ws_evolves_drop) (auto simp: pub)
    have "mset (ws_entries ?ws) = mset (tab_entries (ws_tabs ?ws ! k)) + mset (ws_entries ws)"
      using entries_remove [OF k] by (simp add: ws_entries_of ws(1))
    then have "session_step s c (remove_unattached_terminal_ids (terminal_ids_for_tab s i k) s1) c"
      by (rule session_drop [OF inv i ws(2) rest(1) _ terminal_ids_of_tab [OF i k] ev]) (simp add: s1_def core_side)
    from step_shutdowns [OF this] show ?thesis
      using Some q i named close True ws(3) by (auto simp: handle_tab_close_def nth_ws_def Let_def s1_def)
  qed
qed

lemma workspace_close_step:
  assumes inv: "session_inv s c"
  shows "\<exists>a s'. handle_workspace_close target s = Return (a, s') \<and> session_step s c s' c"
proof (cases "Option.bind (parse_workspace_id s target) (\<lambda>i. map_option (Pair i) (nth_ws s i))")
  case None
  then have "handle_workspace_close target s = Return (Inl ''workspace_not_found'', s)"
    by (auto simp: handle_workspace_close_def bind_eq_None_conv split: option.splits)
  then show ?thesis using session_step_refl [OF inv] by blast
next
  case (Some q)
  then obtain i where p: "parse_workspace_id s target = Some i" and i: "i < length (as_workspaces s)"
    by (auto simp: bind_eq_Some_conv nth_ws_Some)
  obtain s' where s': "close_selected_workspace (s\<lparr>as_selected := i\<rparr>) = Return s'" "session_step s c s' c"
    using close_selected_step [OF inv i] by blast
  from step_shutdowns [OF step_side(5) [OF s'(2)]] show ?thesis
    using p i s'(1) by (auto simp: handle_workspace_close_def nth_ws_def Let_def)
qed

lemma confirm_core:
  "confirm_implicit_worktree_group_close i s =
    (if as_confirm_close s \<and> workspace_close_would_close_worktree_group s i
     then (s\<lparr>as_selected := i, as_mode := ModeConfirmClose\<rparr>, True) else (s, False))"
  by (simp add: confirm_implicit_worktree_group_close_def)

lemma select_step:
  assumes inv: "session_inv s c" and i: "i < length (as_workspaces s)"
  shows "session_step s c (s\<lparr>as_selected := i, as_mode := md\<rparr>) c"
  using inv i by (intro step_numbering) (auto simp: session_inv_def focus_valid_def)

lemma pane_close_step:
  assumes inv: "session_inv s c"
  shows "\<exists>a s'. api_close_pane target s = Return (a, s') \<and> session_step s c s' c"
proof (cases "parse_pane_id s target")
  case None
  then show ?thesis using session_step_refl [OF inv] by (simp add: api_close_pane_def)
next
  case (Some q)
  obtain i p where q: "q = (i, p)" by (cases q)
  have i: "i < length (as_workspaces s)" and p: "p \<in> set (ws_ids (as_workspaces s ! i))"
    using parse_pane_id_live [OF inv] Some q by auto
  let ?ws = "as_workspaces s ! i"
  note w = session_ws [OF inv i]
  have "hm_contains (ws_public_pane_numbers ?ws) p" using public_panes [OF w] p by (auto simp: hm_contains_iff)
  then obtain name where named: "public_pane_id s i p = Some name"
    using i by (auto simp: public_pane_id_def nth_ws_def public_pane_number_def hm_contains_def)
  show ?thesis
  proof (cases "close_pane_would_close_workspace s i p \<and> snd (confirm_implicit_worktree_group_close i s)")
    case True
    then have "api_close_pane target s =
        Return (Inl ''confirmation_required'', s\<lparr>as_selected := i, as_mode := ModeConfirmClose\<rparr>)"
      using Some q named by (auto simp: api_close_pane_def Let_def confirm_core split: if_splits)
    then show ?thesis using select_step [OF inv i] by blast
  next
    case False
    then have go: "(if close_pane_would_close_workspace s i p then confirm_implicit_worktree_group_close i s
        else (s, False)) = (s, False)" by (auto simp: confirm_core)
    obtain ws b where rm: "ws_close_pane ?ws p = Return (ws, b)" and ws: "ws_inv (next_pane_id c) ws" "ws_id ws = ws_id ?ws"
      and cases: "if b then ws = ?ws \<and> ws_ids ?ws = [p] else pane_gone p ?ws ws"
      using remove_pane_contract [OF w, of p] p by (auto simp: remove_eq_close)
    define s2 where "s2 = remove_plugin_pane_records [p] (s\<lparr>as_workspaces := (as_workspaces s)[i := ws]\<rparr>)"
    obtain st where "ws_pane_state ?ws p = Some st" using p ws_pane_state_None [of ?ws p] by auto
    then have tid: "terminal_id_for_pane s i p = Some (ps_attached_terminal_id st)"
      using i by (simp add: terminal_id_for_pane_def nth_ws_def)
    show ?thesis
    proof (cases b)
      case True
      have "same_core s s2" using cases True core_side(11) by (simp add: s2_def)
      then have s2: "session_step s c s2 c" and len: "i < length (as_workspaces s2)"
        using step_core [OF inv] i by (simp_all add: same_coreD(1))
      obtain s3 where s3: "close_selected_workspace (s2\<lparr>as_selected := i\<rparr>) = Return s3" "session_step s2 c s3 c"
        using close_selected_step [OF session_step_inv [OF s2] len] by blast
      from step_shutdowns [OF session_step_trans [OF s2 s3(2)]] show ?thesis
        using Some q i named go rm True s3(1)
        by (simp add: api_close_pane_def nth_ws_def Let_def flip: s2_def)
    next
      case False
      have gone: "pane_gone p ?ws ws" using cases False by simp
      have core: "same_core (s\<lparr>as_workspaces := (as_workspaces s)[i := ws]\<rparr>) s2" by (simp add: s2_def core_side)
      have "session_inv (remove_unattached_terminal_ids [ps_attached_terminal_id st] s2) c"
        by (rule session_gone [OF inv i p gone ws core tid])
      then have "session_step s c (remove_unattached_terminal_ids [ps_attached_terminal_id st] s2) c"
        using evolves_update [OF i pane_gone_evolves [OF gone ws(2)]] same_coreD(1) [OF core]
        by (simp add: session_step_def)
      from step_shutdowns [OF this] show ?thesis
        using Some q i named go rm False tid
        by (simp add: api_close_pane_def nth_ws_def Let_def flip: s2_def)
    qed
  qed
qed

section \<open>Another order\<close>

lemma move_tab_fields [simp]:
  "ws_id (fst (move_tab ws i j)) = ws_id ws"
  "ws_next_public_pane_number (fst (move_tab ws i j)) = ws_next_public_pane_number ws"
  by (simp_all add: move_tab_def Let_def)

lemma tab_move_step:
  assumes inv: "session_inv s c"
  shows "\<exists>a s'. handle_tab_move target j s = Return (a, s') \<and> session_step s c s' c"
proof (cases "parse_tab_id s target")
  case None
  then show ?thesis using session_step_refl [OF inv] by (simp add: handle_tab_move_def)
next
  case (Some q)
  obtain i k where q: "q = (i, k)" by (cases q)
  have i: "i < length (as_workspaces s)" using parse_tab_id_range [of s target i k] Some q by auto
  let ?ws = "as_workspaces s ! i"
  obtain ws b where mv: "move_tab ?ws k j = (ws, b)" by fastforce
  have con: "ws_inv (next_pane_id c) ws" "mset (ws_tabs ws) = mset (ws_tabs ?ws)"
    "ws_public_pane_numbers ws = ws_public_pane_numbers ?ws"
    using move_tab_contract [OF session_ws [OF inv i], of k j] mv by simp_all
  have "ws_id ws = ws_id ?ws" "ws_next_public_pane_number ws = ws_next_public_pane_number ?ws"
    using move_tab_fields [of ?ws k j] mv by simp_all
  moreover have "mset (ws_entries ws) = mset (ws_entries ?ws)"
    using mset_entries_of [OF con(2)] by (simp add: ws_entries_of)
  ultimately have "session_step s c (s\<lparr>as_workspaces := (as_workspaces s)[i := ws]\<rparr>) c"
    using con by (intro session_keep [OF inv i counters_le_refl]) (simp_all add: ws_evolves_same)
  then show ?thesis
    using Some q i mv session_step_refl [OF inv] by (auto simp: handle_tab_move_def nth_ws_def Let_def)
qed

lemma workspace_move_step:
  assumes inv: "session_inv s c"
  shows "\<exists>a s'. handle_workspace_move target j s = Return (a, s') \<and> session_step s c s' c"
proof (cases "parse_workspace_id s target")
  case None
  then show ?thesis using session_step_refl [OF inv] by (simp add: handle_workspace_move_def)
next
  case (Some i)
  obtain s' b where "move_workspace i j s = Return (s', b)" using move_workspace_contract [OF inv, of i j] by blast
  moreover from this have "session_step s c s' c" by (rule move_workspace_step [OF inv])
  ultimately show ?thesis
    using Some session_step_refl [OF inv] by (auto simp: handle_workspace_move_def)
qed

end
