(* ===== verification/SessionPaneMove.thy ===== *)
theory SessionPaneMove
  imports SessionClosing
begin

text \<open>
  Moving a pane (\<open>handle_pane_move\<close>): while the pane is in hand the session lacks it, and one workspace may still
  hold its number or have no tab left; wherever it is put down the session is whole again.  The destination named
  before the pane is taken is always found again, so the recovery of the code is never needed.
\<close>

section \<open>The session without the pane in hand\<close>

text \<open>Only the workspace at the index may be unfinished.\<close>

definition in_hand :: "counters \<Rightarrow> pane_id \<times> string \<Rightarrow> nat \<Rightarrow> workspace list \<Rightarrow> bool" where
  "in_hand c e j wss \<longleftrightarrow>
     wss_ids c wss \<and> fst e \<notin> fst ` set (all_entries wss) \<and> snd e \<notin> snd ` set (all_entries wss) \<and>
     fst e < next_pane_id c \<and> drawn_terminal c (snd e) \<and>
     (\<forall>k < length wss. if k = j then \<exists>X \<subseteq> {fst e}. ws_between (next_pane_id c) X (wss ! k)
        else ws_inv (next_pane_id c) (wss ! k))"

lemma in_hand_of_inv:
  assumes "wss_inv c wss" and "fst e \<notin> fst ` set (all_entries wss)" and "snd e \<notin> snd ` set (all_entries wss)"
    and "fst e < next_pane_id c" and "drawn_terminal c (snd e)"
  shows "in_hand c e j wss"
  using assms by (auto simp: in_hand_def wss_inv_def ws_inv_def)

lemma in_hand_ids: "in_hand c e j wss \<Longrightarrow> wss_ids c wss"
  by (simp add: in_hand_def)

lemma in_hand_absent:
  assumes "in_hand c e j wss" and "k < length wss"
  shows "fst e \<notin> set (ws_ids (wss ! k))" "snd e \<notin> snd ` set (ws_entries (wss ! k))"
proof -
  have sub: "set (ws_entries (wss ! k)) \<subseteq> set (all_entries wss)"
    using nth_mem [OF assms(2)] by (auto simp: set_all_entries)
  then show "fst e \<notin> set (ws_ids (wss ! k))" "snd e \<notin> snd ` set (ws_entries (wss ! k))"
    using assms(1) by (auto simp: in_hand_def ws_ids_def)
qed

text \<open>The pane is put into the workspace at the index.\<close>

lemma put_down:
  assumes h: "in_hand c e j wss" and j: "j < length wss" and ws: "ws_inv (next_pane_id c) ws" "ws_id ws = ws_id (wss ! j)"
    and joined: "pane_joined e (wss ! j) ws"
  shows "wss_inv c (wss[j := ws])" "mset (all_entries (wss[j := ws])) = add_mset e (mset (all_entries wss))"
proof -
  have "mset (ws_entries ws) = add_mset e (mset (ws_entries (wss ! j)))" using joined by (simp add: pane_joined_def)
  then show ms: "mset (all_entries (wss[j := ws])) = add_mset e (mset (all_entries wss))"
    by (rule all_entries_add [OF j])
  then have set: "set (all_entries (wss[j := ws])) = insert e (set (all_entries wss))"
    by (metis set_mset_add_mset_insert set_mset_mset)
  have "entries_distinct (all_entries (wss[j := ws]))"
    using entries_distinct_add [of "all_entries (wss[j := ws])" "fst e" "snd e" "all_entries wss"] ms h
    by (simp add: in_hand_def wss_ids_def)
  then have "wss_ids c (wss[j := ws])"
    using wss_ids_replace [OF in_hand_ids [OF h] j counters_le_refl ws(2)] h set
    by (auto simp: in_hand_def wss_ids_def)
  moreover have "ws_inv (next_pane_id c) w" if w: "w \<in> set (wss[j := ws])" for w
  proof -
    obtain k where k: "k < length wss" "w = wss[j := ws] ! k" using w by (auto simp: in_set_conv_nth)
    then show ?thesis using h ws(1) by (cases "k = j") (auto simp: in_hand_def)
  qed
  ultimately show "wss_inv c (wss[j := ws])" by (simp add: wss_inv_def)
qed

section \<open>Taking the pane\<close>

lemma in_remove_nth:
  assumes "k < length xs" and "n < length xs" and "n \<noteq> k"
  shows "xs ! n \<in> set (remove_nth k xs)"
proof -
  let ?m = "if n < k then n else n - 1"
  have "?m < length (remove_nth k xs)" using assms by (auto simp: length_remove_nth)
  moreover have "remove_nth k xs ! ?m = xs ! n" using assms by (auto simp: nth_remove_nth)
  ultimately show ?thesis by (metis nth_mem)
qed

lemma take_keeps_tabs:
  assumes "ws_take_pane_for_move ws p = Return (ws', tk)" and "find_tab_index_for_pane ws p = Some k"
    and "n < length (ws_tabs ws)" and "n \<noteq> k"
  shows "ws_tabs ws ! n \<in> set (ws_tabs ws')"
proof -
  obtain t' r where "tab_take_pane_for_move (ws_tabs ws ! k) p = Return (t', r)"
    using assms(1,2) by (cases "tab_take_pane_for_move (ws_tabs ws ! k) p") (auto simp: ws_take_pane_for_move_def)
  then have "ws_tabs ws' = remove_nth k (ws_tabs ws) \<or> ws_tabs ws' = (ws_tabs ws)[k := t']"
    using assms(1,2)
    by (auto simp: ws_take_pane_for_move_def Let_def adjust_active_tab_after_removal_def split: if_splits option.splits)
  then show ?thesis
  proof
    assume "ws_tabs ws' = remove_nth k (ws_tabs ws)"
    then show ?thesis using in_remove_nth [OF find_tab_Some(1) [OF assms(2)] assms(3,4)] by simp
  next
    assume "ws_tabs ws' = (ws_tabs ws)[k := t']"
    then show ?thesis using assms(3,4) by (metis length_list_update nth_list_update_neq nth_mem)
  qed
qed

text \<open>The workspaces with the pane taken: under its own workspace's roof still, or given up there.\<close>

lemma taken_in_hand:
  assumes all: "wss_inv c wss" and i: "i < length wss"
    and w: "ws_between (next_pane_id c) X ws" and X: "X \<subseteq> {fst e}" and ident: "ws_id ws = ws_id (wss ! i)"
    and e: "e \<in> set (ws_entries (wss ! i))" and es: "ws_entries ws = filter (\<lambda>x. fst x \<noteq> fst e) (ws_entries (wss ! i))"
  shows "in_hand c e i (wss[i := ws])" "mset (all_entries wss) = add_mset e (mset (all_entries (wss[i := ws])))"
proof -
  have ids: "wss_ids c wss" using all by (simp add: wss_inv_def)
  then have dist: "distinct (map fst (all_entries wss))" "distinct (map snd (all_entries wss))"
    by (simp_all add: wss_ids_def entries_distinct_def)
  have mem: "fst e \<in> set (ws_ids (wss ! i))" using e by (simp add: ws_ids_def)
  have f: "all_entries (wss[i := ws]) = filter (\<lambda>x. fst x \<noteq> fst e) (all_entries wss)"
    by (rule all_entries_filter [OF ids i es mem])
  have ea: "e \<in> set (all_entries wss)" using e i by (auto simp: set_all_entries)
  have "filter (\<lambda>x. fst x = fst e) xs = [e]" if "e \<in> set xs" "distinct (map fst xs)" for xs :: "(pane_id \<times> string) list"
    using that by (induction xs) (auto simp: filter_empty_conv image_iff)
  from this [OF ea dist(1)] have one: "filter (\<lambda>x. fst x = fst e) (all_entries wss) = [e]" .
  have "mset (all_entries wss) = mset (filter (\<lambda>x. fst x = fst e) (all_entries wss)) + mset (all_entries (wss[i := ws]))"
    unfolding f by (metis mset_filter multiset_partition)
  then show ms: "mset (all_entries wss) = add_mset e (mset (all_entries (wss[i := ws])))" by (simp add: one)
  have "entries_distinct (all_entries wss)" using ids by (simp add: wss_ids_def)
  then have out: "fst e \<notin> fst ` set (all_entries (wss[i := ws]))" "snd e \<notin> snd ` set (all_entries (wss[i := ws]))"
    "entries_distinct (all_entries (wss[i := ws]))"
    using entries_distinct_add [of "all_entries wss" "fst e" "snd e" "all_entries (wss[i := ws])"] ms by simp_all
  have new: "wss_ids c (wss[i := ws])"
    using wss_ids_replace [OF ids i counters_le_refl ident out(3)] ids by (auto simp: f wss_ids_def)
  have "ws_between (next_pane_id c) {} (wss ! i)" using all i by (simp add: wss_inv_def ws_inv_def)
  then have "fst e < next_pane_id c" using inv_below mem by blast
  moreover have "drawn_terminal c (snd e)" using ids ea by (auto simp: wss_ids_def)
  ultimately show "in_hand c e i (wss[i := ws])"
    using new out(1,2) w X all i by (auto simp: in_hand_def wss_inv_def)
qed

end
