(* ===== verification/SessionPlace.thy ===== *)
theory SessionPlace
  imports SessionPaneMove
begin

text \<open>Putting the pane down: in a tab, in a new tab, or in a workspace of its own.\<close>

definition carried :: "counters \<Rightarrow> pane_id \<times> string \<Rightarrow> nat \<Rightarrow> 'p app_state \<Rightarrow> bool" where
  "carried c e j s \<longleftrightarrow>
     in_hand c e j (as_workspaces s) \<and> 0 < next_workspace_id c \<and>
     fst ` set (as_terminals s) = insert (snd e) (snd ` set (all_entries (as_workspaces s))) \<and>
     focus_valid (as_workspaces s) (as_active s) (as_selected s)"

definition placed ::
  "pane_id \<times> string \<Rightarrow> 'p app_state \<Rightarrow> counters \<Rightarrow> 'p app_state \<Rightarrow> counters \<Rightarrow> nat \<Rightarrow> nat \<Rightarrow> bool" where
  "placed e s c s' c' i k \<longleftrightarrow>
     i < length (as_workspaces s') \<and> k < length (ws_tabs (as_workspaces s' ! i)) \<and>
     fst e \<in> set (ws_ids (as_workspaces s' ! i)) \<and>
     session_inv (s'\<lparr>as_active := Some i, as_selected := i\<rparr>) c' \<and>
     (as_active s' \<noteq> None \<longrightarrow> session_inv s' c') \<and>
     counters_le c c' \<and> evolves c (as_workspaces s) (as_workspaces s') \<and>
     mset (all_entries (as_workspaces s')) = add_mset e (mset (all_entries (as_workspaces s)))"

lemma joined_placed:
  assumes car: "carried c e i s" and i: "i < length (as_workspaces s)" and left: "numbers_left (as_workspaces s ! i)"
    and ws: "ws_inv (next_pane_id c) ws" "ws_id ws = ws_id (as_workspaces s ! i)"
    and joined: "pane_joined e (as_workspaces s ! i) ws" and k: "k < length (ws_tabs ws)"
  shows "placed e s c (s\<lparr>as_workspaces := (as_workspaces s)[i := ws]\<rparr>) c i k"
proof -
  have h: "in_hand c e i (as_workspaces s)" using car by (simp add: carried_def)
  note put = put_down [OF h i ws joined]
  have set: "set (all_entries ((as_workspaces s)[i := ws])) = insert e (set (all_entries (as_workspaces s)))"
    using put(2) by (metis set_mset_add_mset_insert set_mset_mset)
  have "e \<in> set (ws_entries ws)"
    using joined unfolding pane_joined_def by (metis set_mset_mset union_single_eq_member add_mset_add_single union_iff)
  then have "fst e \<in> set (ws_ids ws)" by (simp add: ws_ids_def)
  moreover have "evolves c (as_workspaces s) ((as_workspaces s)[i := ws])"
    by (rule evolves_update [OF i pane_joined_evolves [OF joined ws(2) left]])
  ultimately show ?thesis
    using put i k car set by (auto simp: placed_def session_inv_def carried_def focus_valid_def)
qed

lemma focus_in_tab_numbers [simp]:
  "ws_public_pane_numbers (focus_in_tab k p ws) = ws_public_pane_numbers ws"
  "ws_next_public_pane_number (focus_in_tab k p ws) = ws_next_public_pane_number ws"
  "length (ws_tabs (focus_in_tab k p ws)) = length (ws_tabs ws)"
  by (simp_all add: focus_in_tab_def)

lemma carried_at:
  assumes "carried c e i s" and "i < length (as_workspaces s)"
  obtains X where "X \<subseteq> {fst e}" "ws_between (next_pane_id c) X (as_workspaces s ! i)"
proof -
  have "\<exists>X \<subseteq> {fst e}. ws_between (next_pane_id c) X (as_workspaces s ! i)"
    using assms by (simp add: carried_def in_hand_def)
  then show ?thesis using that by blast
qed

lemma carried_facts:
  assumes "carried c e i s" and "i < length (as_workspaces s)"
  shows "wss_ids c (as_workspaces s)" "fst e \<notin> set (ws_ids (as_workspaces s ! i))"
    "snd e \<notin> snd ` set (ws_entries (as_workspaces s ! i))" "fst e < next_pane_id c"
  using assms in_hand_absent [of c e i "as_workspaces s" i] by (auto simp: carried_def in_hand_def)

lemma place_in_tab:
  assumes car: "carried c e i s" and i: "i < length (as_workspaces s)" and left: "numbers_left (as_workspaces s ! i)"
    and k: "k < length (ws_tabs (as_workspaces s ! i))" and target: "target \<in> set (tab_ids (ws_tabs (as_workspaces s ! i) ! k))"
    and e: "moved_entry moved = e"
    and name: "name = public_tab_id_for_number (ws_id (as_workspaces s ! i)) (tab_number (ws_tabs (as_workspaces s ! i) ! k))"
  shows "\<exists>s'. place_moved_pane gb gs cd ctx (ExistingTab name target d ratio cross) foc tid moved s c =
      Return (Inr (i, k), s', c) \<and> placed e s c s' c i k \<and> as_active s' = as_active s"
proof -
  let ?ws = "as_workspaces s ! i" and ?d = "split_direction_to_layout d"
  obtain X where X: "X \<subseteq> {fst e}" "ws_between (next_pane_id c) X ?ws" by (rule carried_at [OF car i])
  note f = carried_facts [OF car i]
  have p: "mp_pane_id moved = fst e" using e by (auto simp: moved_entry_def)
  have "tabs_inv (next_pane_id c) (ws_next_public_tab_number ?ws) (ws_tabs ?ws)" using X(2) by (simp add: ws_between_def)
  then have parse: "parse_tab_id s name = Some (i, k)" unfolding name by (rule read_tab_id [OF f(1) i _ k])
  obtain ws r where ins: "insert_moved_pane_into_tab ?ws k target moved ?d ratio = (ws, r)" by fastforce
  have con: "r = Inr (fst e)" "ws_inv (next_pane_id c) ws" "ws_id ws = ws_id ?ws" "pane_joined e ?ws ws"
    "length (ws_tabs ws) = length (ws_tabs ?ws)"
    using insert_moved_contract [OF X(2), of moved k target ?d ratio ws r] X(1) f left k target ins by (simp_all add: p e)
  let ?foc = "tl_focus (tab_layout (ws_tabs ?ws ! k))"
  let ?w = "if foc then ws else focus_in_tab k ?foc ws"
  have w: "ws_inv (next_pane_id c) ?w" "ws_id ?w = ws_id ?ws" "k < length (ws_tabs ?w)"
    using con k focus_in_tab_inv [OF con(2), of k ?foc] by auto
  have "pane_joined e ?ws ?w"
    using con(4) focus_in_tab_inv [OF con(2), of k ?foc] by (auto simp: pane_joined_def)
  from joined_placed [OF car i left w(1,2) this w(3)] show ?thesis
    using parse ins con(1) by (intro exI [of _ "s\<lparr>as_workspaces := (as_workspaces s)[i := ?w]\<rparr>"])
      (simp add: place_moved_pane_def Let_def)
qed

lemma place_in_new_tab:
  assumes car: "carried c e i s" and i: "i < length (as_workspaces s)" and left: "numbers_left (as_workspaces s ! i)"
    and e: "moved_entry moved = e" and name: "name = ws_id (as_workspaces s ! i)"
  shows "\<exists>s' k. place_moved_pane gb gs cd ctx (NewTab name label) foc tid moved s c =
      Return (Inr (i, k), s', c) \<and> placed e s c s' c i k \<and> as_active s' = as_active s"
proof -
  let ?ws = "as_workspaces s ! i"
  obtain X where X: "X \<subseteq> {fst e}" "ws_between (next_pane_id c) X ?ws" by (rule carried_at [OF car i])
  note f = carried_facts [OF car i]
  have p: "mp_pane_id moved = fst e" using e by (auto simp: moved_entry_def)
  have parse: "parse_workspace_id s name = Some i" unfolding name by (rule read_workspace_id [OF f(1) i])
  obtain ws k where ins: "create_tab_from_existing_pane ?ws moved label = (ws, k)" by fastforce
  have con: "ws_inv (next_pane_id c) ws" "ws_id ws = ws_id ?ws" "pane_joined e ?ws ws" "k < length (ws_tabs ws)"
    using create_from_existing_contract [OF X(2), of moved label ws k] X(1) f left ins by (simp_all add: p e)
  from joined_placed [OF car i left con] show ?thesis
    using parse ins i by (intro exI [of _ "s\<lparr>as_workspaces := (as_workspaces s)[i := ws]\<rparr>"] exI [of _ k])
      (simp add: place_moved_pane_def Let_def nth_ws_def)
qed

lemma place_in_new_workspace:
  assumes car: "carried c e j s" and all: "wss_inv c (as_workspaces s)" and n: "next_workspace_id c \<noteq> - 1"
    and e: "moved_entry moved = e"
  shows "\<exists>s' c'. place_moved_pane gb gs cd ctx (NewWorkspace label tab_label) foc tid moved s c =
      Return (Inr (length (as_workspaces s), 0), s', c') \<and> placed e s c s' c' (length (as_workspaces s)) 0 \<and>
      as_active s' = as_active s"
proof -
  let ?cwd = "unwrap_or (map_option ts_cwd (map_of (as_terminals s) tid)) (unwrap_or cd ''/'')" and ?wss = "as_workspaces s"
  obtain ws c' where new: "ws_from_existing_pane gb gs label tab_label ?cwd moved c = (ws, c')" by fastforce
  have h: "in_hand c e j ?wss" and pos: "0 < next_workspace_id c" using car by (simp_all add: carried_def)
  have "mp_pane_id moved < next_pane_id c" using h e by (auto simp: in_hand_def moved_entry_def)
  from ws_from_existing_contract [OF new this]
  have ws: "ws_inv (next_pane_id c) ws" "ws_id ws = ''w'' @ encode_public_number (next_workspace_id c)" "ws_entries ws = [e]"
    and c': "c' = c\<lparr>next_workspace_id := next_workspace_id c + 1\<rparr>" by (simp_all add: e)
  have less: "next_workspace_id c < next_workspace_id c'" using word_less_Suc [OF n] by (simp add: c')
  have le: "counters_le c c'" using less by (simp add: counters_le_def c' less_imp_le)
  have "entries_distinct (all_entries (?wss @ [ws]))"
    using entries_distinct_add [of "all_entries (?wss @ [ws])" "fst e" "snd e" "all_entries ?wss"] h
    by (simp add: ws(3) in_hand_def wss_ids_def)
  moreover have "drawn_terminal c' (snd e)" using h drawn_mono(1) [OF le] by (simp add: in_hand_def)
  moreover have "ws_inv (next_pane_id c') ws" using ws(1) by (simp add: c')
  ultimately have app: "wss_inv c' (?wss @ [ws])" "fresh_workspace c (ws_id ws)"
    using wss_inv_append [OF all le _ ws(2) pos less] by (simp_all add: ws(3))
  have "0 < length (ws_tabs ws)" using ws(1) by (simp add: ws_inv_def)
  moreover have "evolves c ?wss (?wss @ [ws])" by (rule evolves_append [OF app(2)]) simp
  ultimately have "placed e s c (s\<lparr>as_workspaces := ?wss @ [ws]\<rparr>) c' (length ?wss) 0"
    using app(1) car le less pos
    by (auto simp: placed_def session_inv_def carried_def focus_valid_def ws(3) ws_ids_def is_some_and_def
        split: if_splits option.splits)
  then show ?thesis
    using new by (intro exI [of _ "s\<lparr>as_workspaces := ?wss @ [ws]\<rparr>"] exI [of _ c']) (simp add: place_moved_pane_def Let_def)
qed

end
