(* ===== verification/SessionMove.thy ===== *)
theory SessionMove
  imports SessionPlace
begin

text \<open>The whole of a pane move: every error leaves the session as it was, and a move loses no pane and no terminal.\<close>

section \<open>From the taken pane to the destination\<close>

definition ready ::
  "pane_id \<times> string \<Rightarrow> nat \<Rightarrow> 'p app_state \<Rightarrow> counters \<Rightarrow> 'p app_state \<Rightarrow> bool" where
  "ready e i s c s' \<longleftrightarrow>
     evolves c (as_workspaces s) (as_workspaces s') \<and>
     mset (all_entries (as_workspaces s)) = add_mset e (mset (all_entries (as_workspaces s'))) \<and>
     list_all numbers_left (as_workspaces s')"

lemma session_all: "session_inv s c \<Longrightarrow> wss_inv c (as_workspaces s)"
  by (simp add: session_inv_def)

lemma terminals_with:
  assumes "session_inv s c" and "mset (all_entries (as_workspaces s)) = add_mset e (mset (all_entries wss))"
  shows "fst ` set (as_terminals s) = insert (snd e) (snd ` set (all_entries wss))"
proof -
  have "set (all_entries (as_workspaces s)) = insert e (set (all_entries wss))"
    using assms(2) by (metis set_mset_add_mset_insert set_mset_mset)
  then show ?thesis using assms(1) by (simp add: session_inv_def)
qed

text \<open>Within the workspace the pane keeps its number.\<close>

lemma ready_within:
  assumes inv: "session_inv s c" and left: "list_all numbers_left (as_workspaces s)" and i: "i < length (as_workspaces s)"
    and w: "ws_between (next_pane_id c) {fst e} ws" and ident: "ws_id ws = ws_id (as_workspaces s ! i)"
    and e: "e \<in> set (ws_entries (as_workspaces s ! i))"
    and es: "ws_entries ws = filter (\<lambda>x. fst x \<noteq> fst e) (ws_entries (as_workspaces s ! i))"
    and pub: "ws_public_pane_numbers ws = ws_public_pane_numbers (as_workspaces s ! i)"
      "ws_next_public_pane_number ws = ws_next_public_pane_number (as_workspaces s ! i)"
      "ws_next_public_tab_number ws = ws_next_public_tab_number (as_workspaces s ! i)"
  shows "carried c e i (s\<lparr>as_workspaces := (as_workspaces s)[i := ws]\<rparr>)"
    "ready e i s c (s\<lparr>as_workspaces := (as_workspaces s)[i := ws]\<rparr>)"
proof -
  note h = taken_in_hand [OF session_all [OF inv] i w _ ident e es]
  show "carried c e i (s\<lparr>as_workspaces := (as_workspaces s)[i := ws]\<rparr>)"
    using h terminals_with [OF inv h(2)] session_focus [OF inv] inv
    by (simp add: carried_def focus_valid_def session_inv_def)
  have "evolves c (as_workspaces s) ((as_workspaces s)[i := ws])"
    by (rule evolves_update [OF i ws_evolves_same [OF ident pub(1,2)]])
  moreover have "list_all numbers_left ((as_workspaces s)[i := ws])"
    using left pub(2,3) i by (auto simp: list_all_length numbers_left_def nth_list_update)
  ultimately show "ready e i s c (s\<lparr>as_workspaces := (as_workspaces s)[i := ws]\<rparr>)"
    using h(2) by (simp add: ready_def)
qed

lemma index_after_close_valid:
  assumes "n < Suc len" and "i < Suc len" and "0 < len"
  shows "index_after_close n i len < len"
  using assms by (auto simp: index_after_close_def)

lemma emptied_focus:
  assumes "focus_valid (as_workspaces s) (as_active s) (as_selected s)" and i: "i < length (as_workspaces s)"
  shows "focus_valid (as_workspaces (remove_emptied_workspace i s)) (as_active (remove_emptied_workspace i s))
    (as_selected (remove_emptied_workspace i s))"
proof (cases "remove_nth i (as_workspaces s) = []")
  case True
  then show ?thesis by (simp add: remove_emptied_workspace_def focus_valid_def Let_def)
next
  case False
  have len: "length (as_workspaces s) = Suc (length (remove_nth i (as_workspaces s)))"
    using i by (simp add: length_remove_nth)
  have "0 < length (remove_nth i (as_workspaces s))" using False by simp
  with assms len False index_after_close_valid show ?thesis
    by (auto simp: remove_emptied_workspace_def focus_valid_def Let_def is_some_and_def split: if_splits option.splits)
qed

lemma emptied_fields:
  "as_workspaces (remove_emptied_workspace i s) = remove_nth i (as_workspaces s)"
  "as_terminals (remove_emptied_workspace i s) = as_terminals s"
  by (simp_all add: remove_emptied_workspace_def Let_def)

text \<open>Across workspaces it gives the number up, and an emptied workspace is closed.\<close>

lemma ready_across:
  assumes inv: "session_inv s c" and left: "list_all numbers_left (as_workspaces s)" and i: "i < length (as_workspaces s)"
    and w: "ws_between (next_pane_id c) {fst e} ws" and ident: "ws_id ws = ws_id (as_workspaces s ! i)"
    and e: "e \<in> set (ws_entries (as_workspaces s ! i))"
    and es: "ws_entries ws = filter (\<lambda>x. fst x \<noteq> fst e) (ws_entries (as_workspaces s ! i))"
    and pub: "ws_public_pane_numbers ws = ws_public_pane_numbers (as_workspaces s ! i)"
      "ws_next_public_pane_number ws = ws_next_public_pane_number (as_workspaces s ! i)"
      "ws_next_public_tab_number ws = ws_next_public_tab_number (as_workspaces s ! i)"
    and s': "s' = (modify_ws i (unregister_moved_pane (fst e)) (s\<lparr>as_workspaces := (as_workspaces s)[i := ws]\<rparr>))
      \<lparr>as_public_pane_id_aliases := al\<rparr>"
    and s2: "s2 = (if ws_tabs ws = [] then remove_emptied_workspace i s' else s')"
  shows "carried c e j s2" "wss_inv c (as_workspaces s2)" "ready e i s c s2"
    "n < length (as_workspaces s) \<Longrightarrow> n \<noteq> i \<Longrightarrow> \<exists>n' < length (as_workspaces s2). as_workspaces s2 ! n' = as_workspaces s ! n"
proof -
  let ?wss = "as_workspaces s" and ?u = "unregister_pane (fst e) ws"
  have wss': "as_workspaces s' = ?wss[i := ?u]" "as_terminals s' = as_terminals s" "as_active s' = as_active s"
    "as_selected s' = as_selected s"
    using i by (simp_all add: s' unregister_moved_pane_def)
  have out: "fst e \<notin> set (ws_ids ws)" by (auto simp: ws_ids_def es)
  have u: "ws_between (next_pane_id c) {} ?u" using unregister_between [OF w out] by simp
  have uid: "ws_id ?u = ws_id (?wss ! i)" "ws_entries ?u = filter (\<lambda>x. fst x \<noteq> fst e) (ws_entries (?wss ! i))"
    by (simp_all add: ident es)
  note h = taken_in_hand [OF session_all [OF inv] i u empty_subsetI uid(1) e uid(2)]
  have ev: "evolves c ?wss (?wss[i := ?u])"
    using set_delete [of "fst e" "ws_public_pane_numbers (?wss ! i)"]
    by (intro evolves_update [OF i] ws_evolves_drop) (simp_all add: ident pub)
  have nl: "list_all numbers_left (?wss[i := ?u])"
    using left pub(2,3) i by (auto simp: list_all_length numbers_left_def nth_list_update)
  have w2: "as_workspaces s2 = (if ws_tabs ws = [] then remove_nth i (?wss[i := ?u]) else ?wss[i := ?u])"
    by (simp add: s2 wss' emptied_fields)
  have ent: "mset (all_entries (as_workspaces s2)) = mset (all_entries (?wss[i := ?u]))"
  proof (cases "ws_tabs ws = []")
    case True
    have "mset (?wss[i := ?u]) = mset (?u # remove_nth i (?wss[i := ?u]))"
      using remove_nth_mset [of i "?wss[i := ?u]"] i by simp
    from all_entries_mset [OF this] True show ?thesis by (simp add: w2 ws_entries_of)
  qed (simp add: w2)
  have sub: "set (as_workspaces s2) \<subseteq> set (?wss[i := ?u])" using set_remove_nth [of i "?wss[i := ?u]"] by (simp add: w2)
  have "mset (as_workspaces s2) \<subseteq># mset (?wss[i := ?u])"
    using remove_nth_mset [of i "?wss[i := ?u]"] i by (simp add: w2)
  with in_hand_ids [OF h(1)] have ids: "wss_ids c (as_workspaces s2)" by (rule wss_ids_subset)
  have each: "ws_inv (next_pane_id c) x" if x: "x \<in> set (as_workspaces s2)" for x
  proof -
    from x consider "x = ?u" "ws_tabs ws \<noteq> []" | "x \<in> set ?wss"
    proof (cases "ws_tabs ws = []")
      case True
      have "remove_nth i (?wss[i := ?u]) = remove_nth i ?wss" using i by (simp add: remove_nth_def)
      with x True have "x \<in> set ?wss" using set_remove_nth [of i ?wss] by (auto simp: w2)
      then show ?thesis using that(2) by blast
    next
      case False
      with x show ?thesis using that set_update_cases [of x ?wss i ?u] by (auto simp: w2)
    qed
    then show ?thesis
    proof cases
      case 1
      with u show ?thesis by (simp add: ws_inv_def)
    qed (use session_all [OF inv] in \<open>simp add: wss_inv_def\<close>)
  qed
  show all: "wss_inv c (as_workspaces s2)" using ids each by (simp add: wss_inv_def)
  have ms: "mset (all_entries ?wss) = add_mset e (mset (all_entries (as_workspaces s2)))" using h(2) ent by simp
  have set: "set (all_entries (as_workspaces s2)) = set (all_entries (?wss[i := ?u]))" using ent by (rule mset_eq_setD)
  have foc: "focus_valid (as_workspaces s2) (as_active s2) (as_selected s2)"
  proof -
    have f: "focus_valid (as_workspaces s') (as_active s') (as_selected s')"
      using session_focus [OF inv] by (simp add: wss' focus_valid_def)
    show ?thesis using f emptied_focus [OF f, of i] i by (simp add: s2 wss')
  qed
  have "as_terminals s2 = as_terminals s" by (simp add: s2 emptied_fields wss')
  moreover have "in_hand c e j (as_workspaces s2)"
    by (rule in_hand_of_inv [OF all]) (use h(1) set in \<open>simp_all add: in_hand_def\<close>)
  ultimately show "carried c e j s2"
    using terminals_with [OF inv ms] foc inv by (simp add: carried_def session_inv_def)
  show "ready e i s c s2"
    using ms evolves_trans [OF ev evolves_subset [OF sub] counters_le_refl] nl sub
    by (auto simp: ready_def list_all_iff)
  show "\<exists>n' < length (as_workspaces s2). as_workspaces s2 ! n' = ?wss ! n" if n: "n < length ?wss" "n \<noteq> i"
  proof -
    have "?wss ! n \<in> set (remove_nth i (?wss[i := ?u]))"
      using in_remove_nth [of i "?wss[i := ?u]" n] n i by simp
    moreover have "?wss ! n \<in> set (?wss[i := ?u])"
      using nth_mem [of n "?wss[i := ?u]"] n by simp
    ultimately have "?wss ! n \<in> set (as_workspaces s2)" by (simp add: w2)
    then show ?thesis unfolding in_set_conv_nth .
  qed
qed

section \<open>Behind the destination\<close>

lemma switch_at_entries:
  "mset (all_entries (as_workspaces (fst (switch_workspace_tab i k s)))) = mset (all_entries (as_workspaces s))"
  by (cases "i < length (as_workspaces s)") (simp_all add: switch_workspace_tab_def Let_def all_entries_same)

lemma move_tail:
  assumes pl: "placed e s2 c s3 c' i k"
    and s4: "s4 = (if foc \<or> as_active s3 = None
      then settle_terminal_mode_after_focus (record_pane_focus_change f i p (fst (switch_workspace_tab i k s3))) else s3)"
    and s5: "s5 = mark_session_dirty (remove_alias_shadowed_by_new_pane p s4)"
  shows "session_inv s5 c'" "evolves c (as_workspaces s2) (as_workspaces s5)"
    "mset (all_entries (as_workspaces s5)) = add_mset e (mset (all_entries (as_workspaces s2)))"
    "pane_info_available s5 i (fst e)" "pane_layout_available s5 i k" "i < length (as_workspaces s5)"
    "fst e \<in> set (ws_ids (as_workspaces s5 ! i))"
proof -
  let ?sw = "fst (switch_workspace_tab i k s3)"
  have i: "i < length (as_workspaces s3)" and k: "k < length (ws_tabs (as_workspaces s3 ! i))"
    using pl by (simp_all add: placed_def)
  have "session_inv (fst (switch_workspace_tab i k (s3\<lparr>as_active := Some i, as_selected := i\<rparr>))) c'"
    using pl by (intro switch_tab_at_inv) (simp add: placed_def)
  then have sw: "session_inv ?sw c'"
    using session_inv_core [OF refocus_tab [OF i k]] by blast
  have core: "same_core (if foc \<or> as_active s3 = None then ?sw else s3) s5"
    by (simp add: s5 s4 same_core_def)
  then show inv5: "session_inv s5 c'"
    using sw pl session_inv_core [OF core] by (auto simp: placed_def split: if_splits)
  have num: "numbering (as_workspaces s5) = numbering (as_workspaces s3)"
    using same_coreD(1) [OF core] switch_tab_at_numbering [of i k s3] by simp
  have ev: "evolves c (as_workspaces s2) (as_workspaces s3)" using pl by (simp add: placed_def)
  from evolves_trans [OF ev evolves_numbering [OF num] counters_le_refl]
  show "evolves c (as_workspaces s2) (as_workspaces s5)" .
  show "mset (all_entries (as_workspaces s5)) = add_mset e (mset (all_entries (as_workspaces s2)))"
    using same_coreD(1) [OF core] switch_at_entries [of i k s3] pl by (simp add: placed_def)
  have w5: "as_workspaces s5 ! i = as_workspaces s3 ! i \<or> as_workspaces s5 ! i = switch_tab (as_workspaces s3 ! i) k"
    "length (as_workspaces s5) = length (as_workspaces s3)"
    using same_coreD(1) [OF core] i by (auto simp: switch_workspace_tab_def Let_def split: if_splits)
  show i5: "i < length (as_workspaces s5)" using i w5(2) by simp
  show p5: "fst e \<in> set (ws_ids (as_workspaces s5 ! i))"
    using w5(1) pl by (auto simp: placed_def ws_ids_def)
  have "k < length (ws_tabs (as_workspaces s5 ! i))" using w5(1) k by auto
  with inv5 i5 p5 show "pane_info_available s5 i (fst e)" "pane_layout_available s5 i k"
    using pane_info_there pane_layout_there by blast+
qed

text \<open>What a finished move has done.\<close>

definition moved_safely ::
  "pane_id \<Rightarrow> (string + pane_move_answer) \<Rightarrow> 'p app_state \<Rightarrow> counters \<Rightarrow> 'p app_state \<Rightarrow> counters \<Rightarrow> bool" where
  "moved_safely p a s c s' c' \<longleftrightarrow>
     session_step s c s' c' \<and>
     mset (all_entries (as_workspaces s')) = mset (all_entries (as_workspaces s)) \<and>
     (case a of
        Inr (MoveDone i k q _ _ _ _) \<Rightarrow>
          q = p \<and> i < length (as_workspaces s') \<and> p \<in> set (ws_ids (as_workspaces s' ! i))
      | _ \<Rightarrow> s' = s \<and> c' = c)"

lemma finish_move:
  assumes rd: "ready e i s c s2" and p: "mp_pane_id (tp_moved tk) = fst e"
    and s2: "s2 = (let cross = is_cross_workspace resolved (rc_previous_workspace_id ctx);
        s1 = (if cross then (modify_ws (rc_source_ws_idx ctx) (unregister_moved_pane (fst e)) s0)
          \<lparr>as_public_pane_id_aliases := AList.update previous_pane_id (fst e) (as_public_pane_id_aliases s0)\<rparr> else s0)
      in if tp_workspace_empty tk \<and> cross then remove_emptied_workspace (rc_source_ws_idx ctx) s1 else s1)"
    and place: "place_moved_pane gb gs cd ctx resolved foc tid (tp_moved tk) s2 c = Return (Inr (ti, k), s3, c')"
    and pl: "placed e s2 c s3 c' ti k"
  shows "\<exists>a s' c'. finish_pane_move gb gs cd ctx resolved foc tid previous_pane_id previous_tab_id f tk s0 c =
    Return (a, s', c') \<and> moved_safely (fst e) a s c s' c'"
proof -
  define s4 where "s4 = (if foc \<or> as_active s3 = None
    then settle_terminal_mode_after_focus (record_pane_focus_change f ti (fst e) (fst (switch_workspace_tab ti k s3)))
    else s3)"
  define s5 where "s5 = mark_session_dirty (remove_alias_shadowed_by_new_pane (fst e) s4)"
  note t = move_tail [OF pl s4_def s5_def]
  have "evolves c (as_workspaces s) (as_workspaces s5)"
    using evolves_trans [OF _ t(2) counters_le_refl] rd by (auto simp: ready_def)
  then have "session_step s c s5 c'" using t(1) pl by (simp add: session_step_def placed_def)
  moreover have "mset (all_entries (as_workspaces s5)) = mset (all_entries (as_workspaces s))"
    using t(3) rd by (simp add: ready_def)
  moreover have "\<exists>w v x y. finish_pane_move gb gs cd ctx resolved foc tid previous_pane_id previous_tab_id f tk s0 c =
      Return (Inr (MoveDone ti k (fst e) w v x y), s5, c')"
    using place t(4,5) unfolding finish_pane_move_def Let_def p s2 [unfolded Let_def, symmetric]
    by (simp add: s5_def s4_def)
  ultimately show ?thesis using t(6,7) by (auto simp: moved_safely_def)
qed

section \<open>The request\<close>

text \<open>A destination that is resolved names a tab with the target pane, a workspace, or a new workspace.\<close>

lemma resolved_cases:
  assumes inv: "session_inv s c" and "resolve_pane_move s i k p (ws_id (as_workspaces s ! i)) dest = Return (Inr resolved)"
    and i: "i < length (as_workspaces s)"
  shows "(\<exists>tw tk target d r. tw < length (as_workspaces s) \<and> tk < length (ws_tabs (as_workspaces s ! tw)) \<and>
      \<not> (i = tw \<and> k = tk) \<and> target \<in> set (tab_ids (ws_tabs (as_workspaces s ! tw) ! tk)) \<and>
      resolved = ExistingTab (public_tab_id_for_number (ws_id (as_workspaces s ! tw))
        (tab_number (ws_tabs (as_workspaces s ! tw) ! tk))) target d r (i \<noteq> tw)) \<or>
    (\<exists>tw label. tw < length (as_workspaces s) \<and> resolved = NewTab (ws_id (as_workspaces s ! tw)) label) \<or>
    (\<exists>label tab_label. resolved = NewWorkspace label tab_label)"
proof (cases dest)
  case (MoveToTab tab_id target_pane d ratio)
  with assms(2) obtain tw tk where parse: "parse_tab_id s tab_id = Some (tw, tk)"
    and res: "resolve_tab_destination s i k p tab_id target_pane d ratio = Inr resolved"
    by (auto simp: resolve_pane_move_def resolve_tab_destination_def split: option.splits)
  note range = parse_tab_id_range [OF parse]
  let ?t = "ws_tabs (as_workspaces s ! tw) ! tk"
  from res parse range obtain target where target: "move_target_pane s tw tk ?t target_pane = Inr target"
    and other: "\<not> (i = tw \<and> k = tk)"
    and resolved: "resolved = ExistingTab (public_tab_id_for_number (ws_id (as_workspaces s ! tw)) (tab_number ?t))
      target d (unwrap_or ratio f32_0_5) (i \<noteq> tw)"
    by (auto simp: resolve_tab_destination_def nth_ws_def nth_tab_def tab_named result_bind_def map_err_def ok_or_def
        split: if_splits sum.splits)
  have "target \<in> set (tab_ids ?t)"
  proof (cases target_pane)
    case None
    have "tab_inv (next_pane_id c) ?t"
      using between_tab [OF _ range(2)] session_ws [OF inv range(1)] by (auto simp: ws_inv_def)
    then show ?thesis using None target by (auto simp: move_target_pane_def tab_inv_def layout_inv_def layout_wf_def)
  next
    case (Some raw)
    with target have "find_tab_index_for_pane (as_workspaces s ! tw) target = Some tk"
      by (auto simp: move_target_pane_def bind_eq_Some_conv nth_ws_Some split: option.splits if_splits)
    then show ?thesis by (rule find_tab_Some(2))
  qed
  with range other resolved show ?thesis by blast
next
  case (MoveToNewTab workspace label)
  then show ?thesis
    using assms(2) i
    by (cases workspace) (auto simp: resolve_pane_move_def public_workspace_id_def nth_ws_def split: option.splits if_splits)
next
  case (MoveToNewWorkspace label tab_label)
  then show ?thesis using assms(2) by (auto simp: resolve_pane_move_def)
qed

lemma resolve_panics:
  assumes "resolve_pane_move s i k p w dest = Panic"
  shows "\<exists>v label n. dest = MoveToNewTab (Some v) label \<and> parse_workspace_id s v = Some n \<and>
    length (as_workspaces s) \<le> n"
  using assms
  by (auto simp: resolve_pane_move_def public_workspace_id_def nth_ws_def
      split: pane_move_destination.splits option.splits if_splits)

lemma unchanged_safe: "session_inv s c \<Longrightarrow> moved_safely p (Inl e) s c s c"
  "session_inv s c \<Longrightarrow> moved_safely p (Inr (MoveUnchanged r)) s c s c"
  by (simp_all add: moved_safely_def session_step_refl)

lemma unchanged_answer_safe: "session_inv s c \<Longrightarrow> moved_safely p (unchanged_answer r s i k q) s c s c"
  by (simp add: unchanged_answer_def unchanged_safe)

lemma resolve_answer_safe:
  assumes "session_inv s c" and "resolve_pane_move s i k p w dest = Return (Inl a)"
  shows "moved_safely q a s c s c"
  using assms
  by (auto simp: resolve_pane_move_def resolve_tab_destination_def result_bind_def map_err_def ok_or_def
      public_workspace_id_def unchanged_safe unchanged_answer_safe outcome_bind_def
      split: pane_move_destination.splits option.splits if_splits sum.splits outcome.splits)

lemma taken_finishes:
  assumes inv: "session_inv s c" and left: "list_all numbers_left (as_workspaces s)" and nw: "next_workspace_id c \<noteq> - 1"
    and i: "i < length (as_workspaces s)" and p: "p \<in> set (ws_ids (as_workspaces s ! i))"
    and k: "find_tab_index_for_pane (as_workspaces s ! i) p = Some k"
    and res: "resolve_pane_move s i k p (ws_id (as_workspaces s ! i)) dest = Return (Inr resolved)"
    and take: "ws_take_pane_for_move (as_workspaces s ! i) p = Return (ws, Some tk)"
    and ctx: "rc_source_ws_idx ctx = i" "rc_previous_workspace_id ctx = ws_id (as_workspaces s ! i)"
  shows "\<exists>a s' c'. finish_pane_move gb gs cd ctx resolved foc tid previous_pane_id previous_tab_id f tk
      (s\<lparr>as_workspaces := (as_workspaces s)[i := ws]\<rparr>) c = Return (a, s', c') \<and> moved_safely p a s c s' c'"
proof -
  let ?wss = "as_workspaces s" and ?s0 = "s\<lparr>as_workspaces := (as_workspaces s)[i := ws]\<rparr>"
  define e where "e = moved_entry (tp_moved tk)"
  have con: "ws_between (next_pane_id c) {p} ws" "ws_id ws = ws_id (?wss ! i)" "mp_pane_id (tp_moved tk) = p"
    "e \<in> set (ws_entries (?wss ! i))" "ws_entries ws = filter (\<lambda>x. fst x \<noteq> p) (ws_entries (?wss ! i))"
    "ws_public_pane_numbers ws = ws_public_pane_numbers (?wss ! i)"
    "ws_next_public_pane_number ws = ws_next_public_pane_number (?wss ! i)"
    "ws_next_public_tab_number ws = ws_next_public_tab_number (?wss ! i)"
    "tp_workspace_empty tk \<longleftrightarrow> ws_tabs ws = []"
    using take_pane_contract [OF session_ws [OF inv i] p] take by (auto simp: e_def)
  have fe: "fst e = p" using con(3) by (simp add: e_def moved_entry_def)
  note w = con(1,2,4,5) [folded fe]
  note within = ready_within [OF inv left i w(1,2,3,4) con(6-8)]
  define al where "al = AList.update previous_pane_id p (as_public_pane_id_aliases ?s0)"
  define s1 where "s1 = (modify_ws i (unregister_moved_pane (fst e)) ?s0)\<lparr>as_public_pane_id_aliases := al\<rparr>"
  define s2 where "s2 = (if ws_tabs ws = [] then remove_emptied_workspace i s1 else s1)"
  note across = ready_across [OF inv left i w(1,2,3,4) con(6-8) s1_def s2_def]
  note p' = con(3) [folded fe]
  have finish_across: "\<exists>a s' c'. finish_pane_move gb gs cd ctx resolved foc tid previous_pane_id previous_tab_id f tk
      ?s0 c = Return (a, s', c') \<and> moved_safely p a s c s' c'"
    if "is_cross_workspace resolved (ws_id (?wss ! i))"
      and "place_moved_pane gb gs cd ctx resolved foc tid (tp_moved tk) s2 c = Return (Inr (ti, n), s3, c')"
      and "placed e s2 c s3 c' ti n" for ti n s3 c'
    using finish_move [OF across(3) p' _ that(2,3), of previous_pane_id ?s0 previous_tab_id f] that(1)
    by (simp add: Let_def ctx con(9) s2_def s1_def al_def fe)
  have finish_within: "\<exists>a s' c'. finish_pane_move gb gs cd ctx resolved foc tid previous_pane_id previous_tab_id f tk
      ?s0 c = Return (a, s', c') \<and> moved_safely p a s c s' c'"
    if "\<not> is_cross_workspace resolved (ws_id (?wss ! i))"
      and "place_moved_pane gb gs cd ctx resolved foc tid (tp_moved tk) ?s0 c = Return (Inr (ti, n), s3, c')"
      and "placed e ?s0 c s3 c' ti n" for ti n s3 c'
    using finish_move [OF within(2) p' _ that(2,3), of previous_pane_id ?s0 previous_tab_id f] that(1)
    by (simp add: Let_def fe ctx)
  have kept: "numbers_left ws" using left i con(7,8) by (simp add: list_all_length numbers_left_def)
  have same_id: "tw = i" if "tw < length ?wss" "ws_id (?wss ! tw) = ws_id (?wss ! i)" for tw
    using that i session_all [OF inv] by (auto simp: wss_inv_def wss_ids_def distinct_conv_nth)
  from resolved_cases [OF inv res i] consider
    (tab) tw tn target d r where "tw < length ?wss" "tn < length (ws_tabs (?wss ! tw))" "\<not> (i = tw \<and> k = tn)"
      "target \<in> set (tab_ids (ws_tabs (?wss ! tw) ! tn))"
      "resolved = ExistingTab (public_tab_id_for_number (ws_id (?wss ! tw)) (tab_number (ws_tabs (?wss ! tw) ! tn)))
        target d r (i \<noteq> tw)"
    | (new_tab) tw label where "tw < length ?wss" "resolved = NewTab (ws_id (?wss ! tw)) label"
    | (new_ws) label tab_label where "resolved = NewWorkspace label tab_label" by blast
  then show ?thesis
  proof cases
    case tab
    show ?thesis
    proof (cases "tw = i")
      case True
      have "ws_tabs (?wss ! i) ! tn \<in> set (ws_tabs ws)"
        using take_keeps_tabs [OF take k] tab True by auto
      then obtain n where n: "n < length (ws_tabs ws)" "ws_tabs ws ! n = ws_tabs (?wss ! i) ! tn"
        by (auto simp: in_set_conv_nth)
      from kept obtain s3 where "place_moved_pane gb gs cd ctx resolved foc tid (tp_moved tk) ?s0 c = Return (Inr (i, n), s3, c)"
        "placed e ?s0 c s3 c i n"
        using place_in_tab [OF within(1), where k = n and target = target and moved = "tp_moved tk" and d = d
              and ratio = r and cross = False and gb = gb and gs = gs and cd = cd and ctx = ctx and foc = foc and tid = tid]
          i n tab True con(2) by (auto simp: e_def)
      then show ?thesis using finish_within tab(5) True by (auto simp: is_cross_workspace_def)
    next
      case False
      then obtain j where j: "j < length (as_workspaces s2)" "as_workspaces s2 ! j = ?wss ! tw"
        using across(4) tab(1) by blast
      have "numbers_left (?wss ! tw)" using left tab(1) by (simp add: list_all_length)
      then obtain s3 where "place_moved_pane gb gs cd ctx resolved foc tid (tp_moved tk) s2 c = Return (Inr (j, tn), s3, c)"
        "placed e s2 c s3 c j tn"
        using place_in_tab [OF across(1) j(1), where k = tn and target = target and moved = "tp_moved tk" and d = d
              and ratio = r and cross = True and gb = gb and gs = gs and cd = cd and ctx = ctx and foc = foc and tid = tid]
          j(2) tab False by (auto simp: e_def)
      then show ?thesis using finish_across tab(5) False by (auto simp: is_cross_workspace_def)
    qed
  next
    case new_tab
    show ?thesis
    proof (cases "tw = i")
      case True
      from kept obtain s3 n where "place_moved_pane gb gs cd ctx resolved foc tid (tp_moved tk) ?s0 c = Return (Inr (i, n), s3, c)"
        "placed e ?s0 c s3 c i n"
        using place_in_new_tab [OF within(1), where moved = "tp_moved tk" and label = label and gb = gb and gs = gs and cd = cd and ctx = ctx and foc = foc and tid = tid]
          i new_tab True con(2) by (auto simp: e_def)
      then show ?thesis using finish_within new_tab(2) True by (auto simp: is_cross_workspace_def)
    next
      case False
      then obtain j where j: "j < length (as_workspaces s2)" "as_workspaces s2 ! j = ?wss ! tw"
        using across(4) new_tab(1) by blast
      have "numbers_left (?wss ! tw)" using left new_tab(1) by (simp add: list_all_length)
      then obtain s3 n where "place_moved_pane gb gs cd ctx resolved foc tid (tp_moved tk) s2 c = Return (Inr (j, n), s3, c)"
        "placed e s2 c s3 c j n"
        using place_in_new_tab [OF across(1) j(1), where moved = "tp_moved tk" and label = label and gb = gb and gs = gs and cd = cd and ctx = ctx and foc = foc and tid = tid]
          j(2) new_tab by (auto simp: e_def)
      moreover have "is_cross_workspace resolved (ws_id (?wss ! i))"
        using False same_id new_tab by (auto simp: is_cross_workspace_def)
      ultimately show ?thesis using finish_across by blast
    qed
  next
    case new_ws
    obtain s3 c' where "place_moved_pane gb gs cd ctx resolved foc tid (tp_moved tk) s2 c =
        Return (Inr (length (as_workspaces s2), 0), s3, c')" "placed e s2 c s3 c' (length (as_workspaces s2)) 0"
      using place_in_new_workspace [OF across(1,2) nw] new_ws by (metis e_def)
    then show ?thesis using finish_across new_ws by (auto simp: is_cross_workspace_def)
  qed
qed

lemma pane_move_contract:
  assumes inv: "session_inv s c" and left: "list_all numbers_left (as_workspaces s)" and nw: "next_workspace_id c \<noteq> - 1"
  shows "case handle_pane_move gb gs cd pane dest foc s c of
      Panic \<Rightarrow> \<exists>v label n. dest = MoveToNewTab (Some v) label \<and> parse_workspace_id s v = Some n \<and>
        length (as_workspaces s) \<le> n
    | Return (a, s', c') \<Rightarrow> (case parse_pane_id s pane of
        None \<Rightarrow> isl a \<and> s' = s \<and> c' = c | Some (_, p) \<Rightarrow> moved_safely p a s c s' c')"
proof (cases "parse_pane_id s pane")
  case None
  then show ?thesis by (simp add: handle_pane_move_def)
next
  case (Some q)
  obtain i p where q: "q = (i, p)" by (cases q)
  have i: "i < length (as_workspaces s)" and p: "p \<in> set (ws_ids (as_workspaces s ! i))"
    using parse_pane_id_live [OF inv] Some q by auto
  let ?ws = "as_workspaces s ! i"
  obtain k where k: "find_tab_index_for_pane ?ws p = Some k" using find_tab_exists [OF p] by blast
  note kt = find_tab_Some [OF k]
  let ?t = "ws_tabs ?ws ! k"
  obtain st where "map_of (tab_panes ?t) p = Some st" using kt(2) by (auto simp: lookup_tab_ids)
  then have tid: "tab_terminal_id ?t p = Some (ps_attached_terminal_id st)" by (simp add: tab_terminal_id_def)
  show ?thesis
  proof (cases "tab_zoomed ?t")
    case True
    then show ?thesis
      using Some q i k kt tid unchanged_answer_safe [OF inv]
      by (simp add: handle_pane_move_def nth_ws_def nth_tab_def tab_named Let_def)
  next
    case False
    let ?r = "resolve_pane_move s i k p (ws_id ?ws) dest"
    obtain ws tk where take: "ws_take_pane_for_move ?ws p = Return (ws, Some tk)"
      using take_pane_contract [OF session_ws [OF inv i] p] by blast
    show ?thesis
    proof (cases ?r)
      case Panic
      then show ?thesis
        using Some q i k kt tid False resolve_panics [OF Panic]
        by (simp add: handle_pane_move_def nth_ws_def nth_tab_def tab_named Let_def)
    next
      case (Return r)
      show ?thesis
      proof (cases r)
        case (Inl a)
        then show ?thesis
          using Some q i k kt tid False Return resolve_answer_safe [OF inv]
          by (auto simp: handle_pane_move_def nth_ws_def nth_tab_def tab_named Let_def)
      next
        case (Inr resolved)
        have fin: "\<exists>a s' c'. finish_pane_move gb gs cd ctx resolved foc tid previous_pane_id previous_tab_id f tk
            (s\<lparr>as_workspaces := (as_workspaces s)[i := ws]\<rparr>) c = Return (a, s', c') \<and> moved_safely p a s c s' c'"
          if "rc_source_ws_idx ctx = i" "rc_previous_workspace_id ctx = ws_id ?ws"
          for ctx tid previous_pane_id previous_tab_id f
          using taken_finishes [OF inv left nw i p k _ take that] Return Inr by blast
        show ?thesis
          using Some q i k kt tid False Return Inr take
            fin [of "\<lparr>rc_source_ws_idx = i, rc_previous_workspace_id = ws_id ?ws,
                    rc_previous_workspace_label = ws_custom_name ?ws, rc_previous_tab_label = tab_custom_name ?t,
                    rc_previous_worktree_space = ws_worktree_space ?ws, rc_identity_cwd = ws_identity_cwd ?ws\<rparr>"
              "ps_attached_terminal_id st" "unwrap_or (public_pane_id s i p) pane"
              "public_tab_id_for_number (ws_id ?ws) (tab_number ?t)" "current_pane_focus_target s"]
          by (auto simp: handle_pane_move_def nth_ws_def nth_tab_def tab_named Let_def)
      qed
    qed
  qed
qed

end
