(* ===== verification/SessionNames.thy ===== *)
theory SessionNames
  imports SessionMove
begin

text \<open>
  Names and aliases over time: no operation but a pane move adds an alias, the alias it adds is the name the pane
  has, and no alias ever stands for a name that denotes another pane.
\<close>

section \<open>Names\<close>

lemma pane_name_inj:
  assumes "public_pane_id_for_number i m = public_pane_id_for_number j n" and "0 < m" and "0 < n"
  shows "i = j \<and> m = n"
proof -
  have "rsplit_once_str (CHR '':'' # ''p'') (i @ (CHR '':'' # ''p'') @ encode_public_number k) =
      Some (i, encode_public_number k)" for i k
    using encoded_plain [of k] by (intro rsplit_once_str_last) auto
  then have "(i, encode_public_number m) = (j, encode_public_number n)"
    using assms(1) unfolding public_pane_id_for_number_def by (metis append_Cons append_Nil option.inject)
  with assms(2,3) encode_public_inj show ?thesis by auto
qed

text \<open>A name that has been given out, and the only pane it may still denote.\<close>

definition may_denote :: "counters \<Rightarrow> workspace list \<Rightarrow> string \<Rightarrow> pane_id \<Rightarrow> bool" where
  "may_denote c wss x p \<longleftrightarrow>
     (\<exists>i n. drawn_workspace c i \<and> 0 < n \<and> x = public_pane_id_for_number i n \<and>
       (\<forall>ws \<in> set wss. ws_id ws = i \<longrightarrow> n < ws_next_public_pane_number ws \<and>
         (\<forall>q. (q, n) \<in> set (ws_public_pane_numbers ws) \<longrightarrow> q = p)))"

definition aliases_ok :: "'p app_state \<Rightarrow> counters \<Rightarrow> bool" where
  "aliases_ok s c \<longleftrightarrow> (\<forall>(x, p) \<in> set (as_public_pane_id_aliases s). may_denote c (as_workspaces s) x p)"

lemma fresh_not_drawn: "fresh_workspace c i \<Longrightarrow> \<not> drawn_workspace c i"
proof
  assume "fresh_workspace c i" "drawn_workspace c i"
  then obtain k n where "0 < k" "next_workspace_id c \<le> k" "0 < n" "n < next_workspace_id c"
    "encode_public_number k = encode_public_number n"
    unfolding fresh_workspace_def drawn_workspace_def by auto
  moreover from this have "k = n" by (intro encode_public_inj) auto
  ultimately show False by simp
qed

lemma may_denote_evolves:
  assumes "may_denote c wss x p" and "evolves c wss wss'" and "counters_le c c'"
  shows "may_denote c' wss' x p"
proof -
  obtain i n where i: "drawn_workspace c i" "0 < n" "x = public_pane_id_for_number i n"
    and all: "\<And>ws. ws \<in> set wss \<Longrightarrow> ws_id ws = i \<Longrightarrow> n < ws_next_public_pane_number ws \<and>
      (\<forall>q. (q, n) \<in> set (ws_public_pane_numbers ws) \<longrightarrow> q = p)"
    using assms(1) unfolding may_denote_def by blast
  have "n < ws_next_public_pane_number w \<and> (\<forall>q. (q, n) \<in> set (ws_public_pane_numbers w) \<longrightarrow> q = p)"
    if w: "w \<in> set wss'" "ws_id w = i" for w
  proof -
    have "\<not> fresh_workspace c (ws_id w)" using fresh_not_drawn i(1) w(2) by blast
    then obtain ws where ws: "ws \<in> set wss" "ws_evolves ws w" using assms(2) w(1) unfolding evolves_def by blast
    then have old: "n < ws_next_public_pane_number ws" "\<And>q. (q, n) \<in> set (ws_public_pane_numbers ws) \<Longrightarrow> q = p"
      using all [OF ws(1)] w(2) by (auto simp: ws_evolves_def)
    have "q = p" if "(q, n) \<in> set (ws_public_pane_numbers w)" for q
    proof -
      have "(q, n) \<in> set (ws_public_pane_numbers ws) \<or> ws_next_public_pane_number ws \<le> n"
        using ws(2) that by (auto simp: ws_evolves_def)
      then show ?thesis using old by auto
    qed
    moreover have "n < ws_next_public_pane_number w" using old(1) ws(2) by (auto simp: ws_evolves_def elim: less_le_trans)
    ultimately show ?thesis by blast
  qed
  moreover have "drawn_workspace c' i" using drawn_mono(2) [OF assms(3) i(1)] .
  ultimately show ?thesis using i(2,3) unfolding may_denote_def by blast
qed

lemma live_name_may_denote:
  assumes inv: "session_inv s c" and i: "i < length (as_workspaces s)"
    and p: "(p, n) \<in> set (ws_public_pane_numbers (as_workspaces s ! i))"
  shows "may_denote c (as_workspaces s) (public_pane_id_for_number (ws_id (as_workspaces s ! i)) n) p"
proof -
  let ?ws = "as_workspaces s ! i"
  have ids: "wss_ids c (as_workspaces s)" using session_all [OF inv] by (simp add: wss_inv_def)
  have num: "numbered (ws_public_pane_numbers ?ws) (ws_next_public_pane_number ?ws) (set (ws_ids ?ws))"
    using session_ws [OF inv i] by (simp add: ws_inv_def ws_between_def)
  then have n: "0 < n" "n < ws_next_public_pane_number ?ws" "inj_on snd (set (ws_public_pane_numbers ?ws))"
    using p by (auto simp: numbered_def distinct_map)
  have uniq: "ws = ?ws" if "ws \<in> set (as_workspaces s)" "ws_id ws = ws_id ?ws" for ws
    using that ids i by (auto simp: wss_ids_def distinct_map dest: inj_onD)
  have "\<forall>q. (q, n) \<in> set (ws_public_pane_numbers ?ws) \<longrightarrow> q = p"
    using inj_onD [OF n(3) _ _ p] by auto
  moreover have "drawn_workspace c (ws_id ?ws)" using ids i by (simp add: wss_ids_def)
  ultimately show ?thesis using n(1,2) uniq unfolding may_denote_def by metis
qed

text \<open>The aliases after a step that adds only names panes have.\<close>

lemma aliases_step:
  assumes inv: "session_inv s c" and ok: "aliases_ok s c" and step: "session_step s c s' c'"
    and sub: "\<And>x p. (x, p) \<in> set (as_public_pane_id_aliases s') \<Longrightarrow>
      (x, p) \<in> set (as_public_pane_id_aliases s) \<or>
      (\<exists>i < length (as_workspaces s). public_pane_id s i p = Some x)"
  shows "aliases_ok s' c'"
  unfolding aliases_ok_def
proof clarify
  fix x p assume "(x, p) \<in> set (as_public_pane_id_aliases s')"
  from sub [OF this] have "may_denote c (as_workspaces s) x p"
  proof
    assume "(x, p) \<in> set (as_public_pane_id_aliases s)"
    with ok show ?thesis by (auto simp: aliases_ok_def)
  next
    assume "\<exists>i < length (as_workspaces s). public_pane_id s i p = Some x"
    then obtain i n where "i < length (as_workspaces s)" "map_of (ws_public_pane_numbers (as_workspaces s ! i)) p = Some n"
      "x = public_pane_id_for_number (ws_id (as_workspaces s ! i)) n"
      by (auto simp: public_pane_id_def nth_ws_def public_pane_number_def)
    with live_name_may_denote [OF inv] show ?thesis by (simp add: map_of_SomeD)
  qed
  then show "may_denote c' (as_workspaces s') x p"
    using may_denote_evolves step by (auto simp: session_step_def)
qed

section \<open>Reading them\<close>

lemma pane_in_one_workspace:
  assumes inv: "session_inv s c" and i: "i < length (as_workspaces s)" and p: "p \<in> set (ws_ids (as_workspaces s ! i))"
    and k: "k < length (as_workspaces s)" "p \<in> set (ws_ids (as_workspaces s ! k))"
  shows "k = i"
proof -
  have "map fst (all_entries wss) = concat (map ws_ids wss)" for wss
    by (induction wss) (simp_all add: ws_ids_def)
  then have d: "distinct (concat (map ws_ids (as_workspaces s)))"
    using session_all [OF inv] by (simp add: wss_inv_def wss_ids_def entries_distinct_def)
  have apart: "set (ws_ids (as_workspaces s ! m)) \<inter> set (ws_ids (as_workspaces s ! n)) = {}"
    if mn: "m < n" "n < length (as_workspaces s)" for m n
  proof -
    have "as_workspaces s = take n (as_workspaces s) @ as_workspaces s ! n # drop (Suc n) (as_workspaces s)"
      using split_at [OF mn(2)] .
    then have "distinct (concat (map ws_ids (take n (as_workspaces s))) @ ws_ids (as_workspaces s ! n) @
        concat (map ws_ids (drop (Suc n) (as_workspaces s))))"
      using d by (metis concat.simps(2) concat_append list.simps(9) map_append)
    moreover have "as_workspaces s ! m \<in> set (take n (as_workspaces s))" using mn by (force simp: in_set_conv_nth)
    ultimately show ?thesis by auto
  qed
  show ?thesis using apart [of i k] apart [of k i] i p k by (cases i k rule: linorder_cases) auto
qed

lemma find_pane_unique:
  assumes inv: "session_inv s c" and i: "i < length (as_workspaces s)" and p: "p \<in> set (ws_ids (as_workspaces s ! i))"
  shows "\<exists>st. find_pane s p = Some (i, st)"
proof -
  have "find_pane s p \<noteq> None"
  proof
    assume "find_pane s p = None"
    then have "foldr (\<lambda>(k, ws). or_else (map_option (Pair k) (ws_pane_state ws p))) (enumerate 0 (as_workspaces s)) None = None"
      by (simp add: find_pane_def)
    moreover have "foldr (\<lambda>(k, ws). or_else (map_option (Pair k) (ws_pane_state ws p))) (enumerate n wss) None = None \<Longrightarrow>
        \<forall>ws \<in> set wss. ws_pane_state ws p = None" for n wss
      by (induction wss arbitrary: n) (auto simp: or_else_def split: option.splits)
    ultimately have "ws_pane_state (as_workspaces s ! i) p = None" using i nth_mem by blast
    then show False using p ws_pane_state_None by blast
  qed
  then obtain k st where "find_pane s p = Some (k, st)" by auto
  moreover from find_pane_Some [OF this] have "k = i"
    using pane_in_one_workspace [OF inv i p] ws_pane_state_Some(2) by blast
  ultimately show ?thesis by blast
qed

lemma pane_name_read_back:
  assumes inv: "session_inv s c" and ok: "aliases_ok s c"
    and i: "i < length (as_workspaces s)" and x: "public_pane_id s i p = Some x"
  shows "parse_pane_id s x = Some (i, p)"
proof -
  let ?ws = "as_workspaces s ! i"
  obtain n where n: "(p, n) \<in> set (ws_public_pane_numbers ?ws)" "x = public_pane_id_for_number (ws_id ?ws) n"
    using x i by (auto simp: public_pane_id_def nth_ws_def public_pane_number_def dest: map_of_SomeD)
  have pos: "0 < n" and mem: "p \<in> set (ws_ids ?ws)"
    using session_ws [OF inv i] public_panes [OF session_ws [OF inv i]] n(1)
    by (auto simp: ws_inv_def ws_between_def numbered_def) force+
  show ?thesis
  proof (cases "map_of (as_public_pane_id_aliases s) x")
    case None
    then show ?thesis using read_pane_name [OF inv i n(1)] n(2) by simp
  next
    case (Some a)
    then have "may_denote c (as_workspaces s) x a" using ok by (auto simp: aliases_ok_def dest: map_of_SomeD)
    then obtain j m where jm: "0 < m" "x = public_pane_id_for_number j m"
      and only: "\<And>ws q. ws \<in> set (as_workspaces s) \<Longrightarrow> ws_id ws = j \<Longrightarrow> (q, m) \<in> set (ws_public_pane_numbers ws) \<Longrightarrow> q = a"
      unfolding may_denote_def by blast
    have "ws_id ?ws = j \<and> n = m" using pane_name_inj [of "ws_id ?ws" n j m] n(2) jm pos by simp
    with only [of ?ws p] n(1) i have "p = a" by simp
    with Some find_pane_unique [OF inv i mem] show ?thesis by (auto simp: parse_pane_id_def)
  qed
qed

end
