(* ===== verification/PaneHandlers.thy ===== *)
theory PaneHandlers
  imports PaneMoves
begin

text \<open>
  Handlers of the socket API that rearrange or look at what is there (\<open>src/app/api/panes.rs\<close>, \<open>tabs.rs\<close>,
  \<open>workspaces.rs\<close>): focusing and renaming workspaces, tabs and panes, neighbours and edges of a pane, resizing,
  swapping and zooming.  Where the code indexes a vector a position out of range panics.  The area the panes are
  drawn in (\<open>view.terminal_area\<close>) is an argument; the layout snapshots inside the answers are modelled by whether
  there is one.
\<close>

section \<open>Targets\<close>

definition resolve_optional_pane :: "'p app_state \<Rightarrow> string option \<Rightarrow> (nat \<times> pane_id) option" where
  "resolve_optional_pane s pane_id =
     (case pane_id of
        Some i \<Rightarrow> parse_pane_id s i
      | None \<Rightarrow>
          Option.bind (as_active s) (\<lambda>ws_idx.
          Option.bind (nth_ws s ws_idx) (\<lambda>ws. map_option (Pair ws_idx) (focused_pane_id ws))))"

definition directional_pane_target ::
  "'p app_state \<Rightarrow> rect \<Rightarrow> nat \<Rightarrow> nat \<Rightarrow> pane_id \<Rightarrow> nav_direction \<Rightarrow> pane_id option" where
  "directional_pane_target s area ws_idx tab_idx source direction =
     Option.bind (Option.bind (nth_ws s ws_idx) (\<lambda>ws. nth_tab ws tab_idx)) (\<lambda>t.
       let ps = panes (tab_layout t) area
       in Option.bind (find (\<lambda>pane. pi_id pane = source) ps) (\<lambda>info. find_in_direction info direction ps))"

text \<open>The prologue the handlers of a pane share: its workspace, its tab and its name.\<close>

definition locate_pane ::
  "'p app_state \<Rightarrow> string option \<Rightarrow> (string + (nat \<times> nat \<times> pane_id)) outcome" where
  "locate_pane s target =
     (case resolve_optional_pane s target of
        None \<Rightarrow> Return (Inl ''pane_not_found'')
      | Some (ws_idx, pane_id) \<Rightarrow>
          outcome_bind (expect (nth_ws s ws_idx)) (\<lambda>ws.
          case find_tab_index_for_pane ws pane_id of
            None \<Rightarrow> Return (Inl ''pane_not_found'')
          | Some tab_idx \<Rightarrow>
              if public_pane_id s ws_idx pane_id = None then Return (Inl ''pane_not_found'')
              else Return (Inr (ws_idx, tab_idx, pane_id))))"

section \<open>Focusing and renaming\<close>

definition handle_workspace_focus :: "string \<Rightarrow> 'p app_state \<Rightarrow> (string + nat) \<times> 'p app_state" where
  "handle_workspace_focus target s =
     (case parse_workspace_id s target of
        None \<Rightarrow> (Inl ''workspace_not_found'', s)
      | Some index \<Rightarrow>
          if nth_ws s index = None then (Inl ''workspace_not_found'', s)
          else (Inr index, switch_workspace index s))"

definition handle_workspace_rename :: "string \<Rightarrow> string \<Rightarrow> 'p app_state \<Rightarrow> (string + nat) \<times> 'p app_state" where
  "handle_workspace_rename target label s =
     (case parse_workspace_id s target of
        None \<Rightarrow> (Inl ''workspace_not_found'', s)
      | Some index \<Rightarrow>
          if nth_ws s index = None then (Inl ''workspace_not_found'', s)
          else (Inr index, modify_ws index (\<lambda>ws. ws_set_custom_name ws label) s))"

definition handle_tab_focus :: "string \<Rightarrow> 'p app_state \<Rightarrow> ((string + (nat \<times> nat)) \<times> 'p app_state) outcome" where
  "handle_tab_focus target s =
     (case parse_tab_id s target of
        None \<Rightarrow> Return (Inl ''tab_not_found'', s)
      | Some (ws_idx, tab_idx) \<Rightarrow>
          let s1 = fst (switch_workspace_tab ws_idx tab_idx s)
          in if tab_info_available s1 ws_idx tab_idx then Return (Inr (ws_idx, tab_idx), s1) else Panic)"

definition handle_tab_rename ::
  "string \<Rightarrow> string \<Rightarrow> 'p app_state \<Rightarrow> ((string + (nat \<times> nat)) \<times> 'p app_state) outcome" where
  "handle_tab_rename target label s =
     (case parse_tab_id s target of
        None \<Rightarrow> Return (Inl ''tab_not_found'', s)
      | Some (ws_idx, tab_idx) \<Rightarrow>
          outcome_bind (expect (nth_ws s ws_idx)) (\<lambda>ws.
          case nth_tab ws tab_idx of
            None \<Rightarrow> Return (Inl ''tab_not_found'', s)
          | Some _ \<Rightarrow>
              let s1 = modify_ws ws_idx (rename_tab tab_idx label) s
              in if tab_info_available s1 ws_idx tab_idx then Return (Inr (ws_idx, tab_idx), s1) else Panic))"

definition handle_pane_focus :: "string \<Rightarrow> 'p app_state \<Rightarrow> ((string + (nat \<times> pane_id)) \<times> 'p app_state) outcome" where
  "handle_pane_focus target s =
     (case parse_pane_id s target of
        None \<Rightarrow> Return (Inl ''pane_not_found'', s)
      | Some (ws_idx, pane_id) \<Rightarrow>
          outcome_bind (expect (nth_ws s ws_idx)) (\<lambda>ws.
          if find_tab_index_for_pane ws pane_id = None then Return (Inl ''pane_not_found'', s)
          else
            let s1 = settle_terminal_mode_after_focus (fst (mark_active_tab_seen
                       (fst (focus_pane_in_workspace ws_idx pane_id s))))
            in Return (if pane_info_available s1 ws_idx pane_id then Inr (ws_idx, pane_id)
                       else Inl ''pane_not_found'', s1)))"

definition handle_pane_rename ::
  "string \<Rightarrow> string option \<Rightarrow> 'p app_state \<Rightarrow> ((string + (nat \<times> pane_id)) \<times> 'p app_state) outcome" where
  "handle_pane_rename target label s =
     (case parse_pane_id s target of
        None \<Rightarrow> Return (Inl ''pane_not_found'', s)
      | Some (ws_idx, pane_id) \<Rightarrow>
      (case Option.bind (nth_ws s ws_idx) (\<lambda>ws. ws_terminal_id ws pane_id) of
        None \<Rightarrow> Return (Inl ''pane_not_found'', s)
      | Some terminal_id \<Rightarrow>
      (case map_of (as_terminals s) terminal_id of
        None \<Rightarrow> Return (Inl ''pane_not_found'', s)
      | Some terminal \<Rightarrow>
          let terminal' = (case map_option trim label of
                None \<Rightarrow> clear_manual_label terminal
              | Some l \<Rightarrow> if l \<noteq> [] then set_manual_label terminal l else clear_manual_label terminal);
              s1 = mark_session_dirty
                (s\<lparr>as_terminals := AList.update terminal_id terminal' (as_terminals s)\<rparr>)
          in if pane_info_available s1 ws_idx pane_id then Return (Inr (ws_idx, pane_id), s1) else Panic)))"

section \<open>Looking\<close>

text \<open>The neighbour of a pane, by name.\<close>

definition handle_pane_neighbor ::
  "rect \<Rightarrow> string option \<Rightarrow> nav_direction \<Rightarrow> 'p app_state \<Rightarrow> (string + string option) outcome" where
  "handle_pane_neighbor area target direction s =
     outcome_bind (locate_pane s target) (\<lambda>located.
     case located of
       Inl e \<Rightarrow> Return (Inl e)
     | Inr (ws_idx, tab_idx, pane_id) \<Rightarrow>
         Return (if \<not> pane_layout_available s ws_idx tab_idx then Inl ''pane_layout_unavailable''
                 else Inr (Option.bind (directional_pane_target s area ws_idx tab_idx pane_id direction)
                             (public_pane_id s ws_idx))))"

record pane_edges =
  pe_left :: bool
  pe_right :: bool
  pe_up :: bool
  pe_down :: bool

definition edges_of :: "rect \<Rightarrow> rect \<Rightarrow> pane_edges" where
  "edges_of area r =
     \<lparr>pe_left = rx r \<le> rx area, pe_right = rx area + rwidth area \<le> rx r + rwidth r,
      pe_up = ry r \<le> ry area, pe_down = ry area + rheight area \<le> ry r + rheight r\<rparr>"

definition handle_pane_edges :: "rect \<Rightarrow> string option \<Rightarrow> 'p app_state \<Rightarrow> (string + pane_edges) outcome" where
  "handle_pane_edges area target s =
     (case resolve_optional_pane s target of
        None \<Rightarrow> Return (Inl ''pane_not_found'')
      | Some (ws_idx, pane_id) \<Rightarrow>
          outcome_bind (expect (nth_ws s ws_idx)) (\<lambda>ws.
          case find_tab_index_for_pane ws pane_id of
            None \<Rightarrow> Return (Inl ''pane_not_found'')
          | Some tab_idx \<Rightarrow>
          (case nth_tab ws tab_idx of
            None \<Rightarrow> Return (Inl ''pane_layout_unavailable'')
          | Some t \<Rightarrow>
          (case find (\<lambda>info. pi_id info = pane_id) (panes (tab_layout t) area) of
            None \<Rightarrow> Return (Inl ''pane_not_found'')
          | Some info \<Rightarrow>
              Return (if public_pane_id s ws_idx pane_id = None then Inl ''pane_not_found''
                      else if \<not> pane_layout_available s ws_idx tab_idx then Inl ''pane_layout_unavailable''
                      else Inr (edges_of area (pi_rect info)))))))"

section \<open>Moving the focus in a direction\<close>

definition handle_pane_focus_direction ::
  "rect \<Rightarrow> string option \<Rightarrow> nav_direction \<Rightarrow> 'p app_state \<Rightarrow> ((string + bool) \<times> 'p app_state) outcome" where
  "handle_pane_focus_direction area target direction s =
     outcome_bind (locate_pane s target) (\<lambda>located.
     case located of
       Inl e \<Rightarrow> Return (Inl e, s)
     | Inr (ws_idx, tab_idx, source) \<Rightarrow>
         let neighbour = directional_pane_target s area ws_idx tab_idx source direction;
             s1 = (case neighbour of
                None \<Rightarrow> s
              | Some p \<Rightarrow> settle_terminal_mode_after_focus (fst (switch_workspace_tab ws_idx tab_idx
                            (fst (focus_pane_in_workspace ws_idx p s)))))
         in Return (if \<not> pane_layout_available s1 ws_idx tab_idx then Inl ''pane_layout_unavailable''
                    else Inr (neighbour \<noteq> None), s1))"

section \<open>Resizing\<close>

text \<open>The literal \<open>0.05\<close>: \<open>0x3D4CCCCD\<close>.\<close>

definition f32_0_05 :: f32 where "f32_0_05 = Fin (13421773 * 2 ^ 121)"

fun f32_abs :: "f32 \<Rightarrow> f32" where
  "f32_abs NaN = NaN"
| "f32_abs (Inf _) = Inf False"
| "f32_abs (Fin m) = Fin \<bar>m\<bar>"

text \<open>\<open>f32::min\<close> of a number with a literal.\<close>

definition f32_min :: "f32 \<Rightarrow> f32 \<Rightarrow> f32" where
  "f32_min x y = (if x = NaN then y else if f32_less y x then y else x)"

definition resize_amount :: "f32 option \<Rightarrow> f32" where
  "resize_amount amount = f32_min (f32_abs (unwrap_or (option_filter f32_is_finite amount) f32_0_05)) f32_0_5"

definition resize_in_tab ::
  "nat \<Rightarrow> pane_id \<Rightarrow> nav_direction \<Rightarrow> f32 \<Rightarrow> rect \<Rightarrow> workspace \<Rightarrow> workspace \<times> bool" where
  "resize_in_tab tab_idx pane_id direction amount area ws =
     (case nth_tab ws tab_idx of
        None \<Rightarrow> (ws, False)
      | Some t \<Rightarrow>
          let (lay, changed) = resize_pane (tab_layout t) pane_id direction amount area
          in (ws\<lparr>ws_tabs := (ws_tabs ws)[tab_idx := t\<lparr>tab_layout := lay\<rparr>]\<rparr>, changed))"

definition handle_pane_resize ::
  "rect \<Rightarrow> string option \<Rightarrow> nav_direction \<Rightarrow> f32 option \<Rightarrow> 'p app_state \<Rightarrow>
     ((string + bool) \<times> 'p app_state) outcome" where
  "handle_pane_resize area target direction amount s =
     outcome_bind (locate_pane s target) (\<lambda>located.
     case located of
       Inl e \<Rightarrow> Return (Inl e, s)
     | Inr (ws_idx, tab_idx, pane_id) \<Rightarrow>
         let (ws', changed) = resize_in_tab tab_idx pane_id direction (resize_amount amount) area
               (as_workspaces s ! ws_idx);
             s1 = s\<lparr>as_workspaces := (as_workspaces s)[ws_idx := ws']\<rparr>
         in Return (if \<not> pane_layout_available s1 ws_idx tab_idx then Inl ''pane_layout_unavailable''
                    else Inr changed, s1))"

section \<open>Zooming\<close>

datatype pane_zoom_mode = PaneZoomToggle | PaneZoomOn | PaneZoomOff

fun zoom_command :: "pane_zoom_mode \<Rightarrow> pane_zoom_command" where
  "zoom_command PaneZoomToggle = ZoomToggle"
| "zoom_command PaneZoomOn = ZoomOn"
| "zoom_command PaneZoomOff = ZoomOff"

definition handle_pane_zoom ::
  "string option \<Rightarrow> pane_zoom_mode \<Rightarrow> 'p app_state \<Rightarrow> ((string + pane_zoom_outcome) \<times> 'p app_state) outcome" where
  "handle_pane_zoom target mode s =
     outcome_bind (locate_pane s target) (\<lambda>located.
     case located of
       Inl e \<Rightarrow> Return (Inl e, s)
     | Inr (ws_idx, tab_idx, pane_id) \<Rightarrow>
         (case apply_pane_zoom ws_idx pane_id (zoom_command mode) s of
            (s1, None) \<Rightarrow> Return (Inl ''pane_not_found'', s1)
          | (s1, Some result) \<Rightarrow>
              let s2 = settle_terminal_mode_after_focus s1
              in Return (if pane_layout_available s2 ws_idx tab_idx then Inr result
                         else Inl ''pane_layout_unavailable'', s2)))"

section \<open>Swapping\<close>

datatype pane_swap_reason = SwapNoNeighbor | SwapNotFound | SwapSamePane | SwapCrossTab

definition locate_raw :: "'p app_state \<Rightarrow> string \<Rightarrow> (nat \<times> nat \<times> pane_id) option outcome" where
  "locate_raw s raw =
     (case parse_pane_id s raw of
        None \<Rightarrow> Return None
      | Some (ws_idx, pane_id) \<Rightarrow>
          outcome_bind (expect (nth_ws s ws_idx)) (\<lambda>ws.
            Return (map_option (\<lambda>tab_idx. (ws_idx, tab_idx, pane_id)) (find_tab_index_for_pane ws pane_id))))"

text \<open>
  What is to be swapped: the workspace and tab of the answer, the source and, unless there is a reason not to swap,
  the target.  A direction and explicit panes exclude each other.
\<close>

definition swap_reason ::
  "(nat \<times> nat \<times> pane_id) option \<Rightarrow> (nat \<times> nat \<times> pane_id) option \<Rightarrow> pane_swap_reason option" where
  "swap_reason source target =
     (case (source, target) of
        (Some (sw, st, sp), Some (tw, tt, tp)) \<Rightarrow>
          if sp = tp then Some SwapSamePane
          else if sw \<noteq> tw \<or> st \<noteq> tt then Some SwapCrossTab else None
      | _ \<Rightarrow> Some SwapNotFound)"

definition swap_explicit ::
  "'p app_state \<Rightarrow> string \<Rightarrow> string \<Rightarrow>
     (string + (nat \<times> nat \<times> pane_id \<times> pane_id option \<times> pane_swap_reason option)) outcome" where
  "swap_explicit s source_raw target_raw =
     outcome_bind (locate_raw s source_raw) (\<lambda>source.
     outcome_bind (locate_raw s target_raw) (\<lambda>target.
       let context = or_else (map_option (\<lambda>(w, t, _). (w, t)) source)
             (or_else (map_option (\<lambda>(w, t, _). (w, t)) target)
               (Option.bind (as_active s) (\<lambda>w. map_option (\<lambda>ws. (w, ws_active_tab ws)) (nth_ws s w))))
       in Return (case context of
            None \<Rightarrow> Inl ''pane_layout_unavailable''
          | Some (ws_idx, tab_idx) \<Rightarrow>
              let source_pane_id = unwrap_or (or_else (map_option (\<lambda>(_, _, p). p) source)
                    (Option.bind (nth_ws s ws_idx) (\<lambda>ws.
                       map_option (\<lambda>t. tl_focus (tab_layout t)) (nth_tab ws tab_idx)))) 0
              in Inr (ws_idx, tab_idx, source_pane_id, map_option (\<lambda>(_, _, p). p) target,
                      swap_reason source target))))"

definition swap_in_direction ::
  "rect \<Rightarrow> 'p app_state \<Rightarrow> string option \<Rightarrow> nav_direction \<Rightarrow>
     (string + (nat \<times> nat \<times> pane_id \<times> pane_id option \<times> pane_swap_reason option)) outcome" where
  "swap_in_direction area s target direction =
     (case resolve_optional_pane s target of
        None \<Rightarrow> Return (Inl ''pane_not_found'')
      | Some (ws_idx, source) \<Rightarrow>
          outcome_bind (expect (nth_ws s ws_idx)) (\<lambda>ws.
          Return (case find_tab_index_for_pane ws source of
            None \<Rightarrow> Inl ''pane_not_found''
          | Some tab_idx \<Rightarrow>
              (case directional_pane_target s area ws_idx tab_idx source direction of
                 Some p \<Rightarrow> Inr (ws_idx, tab_idx, source, Some p, None)
               | None \<Rightarrow> Inr (ws_idx, tab_idx, source, None, Some SwapNoNeighbor)))))"

definition swap_target ::
  "rect \<Rightarrow> 'p app_state \<Rightarrow> string option \<Rightarrow> nav_direction option \<Rightarrow> string option \<Rightarrow> string option \<Rightarrow>
     (string + (nat \<times> nat \<times> pane_id \<times> pane_id option \<times> pane_swap_reason option)) outcome" where
  "swap_target area s pane_id direction source_pane_id target_pane_id =
     (if (direction \<noteq> None) = (source_pane_id \<noteq> None \<or> target_pane_id \<noteq> None)
      then Return (Inl ''invalid_pane_swap'')
      else case direction of
        Some d \<Rightarrow> swap_in_direction area s pane_id d
      | None \<Rightarrow>
          (case (source_pane_id, target_pane_id) of
             (Some source_raw, Some target_raw) \<Rightarrow> swap_explicit s source_raw target_raw
           | _ \<Rightarrow> Return (Inl ''invalid_pane_swap'')))"

definition swap_in_tab :: "nat \<Rightarrow> pane_id \<Rightarrow> pane_id \<Rightarrow> workspace \<Rightarrow> workspace \<times> bool" where
  "swap_in_tab tab_idx source target ws =
     (let t = ws_tabs ws ! tab_idx;
          (lay, changed) = swap_panes (tab_layout t) source target
      in (ws\<lparr>ws_tabs := (ws_tabs ws)[tab_idx := t\<lparr>tab_layout := focus_pane lay source\<rparr>]\<rparr>, changed))"

definition swap_at :: "nat \<Rightarrow> nat \<Rightarrow> pane_id \<Rightarrow> pane_id \<Rightarrow> 'p app_state \<Rightarrow> 'p app_state \<times> bool" where
  "swap_at ws_idx tab_idx source target s =
     (case Option.bind (nth_ws s ws_idx) (\<lambda>ws. nth_tab ws tab_idx) of
        None \<Rightarrow> (s, False)
      | Some _ \<Rightarrow>
          let previous_focus = current_pane_focus_target s;
              (ws', changed) = swap_in_tab tab_idx source target (as_workspaces s ! ws_idx);
              s1 = s\<lparr>as_workspaces := (as_workspaces s)[ws_idx := ws']\<rparr>
          in (if changed
              then mark_session_dirty (record_pane_focus_change previous_focus ws_idx source
                     (fst (switch_workspace_tab ws_idx tab_idx s1)))
              else s1, changed))"

definition handle_pane_swap ::
  "rect \<Rightarrow> string option \<Rightarrow> nav_direction option \<Rightarrow> string option \<Rightarrow> string option \<Rightarrow> 'p app_state \<Rightarrow>
     ((string + (bool \<times> pane_swap_reason option)) \<times> 'p app_state) outcome" where
  "handle_pane_swap area pane_id direction source_pane_id target_pane_id s =
     outcome_bind (swap_target area s pane_id direction source_pane_id target_pane_id) (\<lambda>resolved.
     case resolved of
       Inl e \<Rightarrow> Return (Inl e, s)
     | Inr (ws_idx, tab_idx, source, target, reason) \<Rightarrow>
         let (s1, changed) = (case (reason, target) of
               (None, Some p) \<Rightarrow> swap_at ws_idx tab_idx source p s
             | _ \<Rightarrow> (s, False))
         in Return (if pane_layout_available s1 ws_idx tab_idx then Inr (changed, reason)
                    else Inl ''pane_layout_unavailable'', s1))"

end
