(* ===== verification/SessionRequests.thy ===== *)
theory SessionRequests
  imports SessionNames PaneHandlers
begin

text \<open>
  The handlers that focus, rename, resize, swap and zoom always return, and each is a step of the session.
\<close>

section \<open>Focusing and renaming\<close>

lemma workspace_focus_step:
  assumes "session_inv s c"
  shows "session_step s c (snd (handle_workspace_focus target s)) c"
  using in_place_steps(1) [OF assms] session_step_refl [OF assms]
  by (auto simp: handle_workspace_focus_def split: option.split)

lemma named_step:
  assumes inv: "session_inv s c" and i: "i < length (as_workspaces s)"
  shows "session_step s c (modify_ws i (\<lambda>ws. ws_set_custom_name ws label) s) c"
proof (rule step_numbering)
  show "session_inv (modify_ws i (\<lambda>ws. ws_set_custom_name ws label) s) c"
    using session_ws [OF inv i] session_focus [OF inv]
    by (intro session_same [OF inv i counters_le_refl, where ws = "ws_set_custom_name (as_workspaces s ! i) label"])
      (simp_all add: ws_set_custom_name_def ws_inv_def ws_between_def ws_entries_def ws_ids_def)
qed (simp add: ws_set_custom_name_def numbering_update)

lemma workspace_rename_step:
  assumes inv: "session_inv s c"
  shows "session_step s c (snd (handle_workspace_rename target label s)) c"
  using session_step_refl [OF inv] named_step [OF inv]
  by (auto simp: handle_workspace_rename_def nth_ws_def split: option.split)

lemma create_index:
  assumes "create_workspace_with_launch_env gb spawn m cwd foc env s c = (Inr i, s', c')"
  shows "i < length (as_workspaces s')"
  using assms
  by (auto simp: create_workspace_with_launch_env_def Let_def add_terminal_def switch_workspace_tabs(2) split: prod.splits sum.splits if_splits)

lemma workspace_create_step:
  assumes inv: "session_inv s c" and r: "room m c s"
  shows "\<exists>a s' c'. handle_workspace_create gb spawn m cwd foc label env s c = Return (a, s', c') \<and>
    session_step s c s' c'"
proof -
  obtain res s1 c1 where run: "create_workspace_with_launch_env gb spawn m cwd foc env s c = (res, s1, c1)"
    by (metis prod_cases3)
  then have s1: "session_step s c s1 c1"
    using create_workspace_step [OF inv r, of gb spawn cwd foc env] by simp
  show ?thesis
  proof (cases res)
    case (Inl e)
    then show ?thesis using run s1 by (simp add: handle_workspace_create_def)
  next
    case (Inr i)
    then have i: "i < length (as_workspaces s1)" using create_index run by blast
    define s2 where "s2 = (case label of None \<Rightarrow> s1
      | Some name \<Rightarrow> if nth_ws s1 i = None then s1 else modify_ws i (\<lambda>ws. ws_set_custom_name ws name) s1)"
    have s2: "session_step s c s2 c1" "i < length (as_workspaces s2)"
      using i s1 session_step_trans [OF s1 named_step [OF session_step_inv [OF s1] i]]
      by (auto simp: s2_def nth_ws_def split: option.split)
    have "0 < length (ws_tabs (as_workspaces s2 ! i))"
      using active_tab_inv(2) [OF session_ws [OF session_step_inv [OF s2(1)] s2(2)]] by (rule le_less_trans [OF le0])
    from tab_created_there [OF session_step_inv [OF s2(1)] s2(2) this]
    show ?thesis using run Inr s2(1) unfolding s2_def by (simp add: handle_workspace_create_def Let_def)
  qed
qed

lemma tab_info_there:
  "i < length (as_workspaces s) \<Longrightarrow> k < length (ws_tabs (as_workspaces s ! i)) \<Longrightarrow> tab_info_available s i k"
  by (simp add: tab_info_available_def tab_named)

lemma tab_focus_step:
  assumes inv: "session_inv s c"
  shows "\<exists>a s'. handle_tab_focus target s = Return (a, s') \<and> session_step s c s' c"
proof (cases "parse_tab_id s target")
  case None
  then show ?thesis using session_step_refl [OF inv] by (simp add: handle_tab_focus_def)
next
  case (Some q)
  obtain i k where q: "q = (i, k)" by (cases q)
  note range = parse_tab_id_range [of s target i k, OF Some [unfolded q]]
  have "tab_info_available (fst (switch_workspace_tab i k s)) i k"
    using range by (intro tab_info_there) (simp_all add: switch_tab_at_fields switch_tab_at_tabs(1))
  then show ?thesis using Some q in_place_steps(2) [OF inv] by (simp add: handle_tab_focus_def)
qed

lemma tab_rename_step:
  assumes inv: "session_inv s c"
  shows "\<exists>a s'. handle_tab_rename target label s = Return (a, s') \<and> session_step s c s' c"
proof (cases "parse_tab_id s target")
  case None
  then show ?thesis using session_step_refl [OF inv] by (simp add: handle_tab_rename_def)
next
  case (Some q)
  obtain i k where q: "q = (i, k)" by (cases q)
  note range = parse_tab_id_range [of s target i k, OF Some [unfolded q]]
  have "tab_info_available (modify_ws i (rename_tab k label) s) i k"
    using range by (intro tab_info_there) (simp_all add: rename_tab_def)
  then show ?thesis using Some q range rename_tab_step [OF inv range(1)]
    by (simp add: handle_tab_rename_def nth_ws_def nth_tab_def)
qed

lemma pane_focus_step:
  assumes inv: "session_inv s c"
  shows "\<exists>a s'. handle_pane_focus target s = Return (a, s') \<and> session_step s c s' c"
proof (cases "parse_pane_id s target")
  case None
  then show ?thesis using session_step_refl [OF inv] by (simp add: handle_pane_focus_def)
next
  case (Some q)
  obtain i p where q: "q = (i, p)" by (cases q)
  have i: "i < length (as_workspaces s)" using parse_pane_id_live [OF inv] Some q by auto
  have f: "session_step s c (fst (focus_pane_in_workspace i p s)) c" using in_place_steps(3) [OF inv] .
  from step_side(4) [OF session_step_trans [OF f in_place_steps(5) [OF session_step_inv [OF f]]]]
  show ?thesis using Some q i session_step_refl [OF inv]
    by (auto simp: handle_pane_focus_def nth_ws_def Let_def)
qed

lemma terminal_relabelled:
  assumes inv: "session_inv s c" and t: "map_of (as_terminals s) tid = Some t"
  shows "session_step s c (s\<lparr>as_terminals := AList.update tid t' (as_terminals s)\<rparr>) c"
proof (rule step_numbering)
  have "tid \<in> fst ` set (as_terminals s)" using t by (metis map_of_eq_None_iff option.distinct(1))
  then show "session_inv (s\<lparr>as_terminals := AList.update tid t' (as_terminals s)\<rparr>) c"
    using inv by (auto simp: session_inv_def terminals_update)
qed simp

lemma pane_rename_step:
  assumes inv: "session_inv s c"
  shows "\<exists>a s'. handle_pane_rename target label s = Return (a, s') \<and> session_step s c s' c"
proof (cases "parse_pane_id s target")
  case None
  then show ?thesis using session_step_refl [OF inv] by (simp add: handle_pane_rename_def)
next
  case (Some q)
  obtain i p where q: "q = (i, p)" by (cases q)
  have i: "i < length (as_workspaces s)" and p: "p \<in> set (ws_ids (as_workspaces s ! i))"
    using parse_pane_id_live [OF inv] Some q by auto
  show ?thesis
  proof (cases "ws_terminal_id (as_workspaces s ! i) p")
    case None
    then show ?thesis using Some q i session_step_refl [OF inv] by (simp add: handle_pane_rename_def nth_ws_def)
  next
    case tid: (Some tid)
    show ?thesis
    proof (cases "map_of (as_terminals s) tid")
      case None
      then show ?thesis using Some q i tid session_step_refl [OF inv]
        by (simp add: handle_pane_rename_def nth_ws_def)
    next
      case t: (Some t)
      define t' where "t' = (case map_option trim label of None \<Rightarrow> clear_manual_label t
        | Some l \<Rightarrow> if l \<noteq> [] then set_manual_label t l else clear_manual_label t)"
      define s1 where "s1 = mark_session_dirty (s\<lparr>as_terminals := AList.update tid t' (as_terminals s)\<rparr>)"
      have step: "session_step s c s1 c"
        unfolding s1_def by (rule step_side(1) [OF terminal_relabelled [OF inv t]])
      have "pane_info_available s1 i p"
        by (rule pane_info_there [OF session_step_inv [OF step]]) (use i p in \<open>simp_all add: s1_def\<close>)
      then have "handle_pane_rename target label s = Return (Inr (i, p), s1)"
        using Some q i tid t unfolding s1_def t'_def by (simp add: handle_pane_rename_def nth_ws_def Let_def)
      with step show ?thesis by blast
    qed
  qed
qed

section \<open>The panes of a tab\<close>

lemma resolve_optional_live:
  assumes inv: "session_inv s c" and "resolve_optional_pane s target = Some (i, p)"
  shows "i < length (as_workspaces s) \<and> p \<in> set (ws_ids (as_workspaces s ! i))"
proof (cases target)
  case None
  then have i: "i < length (as_workspaces s)" and f: "focused_pane_id (as_workspaces s ! i) = Some p"
    using assms(2) by (auto simp: resolve_optional_pane_def bind_eq_Some_conv nth_ws_Some)
  then obtain t where t: "active_tab (as_workspaces s ! i) = Some t" "tl_focus (tab_layout t) = p"
    by (auto simp: focused_pane_id_def)
  then have mem: "t \<in> set (ws_tabs (as_workspaces s ! i))" by (auto simp: active_tab_def nth_tab_def split: if_splits)
  have "tab_inv (next_pane_id c) t"
    using mem session_ws [OF inv i] between_tab by (auto simp: in_set_conv_nth ws_inv_def)
  then have "p \<in> set (tab_ids t)" using t(2) by (auto simp: tab_inv_def layout_inv_def layout_wf_def)
  then show ?thesis using i mem by (auto simp: set_ws_ids)
next
  case (Some x)
  then show ?thesis using assms(2) parse_pane_id_live [OF inv] by (simp add: resolve_optional_pane_def)
qed

lemma locate_pane_cases:
  assumes inv: "session_inv s c"
  shows "(\<exists>e. locate_pane s target = Return (Inl e)) \<or>
    (\<exists>i k p. locate_pane s target = Return (Inr (i, k, p)) \<and> i < length (as_workspaces s) \<and>
      find_tab_index_for_pane (as_workspaces s ! i) p = Some k \<and> k < length (ws_tabs (as_workspaces s ! i)))"
proof (cases "resolve_optional_pane s target")
  case None
  then show ?thesis by (simp add: locate_pane_def)
next
  case (Some q)
  obtain i p where q: "q = (i, p)" by (cases q)
  have i: "i < length (as_workspaces s)" and p: "p \<in> set (ws_ids (as_workspaces s ! i))"
    using resolve_optional_live [OF inv] Some q by auto
  obtain k where k: "find_tab_index_for_pane (as_workspaces s ! i) p = Some k" using find_tab_exists [OF p] by blast
  from find_tab_Some(1) [OF k] pane_named [OF inv i p] show ?thesis
    using Some q i k by (auto simp: locate_pane_def nth_ws_def)
qed

lemma tab_replaced_step:
  assumes inv: "session_inv s c" and i: "i < length (as_workspaces s)"
    and k: "k < length (ws_tabs (as_workspaces s ! i))"
    and "\<And>n. tab_inv n (ws_tabs (as_workspaces s ! i) ! k) \<Longrightarrow> tab_inv n t"
    and "tab_entries t = tab_entries (ws_tabs (as_workspaces s ! i) ! k)"
    and "tab_number t = tab_number (ws_tabs (as_workspaces s ! i) ! k)"
  shows "session_step s c (s\<lparr>as_workspaces := (as_workspaces s)
    [i := (as_workspaces s ! i)\<lparr>ws_tabs := (ws_tabs (as_workspaces s ! i))[k := t]\<rparr>]\<rparr>) c"
proof -
  have "session_step s c (modify_ws i (\<lambda>ws. ws\<lparr>ws_tabs := (ws_tabs ws)[k := t]\<rparr>) s) c"
    by (rule step_numbering [OF session_tab [OF inv i k refl assms(4-6)]]) (simp_all add: numbering_update)
  then show ?thesis by (simp add: modify_ws_def)
qed

lemma pane_focus_direction_step:
  assumes inv: "session_inv s c"
  shows "\<exists>a s'. handle_pane_focus_direction area target d s = Return (a, s') \<and> session_step s c s' c"
  using locate_pane_cases [OF inv, of target]
proof (elim disjE exE conjE)
  fix e assume "locate_pane s target = Return (Inl e)"
  then show ?thesis using session_step_refl [OF inv] by (simp add: handle_pane_focus_direction_def)
next
  fix i k p assume loc: "locate_pane s target = Return (Inr (i, k, p))"
  have "session_step s c (settle_terminal_mode_after_focus (fst (switch_workspace_tab i k
      (fst (focus_pane_in_workspace i q s))))) c" for q
    by (rule step_side(4) [OF step_switch_tab [OF in_place_steps(3) [OF inv]]])
  then show ?thesis using loc session_step_refl [OF inv]
    by (auto simp: handle_pane_focus_direction_def Let_def split: option.split)
qed

lemma resize_amount_finite: "f32_is_finite (resize_amount amount)"
proof -
  have "f32_is_finite (f32_min (f32_abs x) f32_0_5)" if "f32_is_finite x" for x
    using that by (cases x) (auto simp: f32_is_finite_def f32_min_def f32_0_5_def)
  moreover have "f32_is_finite (unwrap_or (option_filter f32_is_finite amount) f32_0_05)"
    by (cases amount) (auto simp: f32_is_finite_def f32_0_05_def option_filter_def)
  ultimately show ?thesis by (simp add: resize_amount_def)
qed

lemma other_layout: "tab_ids (t\<lparr>tab_layout := l\<rparr>) = tab_ids t"
  by (simp add: tab_ids_def)

lemma resized_tab:
  assumes "tab_inv n t" and "f32_is_finite r"
  shows "tab_inv n (t\<lparr>tab_layout := fst (resize_pane (tab_layout t) p d r area)\<rparr>)"
proof -
  have "layout_inv (fst (resize_pane (tab_layout t) p d r area)) n"
    by (rule layout_inv_same_ids [of "tab_layout t"])
      (use assms in \<open>auto simp: tab_inv_def resize_pane_ids resize_pane_valid layout_inv_def layout_wf_def\<close>)
  with assms(1) show ?thesis by (auto simp: tab_inv_def other_layout resize_pane_ids)
qed

lemma pane_resize_step:
  assumes inv: "session_inv s c"
  shows "\<exists>a s'. handle_pane_resize area target d amount s = Return (a, s') \<and> session_step s c s' c"
  using locate_pane_cases [OF inv, of target]
proof (elim disjE exE conjE)
  fix e assume "locate_pane s target = Return (Inl e)"
  then show ?thesis using session_step_refl [OF inv] by (simp add: handle_pane_resize_def)
next
  fix i k p assume loc: "locate_pane s target = Return (Inr (i, k, p))" and i: "i < length (as_workspaces s)"
    and k: "k < length (ws_tabs (as_workspaces s ! i))"
  let ?t = "ws_tabs (as_workspaces s ! i) ! k"
  let ?r = "resize_pane (tab_layout ?t) p d (resize_amount amount) area"
  obtain lay b where r: "?r = (lay, b)" by fastforce
  have "session_step s c (s\<lparr>as_workspaces := (as_workspaces s)
      [i := (as_workspaces s ! i)\<lparr>ws_tabs := (ws_tabs (as_workspaces s ! i))[k := ?t\<lparr>tab_layout := lay\<rparr>]\<rparr>]\<rparr>) c"
    using resized_tab [OF _ resize_amount_finite, of _ ?t p d amount area] r
    by (intro tab_replaced_step [OF inv i k]) (simp_all add: tab_entries_def)
  then show ?thesis using loc k r
    by (simp add: handle_pane_resize_def resize_in_tab_def nth_tab_def Let_def)
qed

lemma pane_zoom_step:
  assumes inv: "session_inv s c"
  shows "\<exists>a s'. handle_pane_zoom target z s = Return (a, s') \<and> session_step s c s' c"
  using locate_pane_cases [OF inv, of target]
proof (elim disjE exE conjE)
  fix e assume "locate_pane s target = Return (Inl e)"
  then show ?thesis using session_step_refl [OF inv] by (simp add: handle_pane_zoom_def)
next
  fix i k p assume loc: "locate_pane s target = Return (Inr (i, k, p))"
  obtain s1 r where z: "apply_pane_zoom i p (zoom_command z) s = (s1, r)" by fastforce
  have "session_step s c s1 c" using in_place_steps(4) [OF inv, of i p "zoom_command z"] z by simp
  then show ?thesis using loc z step_side(4) [of s c s1 c]
    by (cases r) (auto simp: handle_pane_zoom_def Let_def)
qed

section \<open>Swapping\<close>

lemma swapped_tab:
  assumes "tab_inv n t"
  shows "tab_inv n (t\<lparr>tab_layout := focus_pane (fst (swap_panes (tab_layout t) a b)) a\<rparr>)"
proof -
  let ?l = "fst (swap_panes (tab_layout t) a b)"
  have inv: "layout_inv ?l n" using assms swap_panes_inv by (simp add: tab_inv_def)
  have wf: "layout_wf (tab_layout t)" using assms by (simp add: tab_inv_def layout_inv_def)
  have ids: "set (pane_ids ?l) = set (pane_ids (tab_layout t))"
    using swap_panes_ids [OF wf, of a b]
    by (auto simp: swap_panes_def Let_def swap_ids_def image_iff split: if_splits)
  have "layout_inv (focus_pane ?l a) n" "pane_ids (focus_pane ?l a) = pane_ids ?l"
    using inv by (auto simp: focus_pane_def layout_inv_def layout_simps)
  with assms ids show ?thesis by (auto simp: tab_inv_def other_layout)
qed

lemma swap_at_step:
  assumes inv: "session_inv s c"
  shows "session_step s c (fst (swap_at i k p q s)) c"
proof (cases "i < length (as_workspaces s) \<and> k < length (ws_tabs (as_workspaces s ! i))")
  case True
  let ?t = "ws_tabs (as_workspaces s ! i) ! k"
  obtain lay b where r: "swap_panes (tab_layout ?t) p q = (lay, b)" by fastforce
  define s1 where "s1 = s\<lparr>as_workspaces := (as_workspaces s)
    [i := (as_workspaces s ! i)\<lparr>ws_tabs := (ws_tabs (as_workspaces s ! i))[k := ?t\<lparr>tab_layout := focus_pane lay p\<rparr>]\<rparr>]\<rparr>"
  have s1: "session_step s c s1 c"
    unfolding s1_def using True swapped_tab [of _ ?t p q] r
    by (intro tab_replaced_step [OF inv]) (simp_all add: tab_entries_def)
  have "session_step s c (mark_session_dirty (record_pane_focus_change f i p (fst (switch_workspace_tab i k s1)))) c" for f
    by (intro step_side step_switch_tab s1)
  then show ?thesis using True r s1
    by (simp add: swap_at_def swap_in_tab_def nth_ws_def nth_tab_def Let_def flip: s1_def)
next
  case False
  then have "swap_at i k p q s = (s, False)" by (auto simp: swap_at_def nth_ws_def nth_tab_def)
  then show ?thesis using session_step_refl [OF inv] by simp
qed

lemma swap_target_returns:
  assumes inv: "session_inv s c"
  shows "\<exists>r. swap_target area s pane d source target = Return r"
proof -
  have raw: "\<exists>r. locate_raw s x = Return r" for x
    using parse_pane_id_live [OF inv] by (auto simp: locate_raw_def nth_ws_def split: option.split)
  have "\<exists>r. swap_explicit s x y = Return r" for x y
    using raw [of x] raw [of y] by (auto simp: swap_explicit_def Let_def)
  moreover have "\<exists>r. swap_in_direction area s x dir = Return r" for x dir
    using resolve_optional_live [OF inv, of x] by (auto simp: swap_in_direction_def nth_ws_def split: option.split)
  ultimately show ?thesis by (auto simp: swap_target_def split: option.split)
qed

lemma pane_swap_step:
  assumes inv: "session_inv s c"
  shows "\<exists>a s'. handle_pane_swap area pane d source target s = Return (a, s') \<and> session_step s c s' c"
proof -
  obtain r where r: "swap_target area s pane d source target = Return r" using swap_target_returns [OF inv] by blast
  show ?thesis
    using r session_step_refl [OF inv] swap_at_step [OF inv]
    by (auto simp: handle_pane_swap_def Let_def split_beta split: sum.split option.split)
qed

end
