(* ===== verification/SessionAliases.thy ===== *)
theory SessionAliases
  imports SessionRequests
begin

text \<open>
  Which names the session keeps for panes that have been given another one: only moving a pane to another workspace
  adds an alias, and it is the name the pane had.
\<close>

abbreviation aliases :: "'p app_state \<Rightarrow> (string \<times> pane_id) set" where
  "aliases s \<equiv> set (as_public_pane_id_aliases s)"

section \<open>Operations that keep the aliases\<close>

lemma side_aliases [simp]:
  "as_public_pane_id_aliases (mark_session_dirty s) = as_public_pane_id_aliases s"
  "as_public_pane_id_aliases (remove_alias_shadowed_by_new_pane p s) = as_public_pane_id_aliases s"
  "as_public_pane_id_aliases (record_pane_focus_change f i p s) = as_public_pane_id_aliases s"
  "as_public_pane_id_aliases (record_pane_focus_after_navigation f s) = as_public_pane_id_aliases s"
  "as_public_pane_id_aliases (clear_selection s) = as_public_pane_id_aliases s"
  "as_public_pane_id_aliases (clear_copy_mode_selection s) = as_public_pane_id_aliases s"
  "as_public_pane_id_aliases (sync_copy_mode_with_focus s) = as_public_pane_id_aliases s"
  "as_public_pane_id_aliases (settle_terminal_mode_after_focus s) = as_public_pane_id_aliases s"
  "as_public_pane_id_aliases (clear_copy_mode_for_removed_panes ps s) = as_public_pane_id_aliases s"
  "as_public_pane_id_aliases (sync_selection_after_focus_navigation s) = as_public_pane_id_aliases s"
  "as_public_pane_id_aliases (remove_plugin_pane_records ps s) = as_public_pane_id_aliases s"
  "as_public_pane_id_aliases (modify_ws i g s) = as_public_pane_id_aliases s"
  "as_public_pane_id_aliases (add_terminal t s) = as_public_pane_id_aliases s"
  by (simp_all add: mark_session_dirty_def remove_alias_shadowed_by_new_pane_def
      record_pane_focus_change_def record_pane_focus_after_navigation_def clear_selection_def
      clear_copy_mode_selection_def sync_copy_mode_with_focus_def settle_terminal_mode_after_focus_def
      clear_copy_mode_for_removed_panes_def sync_selection_after_focus_navigation_def
      remove_plugin_pane_records_def modify_ws_def add_terminal_def Let_def split: option.split)

lemma forget_aliases [simp]:
  "as_public_pane_id_aliases (remove_unattached_terminal_id tid s) = as_public_pane_id_aliases s"
  by (simp add: remove_unattached_terminal_id_def Let_def)

lemma fold_forget_aliases:
  "as_public_pane_id_aliases (fold remove_unattached_terminal_id tids s) = as_public_pane_id_aliases s"
  by (induction tids arbitrary: s) simp_all

lemma sweep_aliases [simp]:
  "as_public_pane_id_aliases (remove_unattached_terminal_ids tids s) = as_public_pane_id_aliases s"
  by (simp add: remove_unattached_terminal_ids_def fold_forget_aliases)

lemma in_place_aliases [simp]:
  "as_public_pane_id_aliases (switch_workspace i s) = as_public_pane_id_aliases s"
  "as_public_pane_id_aliases (fst (switch_workspace_tab i k s)) = as_public_pane_id_aliases s"
  "as_public_pane_id_aliases (fst (mark_active_tab_seen s)) = as_public_pane_id_aliases s"
  by (simp_all add: switch_workspace_def switch_workspace_tab_def mark_active_tab_seen_def Let_def split: option.split)

lemma focus_aliases [simp]:
  "as_public_pane_id_aliases (fst (focus_pane_in_workspace i p s)) = as_public_pane_id_aliases s"
  by (simp add: focus_pane_in_workspace_def Let_def split: option.split)

lemma zoom_aliases [simp]:
  "as_public_pane_id_aliases (fst (apply_pane_zoom i p z s)) = as_public_pane_id_aliases s"
proof -
  obtain s1 b where "focus_pane_in_workspace i p s = (s1, b)" by fastforce
  with focus_aliases [of i p s] show ?thesis by (simp add: apply_pane_zoom_def Let_def split: option.split)
qed

lemma move_workspace_aliases:
  "move_workspace i j s = Return (s', b) \<Longrightarrow> as_public_pane_id_aliases s' = as_public_pane_id_aliases s"
  by (auto simp: move_workspace_def Let_def outcome_bind_eq_Return split: if_splits)

lemma close_selected_aliases:
  "close_selected_workspace s = Return s' \<Longrightarrow> as_public_pane_id_aliases s' = as_public_pane_id_aliases s"
  by (auto simp: close_selected_workspace_def Let_def outcome_bind_eq_Return split: if_splits)

lemma pane_died_aliases: "handle_pane_died p s = Return s' \<Longrightarrow> aliases s' \<subseteq> aliases s"
  by (auto simp: handle_pane_died_def Let_def outcome_bind_eq_Return split: if_splits option.splits)

section \<open>Handlers\<close>

lemma create_aliases:
  "create_workspace_with_launch_env gb spawn m cwd foc env s c = (a, s', c') \<Longrightarrow>
    as_public_pane_id_aliases s' = as_public_pane_id_aliases s"
  by (auto simp: create_workspace_with_launch_env_def Let_def split: prod.splits sum.splits if_splits)

lemma workspace_create_aliases:
  assumes "handle_workspace_create gb spawn m cwd foc label env s c = Return (a, s', c')"
  shows "as_public_pane_id_aliases s' = as_public_pane_id_aliases s"
proof -
  obtain res s1 c1 where run: "create_workspace_with_launch_env gb spawn m cwd foc env s c = (res, s1, c1)"
    by (metis prod_cases3)
  then show ?thesis using assms create_aliases [OF run]
    by (cases res) (auto simp: handle_workspace_create_def Let_def split: option.splits if_splits)
qed

lemma tab_create_aliases:
  assumes "handle_tab_create spawn m wid cwd foc label env s c = Return (a, s', c')"
  shows "as_public_pane_id_aliases s' = as_public_pane_id_aliases s"
proof (cases "tab_create_workspace s wid")
  case (Inr i)
  show ?thesis
  proof (cases "nth_ws s i")
    case (Some ws)
    with Inr assms obtain res ws' c1 where run: "create_tab_with_runtime spawn m cwd None env ws c = Return (res, ws', c1)"
      by (auto simp: handle_tab_create_def outcome_bind_eq_Return)
    show ?thesis
      using assms Inr Some run
      by (cases res) (auto simp: handle_tab_create_def Let_def split: option.splits if_splits)
  qed (use assms Inr in \<open>simp add: handle_tab_create_def\<close>)
qed (use assms in \<open>simp add: handle_tab_create_def\<close>)

lemma split_aliases:
  assumes "handle_pane_split spawn m cd target wid d ratio cwd env foc s c = Return (a, s', c')"
  shows "as_public_pane_id_aliases s' = as_public_pane_id_aliases s"
proof (cases "pane_split_target s target wid")
  case (Some q)
  obtain i p where q: "q = (i, p)" by (cases q)
  show ?thesis
  proof (cases "nth_ws s i")
    case ws: (Some ws)
    with Some q assms obtain res ws' c1 where run: "split_pane_with_runtime spawn m cd p
        (split_direction_to_layout d) ratio (Some cwd) env foc None ws c = Return (res, ws', c1)"
      by (auto simp: handle_pane_split_def Let_def outcome_bind_eq_Return)
    consider "res = None" | e where "res = Some (Inl e)" | k pane where "res = Some (Inr (k, pane))"
      by (metis option.exhaust sum.exhaust surj_pair)
    then show ?thesis
      using assms Some q ws run by cases (auto simp: handle_pane_split_def Let_def split: if_splits)
  qed (use assms Some q in \<open>simp add: handle_pane_split_def Let_def\<close>)
qed (use assms in \<open>simp add: handle_pane_split_def\<close>)

lemma closing_aliases:
  "api_close_pane target s = Return (a, s') \<Longrightarrow> as_public_pane_id_aliases s' = as_public_pane_id_aliases s"
  "handle_tab_close target s = Return (b, s') \<Longrightarrow> as_public_pane_id_aliases s' = as_public_pane_id_aliases s"
  "handle_workspace_close target s = Return (b, s') \<Longrightarrow> as_public_pane_id_aliases s' = as_public_pane_id_aliases s"
  by (auto simp: api_close_pane_def handle_tab_close_def handle_workspace_close_def confirm_core Let_def
      outcome_bind_eq_Return dest!: close_selected_aliases split: option.splits if_splits prod.splits)

lemma order_aliases:
  "handle_tab_move target j s = Return (a, s') \<Longrightarrow> as_public_pane_id_aliases s' = as_public_pane_id_aliases s"
  "handle_workspace_move target j s = Return (a, s') \<Longrightarrow> as_public_pane_id_aliases s' = as_public_pane_id_aliases s"
  by (auto simp: handle_tab_move_def handle_workspace_move_def Let_def outcome_bind_eq_Return
      dest: move_workspace_aliases split: option.splits if_splits prod.splits)

lemma focusing_aliases:
  "as_public_pane_id_aliases (snd (handle_workspace_focus target s)) = as_public_pane_id_aliases s"
  "as_public_pane_id_aliases (snd (handle_workspace_rename target label s)) = as_public_pane_id_aliases s"
  "handle_tab_focus target s = Return (a, s') \<Longrightarrow> as_public_pane_id_aliases s' = as_public_pane_id_aliases s"
  "handle_tab_rename target label s = Return (a, s') \<Longrightarrow> as_public_pane_id_aliases s' = as_public_pane_id_aliases s"
  "handle_pane_focus target s = Return (b, s') \<Longrightarrow> as_public_pane_id_aliases s' = as_public_pane_id_aliases s"
  "handle_pane_rename target name s = Return (b, s') \<Longrightarrow> as_public_pane_id_aliases s' = as_public_pane_id_aliases s"
  by (auto simp: handle_workspace_focus_def handle_workspace_rename_def handle_tab_focus_def handle_tab_rename_def
      handle_pane_focus_def handle_pane_rename_def Let_def outcome_bind_eq_Return split: option.splits if_splits)

lemma swap_at_aliases: "as_public_pane_id_aliases (fst (swap_at i k p q s)) = as_public_pane_id_aliases s"
  by (simp add: swap_at_def Let_def split_beta split: option.split)

lemma bind_cases:
  assumes "outcome_bind m f = Return y"
  obtains x where "m = Return x" and "f x = Return y"
  using assms by (auto simp: outcome_bind_eq_Return)

lemma direction_aliases:
  assumes "handle_pane_focus_direction area t d s = Return (a, s')"
  shows "as_public_pane_id_aliases s' = as_public_pane_id_aliases s"
proof -
  from assms [unfolded handle_pane_focus_direction_def] obtain r where "locate_pane s t = Return r"
    by (rule bind_cases)
  then show ?thesis using assms
    by (cases r) (auto simp: handle_pane_focus_direction_def Let_def split: option.splits)
qed

lemma resize_aliases:
  assumes "handle_pane_resize area t d amount s = Return (a, s')"
  shows "as_public_pane_id_aliases s' = as_public_pane_id_aliases s"
proof -
  from assms [unfolded handle_pane_resize_def] obtain r where "locate_pane s t = Return r"
    by (rule bind_cases)
  then show ?thesis using assms
    by (cases r) (auto simp: handle_pane_resize_def Let_def split_beta)
qed

lemma zooming_aliases:
  assumes "handle_pane_zoom t z s = Return (a, s')"
  shows "as_public_pane_id_aliases s' = as_public_pane_id_aliases s"
proof -
  from assms [unfolded handle_pane_zoom_def] obtain r where loc: "locate_pane s t = Return r"
    by (rule bind_cases)
  show ?thesis
  proof (cases r)
    case (Inr q)
    obtain i k p where q: "q = (i, k, p)" by (cases q)
    obtain s1 z1 where "apply_pane_zoom i p (zoom_command z) s = (s1, z1)" by fastforce
    moreover from this have "as_public_pane_id_aliases s1 = as_public_pane_id_aliases s"
      using zoom_aliases [of i p "zoom_command z" s] by simp
    ultimately show ?thesis using assms loc Inr q
      by (cases z1) (auto simp: handle_pane_zoom_def Let_def)
  qed (use assms loc in \<open>simp add: handle_pane_zoom_def\<close>)
qed

lemma swap_aliases:
  assumes "handle_pane_swap area t d x y s = Return (a, s')"
  shows "as_public_pane_id_aliases s' = as_public_pane_id_aliases s"
proof -
  from assms [unfolded handle_pane_swap_def] obtain r where "swap_target area s t d x y = Return r"
    by (rule bind_cases)
  then show ?thesis using assms swap_at_aliases
    by (cases r) (auto simp: handle_pane_swap_def Let_def split_beta split: option.splits)
qed

section \<open>A moved pane keeps its old name\<close>

lemma place_aliases:
  "place_moved_pane gb gs cd ctx resolved foc tid moved s c = Return (Inr q, s', c') \<Longrightarrow>
    as_public_pane_id_aliases s' = as_public_pane_id_aliases s"
  by (auto simp: place_moved_pane_def Let_def outcome_bind_eq_Return split_beta
      split: resolved_pane_move_destination.splits option.splits sum.splits if_splits)

lemma emptied_aliases [simp]:
  "as_public_pane_id_aliases (remove_emptied_workspace i s) = as_public_pane_id_aliases s"
  by (simp add: remove_emptied_workspace_def Let_def)

lemma finish_aliases:
  assumes "finish_pane_move gb gs cd ctx resolved foc tid previous_pane_id previous_tab_id f tk s c =
      Return (Inr a, s', c')"
  shows "aliases s' \<subseteq> insert (previous_pane_id, mp_pane_id (tp_moved tk)) (aliases s)"
proof -
  have upd: "set (AList.update k v m) \<subseteq> insert (k, v) (set m)" for k v and m :: "(string \<times> pane_id) list"
    by (induction m) auto
  let ?cross = "is_cross_workspace resolved (rc_previous_workspace_id ctx)"
  let ?p = "mp_pane_id (tp_moved tk)" and ?i = "rc_source_ws_idx ctx"
  define s1 where "s1 = (if ?cross then (modify_ws ?i (unregister_moved_pane ?p) s)
    \<lparr>as_public_pane_id_aliases := AList.update previous_pane_id ?p (as_public_pane_id_aliases s)\<rparr> else s)"
  define s2 where "s2 = (if tp_workspace_empty tk \<and> ?cross then remove_emptied_workspace ?i s1 else s1)"
  have s2: "aliases s2 \<subseteq> insert (previous_pane_id, ?p) (aliases s)"
    using upd [of previous_pane_id ?p "as_public_pane_id_aliases s"] by (auto simp: s2_def s1_def)
  note fin = assms [unfolded finish_pane_move_def Let_def, folded s1_def, folded s2_def]
  from fin obtain pl s3 c3 where place: "place_moved_pane gb gs cd ctx resolved foc tid (tp_moved tk) s2 c = Return (pl, s3, c3)"
    by (auto simp: outcome_bind_eq_Return)
  show ?thesis
  proof (cases pl)
    case (Inl e)
    then show ?thesis using fin place by simp
  next
    case (Inr q)
    then have "as_public_pane_id_aliases s' = as_public_pane_id_aliases s3"
      using fin place by (cases q) (auto split: if_splits)
    then show ?thesis using place_aliases [OF place [unfolded Inr]] s2 by simp
  qed
qed

lemma move_aliases:
  assumes inv: "session_inv s c" and move: "handle_pane_move gb gs cd pane dest foc s c = Return (Inr a, s', c')"
    and mem: "(x, q) \<in> aliases s'"
  shows "(x, q) \<in> aliases s \<or> (\<exists>i < length (as_workspaces s). public_pane_id s i q = Some x)"
proof (cases "parse_pane_id s pane")
  case None
  then show ?thesis using move by (simp add: handle_pane_move_def)
next
  case (Some r)
  obtain i p where r: "r = (i, p)" by (cases r)
  have i: "i < length (as_workspaces s)" and p: "p \<in> set (ws_ids (as_workspaces s ! i))"
    using parse_pane_id_live [OF inv] Some r by auto
  let ?ws = "as_workspaces s ! i"
  obtain k where k: "find_tab_index_for_pane ?ws p = Some k" using find_tab_exists [OF p] by blast
  note kt = find_tab_Some [OF k]
  let ?t = "ws_tabs ?ws ! k"
  obtain st where "map_of (tab_panes ?t) p = Some st" using kt(2) by (auto simp: lookup_tab_ids)
  then have tid: "tab_terminal_id ?t p = Some (ps_attached_terminal_id st)" by (simp add: tab_terminal_id_def)
  obtain name where name: "public_pane_id s i p = Some name" using pane_named [OF inv i p] by blast
  obtain ws tk where take: "ws_take_pane_for_move ?ws p = Return (ws, Some tk)" "mp_pane_id (tp_moved tk) = p"
    using take_pane_contract [OF session_ws [OF inv i] p] by auto
  let ?res = "resolve_pane_move s i k p (ws_id ?ws) dest"
  have "s' = s \<or> (\<exists>ctx resolved t f. finish_pane_move gb gs cd ctx resolved foc (ps_attached_terminal_id st) name t f tk
      (s\<lparr>as_workspaces := (as_workspaces s)[i := ws]\<rparr>) c = Return (Inr a, s', c'))"
  proof (cases "tab_zoomed ?t")
    case False
    then show ?thesis
    proof (cases ?res)
      case (Return r')
      then show ?thesis
        using move Some r i k kt tid False take name
        by (cases r') (auto simp: handle_pane_move_def nth_ws_def nth_tab_def tab_named Let_def)
    qed (use move Some r i k kt tid in \<open>simp add: handle_pane_move_def nth_ws_def nth_tab_def tab_named Let_def\<close>)
  qed (use move Some r i k kt tid in \<open>simp add: handle_pane_move_def nth_ws_def nth_tab_def tab_named Let_def\<close>)
  then show ?thesis
  proof (elim disjE exE)
    fix ctx resolved t f
    assume "finish_pane_move gb gs cd ctx resolved foc (ps_attached_terminal_id st) name t f tk
      (s\<lparr>as_workspaces := (as_workspaces s)[i := ws]\<rparr>) c = Return (Inr a, s', c')"
    from finish_aliases [OF this] mem take(2) have "(x, q) \<in> aliases s \<or> x = name \<and> q = p" by auto
    then show ?thesis using i name by blast
  qed (use mem in simp)
qed

end
