(* ===== verification/SessionServe.thy ===== *)
theory SessionServe
  imports SessionAliases
begin

text \<open>
  The session as the socket clients drive it: a request is answered by its handler, and between requests the
  processes of panes may end.  The environment of the server - how a process is started, the readers of git, the
  directory it runs in and the area panes are drawn in - may be another one of a given set at every request, and the
  clock is given with it.
  \<open>session_reach\<close> holds of the states such a run goes through, from a session without workspaces on, as long as the
  counters have room for another identifier (the pane counter has 32 bits, the others 64).
\<close>

section \<open>Requests\<close>

record ('e, 'rt) environment =
  en_spawn :: "('e, 'rt) spawner"
  en_git_branch :: "string \<Rightarrow> string option"
  en_git_space :: "string \<Rightarrow> git_space_metadata option"
  en_current_dir :: "string option"
  en_area :: rect

datatype request =
    WorkspaceCreate string bool "string option" "(string \<times> string) list"
  | WorkspaceFocus string
  | WorkspaceRename string string
  | WorkspaceMove string nat
  | WorkspaceClose string
  | TabCreate "string option" string bool "string option" "(string \<times> string) list"
  | TabFocus string
  | TabRename string string
  | TabMove string nat
  | TabClose string
  | PaneSplit "string option" "string option" split_direction "f32 option" string "(string \<times> string) list" bool
  | PaneSwap "string option" "nav_direction option" "string option" "string option"
  | PaneMove string pane_move_destination bool
  | PaneZoom "string option" pane_zoom_mode
  | PaneFocusDirection "string option" nav_direction
  | PaneResize "string option" nav_direction "f32 option"
  | PaneFocus string
  | PaneRename string "string option"
  | PaneClose string
  | PaneDied pane_id

definition error_of :: "string + 'a \<Rightarrow> string option" where
  "error_of answer = (case answer of Inl e \<Rightarrow> Some e | Inr _ \<Rightarrow> None)"

definition reply ::
  "counters \<Rightarrow> ((string + 'a) \<times> 'p app_state) outcome \<Rightarrow> (string option \<times> 'p app_state \<times> counters) outcome" where
  "reply c r = outcome_bind r (\<lambda>(answer, s'). Return (error_of answer, s', c))"

definition reply_drawn ::
  "((string + 'a) \<times> 'p app_state \<times> counters) outcome \<Rightarrow> (string option \<times> 'p app_state \<times> counters) outcome" where
  "reply_drawn r = outcome_bind r (\<lambda>(answer, s', c'). Return (error_of answer, s', c'))"

fun serve ::
  "('e, 'rt) environment \<Rightarrow> nat \<Rightarrow> request \<Rightarrow> 'p app_state \<Rightarrow> counters \<Rightarrow>
     (string option \<times> 'p app_state \<times> counters) outcome" where
  "serve e m (WorkspaceCreate cwd foc label env) s c =
     reply_drawn (handle_workspace_create (en_git_branch e) (en_spawn e) m cwd foc label env s c)"
| "serve e m (WorkspaceFocus target) s c = reply c (Return (handle_workspace_focus target s))"
| "serve e m (WorkspaceRename target label) s c = reply c (Return (handle_workspace_rename target label s))"
| "serve e m (WorkspaceMove target j) s c = reply c (handle_workspace_move target j s)"
| "serve e m (WorkspaceClose target) s c = reply c (handle_workspace_close target s)"
| "serve e m (TabCreate wid cwd foc label env) s c =
     reply_drawn (handle_tab_create (en_spawn e) m wid cwd foc label env s c)"
| "serve e m (TabFocus target) s c = reply c (handle_tab_focus target s)"
| "serve e m (TabRename target label) s c = reply c (handle_tab_rename target label s)"
| "serve e m (TabMove target j) s c = reply c (handle_tab_move target j s)"
| "serve e m (TabClose target) s c = reply c (handle_tab_close target s)"
| "serve e m (PaneSplit target wid d ratio cwd env foc) s c =
     reply_drawn (handle_pane_split (en_spawn e) m (en_current_dir e) target wid d ratio cwd env foc s c)"
| "serve e m (PaneSwap target d x y) s c = reply c (handle_pane_swap (en_area e) target d x y s)"
| "serve e m (PaneMove target dest foc) s c =
     reply_drawn (handle_pane_move (en_git_branch e) (en_git_space e) (en_current_dir e) target dest foc s c)"
| "serve e m (PaneZoom target z) s c = reply c (handle_pane_zoom target z s)"
| "serve e m (PaneFocusDirection target d) s c = reply c (handle_pane_focus_direction (en_area e) target d s)"
| "serve e m (PaneResize target d amount) s c = reply c (handle_pane_resize (en_area e) target d amount s)"
| "serve e m (PaneFocus target) s c = reply c (handle_pane_focus target s)"
| "serve e m (PaneRename target label) s c = reply c (handle_pane_rename target label s)"
| "serve e m (PaneClose target) s c = reply c (api_close_pane target s)"
| "serve e m (PaneDied p) s c = outcome_bind (handle_pane_died p s) (\<lambda>s'. Return (None, s', c))"

text \<open>The one request that panics: a pane to a new tab of a workspace given by a position out of range.\<close>

fun out_of_range :: "request \<Rightarrow> 'p app_state \<Rightarrow> bool" where
  "out_of_range (PaneMove target (MoveToNewTab (Some v) _) _) s =
     (is_some_and (parse_pane_id s target) (\<lambda>(i, p).
        is_some_and (find_tab_index_for_pane (as_workspaces s ! i) p) (\<lambda>k.
          \<not> tab_zoomed (ws_tabs (as_workspaces s ! i) ! k))) \<and>
      is_some_and (parse_workspace_id s v) (\<lambda>n. length (as_workspaces s) \<le> n))"
| "out_of_range _ s = False"

section \<open>Reachable sessions\<close>

definition empty_session :: "'p app_state \<Rightarrow> counters \<Rightarrow> bool" where
  "empty_session s c \<longleftrightarrow>
     as_workspaces s = [] \<and> as_active s = None \<and> as_selected s = 0 \<and> as_terminals s = [] \<and>
     as_public_pane_id_aliases s = [] \<and>
     c = \<lparr>next_pane_id = 1, next_terminal_id = 1, next_workspace_id = 1\<rparr>"

inductive session_reach :: "('e, 'rt) environment set \<Rightarrow> 'p app_state \<Rightarrow> counters \<Rightarrow> bool" for E where
  start: "empty_session s c \<Longrightarrow> session_reach E s c"
| request: "session_reach E s c \<Longrightarrow> e \<in> E \<Longrightarrow> room m c s \<Longrightarrow> serve e m r s c = Return (answer, s', c') \<Longrightarrow>
    session_reach E s' c'"

inductive_cases session_reachE: "session_reach E s c"

text \<open>What every request keeps: the session stays well formed and every alias names at most one pane.\<close>

definition kept :: "'p app_state \<Rightarrow> counters \<Rightarrow> bool" where
  "kept s c \<longleftrightarrow> session_inv s c \<and> aliases_ok s c"

definition good_step :: "'p app_state \<Rightarrow> counters \<Rightarrow> 'p app_state \<Rightarrow> counters \<Rightarrow> bool" where
  "good_step s c s' c' \<longleftrightarrow> session_step s c s' c' \<and> aliases_ok s' c'"

lemma step_keeps_aliases:
  assumes "kept s c" and "session_step s c s' c'" and "aliases s' \<subseteq> aliases s"
  shows "good_step s c s' c'"
  using assms aliases_step [of s c s' c'] by (auto simp: good_step_def kept_def)

lemma reply_good:
  assumes "kept s c" and "\<exists>a s'. r = Return (a, s') \<and> session_step s c s' c"
    and "\<And>a s'. r = Return (a, s') \<Longrightarrow> as_public_pane_id_aliases s' = as_public_pane_id_aliases s"
  shows "\<exists>x s' c'. reply c r = Return (x, s', c') \<and> good_step s c s' c'"
proof -
  obtain a s' where r: "r = Return (a, s')" "session_step s c s' c" using assms(2) by blast
  then have "good_step s c s' c" using step_keeps_aliases [OF assms(1)] assms(3) by simp
  with r show ?thesis by (simp add: reply_def)
qed

lemma reply_drawn_good:
  assumes "kept s c" and "\<exists>a s' c'. r = Return (a, s', c') \<and> session_step s c s' c'"
    and "\<And>a s' c'. r = Return (a, s', c') \<Longrightarrow> as_public_pane_id_aliases s' = as_public_pane_id_aliases s"
  shows "\<exists>x s' c'. reply_drawn r = Return (x, s', c') \<and> good_step s c s' c'"
proof -
  obtain a s' c' where r: "r = Return (a, s', c')" "session_step s c s' c'" using assms(2) by blast
  then have "good_step s c s' c'" using step_keeps_aliases [OF assms(1)] assms(3) by simp
  with r show ?thesis by (simp add: reply_drawn_def)
qed

lemma move_panics:
  assumes inv: "session_inv s c"
  shows "handle_pane_move gb gs cd pane dest foc s c = Panic \<Longrightarrow> room m c s \<Longrightarrow> out_of_range (PaneMove pane dest foc) s"
    and "out_of_range (PaneMove pane dest foc) s \<Longrightarrow> handle_pane_move gb gs cd pane dest foc s c = Panic"
proof -
  assume panic: "handle_pane_move gb gs cd pane dest foc s c = Panic" and r: "room m c s"
  then obtain v label n where dest: "dest = MoveToNewTab (Some v) label" "parse_workspace_id s v = Some n"
    "length (as_workspaces s) \<le> n"
    using pane_move_contract [OF inv, where gb = gb and gs = gs and cd = cd and pane = pane and dest = dest and foc = foc] by (auto simp: room_def)
  from panic obtain i p where q: "parse_pane_id s pane = Some (i, p)"
    by (auto simp: handle_pane_move_def split: option.splits)
  then have i: "i < length (as_workspaces s)" and p: "p \<in> set (ws_ids (as_workspaces s ! i))"
    using parse_pane_id_live [OF inv] by auto
  obtain k where k: "find_tab_index_for_pane (as_workspaces s ! i) p = Some k" using find_tab_exists [OF p] by blast
  note kt = find_tab_Some [OF k]
  have "\<not> tab_zoomed (ws_tabs (as_workspaces s ! i) ! k)"
    using panic q i k kt
    by (auto simp: handle_pane_move_def nth_ws_def nth_tab_def tab_named Let_def split: option.splits)
  with dest q k show "out_of_range (PaneMove pane dest foc) s" by simp
next
  assume out: "out_of_range (PaneMove pane dest foc) s"
  then obtain v label where dest: "dest = MoveToNewTab (Some v) label"
    by (cases "(PaneMove pane dest foc, s)" rule: out_of_range.cases) auto
  with out obtain n i p k where n: "parse_workspace_id s v = Some n" "length (as_workspaces s) \<le> n"
    and q: "parse_pane_id s pane = Some (i, p)" and k: "find_tab_index_for_pane (as_workspaces s ! i) p = Some k"
    and z: "\<not> tab_zoomed (ws_tabs (as_workspaces s ! i) ! k)"
    by (auto simp: is_some_and_def split: option.splits)
  have i: "i < length (as_workspaces s)" using parse_pane_id_live [OF inv q] by simp
  note kt = find_tab_Some [OF k]
  let ?t = "ws_tabs (as_workspaces s ! i) ! k"
  obtain st where "map_of (tab_panes ?t) p = Some st" using kt(2) by (auto simp: lookup_tab_ids)
  then have tid: "tab_terminal_id ?t p = Some (ps_attached_terminal_id st)" by (simp add: tab_terminal_id_def)
  show "handle_pane_move gb gs cd pane dest foc s c = Panic"
    using dest n q i k kt z tid
    by (simp add: handle_pane_move_def resolve_pane_move_def public_workspace_id_def nth_ws_def nth_tab_def
        tab_named Let_def)
qed

lemma move_good:
  assumes k: "kept s c" and r: "room m c s" and "handle_pane_move gb gs cd pane dest foc s c = Return (a, s', c')"
  shows "good_step s c s' c'"
proof -
  have inv: "session_inv s c" and ok: "aliases_ok s c" using k by (simp_all add: kept_def)
  obtain p where safe: "moved_safely p a s c s' c'"
    using pane_move_contract [OF inv, where gb = gb and gs = gs and cd = cd and pane = pane and dest = dest and foc = foc]
      r assms(3) unchanged_safe(1) [OF inv] by (cases a) (auto simp: room_def split: option.splits)
  then have step: "session_step s c s' c'" by (simp add: moved_safely_def)
  show ?thesis
  proof (cases a)
    case (Inl e)
    with safe show ?thesis using ok step by (simp add: moved_safely_def good_step_def)
  next
    case (Inr x)
    from aliases_step [OF inv ok step] move_aliases [OF inv assms(3) [unfolded Inr]] step
    show ?thesis by (simp add: good_step_def)
  qed
qed

lemma serve_good:
  assumes k: "kept s c" and r: "room m c s"
  shows "(serve e m q s c = Panic \<and> out_of_range q s) \<or>
    (\<exists>x s' c'. serve e m q s c = Return (x, s', c') \<and> \<not> out_of_range q s \<and> good_step s c s' c')"
proof -
  have inv: "session_inv s c" using k by (simp add: kept_def)
  note plain = reply_good [OF k] and drawn = reply_drawn_good [OF k]
  have now: "good_step s c s' c" if "session_step s c s' c" "as_public_pane_id_aliases s' = as_public_pane_id_aliases s" for s'
    using step_keeps_aliases [OF k that(1)] that(2) by simp
  show ?thesis
  proof (cases q)
    case (WorkspaceCreate cwd foc label env)
    then show ?thesis by simp (rule drawn [OF workspace_create_step [OF inv r]], rule workspace_create_aliases)
  next
    case (WorkspaceFocus t)
    then show ?thesis
      using now [OF workspace_focus_step [OF inv] focusing_aliases(1), of t] by (auto simp: reply_def split_beta)
  next
    case (WorkspaceRename t l)
    then show ?thesis
      using now [OF workspace_rename_step [OF inv] focusing_aliases(2), of t l] by (auto simp: reply_def split_beta)
  next
    case (WorkspaceMove t j)
    then show ?thesis by simp (rule plain [OF workspace_move_step [OF inv]], rule order_aliases(2))
  next
    case (WorkspaceClose t)
    then show ?thesis by simp (rule plain [OF workspace_close_step [OF inv]], rule closing_aliases(3))
  next
    case (TabCreate w cwd foc label env)
    then show ?thesis by simp (rule drawn [OF tab_create_step [OF inv r]], rule tab_create_aliases)
  next
    case (TabFocus t)
    then show ?thesis by simp (rule plain [OF tab_focus_step [OF inv]], rule focusing_aliases(3))
  next
    case (TabRename t l)
    then show ?thesis by simp (rule plain [OF tab_rename_step [OF inv]], rule focusing_aliases(4))
  next
    case (TabMove t j)
    then show ?thesis by simp (rule plain [OF tab_move_step [OF inv]], rule order_aliases(1))
  next
    case (TabClose t)
    then show ?thesis by simp (rule plain [OF tab_close_step [OF inv]], rule closing_aliases(2))
  next
    case (PaneSplit t w d ratio cwd env foc)
    then show ?thesis by simp (rule drawn [OF pane_split_step [OF inv r]], rule split_aliases)
  next
    case (PaneSwap t d x y)
    then show ?thesis by simp (rule plain [OF pane_swap_step [OF inv]], rule swap_aliases)
  next
    case (PaneMove pane dest foc)
    show ?thesis
    proof (cases "handle_pane_move (en_git_branch e) (en_git_space e) (en_current_dir e) pane dest foc s c")
      case Panic
      with PaneMove move_panics(1) [OF inv Panic r] show ?thesis by (simp add: reply_drawn_def)
    next
      case (Return y)
      then have "\<not> out_of_range (PaneMove pane dest foc) s" using move_panics(2) [OF inv] by (metis outcome.distinct(1))
      with PaneMove Return move_good [OF k r] show ?thesis by (cases y) (auto simp: reply_drawn_def)
    qed
  next
    case (PaneZoom t z)
    then show ?thesis by simp (rule plain [OF pane_zoom_step [OF inv]], rule zooming_aliases)
  next
    case (PaneFocusDirection t d)
    then show ?thesis by simp (rule plain [OF pane_focus_direction_step [OF inv]], rule direction_aliases)
  next
    case (PaneResize t d amount)
    then show ?thesis by simp (rule plain [OF pane_resize_step [OF inv]], rule resize_aliases)
  next
    case (PaneFocus t)
    then show ?thesis by simp (rule plain [OF pane_focus_step [OF inv]], rule focusing_aliases(5))
  next
    case (PaneRename t l)
    then show ?thesis by simp (rule plain [OF pane_rename_step [OF inv]], rule focusing_aliases(6))
  next
    case (PaneClose t)
    then show ?thesis by simp (rule plain [OF pane_close_step [OF inv]], rule closing_aliases(1))
  next
    case (PaneDied p)
    obtain s' where s': "handle_pane_died p s = Return s'" "session_step s c s' c" using pane_died_step [OF inv] by blast
    with step_keeps_aliases [OF k s'(2) pane_died_aliases [OF s'(1)]] PaneDied show ?thesis by simp
  qed
qed

section \<open>Every reachable session\<close>

lemma empty_kept: "empty_session s c \<Longrightarrow> kept s c"
  by (simp add: empty_session_def kept_def session_inv_def aliases_ok_def focus_valid_def wss_inv_def wss_ids_def
      all_entries_def entries_distinct_def)

lemma serve_kept:
  assumes "kept s c" and "room m c s" and "serve e m q s c = Return (x, s', c')"
  shows "kept s' c'" "session_step s c s' c'"
  using serve_good [OF assms(1,2), of e q] assms(3) by (auto simp: good_step_def kept_def session_step_def)

lemma reach_kept: "session_reach E s c \<Longrightarrow> kept s c"
  by (induction rule: session_reach.induct) (use empty_kept serve_kept(1) in blast)+

lemma reach_inv: "session_reach E s c \<Longrightarrow> session_inv s c"
  by (drule reach_kept) (simp add: kept_def)

section \<open>Runs\<close>

text \<open>
  What holds of a run, from what holds of a step: an invariant that every step keeps and a preorder that every step
  follows hold between the ends of every sequence of steps.
\<close>

locale state_machine =
  fixes inv :: "'s \<Rightarrow> bool" and step :: "'s \<Rightarrow> 's \<Rightarrow> bool" and follows :: "'s \<Rightarrow> 's \<Rightarrow> bool"
  assumes preserved: "inv s \<Longrightarrow> step s s' \<Longrightarrow> inv s'"
    and stepwise: "inv s \<Longrightarrow> step s s' \<Longrightarrow> follows s s'"
    and reflexive: "inv s \<Longrightarrow> follows s s"
    and transitive: "follows s s' \<Longrightarrow> follows s' s'' \<Longrightarrow> follows s s''"
begin

lemma along:
  assumes "step\<^sup>*\<^sup>* s s'" and "inv s"
  shows "inv s' \<and> follows s s'"
  using assms
proof (induction rule: rtranclp_induct)
  case base
  then show ?case by (simp add: reflexive)
next
  case (step y z)
  then have "inv y" "follows s y" by simp_all
  with step.hyps(2) show ?case using preserved stepwise transitive by blast
qed

end

text \<open>One request, with an answer, in a state that has room for another identifier.\<close>

inductive served ::
  "('e, 'rt) environment set \<Rightarrow> 'p app_state \<times> counters \<Rightarrow> 'p app_state \<times> counters \<Rightarrow> bool" for E where
  "e \<in> E \<Longrightarrow> room m c s \<Longrightarrow> serve e m q s c = Return (answer, s', c') \<Longrightarrow> served E (s, c) (s', c')"

inductive_simps served_iff: "served E (s, c) (s', c')"

lemma served_kept: "kept s c \<Longrightarrow> served E (s, c) (s', c') \<Longrightarrow> kept s' c' \<and> session_step s c s' c'"
  unfolding served_iff using serve_kept by blast

interpretation server: state_machine "\<lambda>(s, c). kept s c" "served E" "\<lambda>(s, c) (s', c'). session_step s c s' c'" for E
proof unfold_locales
  fix x y z :: "'a app_state \<times> counters"
  show "(case x of (s, c) \<Rightarrow> kept s c) \<Longrightarrow> served E x y \<Longrightarrow> (case y of (s, c) \<Rightarrow> kept s c)"
    "(case x of (s, c) \<Rightarrow> kept s c) \<Longrightarrow> served E x y \<Longrightarrow>
      (case x of (s, c) \<Rightarrow> \<lambda>(s', c'). session_step s c s' c') y"
    by (cases x; cases y; simp; drule (1) served_kept; simp)+
  show "(case x of (s, c) \<Rightarrow> kept s c) \<Longrightarrow> (case x of (s, c) \<Rightarrow> \<lambda>(s', c'). session_step s c s' c') x"
    by (cases x) (simp add: kept_def session_step_refl)
  show "(case x of (s, c) \<Rightarrow> \<lambda>(s', c'). session_step s c s' c') y \<Longrightarrow>
      (case y of (s, c) \<Rightarrow> \<lambda>(s', c'). session_step s c s' c') z \<Longrightarrow>
      (case x of (s, c) \<Rightarrow> \<lambda>(s', c'). session_step s c s' c') z"
    using session_step_trans by (cases x; cases y; cases z; simp) blast
qed

text \<open>Later in the same run.\<close>

inductive later :: "('e, 'rt) environment set \<Rightarrow> 'p app_state \<Rightarrow> counters \<Rightarrow> 'p app_state \<Rightarrow> counters \<Rightarrow> bool" for E s c where
  now: "later E s c s c"
| more: "later E s c s' c' \<Longrightarrow> e \<in> E \<Longrightarrow> room m c' s' \<Longrightarrow> serve e m r s' c' = Return (answer, s'', c'') \<Longrightarrow> later E s c s'' c''"

lemma later_run: "later E s c s' c' \<Longrightarrow> (served E)\<^sup>*\<^sup>* (s, c) (s', c')"
  by (induction rule: later.induct) (blast intro: served.intros rtranclp.rtrancl_into_rtrancl)+

lemma later_step:
  assumes "later E s c s' c'" and "kept s c"
  shows "kept s' c' \<and> session_step s c s' c'"
  using server.along [OF later_run [OF assms(1)]] assms(2) by simp

lemma later_reach: "session_reach E s c \<Longrightarrow> later E s c s' c' \<Longrightarrow> session_reach E s' c'"
  by (erule later.induct) (auto intro: session_reach.request)

end
