(* ===== verification/WorkspaceAggregate.thy ===== *)
theory WorkspaceAggregate
  imports Workspaces
begin

text \<open>
  What a workspace shows of its agents (\<open>src/workspace/aggregate.rs\<close>): the state that stands for all of its
  panes, whether one of them is working, and the rows of the agent panel.
\<close>

record pane_detail =
  pd_pane_id :: pane_id
  pd_tab_idx :: nat
  pd_tab_label :: string
  pd_label :: string
  pd_pane_label :: "string option"
  pd_terminal_title :: "string option"
  pd_terminal_title_stripped :: "string option"
  pd_agent_label :: string
  pd_agent :: "agent option"
  pd_state :: agent_state
  pd_seen :: bool
  pd_last_agent_state_change_seq :: "u64 option"
  pd_state_labels :: "(string, string) hash_map"
  pd_tokens :: "(string, string) hash_map"

definition tab_has_working_pane :: "(string, terminal_state) hash_map \<Rightarrow> tab \<Rightarrow> bool" where
  "tab_has_working_pane terminals t =
     list_ex (\<lambda>pane. is_some_and (map_of terminals (ps_attached_terminal_id pane))
       (\<lambda>terminal. ts_state terminal = Working)) (hm_values (tab_panes t))"

text \<open>One row; \<open>now\<close> is the clock that ends the validity of reported metadata.\<close>

definition pane_detail_for ::
  "(string, terminal_state) hash_map \<Rightarrow> instant \<Rightarrow> nat \<Rightarrow> string \<Rightarrow> tab \<Rightarrow> pane_id \<Rightarrow> pane_detail option" where
  "pane_detail_for terminals now tab_idx tab_label t i =
     Option.bind (map_of (tab_panes t) i) (\<lambda>pane.
     Option.bind (map_of terminals (ps_attached_terminal_id pane)) (\<lambda>terminal.
     Option.bind (or_else (ts_agent_name terminal) (effective_agent_label terminal)) (\<lambda>fallback_agent_label.
     let agent_label = unwrap_or (effective_display_agent terminal now) fallback_agent_label;
         presentation = effective_presentation_for_state_at terminal (ts_state terminal) now
     in Some
       \<lparr>pd_pane_id = i, pd_tab_idx = tab_idx, pd_tab_label = tab_label, pd_label = agent_label,
        pd_pane_label = or_else (effective_title terminal now) (ts_manual_label terminal),
        pd_terminal_title = ts_terminal_title terminal,
        pd_terminal_title_stripped = terminal_title_stripped terminal,
        pd_agent_label = agent_label, pd_agent = effective_known_agent terminal,
        pd_state = ts_state terminal, pd_seen = ps_seen pane,
        pd_last_agent_state_change_seq = ts_last_agent_state_change_seq terminal,
        pd_state_labels = ep_state_labels presentation,
        pd_tokens = tokens_values (ts_metadata_tokens terminal)\<rparr>)))"

definition tab_pane_details ::
  "(string, terminal_state) hash_map \<Rightarrow> instant \<Rightarrow> nat \<Rightarrow> string \<Rightarrow> tab \<Rightarrow> pane_detail list" where
  "tab_pane_details terminals now tab_idx tab_label t =
     List.map_filter (pane_detail_for terminals now tab_idx tab_label t) (pane_ids (tab_layout t))"

fun pane_attention_priority :: "agent_state \<times> bool \<Rightarrow> nat" where
  "pane_attention_priority (Blocked, _) = 4"
| "pane_attention_priority (Idle, False) = 3"
| "pane_attention_priority (Working, _) = 2"
| "pane_attention_priority (Idle, True) = 1"
| "pane_attention_priority (Unknown, _) = 0"

text \<open>The states of the panes whose terminal is known, in the order of the iteration.\<close>

definition pane_states :: "(string, terminal_state) hash_map \<Rightarrow> workspace \<Rightarrow> (agent_state \<times> bool) list" where
  "pane_states terminals ws =
     List.map_filter (\<lambda>pane. map_option (\<lambda>terminal. (ts_state terminal, ps_seen pane))
       (map_of terminals (ps_attached_terminal_id pane)))
     (concat (map (\<lambda>t. hm_values (tab_panes t)) (ws_tabs ws)))"

definition aggregate_state :: "(string, terminal_state) hash_map \<Rightarrow> workspace \<Rightarrow> agent_state \<times> bool" where
  "aggregate_state terminals ws =
     unwrap_or (max_by_key pane_attention_priority (pane_states terminals ws)) (Unknown, True)"

definition has_working_pane :: "(string, terminal_state) hash_map \<Rightarrow> workspace \<Rightarrow> bool" where
  "has_working_pane terminals ws = list_ex (tab_has_working_pane terminals) (ws_tabs ws)"

text \<open>The separator is the middle dot, U+00B7.\<close>

definition pane_details :: "(string, terminal_state) hash_map \<Rightarrow> instant \<Rightarrow> workspace \<Rightarrow> pane_detail list" where
  "pane_details terminals now ws =
     (let multi_tab = (1 < length (ws_tabs ws));
          details = concat (map (\<lambda>(tab_idx, t).
            let tab_label = unwrap_or (tab_display_name ws tab_idx) (show_nat (tab_idx + 1))
            in tab_pane_details terminals now tab_idx tab_label t) (enumerate 0 (ws_tabs ws)))
      in map (\<lambda>detail.
           if multi_tab
           then detail\<lparr>pd_label := pd_tab_label detail @ [CHR 0xC2, CHR 0xB7] @ pd_agent_label detail\<rparr>
           else detail) details)"

end
