(* ===== verification/WorkspaceProps.thy ===== *)
theory WorkspaceProps
  imports SessionServe WorkspaceAggregate
begin

text \<open>
  Properties of workspaces and of the session: well-formedness of every state the requests lead to, which request
  panics, moving a pane, names and what they denote over time, and what a workspace shows of its agents.
\<close>

section \<open>A concrete session\<close>

text \<open>A server in which every process starts, before and after its first request.\<close>

definition plain_env :: "(unit, unit) environment" where
  "plain_env = \<lparr>en_spawn = (\<lambda>_ _ _ _. Inr ()), en_git_branch = (\<lambda>_. None), en_git_space = (\<lambda>_. None),
     en_current_dir = None, en_area = \<lparr>rx = 0, ry = 0, rwidth = 80, rheight = 24\<rparr>\<rparr>"

definition empty_app :: "unit app_state" where
  "empty_app = \<lparr>as_workspaces = [], as_active = None, as_selected = 0, as_mode = ModeNavigate, as_terminals = [],
     as_previous_pane_focus = None, as_pane_id_aliases = [], as_public_pane_id_aliases = [], as_plugin_panes = [],
     as_pending_agent_notifications = [], as_copy_mode = None, as_selection = None, as_confirm_close = True,
     as_session_dirty = False, as_terminal_runtime_shutdowns = []\<rparr>"

definition first_counters :: counters where
  "first_counters = \<lparr>next_pane_id = 1, next_terminal_id = 1, next_workspace_id = 1\<rparr>"

definition second_counters :: counters where
  "second_counters = \<lparr>next_pane_id = 2, next_terminal_id = 2, next_workspace_id = 2\<rparr>"

definition clock :: nat where
  "clock = 16 ^ 12"

definition one_workspace :: workspace where
  "one_workspace = \<lparr>ws_id = CHR ''w'' # encode_public_number 1, ws_custom_name = None, ws_identity_cwd = ''/'',
     ws_cached_git_branch = None, ws_cached_git_ahead_behind = None, ws_cached_git_space = None,
     ws_worktree_space = None, ws_metadata_tokens = [], ws_metadata_token_sequences = [],
     ws_public_pane_numbers = [(1, 1)], ws_next_public_pane_number = 2, ws_next_public_tab_number = 2,
     ws_tabs = [mark_panes_seen \<lparr>tab_custom_name = None, tab_number = 1, tab_root_pane = 1,
       tab_layout = \<lparr>tl_root = Pane 1, tl_focus = 1\<rparr>,
       tab_panes = [(1, new_pane_state (terminal_id_text clock 1))], tab_zoomed = False\<rparr>],
     ws_active_tab = 0\<rparr>"

definition one_app :: "unit app_state" where
  "one_app = empty_app\<lparr>as_workspaces := [one_workspace], as_active := Some 0, as_mode := ModeTerminal,
     as_terminals := [(terminal_id_text clock 1, launched_terminal (terminal_id_text clock 1) ''/'' (argv_start None))],
     as_session_dirty := True\<rparr>"

lemma empty_reach: "session_reach {plain_env} empty_app first_counters"
  by (rule session_reach.start) (simp add: empty_session_def empty_app_def first_counters_def)

lemma empty_room: "room clock first_counters empty_app"
  by (simp add: room_def empty_app_def first_counters_def current_clock_def clock_def)

lemma served_one:
  "create_workspace_with_launch_env (en_git_branch plain_env) (en_spawn plain_env) clock ''/'' True [] empty_app
     first_counters = (Inr 0, one_app, second_counters)"
  by (simp add: plain_env_def create_workspace_with_launch_env_def new_with_tab_def new_tab_def new_layout_def alloc_def
      alloc_terminal_id_def generate_workspace_id_def first_counters_def Let_def empty_app_def add_terminal_def
      remove_alias_shadowed_by_new_pane_def)
    (simp add: one_app_def one_workspace_def empty_app_def second_counters_def
      switch_workspace_def Let_def current_pane_focus_target_def nth_ws_def modify_ws_def switch_tab_def
      sync_selection_after_focus_navigation_def record_pane_focus_after_navigation_def mark_session_dirty_def
      focused_pane_id_def active_tab_def nth_tab_def clear_selection_def)

lemma one_reach: "session_reach {plain_env} one_app second_counters"
proof -
  let ?q = "WorkspaceCreate ''/'' True None []"
  have "serve plain_env clock ?q empty_app first_counters \<noteq> Panic"
    using serve_good [OF reach_kept [OF empty_reach] empty_room, of plain_env ?q] by auto
  then have "serve plain_env clock ?q empty_app first_counters = Return (None, one_app, second_counters)"
    using served_one
    by (simp add: reply_drawn_def handle_workspace_create_def error_of_def Let_def split: if_splits)
  then show ?thesis by (rule session_reach.request [OF empty_reach singletonI empty_room])
qed

lemma one_room: "room clock second_counters one_app"
  by (simp add: room_def one_app_def one_workspace_def second_counters_def current_clock_def clock_def numbers_left_def)

lemma one_simps: "as_workspaces one_app = [one_workspace]" "as_active one_app = Some 0" "as_selected one_app = 0"
  "ws_ids one_workspace = [1]" "length (ws_tabs one_workspace) = 1"
  "tab_ids (ws_tabs one_workspace ! 0) = [1]"
  by (simp_all add: one_app_def empty_app_def one_workspace_def ws_ids_of mark_panes_seen_def tab_ids_def)

section \<open>Every state is well formed\<close>




section \<open>The request that panics\<close>

text \<open>C4: In every state of such a run, while identifiers are left, every modelled request is answered or refused with an
  error code, except one: moving a pane, whose tab is not zoomed, to a new tab of a workspace that is given by a
  position past the end panics.\<close>

theorem request_panics_iff:
  assumes "session_reach E s c" and "room m c s"
  shows "serve e m q s c = Panic \<longleftrightarrow> out_of_range q s"
  using serve_good [OF reach_kept [OF assms(1)] assms(2), of e q] by auto

theorem request_panics_iff_witness:
  "serve plain_env clock (PaneClose ''w1:p1'') one_app second_counters \<noteq> Panic"
  using request_panics_iff [OF one_reach one_room, of plain_env "PaneClose ''w1:p1''"] by simp

section \<open>Moving a pane\<close>



section \<open>Names\<close>

text \<open>C11: In every state of such a run the name the server gives to a workspace, a tab or a pane is read back as that
  workspace, tab or pane - also after panes have moved and left aliases behind.\<close>

theorem names_read_back:
  assumes "session_reach E s c" and i: "i < length (as_workspaces s)"
    and k: "k < length (ws_tabs (as_workspaces s ! i))" and p: "p \<in> set (tab_ids (ws_tabs (as_workspaces s ! i) ! k))"
  shows "\<exists>w t x. public_workspace_id s i = Return w \<and> parse_workspace_id s w = Some i \<and>
    public_tab_id s i k = Some t \<and> parse_tab_id s t = Some (i, k) \<and>
    public_pane_id s i p = Some x \<and> parse_pane_id s x = Some (i, p)"
proof -
  have inv: "session_inv s c" and ok: "aliases_ok s c" using reach_kept [OF assms(1)] by (simp_all add: kept_def)
  have ids: "wss_ids c (as_workspaces s)" using session_all [OF inv] by (simp add: wss_inv_def)
  have tabs: "tabs_inv (next_pane_id c) (ws_next_public_tab_number (as_workspaces s ! i)) (ws_tabs (as_workspaces s ! i))"
    using session_ws [OF inv i] by (simp add: ws_inv_def ws_between_def)
  have mem: "p \<in> set (ws_ids (as_workspaces s ! i))" using k p by (auto simp: set_ws_ids)
  obtain x where x: "public_pane_id s i p = Some x" using pane_named [OF inv i mem] by blast
  show ?thesis
    using read_workspace_id [OF ids i] read_tab_id [OF ids i tabs k] tab_named [OF i k] x
      pane_name_read_back [OF inv ok i x] i
    by (simp add: public_workspace_id_def nth_ws_def)
qed

theorem names_read_back_witness:
  "\<exists>x. public_pane_id one_app 0 1 = Some x \<and> parse_pane_id one_app x = Some (0, 1)"
  using names_read_back [OF one_reach, of 0 0 1] by (auto simp: one_simps)

text \<open>C6: The name the server gives to a pane is never given to another pane: if a pane has it in a state of such a run
  and a pane has it in a later state of the same run, it is the same pane, whatever was closed, moved or created in
  between.\<close>

theorem names_never_reused:
  assumes "session_reach E s c" and "later E s c s' c'"
    and i: "i < length (as_workspaces s)" and x: "public_pane_id s i p = Some x"
    and j: "j < length (as_workspaces s')" and y: "public_pane_id s' j q = Some x"
  shows "q = p"
proof -
  have kept: "kept s' c'" and step: "session_step s c s' c'"
    using later_step [OF assms(2) reach_kept [OF assms(1)]] by simp_all
  have inv: "session_inv s c" and inv': "session_inv s' c'"
    using reach_inv [OF assms(1)] kept by (simp_all add: kept_def)
  obtain n where n: "(p, n) \<in> set (ws_public_pane_numbers (as_workspaces s ! i))"
    "x = public_pane_id_for_number (ws_id (as_workspaces s ! i)) n"
    using x i by (auto simp: public_pane_id_def nth_ws_def public_pane_number_def dest: map_of_SomeD)
  obtain m where m: "(q, m) \<in> set (ws_public_pane_numbers (as_workspaces s' ! j))"
    "x = public_pane_id_for_number (ws_id (as_workspaces s' ! j)) m"
    using y j by (auto simp: public_pane_id_def nth_ws_def public_pane_number_def dest: map_of_SomeD)
  have "may_denote c' (as_workspaces s') x p"
    using may_denote_evolves [OF live_name_may_denote [OF inv i n(1)]] step n(2) by (auto simp: session_step_def)
  then obtain w k where w: "0 < k" "x = public_pane_id_for_number w k"
    and only: "\<And>ws r. ws \<in> set (as_workspaces s') \<Longrightarrow> ws_id ws = w \<Longrightarrow> (r, k) \<in> set (ws_public_pane_numbers ws) \<Longrightarrow> r = p"
    unfolding may_denote_def by blast
  have "0 < m" using session_ws [OF inv' j] m(1) by (force simp: ws_inv_def ws_between_def numbered_def)
  then have "ws_id (as_workspaces s' ! j) = w \<and> m = k" using pane_name_inj m(2) w by metis
  with only [of "as_workspaces s' ! j" q] m(1) j show ?thesis by simp
qed

theorem names_never_reused_witness:
  "\<exists>x. public_pane_id one_app 0 1 = Some x \<and> (\<forall>q. public_pane_id one_app 0 q = Some x \<longrightarrow> q = 1)"
proof -
  obtain x where x: "public_pane_id one_app 0 1 = Some x"
    using pane_named [OF reach_inv [OF one_reach], of 0 1] by (auto simp: one_simps)
  have "q = 1" if "public_pane_id one_app 0 q = Some x" for q
    using names_never_reused [OF one_reach later.now, of 0 1 x 0 q] x that by (simp add: one_simps)
  with x show ?thesis by blast
qed

section \<open>Failures and closing\<close>

text \<open>C12: In every state of such a run, while identifiers are left, a split of a pane that is answered with an error -
  there is no such pane, or the process does not start - leaves the session exactly as it was; only identifiers may
  have been used up.\<close>

theorem failed_split_harmless:
  assumes "session_reach E s c" and "room m c s"
    and split: "handle_pane_split spawn m cd target wid d ratio cwd env foc s c = Return (Inl err, s', c')"
  shows "s' = s \<and> counters_le c c'"
proof -
  have inv: "session_inv s c" using reach_inv [OF assms(1)] .
  obtain a t c2 where "handle_pane_split spawn m cd target wid d ratio cwd env foc s c = Return (a, t, c2)" "session_step s c t c2"
    using pane_split_step [OF inv assms(2)] by blast
  then have le: "counters_le c c'" using split by (simp add: session_step_def)
  have "s' = s"
  proof (cases "pane_split_target s target wid")
    case (Some q)
    obtain i p where q: "q = (i, p)" by (cases q)
    show ?thesis
    proof (cases "i < length (as_workspaces s)")
      case i: True
      have "next_pane_id c \<noteq> - 1" "numbers_left (as_workspaces s ! i)" "current_clock m"
        using assms(2) i by (simp_all add: room_def list_all_length)
      from split_pane_contract [OF session_ws [OF inv i] this(1,2) fresh_terminal_ws [OF inv this(3) i],
          of spawn cd p "split_direction_to_layout d" ratio "Some cwd" env foc None]
      obtain res ws' c1 where
        run: "split_pane_with_runtime spawn m cd p (split_direction_to_layout d) ratio (Some cwd) env foc None
          (as_workspaces s ! i) c = Return (res, ws', c1)"
        and same: "res = None \<or> (\<exists>x. res = Some (Inl x)) \<Longrightarrow> ws' = as_workspaces s ! i"
      proof (elim exE conjE, goal_cases)
        case (1 res ws' c1)
        show ?case by (rule 1(1) [OF 1(2)]) (use 1(8) in \<open>auto\<close>)
      qed
      have "res = None \<or> (\<exists>x. res = Some (Inl x))"
      proof (cases res)
        case (Some y)
        show ?thesis
        proof (cases y)
          case (Inr z)
          with split \<open>pane_split_target s target wid = Some q\<close> q i run Some show ?thesis
            by (cases z) (simp add: handle_pane_split_def nth_ws_def Let_def split: if_splits)
        qed (simp add: Some)
      qed simp
      then show ?thesis using split Some q i run same
        by (auto simp: handle_pane_split_def nth_ws_def Let_def)
    qed (use split Some q in \<open>simp add: handle_pane_split_def nth_ws_def Let_def\<close>)
  qed (use split in \<open>simp add: handle_pane_split_def\<close>)
  with le show ?thesis by simp
qed

theorem failed_split_harmless_witness:
  "handle_pane_split (\<lambda>_ _ _ _. Inl ()) clock None None None SplitRight None ''/'' [] True empty_app first_counters =
     Return (Inl ''pane_not_found'', empty_app, first_counters) \<and> counters_le first_counters first_counters"
proof -
  have run: "handle_pane_split (\<lambda>_ _ _ _. Inl ()) clock None None None SplitRight None ''/'' [] True empty_app
      first_counters = Return (Inl ''pane_not_found'', empty_app, first_counters)"
    by (simp add: handle_pane_split_def pane_split_target_def empty_app_def)
  from failed_split_harmless [OF empty_reach empty_room this] run show ?thesis by simp
qed

text \<open>C13: When the only pane of a workspace ends, in a state of such a run, the workspace goes, and the active position is
  only cut back to the last workspace.  It does not move down with the workspaces behind the closed one: a session
  that was showing the workspace at position 1 of three shows, after the pane of the workspace at position 0 has
  ended, the workspace that was at position 2.\<close>

theorem pane_died_focus:
  assumes "session_reach E s c" and i: "i < length (as_workspaces s)" and only: "ws_ids (as_workspaces s ! i) = [p]"
  shows "\<exists>s'. handle_pane_died p s = Return s' \<and> as_workspaces s' = remove_nth i (as_workspaces s) \<and>
    as_active s' = (if length (as_workspaces s) = 1 then None
      else map_option (\<lambda>active. min active (length (as_workspaces s) - 2)) (as_active s))"
proof -
  have inv: "session_inv s c" using reach_inv [OF assms(1)] .
  let ?P = "\<lambda>ws. find_tab_index_for_pane ws p \<noteq> None"
  have "?P (as_workspaces s ! i)" using find_tab_exists [of p "as_workspaces s ! i"] only by auto
  then obtain k where k: "position ?P (as_workspaces s) = Some k"
    using i by (cases "position ?P (as_workspaces s)") (auto simp: position_None)
  have "k = i" using find_pane_position [OF k] pane_in_one_workspace [OF inv i] only by simp
  with k pane_died_contract [OF inv, of p] only obtain s' where s': "handle_pane_died p s = Return s'"
    "as_workspaces s' = remove_nth i (as_workspaces s)"
    "as_active s' = (if remove_nth i (as_workspaces s) = [] then None
      else map_option (clamp_focus (length (remove_nth i (as_workspaces s)))) (as_active s))"
    by (auto simp: closed_with_pane_def)
  have len: "length (remove_nth i (as_workspaces s)) = length (as_workspaces s) - 1" using i by (rule length_remove_nth)
  then have "remove_nth i (as_workspaces s) = [] \<longleftrightarrow> length (as_workspaces s) = 1" using i by (cases "as_workspaces s") auto
  moreover have "clamp_focus (length (as_workspaces s) - 1) = (\<lambda>active. min active (length (as_workspaces s) - 2))"
    if "length (as_workspaces s) \<noteq> 1" using that i by (auto simp: clamp_focus_def min_def fun_eq_iff)
  ultimately show ?thesis using s' len by auto
qed

theorem pane_died_focus_witness:
  "\<exists>s'. handle_pane_died 1 one_app = Return s' \<and> as_workspaces s' = [] \<and> as_active s' = None"
  using pane_died_focus [OF one_reach, of 0 1] by (simp add: one_simps remove_nth_def)

section \<open>Tabs\<close>

text \<open>C14: In a workspace of such a run, moving a tab to another position permutes the tabs, puts the moved tab where it was
  asked to go (positions past the end mean the last), gives no pane another number, and the tab that was active stays
  active.  When it is refused nothing changes.\<close>

theorem move_tab_keeps_active:
  assumes "session_reach E s c" and "i < length (as_workspaces s)"
    and "move_tab (as_workspaces s ! i) k j = (ws', moved)"
  shows "mset (ws_tabs ws') = mset (ws_tabs (as_workspaces s ! i)) \<and>
    active_tab ws' = active_tab (as_workspaces s ! i) \<and>
    ws_public_pane_numbers ws' = ws_public_pane_numbers (as_workspaces s ! i) \<and>
    (if moved
     then ws_tabs ws' ! min (if k < j then j - 1 else j) (length (ws_tabs ws') - 1) = ws_tabs (as_workspaces s ! i) ! k
     else ws' = as_workspaces s ! i)"
  using move_tab_contract [OF session_ws [OF reach_inv [OF assms(1)] assms(2)], of k j] assms(3)
  by (auto dest: mset_eq_length)

theorem move_tab_keeps_active_witness:
  "active_tab (fst (move_tab one_workspace 0 1)) = active_tab one_workspace"
  using move_tab_keeps_active [OF one_reach, of 0 0 1] by (cases "move_tab one_workspace 0 1") (simp add: one_simps)

section \<open>What a workspace shows of its agents\<close>




section \<open>The numerals of names\<close>

text \<open>C40: The numeral of a number is read back as the number, and nothing else is read as it; the empty numeral is
  read as 0, whose own numeral is read as another number.\<close>

theorem public_number_round_trip:
  "(decode_public_number x = Some v) = (if v = 0 then x = [] else x = encode_public_number v)"
  using decode_public_iff [of x v] by auto

text \<open>The loop that writes a number ends after at most thirteen rounds, with nothing left to write.\<close>

lemma numeral_loop_ends:
  "length (encoded_digits v) \<le> 13 \<and> ((\<lambda>w. (w - 1) div 32) ^^ length (encoded_digits v)) v = 0"
proof -
  have "length (encoded_digits w) \<le> k" if "unat w < 32 ^ k" for w :: usize and k
    using that
  proof (induction w arbitrary: k rule: encoded_digits.induct)
    case (1 w)
    show ?case
    proof (cases "w = 0")
      case False
      then have "0 < unat w" by (simp add: unat_gt_0)
      then have "k \<noteq> 0" using 1(2) by (intro notI) simp
      then obtain n where k: "k = Suc n" by (cases k) auto
      have "unat ((w - 1) div 32) < 32 ^ n"
        using 1(2) unat_minus_one_less [OF False] by (simp add: k unat_div div_less_iff_less_mult mult.commute)
      from 1(1) [OF False this] show ?thesis by (simp add: encoded_digits.simps [of w] False k)
    qed (simp add: encoded_digits.simps)
  qed
  moreover have "unat v < 32 ^ 13"
  proof -
    have "unat v < 2 ^ LENGTH(64)" by (rule unsigned_less)
    also have "\<dots> \<le> 32 ^ 13" by simp
    finally show ?thesis .
  qed
  ultimately have "length (encoded_digits v) \<le> 13" by blast
  moreover have "((\<lambda>w. (w - 1) div 32) ^^ length (encoded_digits w)) w = 0" for w :: usize
  proof (induction w rule: encoded_digits.induct)
    case (1 w)
    show ?case
    proof (cases "w = 0")
      case True
      moreover have "encoded_digits 0 = []" by (simp add: encoded_digits_Nil)
      ultimately show ?thesis by simp
    next
      case False
      then show ?thesis using 1 [OF False]
        by (simp add: encoded_digits.simps [of w] funpow_Suc_right del: funpow.simps)
    qed
  qed
  ultimately show ?thesis by blast
qed

end
