(* ===== verification/Spec2Isabelle.thy ===== *)
theory Spec2Isabelle
  imports SeqGate LayoutProps SessionProps TerminalProps SelectionProps RawReplyProps ManifestUpdateProps
    WorkspaceProps
begin

text \<open>
  A verification library of a terminal workspace manager for coding agents, written in Rust under \<open>src/src\<close>.

  \<^bold>\<open>The program.\<close>  A server owns terminals, each running a shell or a coding agent.  A terminal is shown by a pane; the
  panes of a tab tile its area; tabs belong to workspaces, and the application state holds the workspaces with the
  active one.  Clients send requests over a socket and name workspaces, tabs and panes by short public identifiers.
  What an agent is doing - working, idle, waiting for an answer - is decided per terminal, from reports of hooks
  inside the agent and from rules (\<open>manifests\<close>, updated from a catalog) that are matched against the screen.  Keys
  and mouse events arrive as bytes of the host terminal, are cut into events, and are encoded again for the program
  in the pane.

  \<^bold>\<open>Where each part is modelled.\<close>
    \<^item> Shared ground: \<open>Prelude\<close> (machine words, options, vectors, hash maps as association lists), \<open>Results\<close>,
      \<open>RustText\<close>, \<open>RustChars\<close>, \<open>Utf8\<close>, \<open>StrLines\<close> (the standard library the code uses, on byte strings),
      \<open>F32\<close> (binary32 arithmetic).
    \<^item> Layout, \<open>layout.rs\<close>: \<open>Layout\<close>; its specification as a list of panes in \<open>LayoutTree\<close>, the invariant of its
      operations in \<open>LayoutOps\<close>, the rectangles in \<open>LayoutGeometry\<close>, properties in \<open>LayoutProps\<close>.
    \<^item> Agents and terminals, \<open>detect/mod.rs\<close>, \<open>agent_resume.rs\<close>, \<open>metadata_tokens.rs\<close>, \<open>terminal/\<close>: \<open>Detect\<close>,
      \<open>AgentResume\<close>, \<open>MetadataTokens\<close>, \<open>Terminal\<close> (the record and what is shown of it), \<open>TerminalOps\<close>,
      \<open>TerminalMetadata\<close>; proofs in \<open>TerminalInv\<close>, \<open>TerminalContract\<close>, \<open>TerminalSafety\<close> (the state machine of the
      calls), \<open>TerminalSilence\<close> (how long a source stays silenced), \<open>TerminalPresentation\<close>, properties in \<open>TerminalProps\<close> and \<open>SessionProps\<close>.
    \<^item> Screen detection, \<open>detect/manifest.rs\<close>, \<open>detect/manifest_update.rs\<close>: \<open>ManifestRegions\<close>, \<open>ManifestRules\<close>,
      \<open>ManifestEngine\<close>, \<open>ManifestVersions\<close>, \<open>ManifestFiles\<close>, \<open>ManifestUpdate\<close>; specifications in
      \<open>ManifestRegionSpec\<close> (regions as lists of lines) and \<open>ManifestValid\<close> (validation without counters), properties
      in \<open>ManifestProps\<close>, \<open>ManifestLoadProps\<close>, \<open>ManifestUpdateProps\<close>.
    \<^item> Input, \<open>input/\<close>, \<open>raw_input.rs\<close>, \<open>terminal_theme.rs\<close>: \<open>KeyModel\<close>, \<open>KeyParse\<close>, \<open>KeyEncode\<close>, \<open>TerminalTheme\<close>,
      \<open>RawInput\<close> (one event), \<open>RawFramer\<close> (the stateful framer); proofs in \<open>RawStream\<close> and \<open>KeyProps\<close>, properties in
      \<open>RawProps\<close> and \<open>RawReplyProps\<close>.
    \<^item> Selection, \<open>selection.rs\<close>: \<open>Selection\<close>, \<open>SelectionProps\<close>.
    \<^item> Workspaces, \<open>workspace.rs\<close>, \<open>workspace/\<close>, \<open>terminal/id.rs\<close>: \<open>PublicIds\<close> (base-32 handles and the process-wide
      counters), \<open>Tabs\<close>, \<open>Workspaces\<close>, \<open>WorkspaceAggregate\<close>; the contract of every operation in \<open>TabInv\<close>,
      \<open>WorkspaceInv\<close>, \<open>WorkspaceContract\<close>, \<open>WorkspaceMoves\<close>, \<open>WorkspacePanes\<close>.
    \<^item> The session, \<open>app/state.rs\<close>, \<open>app/actions.rs\<close>, \<open>app/ids.rs\<close>, \<open>app/creation.rs\<close>, \<open>app/api/\<close>: \<open>AppState\<close>,
      \<open>AppIds\<close>, \<open>PaneMoves\<close> (handlers that create, close and move), \<open>PaneHandlers\<close> (handlers that focus, rename,
      resize, swap and zoom); proofs in \<open>SessionInv\<close>, \<open>SessionOps\<close>, \<open>SessionClose\<close>, \<open>AppNames\<close>, \<open>SessionSteps\<close>,
      \<open>SessionApi\<close>, \<open>SessionClosing\<close>, \<open>SessionPaneMove\<close>, \<open>SessionPlace\<close>, \<open>SessionMove\<close>, \<open>SessionNames\<close>,
      \<open>SessionRequests\<close>, \<open>SessionAliases\<close>; the requests and the reachable sessions in \<open>SessionServe\<close>, properties in
      \<open>WorkspaceProps\<close>.

  \<^bold>\<open>How code becomes definitions.\<close>  A struct is a record, an enum a datatype, a fixed-width integer a word (additions
  wrap where the release build wraps, checked and saturating operations are spelled out).  \<open>usize\<close> is a 64-bit word
  where it is counted or parsed, and a natural number where it indexes a vector.  A \<open>String\<close> is its bytes.  A
  \<open>HashMap\<close> is an association list in iteration order; \<open>AList\<close> gives its updates.  A method on \<open>&mut self\<close> returns the
  changed record.  \<open>Result\<close> is a sum with the error on the left; a function that can panic returns an \<open>outcome\<close>,
  whose \<open>Panic\<close> is an index out of range, a slice inside a character or an \<open>unwrap\<close> of nothing.  Clocks and the global
  counters \<open>NEXT_PANE_ID\<close>, \<open>NEXT_TERMINAL_ID\<close> and \<open>NEXT_WORKSPACE_ID\<close> are arguments that are handed on.

  \<^bold>\<open>Interfaces.\<close>  Each is a locale whose laws the model's own definitions are shown to satisfy.
    \<^item> \<open>rect_splitter\<close> and \<open>tree_tiling\<close> (\<open>LayoutGeometry\<close>): from the split of one rectangle to the tiling of an area.
    \<^item> \<open>terminal_operation\<close> (\<open>TerminalContract\<close>): what the server may rely on after any operation of a terminal,
      interpreted on seven operations and once on the state machine over all of them.
    \<^item> \<open>silence\<close> (\<open>TerminalSilence\<close>): a guard that refuses the hook reports of an owner and that quiet calls keep,
      interpreted on the record of an exit and on the list of replaced sessions.
    \<^item> \<open>sequence_gate\<close> (\<open>SeqGate\<close>): reports of a source are accepted in increasing order, interpreted on the gates of
      hooks, metadata and tokens.
    \<^item> \<open>stream_extractor\<close> (\<open>RawStream\<close>): an extractor that takes the same prefix however much of the stream has
      arrived, interpreted on the extraction of one event.
    \<^item> \<open>state_machine\<close> (\<open>SessionServe\<close>): what holds of a run from what holds of a step, interpreted on the requests.

  \<^bold>\<open>What the lemmas show.\<close>  \<open>layout_inv\<close>, \<open>term_inv\<close>, \<open>tab_inv\<close>, \<open>ws_inv\<close> and \<open>session_inv\<close> are inductive
  invariants.  \<open>term_inv\<close> is kept by calls that carry any time before the present, because detections wait in a queue
  while hooks report.  \<open>tab_inv\<close> ties the map of panes to the layout tree, \<open>ws_inv\<close> adds the public numbers, \<open>session_inv\<close>
  adds distinct identifiers, the focus, and that the terminals kept are the terminals shown.  While a pane is moved
  the weaker \<open>ws_between\<close>, \<open>in_hand\<close> and \<open>carried\<close> hold, until \<open>placed\<close> restores the invariant.  \<open>evolves\<close> says that
  a public number is given out once; with \<open>may_denote\<close> it gives that a name never comes to mean another pane.  A
  \<open>session_step\<close> is a change that keeps all of this; every handler is one, and \<open>serve_good\<close> joins them.  The functions of
  the layout, of validation and of the regions are refinements of specifications on lists; the parsers and encoders
  are inverse to each other; the loops terminate by the measures given with their definitions.

  \<^bold>\<open>Bounds.\<close>  No definition needs fuel.  \<open>room\<close> states when another identifier can be drawn: no counter is at its last
  value (2^32 panes, 2^64 terminals and workspaces, 2^64 numbers per workspace), and the clock lies between the years
  1978 and 2112, so that its hexadecimal form always has thirteen digits and terminal identifiers differ.  A \<open>u64\<close>
  takes at most thirteen base-32 digits.  \<open>f32\<close> values are exact multiples of the smallest subnormal number.

  \<^bold>\<open>Parameters.\<close>  Code that is not part of the repository is an argument: the regular expressions and the lower-casing
  of Unicode text, the TOML parser, base64, \<open>curl\<close> and each system call of the updates, the start of a process
  (\<open>spawner\<close>, which may fail), and the readers of git.  Hypotheses about them are named where they are used.

  \<^bold>\<open>Not modelled.\<close>  Threads, sockets and timers (\<open>server/\<close>, \<open>client/\<close>, \<open>app/mod.rs\<close>, \<open>pty/\<close>, the runtimes of panes):
  the code there moves bytes between the operating system and the operations above.  The terminal emulator is vendored
  code behind a foreign function interface.  Drawing (\<open>ui/\<close>) and the fields of the application state that only place
  things on the screen.  The serde schemas of the socket API, the snapshots in its answers and the events it sends.
  Of the handlers, the lists and reports and those that send text or read the screen; of the application state the
  dialogs, notifications and settings.  Configuration, projects, persistence, integrations, worktrees, plugins, remote
  connections, the command line and image protocols: file, process and network code, and data models for serde.
\<close>

end
